(* ===== verification/Py_Prelude.thy ===== *)
theory Py_Prelude
  imports Complex_Main "HOL-Library.List_Lexorder" "HOL-Library.Sublist"
begin

text \<open>
  The part of the Python language the sources rely on, shared by every component.

  A Python \<open>str\<close> is a list of code points (\<open>pystr\<close>); \<open>lit ''abc''\<close> is an ASCII
  literal. Values a document may hold are \<open>pyval\<close>; a mapping whose keys have been checked to be
  strings is a \<open>pydict\<close>, an association list in insertion order. An exception is a value of
  \<open>pyexc\<close>, a fallible pure function returns \<open>pyexc + 'a\<close> and is sequenced with \<open>rbind\<close>; an
  effectful function takes the world and returns the outcome together with the world it leaves
  behind (\<open>io\<close>), also when it raises.
\<close>

named_theorems io_keeps \<open>rules for the properties of the world that an effectful function keeps\<close>
named_theorems res_iff \<open>inversion rules of the result monad\<close>
named_theorems io_eval \<open>evaluation rules of the world-passing monad\<close>

section \<open>Strings\<close>

type_synonym pystr = "nat list"

definition lit :: "string \<Rightarrow> pystr" where
  "lit s = map of_char s"

lemma lit_eq_iff [simp]: "lit s = lit t \<longleftrightarrow> s = t"
  by (simp add: lit_def inj_map_eq_map inj_of_char)

lemma lit_Nil [simp]: "lit s = [] \<longleftrightarrow> s = []" "[] = lit s \<longleftrightarrow> s = []"
  by (auto simp: lit_def)

lemma lit_append: "lit (s @ t) = lit s @ lit t"
  by (simp add: lit_def)

lemma length_lit [simp]: "length (lit s) = length s"
  by (simp add: lit_def)

text \<open>\<open>sep.join(xs)\<close>\<close>

fun str_join :: "pystr \<Rightarrow> pystr list \<Rightarrow> pystr" where
  "str_join sep [] = []"
| "str_join sep [x] = x"
| "str_join sep (x # xs) = x @ sep @ str_join sep xs"

text \<open>Decimal digits: \<open>str(n)\<close> for a natural number, and \<open>int(s)\<close> for a string of digits.\<close>

definition is_digit :: "nat \<Rightarrow> bool" where
  "is_digit c \<longleftrightarrow> 48 \<le> c \<and> c \<le> 57"

fun str_nat :: "nat \<Rightarrow> pystr" where
  "str_nat n = (if n < 10 then [48 + n] else str_nat (n div 10) @ [48 + n mod 10])"

declare str_nat.simps [simp del]

definition str_int :: "int \<Rightarrow> pystr" where
  "str_int n = (if n < 0 then 45 # str_nat (nat (- n)) else str_nat (nat n))"

definition digits_value :: "pystr \<Rightarrow> nat" where
  "digits_value ds = foldl (\<lambda>acc c. acc * 10 + (c - 48)) 0 ds"

text \<open>A canonical decimal numeral: \<open>0\<close> or no leading zero.\<close>

definition canonical_digits :: "pystr \<Rightarrow> bool" where
  "canonical_digits ds \<longleftrightarrow> ds \<noteq> [] \<and> (\<forall>c \<in> set ds. is_digit c) \<and> (ds = [48] \<or> hd ds \<noteq> 48)"

lemma str_nat_digits: "\<forall>c \<in> set (str_nat n). is_digit c"
proof (induction n rule: str_nat.induct)
  case (1 n)
  then show ?case
    by (cases "n < 10") (auto simp: str_nat.simps [of n] is_digit_def)
qed

lemma str_nat_not_Nil [simp]: "str_nat n \<noteq> []"
  by (subst str_nat.simps) simp

lemma str_nat_hd: "n \<noteq> 0 \<Longrightarrow> hd (str_nat n) \<noteq> 48"
proof (induction n rule: str_nat.induct)
  case (1 n)
  show ?case
  proof (cases "n < 10")
    case True
    with 1 show ?thesis by (simp add: str_nat.simps [of n])
  next
    case False
    with 1 show ?thesis by (simp add: str_nat.simps [of n])
  qed
qed

lemma digits_value_snoc [simp]: "digits_value (ds @ [c]) = digits_value ds * 10 + (c - 48)"
  by (simp add: digits_value_def)

lemma digits_value_str_nat [simp]: "digits_value (str_nat n) = n"
proof (induction n rule: str_nat.induct)
  case (1 n)
  show ?case
  proof (cases "n < 10")
    case True
    then show ?thesis by (simp add: str_nat.simps [of n] digits_value_def)
  next
    case False
    with 1 show ?thesis by (simp add: str_nat.simps [of n])
  qed
qed

lemma str_nat_inj [simp]: "str_nat m = str_nat n \<longleftrightarrow> m = n"
  by (metis digits_value_str_nat)

lemma canonical_str_nat: "canonical_digits (str_nat n)"
proof (cases "n = 0")
  case True
  then show ?thesis by (simp add: canonical_digits_def str_nat.simps is_digit_def)
next
  case False
  then show ?thesis by (simp add: canonical_digits_def str_nat_digits str_nat_hd)
qed

lemma length_str_nat: "n < 10 ^ Suc k \<Longrightarrow> length (str_nat n) \<le> Suc k"
proof (induction k arbitrary: n)
  case 0
  then show ?case by (simp add: str_nat.simps)
next
  case (Suc k)
  show ?case
  proof (cases "n < 10")
    case True
    then show ?thesis by (simp add: str_nat.simps)
  next
    case False
    from Suc.prems have "n div 10 < 10 ^ Suc k" by (simp add: less_mult_imp_div_less mult.commute)
    then have "length (str_nat (n div 10)) \<le> Suc k" by (rule Suc.IH)
    with False show ?thesis by (simp add: str_nat.simps [of n])
  qed
qed

section \<open>Values and mappings\<close>

text \<open>
  A Python float is an IEEE 754 binary64 value: a finite value is the rational it denotes, the
  negative zero, the infinities and NaN are separate.
\<close>

datatype pyfloat = FFin rat | FNegZero | FInf | FNegInf | FNaN

text \<open>
  \<open>POther\<close> stands for the remaining values a YAML loader may produce (dates, bytes, sets), by the
  name of their type: the sources only ever test that they are none of the other kinds.
\<close>

datatype pyval =
    PNone
  | PBool bool
  | PInt int
  | PFloat pyfloat
  | PStr pystr
  | PList "pyval list"
  | PDict "(pyval \<times> pyval) list"
  | POther pystr

type_synonym pydict = "(pystr \<times> pyval) list"

definition dkeys :: "pydict \<Rightarrow> pystr list" where
  "dkeys d = map fst d"

definition dhas :: "pydict \<Rightarrow> pystr \<Rightarrow> bool" where
  "dhas d k \<longleftrightarrow> k \<in> set (dkeys d)"

text \<open>\<open>d.get(k)\<close>, \<open>d.get(k, default)\<close> and \<open>d[k] = v\<close>.\<close>

definition dget :: "pydict \<Rightarrow> pystr \<Rightarrow> pyval" where
  "dget d k = (case map_of d k of None \<Rightarrow> PNone | Some v \<Rightarrow> v)"

definition dget_default :: "pydict \<Rightarrow> pystr \<Rightarrow> pyval \<Rightarrow> pyval" where
  "dget_default d k x = (case map_of d k of None \<Rightarrow> x | Some v \<Rightarrow> v)"

fun dset :: "pydict \<Rightarrow> pystr \<Rightarrow> pyval \<Rightarrow> pydict" where
  "dset [] k v = [(k, v)]"
| "dset ((k', v') # d) k v = (if k' = k then (k, v) # d else (k', v') # dset d k v)"

definition pydict_val :: "pydict \<Rightarrow> pyval" where
  "pydict_val d = PDict (map (\<lambda>(k, v). (PStr k, v)) d)"

lemma dhas_iff: "dhas d k \<longleftrightarrow> map_of d k \<noteq> None"
  by (auto simp: dhas_def dkeys_def map_of_eq_None_iff)

lemma dget_Nil [simp]: "dget [] k = PNone"
  by (simp add: dget_def)

lemma dget_Cons [simp]: "dget ((k', v) # d) k = (if k' = k then v else dget d k)"
  by (simp add: dget_def)

lemma dhas_Nil [simp]: "\<not> dhas [] k"
  by (simp add: dhas_def dkeys_def)

lemma dhas_Cons [simp]: "dhas ((k', v) # d) k \<longleftrightarrow> k' = k \<or> dhas d k"
  by (auto simp: dhas_def dkeys_def)

lemma dget_dset: "dget (dset d k v) k' = (if k' = k then v else dget d k')"
  by (induction d k v rule: dset.induct) auto

lemma dkeys_dset: "dkeys (dset d k v) = (if dhas d k then dkeys d else dkeys d @ [k])"
  by (induction d k v rule: dset.induct) (auto simp: dkeys_def)

lemma dset_fresh: "\<not> dhas d k \<Longrightarrow> dset d k v = d @ [(k, v)]"
  by (induction d k v rule: dset.induct) auto

lemma dget_not_dhas: "\<not> dhas d k \<Longrightarrow> dget d k = PNone"
  by (simp add: dhas_iff dget_def)

fun is_str :: "pyval \<Rightarrow> bool" where
  "is_str (PStr s) = True"
| "is_str _ = False"

fun the_str :: "pyval \<Rightarrow> pystr" where
  "the_str (PStr s) = s"
| "the_str _ = []"

lemma is_str_iff: "is_str v \<longleftrightarrow> (\<exists>s. v = PStr s)"
  by (cases v) auto

section \<open>Exceptions\<close>

text \<open>
  The exception classes the sources define and those they let pass. \<open>OSError\<close> carries the name of
  its class (\<open>FileNotFoundError\<close>, \<open>PermissionError\<close>, ...), its \<open>strerror\<close> and its text;
  \<open>OtherError\<close> is any other subclass of \<open>Exception\<close>, by class name and text.
\<close>

datatype pyexc =
    ScenarioError pystr pystr
  | ApplicationLogError int pystr
  | RunnerError pystr
  | EventDispatchError nat pystr pyexc
  | ApplicationTimeoutError "pystr list" int
  | OSError pystr "pystr option" pystr
  | InterruptedError
  | ProcessLookupError
  | ValueError pystr
  | TypeError pystr
  | KeyError pystr
  | IndexError pystr
  | OverflowError pystr
  | StructError pystr
  | UnicodeEncodeError
  | UnicodeDecodeError
  | YAMLError pystr
  | JSONDecodeError
  | AssertionError
  | RuntimeError pystr
  | OtherError pystr pystr
  | KeyboardInterrupt

text \<open>
  \<open>int\<close> of a decimal text of more than 4300 digits (the default of \<open>sys.set_int_max_str_digits\<close>); the text of the
  exception goes on with the number of digits.
\<close>

abbreviation digit_limit_error :: pyexc where
  "digit_limit_error \<equiv> ValueError (lit ''Exceeds the limit (4300 digits) for integer string conversion'')"

text \<open>The texts of the exception classes the sources define.\<close>

definition ScenarioError_str :: "pystr \<Rightarrow> pystr \<Rightarrow> pystr" where
  "ScenarioError_str path message = path @ lit '': '' @ message"

definition ApplicationLogError_str :: "int \<Rightarrow> pystr \<Rightarrow> pystr" where
  "ApplicationLogError_str line message = lit ''stdout['' @ str_int line @ lit '']: '' @ message"

definition EventDispatchError_str :: "nat \<Rightarrow> pystr \<Rightarrow> pystr \<Rightarrow> pystr" where
  "EventDispatchError_str index action cause =
     lit ''event '' @ str_nat index @ lit '' ('' @ action @ lit '') failed: '' @ cause"

definition ApplicationTimeoutError_str :: "int \<Rightarrow> pystr" where
  "ApplicationTimeoutError_str timeout_ms =
     lit ''application exceeded timeout of '' @ str_int timeout_ms @ lit ''ms''"

text \<open>\<open>str(error)\<close> and \<open>type(error).__name__\<close>\<close>

fun exc_str :: "pyexc \<Rightarrow> pystr" where
  "exc_str (ScenarioError path message) = ScenarioError_str path message"
| "exc_str (ApplicationLogError line message) = ApplicationLogError_str line message"
| "exc_str (RunnerError message) = message"
| "exc_str (EventDispatchError index action cause) =
     EventDispatchError_str index action (exc_str cause)"
| "exc_str (ApplicationTimeoutError command timeout_ms) = ApplicationTimeoutError_str timeout_ms"
| "exc_str (OSError cls strerror text) = text"
| "exc_str InterruptedError = lit ''[Errno 4] Interrupted system call''"
| "exc_str ProcessLookupError = lit ''[Errno 3] No such process''"
| "exc_str (ValueError message) = message"
| "exc_str (TypeError message) = message"
| "exc_str (KeyError key) = key"
| "exc_str (IndexError message) = message"
| "exc_str (OverflowError message) = message"
| "exc_str (StructError message) = message"
| "exc_str UnicodeEncodeError = lit ''codec can't encode''"
| "exc_str UnicodeDecodeError = lit ''codec can't decode''"
| "exc_str (YAMLError message) = message"
| "exc_str JSONDecodeError = lit ''invalid JSON document''"
| "exc_str AssertionError = []"
| "exc_str (RuntimeError message) = message"
| "exc_str (OtherError cls message) = message"
| "exc_str KeyboardInterrupt = []"

fun exc_name :: "pyexc \<Rightarrow> pystr" where
  "exc_name (ScenarioError _ _) = lit ''ScenarioError''"
| "exc_name (ApplicationLogError _ _) = lit ''ApplicationLogError''"
| "exc_name (RunnerError _) = lit ''RunnerError''"
| "exc_name (EventDispatchError _ _ _) = lit ''EventDispatchError''"
| "exc_name (ApplicationTimeoutError _ _) = lit ''ApplicationTimeoutError''"
| "exc_name (OSError cls _ _) = cls"
| "exc_name InterruptedError = lit ''InterruptedError''"
| "exc_name ProcessLookupError = lit ''ProcessLookupError''"
| "exc_name (ValueError _) = lit ''ValueError''"
| "exc_name (TypeError _) = lit ''TypeError''"
| "exc_name (KeyError _) = lit ''KeyError''"
| "exc_name (IndexError _) = lit ''IndexError''"
| "exc_name (OverflowError _) = lit ''OverflowError''"
| "exc_name (StructError _) = lit ''error''"
| "exc_name UnicodeEncodeError = lit ''UnicodeEncodeError''"
| "exc_name UnicodeDecodeError = lit ''UnicodeDecodeError''"
| "exc_name (YAMLError _) = lit ''YAMLError''"
| "exc_name JSONDecodeError = lit ''JSONDecodeError''"
| "exc_name AssertionError = lit ''AssertionError''"
| "exc_name (RuntimeError _) = lit ''RuntimeError''"
| "exc_name (OtherError cls _) = cls"
| "exc_name KeyboardInterrupt = lit ''KeyboardInterrupt''"

text \<open>The handlers of the sources: \<open>except Exception\<close>, \<open>except OSError\<close>, \<open>except RunnerError\<close>.\<close>

fun is_Exception :: "pyexc \<Rightarrow> bool" where
  "is_Exception KeyboardInterrupt = False"
| "is_Exception _ = True"

fun is_OSError :: "pyexc \<Rightarrow> bool" where
  "is_OSError (OSError _ _ _) = True"
| "is_OSError InterruptedError = True"
| "is_OSError ProcessLookupError = True"
| "is_OSError _ = False"

text \<open>\<open>error.strerror\<close> of an \<open>OSError\<close>\<close>

fun os_strerror :: "pyexc \<Rightarrow> pystr option" where
  "os_strerror (OSError _ strerror _) = strerror"
| "os_strerror InterruptedError = Some (lit ''Interrupted system call'')"
| "os_strerror ProcessLookupError = Some (lit ''No such process'')"
| "os_strerror _ = None"

fun is_RunnerError :: "pyexc \<Rightarrow> bool" where
  "is_RunnerError (RunnerError _) = True"
| "is_RunnerError (EventDispatchError _ _ _) = True"
| "is_RunnerError (ApplicationTimeoutError _ _) = True"
| "is_RunnerError _ = False"

fun is_ScenarioError :: "pyexc \<Rightarrow> bool" where
  "is_ScenarioError (ScenarioError _ _) = True"
| "is_ScenarioError _ = False"

section \<open>Fallible pure functions\<close>

definition rbind :: "'e + 'a \<Rightarrow> ('a \<Rightarrow> 'e + 'b) \<Rightarrow> 'e + 'b" where
  "rbind m f = (case m of Inl e \<Rightarrow> Inl e | Inr x \<Rightarrow> f x)"

lemma rbind_simps [simp]: "rbind (Inl e) f = Inl e" "rbind (Inr x) f = f x"
  by (simp_all add: rbind_def)

lemma rbind_Inr_iff [res_iff]: "rbind m f = Inr y \<longleftrightarrow> (\<exists>x. m = Inr x \<and> f x = Inr y)"
  by (cases m) auto

lemma rbind_Inl_iff [res_iff]:
  "rbind m f = Inl e \<longleftrightarrow> m = Inl e \<or> (\<exists>x. m = Inr x \<and> f x = Inl e)"
  by (cases m) auto

lemma rbind_cong [fundef_cong]:
  "m = m' \<Longrightarrow> (\<And>x. m' = Inr x \<Longrightarrow> f x = g x) \<Longrightarrow> rbind m f = rbind m' g"
  by (cases m') auto

text \<open>For evaluation: the continuation is not simplified before its argument is known.\<close>

text \<open>\<open>d[key]\<close>; the text of a \<open>KeyError\<close> is the quoted key.\<close>

definition dindex :: "pydict \<Rightarrow> pystr \<Rightarrow> pyexc + pyval" where
  "dindex d k = (if dhas d k then Inr (dget d k) else Inl (KeyError ([39] @ k @ [39])))"

lemma rbind_dindex: "dhas d k \<Longrightarrow> rbind (dindex d k) f = f (dget d k)"
  by (simp add: dindex_def)

lemma rbind_weak_cong: "m = m' \<Longrightarrow> rbind m f = rbind m' f"
  by simp

lemma rbind_assoc: "rbind (rbind m f) g = rbind m (\<lambda>x. rbind (f x) g)"
  by (cases m) auto

text \<open>\<open>if not condition: raise error\<close>\<close>

definition ensure :: "bool \<Rightarrow> 'e \<Rightarrow> 'e + unit" where
  "ensure b e = (if b then Inr () else Inl e)"

lemma ensure_iff [res_iff]:
  "ensure b e = Inr x \<longleftrightarrow> b"
  "ensure b e = Inl e' \<longleftrightarrow> \<not> b \<and> e' = e"
  by (auto simp: ensure_def)

lemma ensure_simps [simp]: "ensure True e = Inr ()" "ensure False e = Inl e"
  by (simp_all add: ensure_def)

text \<open>A comprehension over \<open>enumerate(xs, start=n)\<close> whose body may raise.\<close>

fun traverse_from :: "nat \<Rightarrow> (nat \<Rightarrow> 'a \<Rightarrow> 'e + 'b) \<Rightarrow> 'a list \<Rightarrow> 'e + 'b list" where
  "traverse_from n f [] = Inr []"
| "traverse_from n f (x # xs) =
     rbind (f n x) (\<lambda>y. rbind (traverse_from (Suc n) f xs) (\<lambda>ys. Inr (y # ys)))"

lemma traverse_from_Inr_iff:
  "traverse_from n f xs = Inr ys \<longleftrightarrow>
     length ys = length xs \<and> (\<forall>i < length xs. f (n + i) (xs ! i) = Inr (ys ! i))"
proof (induction xs arbitrary: n ys)
  case Nil
  then show ?case by auto
next
  case (Cons x xs)
  show ?case
  proof (cases ys)
    case Nil
    then show ?thesis by (auto simp: res_iff)
  next
    case (Cons y zs)
    have "(\<forall>i < Suc (length xs). f (n + i) ((x # xs) ! i) = Inr ((y # zs) ! i)) \<longleftrightarrow>
        f n x = Inr y \<and> (\<forall>i < length xs. f (Suc n + i) (xs ! i) = Inr (zs ! i))"
      by (auto simp: All_less_Suc2)
    then show ?thesis
      using Cons.IH Cons by (auto simp: res_iff)
  qed
qed

lemma traverse_from_Inl:
  "traverse_from n f xs = Inl e \<Longrightarrow>
     \<exists>i < length xs. f (n + i) (xs ! i) = Inl e \<and> (\<forall>j < i. \<exists>y. f (n + j) (xs ! j) = Inr y)"
proof (induction xs arbitrary: n)
  case Nil
  then show ?case by simp
next
  case (Cons x xs)
  show ?case
  proof (cases "f n x")
    case (Inl e')
    with Cons.prems show ?thesis by (intro exI [of _ 0]) simp
  next
    case (Inr y)
    with Cons.prems have "traverse_from (Suc n) f xs = Inl e"
      by (auto simp: res_iff)
    from Cons.IH [OF this] obtain i where
      "i < length xs" "f (Suc n + i) (xs ! i) = Inl e"
      "\<forall>j < i. \<exists>y. f (Suc n + j) (xs ! j) = Inr y"
      by blast
    with Inr show ?thesis
      by (intro exI [of _ "Suc i"]) (auto simp: All_less_Suc2)
  qed
qed

lemma traverse_from_map:
  "(\<And>i. i < length xs \<Longrightarrow> f (n + i) (xs ! i) = Inr (g (xs ! i))) \<Longrightarrow>
     traverse_from n f xs = Inr (map g xs)"
  by (simp add: traverse_from_Inr_iff)

text \<open>A list of values that each have a preimage is the image of a list of preimages.\<close>

lemma list_preimage:
  "\<forall>x \<in> set xs. \<exists>a. P a \<and> x = f a \<Longrightarrow> \<exists>as. xs = map f as \<and> (\<forall>a \<in> set as. P a)"
proof (induction xs)
  case Nil
  then show ?case by simp
next
  case (Cons x xs)
  then obtain a as where "P a" "x = f a" "xs = map f as" "\<forall>a \<in> set as. P a" by auto
  then show ?case by (intro exI [of _ "a # as"]) simp
qed

section \<open>Effectful functions\<close>

type_synonym ('w, 'a) io = "'w \<Rightarrow> (pyexc + 'a) \<times> 'w"

definition io_return :: "'a \<Rightarrow> ('w, 'a) io" where
  "io_return x = (\<lambda>w. (Inr x, w))"

definition io_raise :: "pyexc \<Rightarrow> ('w, 'a) io" where
  "io_raise e = (\<lambda>w. (Inl e, w))"

definition io_bind :: "('w, 'a) io \<Rightarrow> ('a \<Rightarrow> ('w, 'b) io) \<Rightarrow> ('w, 'b) io" where
  "io_bind m f = (\<lambda>w. case m w of (Inl e, w') \<Rightarrow> (Inl e, w') | (Inr x, w') \<Rightarrow> f x w')"

text \<open>\<open>try: m\<close> with a handler for every exception; the handler decides by re-raising.\<close>

definition io_catch :: "('w, 'a) io \<Rightarrow> (pyexc \<Rightarrow> ('w, 'a) io) \<Rightarrow> ('w, 'a) io" where
  "io_catch m h = (\<lambda>w. case m w of (Inl e, w') \<Rightarrow> h e w' | (Inr x, w') \<Rightarrow> (Inr x, w'))"

definition io_lift :: "pyexc + 'a \<Rightarrow> ('w, 'a) io" where
  "io_lift r = (\<lambda>w. (r, w))"

lemma io_eval_basic [io_eval]:
  "io_return x w = (Inr x, w)"
  "io_raise e w = (Inl e, w)"
  "io_lift r w = (r, w)"
  by (simp_all add: io_return_def io_raise_def io_lift_def)

lemma io_bind_Inr [io_eval]: "m w = (Inr x, w') \<Longrightarrow> io_bind m f w = f x w'"
  by (simp add: io_bind_def)

lemma io_bind_Inl [io_eval]: "m w = (Inl e, w') \<Longrightarrow> io_bind m f w = (Inl e, w')"
  by (simp add: io_bind_def)

lemma io_catch_Inr [io_eval]: "m w = (Inr x, w') \<Longrightarrow> io_catch m h w = (Inr x, w')"
  by (simp add: io_catch_def)

lemma io_catch_Inl [io_eval]: "m w = (Inl e, w') \<Longrightarrow> io_catch m h w = h e w'"
  by (simp add: io_catch_def)

lemma io_bind_eq_Inr_iff [res_iff]:
  "io_bind m f w = (Inr y, w2) \<longleftrightarrow> (\<exists>x w1. m w = (Inr x, w1) \<and> f x w1 = (Inr y, w2))"
  by (auto simp: io_bind_def split: prod.splits sum.splits)

lemma io_bind_eq_Inl_iff [res_iff]:
  "io_bind m f w = (Inl e, w2) \<longleftrightarrow>
     m w = (Inl e, w2) \<or> (\<exists>x w1. m w = (Inr x, w1) \<and> f x w1 = (Inl e, w2))"
  by (auto simp: io_bind_def split: prod.splits sum.splits)

text \<open>
  An object and the rest of the world: reading the object, replacing it, and an effect on the rest.
\<close>

definition io_self :: "('x \<times> 'w, 'x) io" where
  "io_self = (\<lambda>(x, w). (Inr x, (x, w)))"

definition io_set :: "'x \<Rightarrow> ('x \<times> 'w, unit) io" where
  "io_set x = (\<lambda>(_, w). (Inr (), (x, w)))"

definition io_snd :: "('w, 'a) io \<Rightarrow> ('x \<times> 'w, 'a) io" where
  "io_snd m = (\<lambda>(x, w). case m w of (r, w') \<Rightarrow> (r, (x, w')))"

lemma io_object_eval [io_eval]:
  "io_self (x, w) = (Inr x, (x, w))"
  "io_set y (x, w) = (Inr (), (y, w))"
  "m w = (r, w') \<Longrightarrow> io_snd m (x, w) = (r, (x, w'))"
  by (simp_all add: io_self_def io_set_def io_snd_def)

lemma io_snd_eq_iff [res_iff]: "io_snd m (x, w) = (r, y) \<longleftrightarrow> fst y = x \<and> m w = (r, snd y)"
  by (cases y) (auto simp: io_snd_def split: prod.splits)

lemma io_basic_iff [res_iff]:
  "io_return x w = (r, w') \<longleftrightarrow> r = Inr x \<and> w' = w"
  "io_raise e w = (r, w') \<longleftrightarrow> r = Inl e \<and> w' = w"
  "io_lift v w = (r, w') \<longleftrightarrow> v = r \<and> w' = w"
  by (auto simp: io_return_def io_raise_def io_lift_def)

lemma io_object_iff [res_iff]:
  "io_self (x, w) = (r, y) \<longleftrightarrow> r = Inr x \<and> y = (x, w)"
  "io_set z (x, w) = (r, y) \<longleftrightarrow> r = Inr () \<and> y = (z, w)"
  by (auto simp: io_self_def io_set_def)

lemma io_catch_eq_iff [res_iff]:
  "io_catch m h w = (r, w2) \<longleftrightarrow>
     (\<exists>x. m w = (Inr x, w2) \<and> r = Inr x) \<or> (\<exists>e w1. m w = (Inl e, w1) \<and> h e w1 = (r, w2))"
  by (auto simp: io_catch_def split: prod.splits sum.splits)

text \<open>A property of the world that a program keeps, whether it returns or raises\<close>

definition keeps :: "('w \<Rightarrow> bool) \<Rightarrow> ('w, 'a) io \<Rightarrow> bool" where
  "keeps P m \<longleftrightarrow> (\<forall>w. P w \<longrightarrow> P (snd (m w)))"

lemma keepsD: "keeps P m \<Longrightarrow> P w \<Longrightarrow> m w = (r, w') \<Longrightarrow> P w'"
  by (auto simp: keeps_def dest!: spec [of _ w])

lemma keeps_basic [io_keeps]:
  "keeps P (io_return x)" "keeps P (io_raise e)" "keeps P (io_lift r)"
  by (simp_all add: keeps_def io_return_def io_raise_def io_lift_def)

lemma keeps_bind [io_keeps]: "keeps P m \<Longrightarrow> (\<And>x. keeps P (f x)) \<Longrightarrow> keeps P (io_bind m f)"
  by (fastforce simp: keeps_def io_bind_def split: prod.splits sum.splits)

lemma keeps_catch [io_keeps]: "keeps P m \<Longrightarrow> (\<And>e. keeps P (h e)) \<Longrightarrow> keeps P (io_catch m h)"
  by (fastforce simp: keeps_def io_catch_def split: prod.splits sum.splits)

lemma keeps_if [io_keeps]: "(b \<Longrightarrow> keeps P m) \<Longrightarrow> (\<not> b \<Longrightarrow> keeps P n) \<Longrightarrow> keeps P (if b then m else n)"
  by simp

end
