(* ===== verification/Scenario.thy ===== *)
theory Scenario
  imports Py_Prelude
begin

text \<open>
  The scenario parser and validator of \<open>src/vdevlab/scenario.py\<close>: from the document a YAML loader
  returns to the immutable scenario definition the runner executes. Every validation helper and
  every parser of the module is one definition, with its checks in the order of the code. The
  loader itself (PyYAML) and the file system are arguments of the functions that call them.

  The abstract specification is a typed scenario (\<open>scenario_spec\<close>) with the document it is written
  as (\<open>render\<close>) and the normal form it is executed from (\<open>normal_form\<close>): the parser accepts every
  rendering of a well-formed scenario and returns its normal form, and whatever it accepts is the
  normal form of a well-formed scenario.
\<close>

section \<open>Constants\<close>

definition SCHEMA_VERSION :: int where "SCHEMA_VERSION = 1"
definition MAX_DURATION_MS :: int where "MAX_DURATION_MS = 86400000"
definition MAX_EIO_REPEAT :: int where "MAX_EIO_REPEAT = 1000000"
definition MAX_PARTIAL_READ_BYTES :: int where "MAX_PARTIAL_READ_BYTES = 4096"

lemmas scenario_bounds =
  SCHEMA_VERSION_def MAX_DURATION_MS_def MAX_EIO_REPEAT_def MAX_PARTIAL_READ_BYTES_def

definition ROOT_FIELDS :: "pystr list" where
  "ROOT_FIELDS = map lit
     [''schema_version'', ''device'', ''application'', ''scenario'', ''assertions'']"

definition LOG_EVENTS :: "pystr list" where
  "LOG_EVENTS = map lit
     [''MONITOR_STARTED'', ''TEMPERATURE'', ''THERMAL_WARNING'', ''READ_RETRY'',
      ''RECOVERY_SUCCESS'', ''DEVICE_DISCONNECTED'', ''READ_FAILED'', ''INVALID_INPUT'',
      ''INPUT_TOO_LONG'']"

record ScenarioDefinition =
  sd_source :: pystr
  sd_schema_version :: int
  sd_device_path :: pystr
  sd_command :: "pystr list"
  sd_startup_timeout_ms :: int
  sd_name :: pystr
  sd_timeout_ms :: int
  sd_events :: "pydict list"
  sd_assertions :: "pydict list"

section \<open>Validation helpers\<close>

definition mapping :: "pyval \<Rightarrow> pystr \<Rightarrow> pyexc + pydict" where
  "mapping value path =
     (case value of
        PDict kvs \<Rightarrow>
          if \<exists>kv \<in> set kvs. \<not> is_str (fst kv)
          then Inl (ScenarioError path (lit ''field names must be strings''))
          else Inr (map (\<lambda>(k, v). (the_str k, v)) kvs)
      | _ \<Rightarrow> Inl (ScenarioError path (lit ''must be a mapping'')))"

text \<open>\<open>sorted(fields - mapping.keys())\<close> and \<open>sorted(mapping.keys() - fields)\<close>\<close>

definition required :: "pydict \<Rightarrow> pystr list \<Rightarrow> pystr \<Rightarrow> pyexc + unit" where
  "required d names path =
     (let missing = sort (filter (\<lambda>f. \<not> dhas d f) names)
      in ensure (missing = [])
           (ScenarioError path
              (lit ''missing required field(s): '' @ str_join (lit '', '') missing)))"

definition allowed :: "pydict \<Rightarrow> pystr list \<Rightarrow> pystr \<Rightarrow> pyexc + unit" where
  "allowed d names path =
     (let unexpected = sort (filter (\<lambda>k. k \<notin> set names) (dkeys d))
      in ensure (unexpected = [])
           (ScenarioError path
              (lit ''unexpected field(s): '' @ str_join (lit '', '') unexpected)))"

definition non_empty_string :: "pyval \<Rightarrow> pystr \<Rightarrow> pyexc + pystr" where
  "non_empty_string value path =
     (case value of
        PStr s \<Rightarrow> if s = [] then Inl (ScenarioError path (lit ''must be a non-empty string'')) else Inr s
      | _ \<Rightarrow> Inl (ScenarioError path (lit ''must be a non-empty string'')))"

definition bounded_integer :: "pyval \<Rightarrow> pystr \<Rightarrow> int \<Rightarrow> int \<Rightarrow> pyexc + int" where
  "bounded_integer value path minimum maximum =
     (case value of
        PInt n \<Rightarrow>
          if n < minimum \<or> n > maximum
          then Inl (ScenarioError path
                 (lit ''must be between '' @ str_int minimum @ lit '' and '' @ str_int maximum))
          else Inr n
      | _ \<Rightarrow> Inl (ScenarioError path (lit ''must be an integer'')))"

text \<open>The inline checks \<open>if not isinstance(value, list) or not value\<close> and \<open>if not isinstance(value, bool)\<close>.\<close>

definition non_empty_list :: "pyval \<Rightarrow> pystr \<Rightarrow> pyexc + pyval list" where
  "non_empty_list value path =
     (case value of
        PList xs \<Rightarrow> if xs = [] then Inl (ScenarioError path (lit ''must be a non-empty list'')) else Inr xs
      | _ \<Rightarrow> Inl (ScenarioError path (lit ''must be a non-empty list'')))"

definition boolean :: "pyval \<Rightarrow> pystr \<Rightarrow> pyexc + bool" where
  "boolean value path =
     (case value of
        PBool b \<Rightarrow> Inr b
      | _ \<Rightarrow> Inl (ScenarioError path (lit ''must be a boolean'')))"

text \<open>
  \<open>_DURATION_PATTERN.fullmatch\<close>: the two groups of \<open>(0|[1-9][0-9]*)(ms|s)\<close>. The suffix holds no
  digit, so the first group is the longest prefix of digits.
\<close>

definition duration_match :: "pystr \<Rightarrow> (pystr \<times> pystr) option" where
  "duration_match s =
     (let ds = takeWhile is_digit s; sfx = dropWhile is_digit s
      in if canonical_digits ds \<and> (sfx = lit ''ms'' \<or> sfx = lit ''s'')
         then Some (ds, sfx) else None)"

text \<open>
  \<open>int(digits)\<close>: the interpreter refuses to convert a decimal string of more than 4300 digits with
  a \<open>ValueError\<close> (the default of \<open>sys.set_int_max_str_digits\<close>).
\<close>

definition INT_MAX_STR_DIGITS :: nat where "INT_MAX_STR_DIGITS = 4300"

definition int_of_digits :: "pystr \<Rightarrow> pyexc + int" where
  "int_of_digits ds =
     (if length ds > INT_MAX_STR_DIGITS
      then Inl digit_limit_error
      else Inr (int (digits_value ds)))"

definition parse_duration :: "pyval \<Rightarrow> pystr \<Rightarrow> pyexc + int" where
  "parse_duration value path =
     (case value of
        PStr s \<Rightarrow>
          (case duration_match s of
             None \<Rightarrow>
               Inl (ScenarioError path (lit ''must be an integer duration such as 250ms or 2s''))
           | Some (ds, sfx) \<Rightarrow>
               rbind (int_of_digits ds) (\<lambda>magnitude.
               let milliseconds = (if sfx = lit ''ms'' then magnitude else magnitude * 1000)
               in if milliseconds > MAX_DURATION_MS
                  then Inl (ScenarioError path (lit ''must not exceed 24h''))
                  else Inr milliseconds))
      | _ \<Rightarrow> Inl (ScenarioError path (lit ''must use an ms or s suffix'')))"

section \<open>Device and application\<close>

definition parse_device :: "pyval \<Rightarrow> pyexc + pystr" where
  "parse_device value =
     rbind (mapping value (lit ''device'')) (\<lambda>device.
     rbind (required device [lit ''path''] (lit ''device'')) (\<lambda>_.
     rbind (allowed device [lit ''path''] (lit ''device'')) (\<lambda>_.
     rbind (rbind (dindex device (lit ''path'')) (\<lambda>v. non_empty_string v (lit ''device.path''))) (\<lambda>path.
     if prefix (lit ''/dev/'') path then Inr path
     else Inl (ScenarioError (lit ''device.path'') (lit ''must be an absolute /dev path''))))))"

definition command_argument :: "nat \<Rightarrow> pyval \<Rightarrow> pyexc + pystr" where
  "command_argument index argument =
     non_empty_string argument (lit ''application.command['' @ str_nat index @ lit '']'')"

definition parse_application :: "pyval \<Rightarrow> pyexc + (pystr list \<times> int)" where
  "parse_application value =
     rbind (mapping value (lit ''application'')) (\<lambda>application.
     rbind (required application [lit ''command''] (lit ''application'')) (\<lambda>_.
     rbind (allowed application [lit ''command'', lit ''startup_timeout''] (lit ''application'')) (\<lambda>_.
     rbind (rbind (dindex application (lit ''command'')) (\<lambda>v. non_empty_list v (lit ''application.command''))) (\<lambda>command.
     rbind (traverse_from 0 command_argument command) (\<lambda>parsed_command.
     rbind (parse_duration (dget_default application (lit ''startup_timeout'') (PStr (lit ''2s'')))
              (lit ''application.startup_timeout''))
       (\<lambda>startup_timeout_ms. Inr (parsed_command, startup_timeout_ms)))))))"

section \<open>Events\<close>

definition parse_fault_event :: "pydict \<Rightarrow> pystr \<Rightarrow> pyexc + pydict" where
  "parse_fault_event event path =
     rbind (required event [lit ''type''] path) (\<lambda>_.
     rbind (rbind (dindex event (lit ''type'')) (\<lambda>v. non_empty_string v (path @ lit ''.type''))) (\<lambda>fault_type.
     let normalized = [(lit ''action'', PStr (lit ''fault'')), (lit ''type'', PStr fault_type)]
     in
     if fault_type = lit ''eio'' then
       rbind (required event (map lit [''at'', ''action'', ''type'', ''repeat'']) path) (\<lambda>_.
       rbind (allowed event (map lit [''at'', ''action'', ''type'', ''repeat'']) path) (\<lambda>_.
       rbind (rbind (dindex event (lit ''repeat'')) (\<lambda>v. bounded_integer v (path @ lit ''.repeat'') 1 MAX_EIO_REPEAT))
         (\<lambda>n. Inr (dset normalized (lit ''repeat'') (PInt n)))))
     else if fault_type = lit ''delay'' then
       rbind (required event (map lit [''at'', ''action'', ''type'', ''duration'']) path) (\<lambda>_.
       rbind (allowed event (map lit [''at'', ''action'', ''type'', ''duration'']) path) (\<lambda>_.
       rbind (rbind (dindex event (lit ''duration'')) (\<lambda>v. parse_duration v (path @ lit ''.duration'')))
         (\<lambda>ms. Inr (dset normalized (lit ''duration_ms'') (PInt ms)))))
     else if fault_type = lit ''partial-read'' then
       rbind (required event (map lit [''at'', ''action'', ''type'', ''bytes'']) path) (\<lambda>_.
       rbind (allowed event (map lit [''at'', ''action'', ''type'', ''bytes'']) path) (\<lambda>_.
       rbind (rbind (dindex event (lit ''bytes'')) (\<lambda>v. bounded_integer v (path @ lit ''.bytes'') 1 MAX_PARTIAL_READ_BYTES))
         (\<lambda>n. Inr (dset normalized (lit ''bytes'') (PInt n)))))
     else if fault_type = lit ''disconnect'' then
       rbind (required event (map lit [''at'', ''action'', ''type'']) path) (\<lambda>_.
       rbind (allowed event (map lit [''at'', ''action'', ''type'']) path) (\<lambda>_.
       Inr normalized))
     else Inl (ScenarioError (path @ lit ''.type'')
                (lit ''must be one of: delay, disconnect, eio, partial-read''))))"

definition parse_event_action :: "pydict \<Rightarrow> pystr \<Rightarrow> pystr \<Rightarrow> pyexc + pydict" where
  "parse_event_action event path action =
     (if action = lit ''write'' then
        rbind (required event (map lit [''at'', ''action'', ''data'']) path) (\<lambda>_.
        rbind (allowed event (map lit [''at'', ''action'', ''data'']) path) (\<lambda>_.
        rbind (rbind (dindex event (lit ''data'')) (\<lambda>v. non_empty_string v (path @ lit ''.data''))) (\<lambda>data.
        Inr [(lit ''action'', PStr action), (lit ''data'', PStr data)])))
      else if action = lit ''fault'' then parse_fault_event event path
      else if action = lit ''clear'' \<or> action = lit ''reset'' then
        rbind (allowed event (map lit [''at'', ''action'']) path) (\<lambda>_.
        Inr [(lit ''action'', PStr action)])
      else Inl (ScenarioError (path @ lit ''.action'')
                 (lit ''must be one of: clear, fault, reset, write'')))"

definition event_path :: "nat \<Rightarrow> pystr" where
  "event_path index = lit ''scenario.events['' @ str_nat index @ lit '']''"

definition parse_event :: "int \<Rightarrow> nat \<Rightarrow> pyval \<Rightarrow> pyexc + (int \<times> nat \<times> pydict)" where
  "parse_event timeout_ms index value =
     (let path = event_path index in
     rbind (mapping value path) (\<lambda>event.
     rbind (required event (map lit [''at'', ''action'']) path) (\<lambda>_.
     rbind (rbind (dindex event (lit ''at'')) (\<lambda>v. parse_duration v (path @ lit ''.at''))) (\<lambda>at_ms.
     if at_ms > timeout_ms
     then Inl (ScenarioError (path @ lit ''.at'') (lit ''must not exceed scenario.timeout''))
     else
     rbind (rbind (dindex event (lit ''action'')) (\<lambda>v. non_empty_string v (path @ lit ''.action''))) (\<lambda>action.
     rbind (parse_event_action event path action) (\<lambda>normalized.
     Inr (at_ms, index, dset normalized (lit ''at_ms'') (PInt at_ms))))))))"

text \<open>The loop that rejects the first event earlier than its predecessor.\<close>

fun check_event_order :: "nat \<Rightarrow> (int \<times> nat \<times> pydict) list \<Rightarrow> pyexc + unit" where
  "check_event_order index (p # q # ps) =
     (if fst q < fst p
      then Inl (ScenarioError (event_path index @ lit ''.at'')
                 (lit ''must not be earlier than the previous event''))
      else check_event_order (Suc index) (q # ps))"
| "check_event_order index _ = Inr ()"

definition parse_scenario_section :: "pyval \<Rightarrow> pyexc + (pystr \<times> int \<times> pydict list)" where
  "parse_scenario_section value =
     rbind (mapping value (lit ''scenario'')) (\<lambda>scenario.
     rbind (required scenario (map lit [''name'', ''timeout'', ''events'']) (lit ''scenario'')) (\<lambda>_.
     rbind (allowed scenario (map lit [''name'', ''timeout'', ''events'']) (lit ''scenario'')) (\<lambda>_.
     rbind (rbind (dindex scenario (lit ''name'')) (\<lambda>v. non_empty_string v (lit ''scenario.name''))) (\<lambda>name.
     rbind (rbind (dindex scenario (lit ''timeout'')) (\<lambda>v. parse_duration v (lit ''scenario.timeout''))) (\<lambda>timeout_ms.
     rbind (rbind (dindex scenario (lit ''events'')) (\<lambda>v. non_empty_list v (lit ''scenario.events''))) (\<lambda>events.
     rbind (traverse_from 0 (parse_event timeout_ms) events) (\<lambda>parsed.
     rbind (check_event_order 1 parsed) (\<lambda>_.
     Inr (name, timeout_ms, map (\<lambda>item. snd (snd item)) parsed)))))))))"

section \<open>Assertions\<close>

text \<open>The optional \<open>within\<close> and \<open>max_latency\<close> fields of an event assertion.\<close>

definition parse_within :: "pydict \<Rightarrow> pystr \<Rightarrow> int \<Rightarrow> pydict \<Rightarrow> pyexc + pydict" where
  "parse_within assertion path timeout_ms normalized =
     (if dhas assertion (lit ''within'') then
        rbind (rbind (dindex assertion (lit ''within'')) (\<lambda>v. parse_duration v (path @ lit ''.within''))) (\<lambda>within_ms.
        if within_ms > timeout_ms
        then Inl (ScenarioError (path @ lit ''.within'') (lit ''must not exceed scenario.timeout''))
        else Inr (dset normalized (lit ''within_ms'') (PInt within_ms)))
      else Inr normalized)"

definition parse_max_latency :: "pydict \<Rightarrow> pystr \<Rightarrow> int \<Rightarrow> pystr \<Rightarrow> pydict \<Rightarrow> pyexc + pydict" where
  "parse_max_latency assertion path timeout_ms event normalized =
     (if dhas assertion (lit ''max_latency'') then
        if event \<noteq> lit ''RECOVERY_SUCCESS''
        then Inl (ScenarioError (path @ lit ''.max_latency'') (lit ''is only valid for RECOVERY_SUCCESS''))
        else
        rbind (rbind (dindex assertion (lit ''max_latency'')) (\<lambda>v. parse_duration v (path @ lit ''.max_latency'')))
          (\<lambda>maximum_latency_ms.
        if maximum_latency_ms > timeout_ms
        then Inl (ScenarioError (path @ lit ''.max_latency'') (lit ''must not exceed scenario.timeout''))
        else Inr (dset normalized (lit ''max_latency_ms'') (PInt maximum_latency_ms)))
      else Inr normalized)"

definition parse_event_assertion :: "pydict \<Rightarrow> pystr \<Rightarrow> int \<Rightarrow> pyexc + pydict" where
  "parse_event_assertion assertion path timeout_ms =
     rbind (required assertion (map lit [''event'', ''count'']) path) (\<lambda>_.
     rbind (allowed assertion (map lit [''type'', ''event'', ''count'', ''within'', ''max_latency'']) path) (\<lambda>_.
     rbind (rbind (dindex assertion (lit ''event'')) (\<lambda>v. non_empty_string v (path @ lit ''.event''))) (\<lambda>event.
     if event \<notin> set LOG_EVENTS
     then Inl (ScenarioError (path @ lit ''.event'') (lit ''is not a supported log event''))
     else
     rbind (rbind (dindex assertion (lit ''count'')) (\<lambda>v. bounded_integer v (path @ lit ''.count'') 1 1000000)) (\<lambda>count.
     rbind (parse_within assertion path timeout_ms
              [(lit ''type'', PStr (lit ''event_count'')), (lit ''event'', PStr event),
               (lit ''count'', PInt count)])
       (parse_max_latency assertion path timeout_ms event)))))"

definition parse_stdout_text :: "pydict \<Rightarrow> pystr \<Rightarrow> pystr \<Rightarrow> pydict \<Rightarrow> pyexc + pydict" where
  "parse_stdout_text assertion path key normalized =
     (if dhas assertion key then
        rbind (rbind (dindex assertion key) (\<lambda>v. non_empty_string v (path @ lit ''.'' @ key))) (\<lambda>text.
        Inr (dset normalized key (PStr text)))
      else Inr normalized)"

definition parse_stdout_assertion :: "pydict \<Rightarrow> pystr \<Rightarrow> pyexc + pydict" where
  "parse_stdout_assertion assertion path =
     rbind (allowed assertion (map lit [''type'', ''contains'', ''not_contains'']) path) (\<lambda>_.
     if \<not> dhas assertion (lit ''contains'') \<and> \<not> dhas assertion (lit ''not_contains'')
     then Inl (ScenarioError path (lit ''stdout assertion requires contains or not_contains''))
     else
     rbind (parse_stdout_text assertion path (lit ''contains'') [(lit ''type'', PStr (lit ''stdout''))])
       (parse_stdout_text assertion path (lit ''not_contains'')))"

definition assertion_path :: "nat \<Rightarrow> pystr" where
  "assertion_path index = lit ''assertions['' @ str_nat index @ lit '']''"

definition parse_assertion :: "int \<Rightarrow> nat \<Rightarrow> pyval \<Rightarrow> pyexc + pydict" where
  "parse_assertion timeout_ms index raw_assertion =
     (let path = assertion_path index in
     rbind (mapping raw_assertion path) (\<lambda>assertion.
     let assertion_type = dget_default assertion (lit ''type'') (PStr (lit ''event_count'')) in
     if assertion_type = PStr (lit ''event_count'') then
       parse_event_assertion assertion path timeout_ms
     else if assertion_type = PStr (lit ''stdout'') then
       parse_stdout_assertion assertion path
     else if assertion_type = PStr (lit ''disconnect'') then
       rbind (required assertion (map lit [''type'', ''expected'']) path) (\<lambda>_.
       rbind (allowed assertion (map lit [''type'', ''expected'']) path) (\<lambda>_.
       rbind (rbind (dindex assertion (lit ''expected'')) (\<lambda>v. boolean v (path @ lit ''.expected''))) (\<lambda>expected.
       Inr [(lit ''type'', PStr (lit ''disconnect'')), (lit ''expected'', PBool expected)])))
     else if assertion_type = PStr (lit ''kernel_warnings'') then
       rbind (required assertion (map lit [''type'', ''count'']) path) (\<lambda>_.
       rbind (allowed assertion (map lit [''type'', ''count'']) path) (\<lambda>_.
       rbind (rbind (dindex assertion (lit ''count'')) (\<lambda>v. bounded_integer v (path @ lit ''.count'') 0 1000000)) (\<lambda>count.
       Inr [(lit ''type'', PStr (lit ''kernel_warnings'')), (lit ''count'', PInt count)])))
     else Inl (ScenarioError (path @ lit ''.type'')
                (lit ''must be one of: disconnect, event_count, kernel_warnings, stdout''))))"

definition parse_assertions :: "pyval \<Rightarrow> int \<Rightarrow> pyexc + pydict list" where
  "parse_assertions value timeout_ms =
     rbind (non_empty_list value (lit ''assertions'')) (traverse_from 0 (parse_assertion timeout_ms))"

section \<open>The document\<close>

definition parse_schema_version :: "pyval \<Rightarrow> pyexc + int" where
  "parse_schema_version raw =
     (case raw of
        PInt n \<Rightarrow>
          if n \<noteq> SCHEMA_VERSION
          then Inl (ScenarioError (lit ''schema_version'') (lit ''must equal '' @ str_int SCHEMA_VERSION))
          else Inr n
      | _ \<Rightarrow> Inl (ScenarioError (lit ''schema_version'') (lit ''must be an integer'')))"

definition parse_document :: "pystr \<Rightarrow> pyval \<Rightarrow> pyexc + ScenarioDefinition" where
  "parse_document source document =
     rbind (mapping document (lit ''$'')) (\<lambda>root.
     rbind (required root ROOT_FIELDS (lit ''$'')) (\<lambda>_.
     rbind (allowed root ROOT_FIELDS (lit ''$'')) (\<lambda>_.
     rbind (rbind (dindex root (lit ''schema_version'')) parse_schema_version) (\<lambda>schema_version.
     rbind (rbind (dindex root (lit ''device'')) parse_device) (\<lambda>device_path.
     rbind (rbind (dindex root (lit ''application'')) parse_application) (\<lambda>(command, startup_timeout_ms).
     rbind (rbind (dindex root (lit ''scenario'')) parse_scenario_section) (\<lambda>(name, timeout_ms, events).
     rbind (rbind (dindex root (lit ''assertions'')) (\<lambda>v. parse_assertions v timeout_ms)) (\<lambda>assertions.
     Inr \<lparr>sd_source = source, sd_schema_version = schema_version, sd_device_path = device_path,
          sd_command = command, sd_startup_timeout_ms = startup_timeout_ms, sd_name = name,
          sd_timeout_ms = timeout_ms, sd_events = events, sd_assertions = assertions\<rparr>))))))))"

text \<open>
  \<open>safe_load\<close> is PyYAML's loader: it returns the document or raises, \<open>YAMLError\<close> for a document
  that is not YAML. Only that class is translated; any other exception passes.
\<close>

definition parse_scenario :: "(pystr \<Rightarrow> pyexc + pyval) \<Rightarrow> pystr \<Rightarrow> pystr \<Rightarrow> pyexc + ScenarioDefinition" where
  "parse_scenario safe_load text source =
     (case safe_load text of
        Inl (YAMLError _) \<Rightarrow> Inl (ScenarioError (lit ''$'') (lit ''invalid YAML''))
      | Inl e \<Rightarrow> Inl e
      | Inr document \<Rightarrow> parse_document source document)"

text \<open>
  \<open>str(Path(path))\<close> for a POSIX path: repeated separators and \<open>.\<close> components go, an empty path
  is \<open>.\<close>, exactly two leading separators are kept.
\<close>

fun split_slash :: "pystr \<Rightarrow> pystr \<Rightarrow> pystr list" where
  "split_slash acc [] = [rev acc]"
| "split_slash acc (c # cs) = (if c = 47 then rev acc # split_slash [] cs else split_slash (c # acc) cs)"

definition path_root :: "pystr \<Rightarrow> pystr" where
  "path_root p =
     (if prefix [47, 47] p \<and> \<not> prefix [47, 47, 47] p then [47, 47]
      else if prefix [47] p then [47] else [])"

definition path_parts :: "pystr \<Rightarrow> pystr list" where
  "path_parts p = filter (\<lambda>c. c \<noteq> [] \<and> c \<noteq> [46]) (split_slash [] p)"

definition path_str :: "pystr \<Rightarrow> pystr" where
  "path_str p =
     (let s = path_root p @ str_join [47] (path_parts p) in if s = [] then [46] else s)"

text \<open>\<open>read_text\<close> is the file system: the text of a file, or the exception opening or decoding it raises.\<close>

definition load_scenario ::
  "(pystr \<Rightarrow> pyexc + pystr) \<Rightarrow> (pystr \<Rightarrow> pyexc + pyval) \<Rightarrow> pystr \<Rightarrow> pyexc + ScenarioDefinition" where
  "load_scenario read_text safe_load path =
     (let scenario_path = path_str path in
      case read_text scenario_path of
        Inl e \<Rightarrow>
          if is_OSError e then
            let message = (case os_strerror e of
                             Some s \<Rightarrow> if s = [] then lit ''cannot read file'' else s
                           | None \<Rightarrow> lit ''cannot read file'')
            in Inl (ScenarioError scenario_path message)
          else Inl e
      | Inr text \<Rightarrow> parse_scenario safe_load text scenario_path)"

end
