(* ===== verification/Scenario_Spec.thy ===== *)
theory Scenario_Spec
  imports Scenario
begin

text \<open>
  What the scenario parser promises. The helpers are characterised by equivalences (collected in
  \<open>check_iff\<close>); a typed scenario with its rendering and its normal form is the specification; the
  parser is shown complete and sound for it.
\<close>

named_theorems check_iff \<open>what a validation helper accepts, exactly\<close>

section \<open>The helpers, exactly\<close>

lemma sort_eq_Nil [simp]: "sort xs = [] \<longleftrightarrow> xs = []"
  by (metis set_empty set_sort)

lemma required_iff [check_iff]:
  "required d ns path = Inr x \<longleftrightarrow> (\<forall>n \<in> set ns. dhas d n)"
  by (auto simp: required_def Let_def res_iff filter_empty_conv)

lemma allowed_iff [check_iff]:
  "allowed d ns path = Inr x \<longleftrightarrow> (\<forall>k \<in> set (dkeys d). k \<in> set ns)"
  by (auto simp: allowed_def Let_def res_iff filter_empty_conv)

lemma mapping_pydict_val [simp]: "mapping (pydict_val d) path = Inr d"
  by (force simp: mapping_def pydict_val_def intro!: map_idI)

lemma mapping_iff [check_iff]: "mapping v path = Inr d \<longleftrightarrow> v = pydict_val d"
proof
  assume "mapping v path = Inr d"
  then obtain kvs where v: "v = PDict kvs" and strs: "\<forall>kv \<in> set kvs. is_str (fst kv)"
    and d: "d = map (\<lambda>(k, w). (the_str k, w)) kvs"
    by (auto simp: mapping_def split: pyval.splits if_splits)
  have "map (\<lambda>(k, w). (PStr k, w)) d = kvs"
    unfolding d using strs by (force simp: is_str_iff intro!: map_idI)
  with v show "v = pydict_val d" by (simp add: pydict_val_def)
qed simp

lemma non_empty_string_iff [check_iff]:
  "non_empty_string v path = Inr s \<longleftrightarrow> v = PStr s \<and> s \<noteq> []"
  by (auto simp: non_empty_string_def split: pyval.splits)

lemma bounded_integer_iff [check_iff]:
  "bounded_integer v path lo hi = Inr n \<longleftrightarrow> v = PInt n \<and> lo \<le> n \<and> n \<le> hi"
  by (auto simp: bounded_integer_def split: pyval.splits)

lemma non_empty_list_iff [check_iff]:
  "non_empty_list v path = Inr xs \<longleftrightarrow> v = PList xs \<and> xs \<noteq> []"
  by (auto simp: non_empty_list_def split: pyval.splits)

lemma boolean_iff [check_iff]: "boolean v path = Inr b \<longleftrightarrow> v = PBool b"
  by (auto simp: boolean_def split: pyval.splits)

section \<open>The lookups never fail\<close>

text \<open>
  Every \<open>d[key]\<close> of the module comes after a check that the key is there, so each parser is the one that reads
  the members of its dictionary without raising.
\<close>

lemma parse_device_checked:
  "parse_device value =
     rbind (mapping value (lit ''device'')) (\<lambda>device.
     rbind (required device [lit ''path''] (lit ''device'')) (\<lambda>_.
     rbind (allowed device [lit ''path''] (lit ''device'')) (\<lambda>_.
     rbind (non_empty_string (dget device (lit ''path'')) (lit ''device.path'')) (\<lambda>path.
     if prefix (lit ''/dev/'') path then Inr path
     else Inl (ScenarioError (lit ''device.path'') (lit ''must be an absolute /dev path''))))))"
  unfolding parse_device_def Let_def
  by (intro rbind_cong if_cong prod.case_cong refl) (auto simp: required_iff rbind_dindex ROOT_FIELDS_def)

lemma parse_application_checked:
  "parse_application value =
     rbind (mapping value (lit ''application'')) (\<lambda>application.
     rbind (required application [lit ''command''] (lit ''application'')) (\<lambda>_.
     rbind (allowed application [lit ''command'', lit ''startup_timeout''] (lit ''application'')) (\<lambda>_.
     rbind (non_empty_list (dget application (lit ''command'')) (lit ''application.command'')) (\<lambda>command.
     rbind (traverse_from 0 command_argument command) (\<lambda>parsed_command.
     rbind (parse_duration (dget_default application (lit ''startup_timeout'') (PStr (lit ''2s'')))
              (lit ''application.startup_timeout''))
       (\<lambda>startup_timeout_ms. Inr (parsed_command, startup_timeout_ms)))))))"
  unfolding parse_application_def Let_def
  by (intro rbind_cong if_cong prod.case_cong refl) (auto simp: required_iff rbind_dindex ROOT_FIELDS_def)

lemma parse_fault_event_checked:
  "parse_fault_event event path =
     rbind (required event [lit ''type''] path) (\<lambda>_.
     rbind (non_empty_string (dget event (lit ''type'')) (path @ lit ''.type'')) (\<lambda>fault_type.
     let normalized = [(lit ''action'', PStr (lit ''fault'')), (lit ''type'', PStr fault_type)]
     in
     if fault_type = lit ''eio'' then
       rbind (required event (map lit [''at'', ''action'', ''type'', ''repeat'']) path) (\<lambda>_.
       rbind (allowed event (map lit [''at'', ''action'', ''type'', ''repeat'']) path) (\<lambda>_.
       rbind (bounded_integer (dget event (lit ''repeat'')) (path @ lit ''.repeat'') 1 MAX_EIO_REPEAT)
         (\<lambda>n. Inr (dset normalized (lit ''repeat'') (PInt n)))))
     else if fault_type = lit ''delay'' then
       rbind (required event (map lit [''at'', ''action'', ''type'', ''duration'']) path) (\<lambda>_.
       rbind (allowed event (map lit [''at'', ''action'', ''type'', ''duration'']) path) (\<lambda>_.
       rbind (parse_duration (dget event (lit ''duration'')) (path @ lit ''.duration''))
         (\<lambda>ms. Inr (dset normalized (lit ''duration_ms'') (PInt ms)))))
     else if fault_type = lit ''partial-read'' then
       rbind (required event (map lit [''at'', ''action'', ''type'', ''bytes'']) path) (\<lambda>_.
       rbind (allowed event (map lit [''at'', ''action'', ''type'', ''bytes'']) path) (\<lambda>_.
       rbind (bounded_integer (dget event (lit ''bytes'')) (path @ lit ''.bytes'') 1 MAX_PARTIAL_READ_BYTES)
         (\<lambda>n. Inr (dset normalized (lit ''bytes'') (PInt n)))))
     else if fault_type = lit ''disconnect'' then
       rbind (required event (map lit [''at'', ''action'', ''type'']) path) (\<lambda>_.
       rbind (allowed event (map lit [''at'', ''action'', ''type'']) path) (\<lambda>_.
       Inr normalized))
     else Inl (ScenarioError (path @ lit ''.type'')
                (lit ''must be one of: delay, disconnect, eio, partial-read''))))"
  unfolding parse_fault_event_def Let_def
  by (intro rbind_cong if_cong prod.case_cong refl) (auto simp: required_iff rbind_dindex ROOT_FIELDS_def)

lemma parse_event_action_checked:
  "parse_event_action event path action =
     (if action = lit ''write'' then
        rbind (required event (map lit [''at'', ''action'', ''data'']) path) (\<lambda>_.
        rbind (allowed event (map lit [''at'', ''action'', ''data'']) path) (\<lambda>_.
        rbind (non_empty_string (dget event (lit ''data'')) (path @ lit ''.data'')) (\<lambda>data.
        Inr [(lit ''action'', PStr action), (lit ''data'', PStr data)])))
      else if action = lit ''fault'' then parse_fault_event event path
      else if action = lit ''clear'' \<or> action = lit ''reset'' then
        rbind (allowed event (map lit [''at'', ''action'']) path) (\<lambda>_.
        Inr [(lit ''action'', PStr action)])
      else Inl (ScenarioError (path @ lit ''.action'')
                 (lit ''must be one of: clear, fault, reset, write'')))"
  unfolding parse_event_action_def Let_def
  by (intro rbind_cong if_cong prod.case_cong refl) (auto simp: required_iff rbind_dindex ROOT_FIELDS_def)

lemma parse_event_checked:
  "parse_event timeout_ms index value =
     (let path = event_path index in
     rbind (mapping value path) (\<lambda>event.
     rbind (required event (map lit [''at'', ''action'']) path) (\<lambda>_.
     rbind (parse_duration (dget event (lit ''at'')) (path @ lit ''.at'')) (\<lambda>at_ms.
     if at_ms > timeout_ms
     then Inl (ScenarioError (path @ lit ''.at'') (lit ''must not exceed scenario.timeout''))
     else
     rbind (non_empty_string (dget event (lit ''action'')) (path @ lit ''.action'')) (\<lambda>action.
     rbind (parse_event_action event path action) (\<lambda>normalized.
     Inr (at_ms, index, dset normalized (lit ''at_ms'') (PInt at_ms))))))))"
  unfolding parse_event_def Let_def
  by (intro rbind_cong if_cong prod.case_cong refl) (auto simp: required_iff rbind_dindex ROOT_FIELDS_def)

lemma parse_scenario_section_checked:
  "parse_scenario_section value =
     rbind (mapping value (lit ''scenario'')) (\<lambda>scenario.
     rbind (required scenario (map lit [''name'', ''timeout'', ''events'']) (lit ''scenario'')) (\<lambda>_.
     rbind (allowed scenario (map lit [''name'', ''timeout'', ''events'']) (lit ''scenario'')) (\<lambda>_.
     rbind (non_empty_string (dget scenario (lit ''name'')) (lit ''scenario.name'')) (\<lambda>name.
     rbind (parse_duration (dget scenario (lit ''timeout'')) (lit ''scenario.timeout'')) (\<lambda>timeout_ms.
     rbind (non_empty_list (dget scenario (lit ''events'')) (lit ''scenario.events'')) (\<lambda>events.
     rbind (traverse_from 0 (parse_event timeout_ms) events) (\<lambda>parsed.
     rbind (check_event_order 1 parsed) (\<lambda>_.
     Inr (name, timeout_ms, map (\<lambda>item. snd (snd item)) parsed)))))))))"
  unfolding parse_scenario_section_def Let_def
  by (intro rbind_cong if_cong prod.case_cong refl) (auto simp: required_iff rbind_dindex ROOT_FIELDS_def)

lemma parse_within_checked:
  "parse_within assertion path timeout_ms normalized =
     (if dhas assertion (lit ''within'') then
        rbind (parse_duration (dget assertion (lit ''within'')) (path @ lit ''.within'')) (\<lambda>within_ms.
        if within_ms > timeout_ms
        then Inl (ScenarioError (path @ lit ''.within'') (lit ''must not exceed scenario.timeout''))
        else Inr (dset normalized (lit ''within_ms'') (PInt within_ms)))
      else Inr normalized)"
  unfolding parse_within_def Let_def
  by (intro rbind_cong if_cong prod.case_cong refl) (auto simp: required_iff rbind_dindex ROOT_FIELDS_def)

lemma parse_max_latency_checked:
  "parse_max_latency assertion path timeout_ms event normalized =
     (if dhas assertion (lit ''max_latency'') then
        if event \<noteq> lit ''RECOVERY_SUCCESS''
        then Inl (ScenarioError (path @ lit ''.max_latency'') (lit ''is only valid for RECOVERY_SUCCESS''))
        else
        rbind (parse_duration (dget assertion (lit ''max_latency'')) (path @ lit ''.max_latency''))
          (\<lambda>maximum_latency_ms.
        if maximum_latency_ms > timeout_ms
        then Inl (ScenarioError (path @ lit ''.max_latency'') (lit ''must not exceed scenario.timeout''))
        else Inr (dset normalized (lit ''max_latency_ms'') (PInt maximum_latency_ms)))
      else Inr normalized)"
  unfolding parse_max_latency_def Let_def
  by (intro rbind_cong if_cong prod.case_cong refl) (auto simp: required_iff rbind_dindex ROOT_FIELDS_def)

lemma parse_event_assertion_checked:
  "parse_event_assertion assertion path timeout_ms =
     rbind (required assertion (map lit [''event'', ''count'']) path) (\<lambda>_.
     rbind (allowed assertion (map lit [''type'', ''event'', ''count'', ''within'', ''max_latency'']) path) (\<lambda>_.
     rbind (non_empty_string (dget assertion (lit ''event'')) (path @ lit ''.event'')) (\<lambda>event.
     if event \<notin> set LOG_EVENTS
     then Inl (ScenarioError (path @ lit ''.event'') (lit ''is not a supported log event''))
     else
     rbind (bounded_integer (dget assertion (lit ''count'')) (path @ lit ''.count'') 1 1000000) (\<lambda>count.
     rbind (parse_within assertion path timeout_ms
              [(lit ''type'', PStr (lit ''event_count'')), (lit ''event'', PStr event),
               (lit ''count'', PInt count)])
       (parse_max_latency assertion path timeout_ms event)))))"
  unfolding parse_event_assertion_def Let_def
  by (intro rbind_cong if_cong prod.case_cong refl) (auto simp: required_iff rbind_dindex ROOT_FIELDS_def)

lemma parse_stdout_text_checked:
  "parse_stdout_text assertion path key normalized =
     (if dhas assertion key then
        rbind (non_empty_string (dget assertion key) (path @ lit ''.'' @ key)) (\<lambda>text.
        Inr (dset normalized key (PStr text)))
      else Inr normalized)"
  unfolding parse_stdout_text_def Let_def
  by (intro rbind_cong if_cong prod.case_cong refl) (auto simp: required_iff rbind_dindex ROOT_FIELDS_def)

lemma parse_assertion_checked:
  "parse_assertion timeout_ms index raw_assertion =
     (let path = assertion_path index in
     rbind (mapping raw_assertion path) (\<lambda>assertion.
     let assertion_type = dget_default assertion (lit ''type'') (PStr (lit ''event_count'')) in
     if assertion_type = PStr (lit ''event_count'') then
       parse_event_assertion assertion path timeout_ms
     else if assertion_type = PStr (lit ''stdout'') then
       parse_stdout_assertion assertion path
     else if assertion_type = PStr (lit ''disconnect'') then
       rbind (required assertion (map lit [''type'', ''expected'']) path) (\<lambda>_.
       rbind (allowed assertion (map lit [''type'', ''expected'']) path) (\<lambda>_.
       rbind (boolean (dget assertion (lit ''expected'')) (path @ lit ''.expected'')) (\<lambda>expected.
       Inr [(lit ''type'', PStr (lit ''disconnect'')), (lit ''expected'', PBool expected)])))
     else if assertion_type = PStr (lit ''kernel_warnings'') then
       rbind (required assertion (map lit [''type'', ''count'']) path) (\<lambda>_.
       rbind (allowed assertion (map lit [''type'', ''count'']) path) (\<lambda>_.
       rbind (bounded_integer (dget assertion (lit ''count'')) (path @ lit ''.count'') 0 1000000) (\<lambda>count.
       Inr [(lit ''type'', PStr (lit ''kernel_warnings'')), (lit ''count'', PInt count)])))
     else Inl (ScenarioError (path @ lit ''.type'')
                (lit ''must be one of: disconnect, event_count, kernel_warnings, stdout''))))"
  unfolding parse_assertion_def Let_def
  by (intro rbind_cong if_cong prod.case_cong refl) (auto simp: required_iff rbind_dindex ROOT_FIELDS_def)

lemma parse_document_checked:
  "parse_document source document =
     rbind (mapping document (lit ''$'')) (\<lambda>root.
     rbind (required root ROOT_FIELDS (lit ''$'')) (\<lambda>_.
     rbind (allowed root ROOT_FIELDS (lit ''$'')) (\<lambda>_.
     rbind (parse_schema_version (dget root (lit ''schema_version''))) (\<lambda>schema_version.
     rbind (parse_device (dget root (lit ''device''))) (\<lambda>device_path.
     rbind (parse_application (dget root (lit ''application''))) (\<lambda>(command, startup_timeout_ms).
     rbind (parse_scenario_section (dget root (lit ''scenario''))) (\<lambda>(name, timeout_ms, events).
     rbind (parse_assertions (dget root (lit ''assertions'')) timeout_ms) (\<lambda>assertions.
     Inr \<lparr>sd_source = source, sd_schema_version = schema_version, sd_device_path = device_path,
          sd_command = command, sd_startup_timeout_ms = startup_timeout_ms, sd_name = name,
          sd_timeout_ms = timeout_ms, sd_events = events, sd_assertions = assertions\<rparr>))))))))"
  unfolding parse_document_def Let_def
  by (intro rbind_cong if_cong prod.case_cong refl) (auto simp: required_iff rbind_dindex ROOT_FIELDS_def)

lemma canonical_digits_str_nat:
  "canonical_digits ds \<Longrightarrow> str_nat (digits_value ds) = ds"
proof (induction ds rule: rev_induct)
  case Nil
  then show ?case by (simp add: canonical_digits_def)
next
  case (snoc c ds)
  then have c: "48 \<le> c" "c \<le> 57" by (auto simp: canonical_digits_def is_digit_def)
  show ?case
  proof (cases "ds = []")
    case True
    with c show ?thesis by (simp add: str_nat.simps digits_value_def)
  next
    case False
    with snoc.prems have can: "canonical_digits ds" and hd: "hd ds \<noteq> 48"
      by (auto simp: canonical_digits_def)
    have IH: "str_nat (digits_value ds) = ds" by (rule snoc.IH [OF can])
    have "digits_value ds \<noteq> 0"
    proof
      assume "digits_value ds = 0"
      with IH have "ds = [48]" by (simp add: str_nat.simps)
      with hd show False by simp
    qed
    then have big: "\<not> digits_value (ds @ [c]) < 10" by simp
    from c obtain k where k: "c = 48 + k" "k < 10"
      by (intro that [of "c - 48"]) auto
    then have "digits_value (ds @ [c]) div 10 = digits_value ds"
      "48 + digits_value (ds @ [c]) mod 10 = c"
      by simp_all
    moreover have "str_nat (digits_value (ds @ [c])) =
        str_nat (digits_value (ds @ [c]) div 10) @ [48 + digits_value (ds @ [c]) mod 10]"
      using big by (subst str_nat.simps) (simp only: if_False)
    ultimately show ?thesis using IH by (simp only:)
  qed
qed

lemma canonical_digits_iff: "canonical_digits ds \<longleftrightarrow> (\<exists>n. ds = str_nat n)"
  by (metis canonical_digits_str_nat canonical_str_nat)

lemma duration_suffix_no_digit [simp]:
  "\<not> is_digit (hd (lit ''ms''))" "\<not> is_digit (hd (lit ''s''))"
  by (simp_all add: lit_def is_digit_def)

lemma takeWhile_str_nat:
  "sfx \<noteq> [] \<Longrightarrow> \<not> is_digit (hd sfx) \<Longrightarrow>
     takeWhile is_digit (str_nat n @ sfx) = str_nat n \<and> dropWhile is_digit (str_nat n @ sfx) = sfx"
  using str_nat_digits [of n]
  by (cases sfx) (auto simp: takeWhile_append2 dropWhile_append2)

text \<open>The regular expression: a canonical numeral followed by \<open>ms\<close> or \<open>s\<close>.\<close>

lemma duration_match_iff:
  "duration_match s = Some (ds, sfx) \<longleftrightarrow>
     s = ds @ sfx \<and> (\<exists>n. ds = str_nat n) \<and> (sfx = lit ''ms'' \<or> sfx = lit ''s'')"
proof
  assume "duration_match s = Some (ds, sfx)"
  then have "ds = takeWhile is_digit s" "sfx = dropWhile is_digit s" "canonical_digits ds"
    "sfx = lit ''ms'' \<or> sfx = lit ''s''"
    by (auto simp: duration_match_def Let_def split: if_splits)
  then show "s = ds @ sfx \<and> (\<exists>n. ds = str_nat n) \<and> (sfx = lit ''ms'' \<or> sfx = lit ''s'')"
    by (simp add: canonical_digits_iff)
next
  assume *: "s = ds @ sfx \<and> (\<exists>n. ds = str_nat n) \<and> (sfx = lit ''ms'' \<or> sfx = lit ''s'')"
  then obtain n where "s = str_nat n @ sfx" "ds = str_nat n" by blast
  with * takeWhile_str_nat [of sfx n] show "duration_match s = Some (ds, sfx)"
    by (auto simp: duration_match_def Let_def canonical_str_nat)
qed

text \<open>The texts of a duration: in milliseconds, or in whole seconds.\<close>

definition duration_text :: "pystr \<Rightarrow> int \<Rightarrow> bool" where
  "duration_text s ms \<longleftrightarrow>
     (\<exists>n. s = str_nat n @ lit ''ms'' \<and> ms = int n \<or> s = str_nat n @ lit ''s'' \<and> ms = int n * 1000)"

lemma int_of_digits_str_nat: "int n \<le> MAX_DURATION_MS \<Longrightarrow> int_of_digits (str_nat n) = Inr (int n)"
  using length_str_nat [of n 7] by (simp add: int_of_digits_def INT_MAX_STR_DIGITS_def MAX_DURATION_MS_def)

lemma parse_duration_iff [check_iff]:
  "parse_duration v path = Inr ms \<longleftrightarrow> (\<exists>s. v = PStr s \<and> duration_text s ms \<and> ms \<le> MAX_DURATION_MS)"
proof
  assume "parse_duration v path = Inr ms"
  then obtain s ds sfx m where v: "v = PStr s" and match: "duration_match s = Some (ds, sfx)"
    and m: "int_of_digits ds = Inr m" and ms: "ms = (if sfx = lit ''ms'' then m else m * 1000)"
    and le: "ms \<le> MAX_DURATION_MS"
    by (auto simp: parse_duration_def Let_def res_iff split: pyval.splits option.splits if_splits)
  from match obtain n where n: "ds = str_nat n" "s = str_nat n @ sfx" "sfx = lit ''ms'' \<or> sfx = lit ''s''"
    by (auto simp: duration_match_iff)
  from m n have "m = int n" by (auto simp: int_of_digits_def split: if_splits)
  with v n ms le show "\<exists>s. v = PStr s \<and> duration_text s ms \<and> ms \<le> MAX_DURATION_MS"
    by (auto simp: duration_text_def)
next
  assume "\<exists>s. v = PStr s \<and> duration_text s ms \<and> ms \<le> MAX_DURATION_MS"
  then obtain s n where v: "v = PStr s" and le: "ms \<le> MAX_DURATION_MS"
    and s: "s = str_nat n @ lit ''ms'' \<and> ms = int n \<or> s = str_nat n @ lit ''s'' \<and> ms = int n * 1000"
    by (auto simp: duration_text_def)
  from s le have "int n \<le> MAX_DURATION_MS" by auto
  then have "int_of_digits (str_nat n) = Inr (int n)" by (rule int_of_digits_str_nat)
  moreover from s have "duration_match s = Some (str_nat n, lit ''ms'') \<and> ms = int n \<or>
      duration_match s = Some (str_nat n, lit ''s'') \<and> ms = int n * 1000"
    by (auto simp: duration_match_iff)
  ultimately show "parse_duration v path = Inr ms"
    using v le by (auto simp: parse_duration_def)
qed

lemma duration_text_nonneg: "duration_text s ms \<Longrightarrow> 0 \<le> ms"
  by (auto simp: duration_text_def)

lemma duration_text_ms: "0 \<le> ms \<Longrightarrow> duration_text (str_int ms @ lit ''ms'') ms"
  by (auto simp: duration_text_def str_int_def intro!: exI [of _ "nat ms"])

lemma duration_text_s: "0 \<le> n \<Longrightarrow> duration_text (str_int n @ lit ''s'') (n * 1000)"
  by (auto simp: duration_text_def str_int_def intro!: exI [of _ "nat n"])

section \<open>The specification: typed scenarios\<close>

datatype action_spec =
    WriteAct pystr
  | EioAct int
  | DelayAct int
  | PartialReadAct int
  | DisconnectAct
  | ClearAct
  | ResetAct

datatype assertion_spec =
    EventCountA pystr int "int option" "int option"
  | StdoutA "pystr option" "pystr option"
  | DisconnectA bool
  | KernelWarningsA int

record scenario_spec =
  ss_device :: pystr
  ss_command :: "pystr list"
  ss_startup :: int
  ss_name :: pystr
  ss_timeout :: int
  ss_events :: "(int \<times> action_spec) list"
  ss_assertions :: "assertion_spec list"

fun wf_action :: "action_spec \<Rightarrow> bool" where
  "wf_action (WriteAct text) \<longleftrightarrow> text \<noteq> []"
| "wf_action (EioAct n) \<longleftrightarrow> 1 \<le> n \<and> n \<le> MAX_EIO_REPEAT"
| "wf_action (DelayAct ms) \<longleftrightarrow> 0 \<le> ms \<and> ms \<le> MAX_DURATION_MS"
| "wf_action (PartialReadAct n) \<longleftrightarrow> 1 \<le> n \<and> n \<le> MAX_PARTIAL_READ_BYTES"
| "wf_action _ \<longleftrightarrow> True"

definition wf_bound :: "int \<Rightarrow> int option \<Rightarrow> bool" where
  "wf_bound timeout b \<longleftrightarrow> (case b of None \<Rightarrow> True | Some ms \<Rightarrow> 0 \<le> ms \<and> ms \<le> timeout)"

fun wf_assertion :: "int \<Rightarrow> assertion_spec \<Rightarrow> bool" where
  "wf_assertion timeout (EventCountA event count wms latency) \<longleftrightarrow>
     event \<in> set LOG_EVENTS \<and> 1 \<le> count \<and> count \<le> 1000000 \<and> wf_bound timeout wms \<and>
     wf_bound timeout latency \<and> (latency \<noteq> None \<longrightarrow> event = lit ''RECOVERY_SUCCESS'')"
| "wf_assertion timeout (StdoutA contains excludes) \<longleftrightarrow>
     contains \<noteq> Some [] \<and> excludes \<noteq> Some [] \<and> (contains \<noteq> None \<or> excludes \<noteq> None)"
| "wf_assertion timeout (DisconnectA b) \<longleftrightarrow> True"
| "wf_assertion timeout (KernelWarningsA n) \<longleftrightarrow> 0 \<le> n \<and> n \<le> 1000000"

definition wf_spec :: "scenario_spec \<Rightarrow> bool" where
  "wf_spec a \<longleftrightarrow>
     prefix (lit ''/dev/'') (ss_device a) \<and>
     ss_command a \<noteq> [] \<and> [] \<notin> set (ss_command a) \<and>
     0 \<le> ss_startup a \<and> ss_startup a \<le> MAX_DURATION_MS \<and>
     ss_name a \<noteq> [] \<and>
     0 \<le> ss_timeout a \<and> ss_timeout a \<le> MAX_DURATION_MS \<and>
     ss_events a \<noteq> [] \<and> sorted (map fst (ss_events a)) \<and>
     (\<forall>(t, act) \<in> set (ss_events a). 0 \<le> t \<and> t \<le> ss_timeout a \<and> wf_action act) \<and>
     ss_assertions a \<noteq> [] \<and> (\<forall>x \<in> set (ss_assertions a). wf_assertion (ss_timeout a) x)"

subsection \<open>Normal forms\<close>

fun action_fields :: "action_spec \<Rightarrow> pydict" where
  "action_fields (WriteAct text) = [(lit ''action'', PStr (lit ''write'')), (lit ''data'', PStr text)]"
| "action_fields (EioAct n) =
     [(lit ''action'', PStr (lit ''fault'')), (lit ''type'', PStr (lit ''eio'')), (lit ''repeat'', PInt n)]"
| "action_fields (DelayAct ms) =
     [(lit ''action'', PStr (lit ''fault'')), (lit ''type'', PStr (lit ''delay'')),
      (lit ''duration_ms'', PInt ms)]"
| "action_fields (PartialReadAct n) =
     [(lit ''action'', PStr (lit ''fault'')), (lit ''type'', PStr (lit ''partial-read'')),
      (lit ''bytes'', PInt n)]"
| "action_fields DisconnectAct =
     [(lit ''action'', PStr (lit ''fault'')), (lit ''type'', PStr (lit ''disconnect''))]"
| "action_fields ClearAct = [(lit ''action'', PStr (lit ''clear''))]"
| "action_fields ResetAct = [(lit ''action'', PStr (lit ''reset''))]"

definition norm_event :: "int \<times> action_spec \<Rightarrow> pydict" where
  "norm_event ev = action_fields (snd ev) @ [(lit ''at_ms'', PInt (fst ev))]"

fun opt_field :: "pystr \<Rightarrow> ('a \<Rightarrow> pyval) \<Rightarrow> 'a option \<Rightarrow> pydict" where
  "opt_field k f None = []"
| "opt_field k f (Some x) = [(k, f x)]"

fun norm_assertion :: "assertion_spec \<Rightarrow> pydict" where
  "norm_assertion (EventCountA event count wms latency) =
     [(lit ''type'', PStr (lit ''event_count'')), (lit ''event'', PStr event), (lit ''count'', PInt count)]
     @ opt_field (lit ''within_ms'') PInt wms @ opt_field (lit ''max_latency_ms'') PInt latency"
| "norm_assertion (StdoutA contains excludes) =
     [(lit ''type'', PStr (lit ''stdout''))]
     @ opt_field (lit ''contains'') PStr contains @ opt_field (lit ''not_contains'') PStr excludes"
| "norm_assertion (DisconnectA b) =
     [(lit ''type'', PStr (lit ''disconnect'')), (lit ''expected'', PBool b)]"
| "norm_assertion (KernelWarningsA n) =
     [(lit ''type'', PStr (lit ''kernel_warnings'')), (lit ''count'', PInt n)]"

definition normal_form :: "pystr \<Rightarrow> scenario_spec \<Rightarrow> ScenarioDefinition" where
  "normal_form source a =
     \<lparr>sd_source = source, sd_schema_version = SCHEMA_VERSION, sd_device_path = ss_device a,
      sd_command = ss_command a, sd_startup_timeout_ms = ss_startup a, sd_name = ss_name a,
      sd_timeout_ms = ss_timeout a, sd_events = map norm_event (ss_events a),
      sd_assertions = map norm_assertion (ss_assertions a)\<rparr>"

subsection \<open>Documents\<close>

definition ms_val :: "int \<Rightarrow> pyval" where
  "ms_val ms = PStr (str_int ms @ lit ''ms'')"

fun action_doc :: "action_spec \<Rightarrow> pydict" where
  "action_doc (DelayAct ms) =
     [(lit ''action'', PStr (lit ''fault'')), (lit ''type'', PStr (lit ''delay'')),
      (lit ''duration'', ms_val ms)]"
| "action_doc act = action_fields act"

definition event_doc :: "int \<times> action_spec \<Rightarrow> pyval" where
  "event_doc ev = pydict_val ((lit ''at'', ms_val (fst ev)) # action_doc (snd ev))"

fun assertion_doc :: "assertion_spec \<Rightarrow> pyval" where
  "assertion_doc (EventCountA event count wms latency) =
     pydict_val ([(lit ''event'', PStr event), (lit ''count'', PInt count)]
       @ opt_field (lit ''within'') ms_val wms @ opt_field (lit ''max_latency'') ms_val latency)"
| "assertion_doc a = pydict_val (norm_assertion a)"

definition render :: "scenario_spec \<Rightarrow> pyval" where
  "render a =
     pydict_val
       [(lit ''schema_version'', PInt SCHEMA_VERSION),
        (lit ''device'', pydict_val [(lit ''path'', PStr (ss_device a))]),
        (lit ''application'', pydict_val
           [(lit ''command'', PList (map PStr (ss_command a))), (lit ''startup_timeout'', ms_val (ss_startup a))]),
        (lit ''scenario'', pydict_val
           [(lit ''name'', PStr (ss_name a)), (lit ''timeout'', ms_val (ss_timeout a)),
            (lit ''events'', PList (map event_doc (ss_events a)))]),
        (lit ''assertions'', PList (map assertion_doc (ss_assertions a)))]"

section \<open>Completeness: every rendering of a well-formed scenario is accepted\<close>

lemma parse_duration_ms_val [simp]:
  "0 \<le> ms \<Longrightarrow> ms \<le> MAX_DURATION_MS \<Longrightarrow> parse_duration (ms_val ms) path = Inr ms"
  by (simp add: parse_duration_iff ms_val_def duration_text_ms)

lemma check_evalI:
  "\<forall>n \<in> set ns. dhas d n \<Longrightarrow> required d ns path = Inr ()"
  "\<forall>k \<in> set (dkeys d). k \<in> set ns \<Longrightarrow> allowed d ns path = Inr ()"
  "s \<noteq> [] \<Longrightarrow> non_empty_string (PStr s) path = Inr s"
  "lo \<le> n \<Longrightarrow> n \<le> hi \<Longrightarrow> bounded_integer (PInt n) path lo hi = Inr n"
  "xs \<noteq> [] \<Longrightarrow> non_empty_list (PList xs) path = Inr xs"
  "boolean (PBool b) path = Inr b"
  by (simp_all add: check_iff)

lemma dkeys_simps [simp]: "dkeys [] = []" "dkeys ((k, v) # d) = k # dkeys d"
  by (simp_all add: dkeys_def)

lemma parse_event_complete:
  assumes "0 \<le> fst ev" "fst ev \<le> timeout" "timeout \<le> MAX_DURATION_MS" "wf_action (snd ev)"
  shows "parse_event timeout i (event_doc ev) = Inr (fst ev, i, norm_event ev)"
  using assms
  by (cases "snd ev")
     (simp_all add: parse_event_checked event_doc_def norm_event_def Let_def check_evalI
        parse_event_action_checked parse_fault_event_checked)

lemma parse_assertion_complete:
  assumes "wf_assertion timeout x" "timeout \<le> MAX_DURATION_MS"
  shows "parse_assertion timeout i (assertion_doc x) = Inr (norm_assertion x)"
proof (cases x)
  case (EventCountA event count wms latency)
  with assms show ?thesis
    by (cases wms; cases latency)
       (auto simp: parse_assertion_checked Let_def check_evalI parse_event_assertion_checked
          parse_within_checked parse_max_latency_checked wf_bound_def dget_default_def LOG_EVENTS_def)
next
  case (StdoutA contains excludes)
  with assms show ?thesis
    by (cases contains; cases excludes)
       (auto simp: parse_assertion_checked Let_def check_evalI parse_stdout_assertion_def
          parse_stdout_text_checked dget_default_def)
next
  case (DisconnectA b)
  then show ?thesis by (simp add: parse_assertion_checked Let_def check_evalI dget_default_def)
next
  case (KernelWarningsA n)
  with assms show ?thesis by (simp add: parse_assertion_checked Let_def check_evalI dget_default_def)
qed

lemma check_event_order_iff:
  "check_event_order n ps = Inr () \<longleftrightarrow> sorted (map fst ps)"
  by (induction n ps rule: check_event_order.induct) (auto simp: not_less)

lemma parse_command_complete:
  assumes "[] \<notin> set cmd"
  shows "traverse_from 0 command_argument (map PStr cmd) = Inr cmd"
proof -
  have "cmd ! i \<noteq> []" if "i < length cmd" for i
    using assms that by (metis nth_mem)
  then show ?thesis
    by (simp add: traverse_from_Inr_iff command_argument_def non_empty_string_iff)
qed

lemma parse_application_complete:
  assumes "cmd \<noteq> []" "[] \<notin> set cmd" "0 \<le> ms" "ms \<le> MAX_DURATION_MS"
  shows "parse_application (pydict_val
           [(lit ''command'', PList (map PStr cmd)), (lit ''startup_timeout'', ms_val ms)]) = Inr (cmd, ms)"
  using assms
  by (simp add: parse_application_checked check_evalI parse_command_complete dget_default_def)

lemma parse_events_complete:
  assumes "\<forall>(t, act) \<in> set evs. 0 \<le> t \<and> t \<le> timeout \<and> wf_action act" "timeout \<le> MAX_DURATION_MS"
  shows "\<exists>ps. traverse_from 0 (parse_event timeout) (map event_doc evs) = Inr ps \<and>
           map fst ps = map fst evs \<and> map (\<lambda>p. snd (snd p)) ps = map norm_event evs"
proof (intro exI conjI)
  let ?ps = "map (\<lambda>i. (fst (evs ! i), i, norm_event (evs ! i))) [0..<length evs]"
  have "parse_event timeout i (event_doc (evs ! i)) = Inr (fst (evs ! i), i, norm_event (evs ! i))"
    if "i < length evs" for i
    using assms nth_mem [OF that] by (intro parse_event_complete) auto
  then show "traverse_from 0 (parse_event timeout) (map event_doc evs) = Inr ?ps"
    by (simp add: traverse_from_Inr_iff)
  show "map fst ?ps = map fst evs" "map (\<lambda>p. snd (snd p)) ?ps = map norm_event evs"
    by (auto intro!: nth_equalityI)
qed

lemma parse_scenario_section_complete:
  assumes "name \<noteq> []" "0 \<le> timeout" "timeout \<le> MAX_DURATION_MS" "evs \<noteq> []" "sorted (map fst evs)"
    and evs: "\<forall>(t, act) \<in> set evs. 0 \<le> t \<and> t \<le> timeout \<and> wf_action act"
  shows "parse_scenario_section (pydict_val
           [(lit ''name'', PStr name), (lit ''timeout'', ms_val timeout),
            (lit ''events'', PList (map event_doc evs))]) = Inr (name, timeout, map norm_event evs)"
proof -
  obtain ps where ps: "traverse_from 0 (parse_event timeout) (map event_doc evs) = Inr ps"
      "map fst ps = map fst evs" "map (\<lambda>p. snd (snd p)) ps = map norm_event evs"
    using parse_events_complete [OF evs assms(3)] by blast
  then have "check_event_order 1 ps = Inr ()"
    using assms(5) by (simp add: check_event_order_iff)
  with assms ps show ?thesis
    by (simp add: parse_scenario_section_checked check_evalI)
qed

lemma parse_assertions_complete:
  assumes "xs \<noteq> []" "\<forall>x \<in> set xs. wf_assertion timeout x" "timeout \<le> MAX_DURATION_MS"
  shows "parse_assertions (PList (map assertion_doc xs)) timeout = Inr (map norm_assertion xs)"
  using assms by (simp add: parse_assertions_def check_evalI traverse_from_Inr_iff parse_assertion_complete)

lemma parse_device_complete:
  assumes "prefix (lit ''/dev/'') path"
  shows "parse_device (pydict_val [(lit ''path'', PStr path)]) = Inr path"
proof -
  from assms have "path \<noteq> []" by auto
  with assms show ?thesis by (simp add: parse_device_checked check_evalI)
qed

lemma parse_document_render:
  assumes "wf_spec a"
  shows "parse_document source (render a) = Inr (normal_form source a)"
proof -
  let ?d = "[(lit ''schema_version'', PInt SCHEMA_VERSION),
        (lit ''device'', pydict_val [(lit ''path'', PStr (ss_device a))]),
        (lit ''application'', pydict_val
           [(lit ''command'', PList (map PStr (ss_command a))), (lit ''startup_timeout'', ms_val (ss_startup a))]),
        (lit ''scenario'', pydict_val
           [(lit ''name'', PStr (ss_name a)), (lit ''timeout'', ms_val (ss_timeout a)),
            (lit ''events'', PList (map event_doc (ss_events a)))]),
        (lit ''assertions'', PList (map assertion_doc (ss_assertions a)))]"
  have "required ?d ROOT_FIELDS p = Inr ()" "allowed ?d ROOT_FIELDS p = Inr ()" for p
    by (simp_all add: check_evalI ROOT_FIELDS_def)
  with assms show ?thesis
    by (simp add: wf_spec_def parse_document_checked render_def normal_form_def parse_schema_version_def
        parse_device_complete parse_application_complete parse_scenario_section_complete
        parse_assertions_complete)
qed

section \<open>Soundness: what is accepted is the normal form of a well-formed scenario\<close>

definition doc_fields :: "action_spec \<Rightarrow> pystr set" where
  "doc_fields act = insert (lit ''at'') (set (dkeys (action_doc act)))"

lemma exact_fields:
  "required d ns p = Inr x \<Longrightarrow> allowed d ns q = Inr y \<Longrightarrow> set (dkeys d) = set ns"
  by (auto simp: required_iff allowed_iff dhas_def)

lemma parse_fault_event_sound:
  assumes "parse_fault_event ev path = Inr d"
  shows "\<exists>act. wf_action act \<and> d = action_fields act \<and> set (dkeys ev) = doc_fields act"
proof -
  from assms obtain ft where ft: "dget ev (lit ''type'') = PStr ft"
    by (auto simp: parse_fault_event_checked Let_def rbind_Inr_iff non_empty_string_iff)
  consider "ft = lit ''eio''" | "ft = lit ''delay''" | "ft = lit ''partial-read''" | "ft = lit ''disconnect''"
    using assms ft
    by (auto simp: parse_fault_event_checked Let_def rbind_Inr_iff non_empty_string_iff split: if_splits)
  then show ?thesis
  proof cases
    case 1
    with assms ft obtain n where "d = action_fields (EioAct n)" "wf_action (EioAct n)"
      "set (dkeys ev) = doc_fields (EioAct n)"
      by (auto simp: parse_fault_event_checked Let_def rbind_Inr_iff non_empty_string_iff
          bounded_integer_iff doc_fields_def dest: exact_fields)
    then show ?thesis by blast
  next
    case 2
    with assms ft obtain ms s where d: "d = action_fields (DelayAct ms)"
      and ms: "duration_text s ms" "ms \<le> MAX_DURATION_MS"
      and exact: "set (dkeys ev) = doc_fields (DelayAct ms)"
      by (auto simp: parse_fault_event_checked Let_def rbind_Inr_iff non_empty_string_iff
          parse_duration_iff doc_fields_def dest: exact_fields)
    from ms have "wf_action (DelayAct ms)" by (simp add: duration_text_nonneg)
    with d exact show ?thesis by blast
  next
    case 3
    with assms ft obtain n where "d = action_fields (PartialReadAct n)" "wf_action (PartialReadAct n)"
      "set (dkeys ev) = doc_fields (PartialReadAct n)"
      by (auto simp: parse_fault_event_checked Let_def rbind_Inr_iff non_empty_string_iff
          bounded_integer_iff doc_fields_def dest: exact_fields)
    then show ?thesis by blast
  next
    case 4
    with assms ft have "d = action_fields DisconnectAct" "set (dkeys ev) = doc_fields DisconnectAct"
      by (auto simp: parse_fault_event_checked Let_def rbind_Inr_iff non_empty_string_iff
          doc_fields_def dest: exact_fields)
    then show ?thesis by (intro exI [of _ DisconnectAct]) simp
  qed
qed

lemma parse_event_action_sound:
  assumes "parse_event_action ev path a = Inr d" "required ev (map lit [''at'', ''action'']) q = Inr ()"
  shows "\<exists>act. wf_action act \<and> d = action_fields act \<and> set (dkeys ev) = doc_fields act"
proof -
  consider "a = lit ''write''" | "a = lit ''fault''" | "a = lit ''clear''" | "a = lit ''reset''"
    using assms by (auto simp: parse_event_action_checked split: if_splits)
  then show ?thesis
  proof cases
    case 1
    with assms(1) obtain s where "d = action_fields (WriteAct s)" "wf_action (WriteAct s)"
      "set (dkeys ev) = doc_fields (WriteAct s)"
      by (auto simp: parse_event_action_checked rbind_Inr_iff non_empty_string_iff doc_fields_def
          dest: exact_fields)
    then show ?thesis by blast
  next
    case 2
    with assms have "parse_fault_event ev path = Inr d" by (simp add: parse_event_action_checked)
    then show ?thesis by (rule parse_fault_event_sound)
  next
    case 3
    with assms have "d = action_fields ClearAct" "set (dkeys ev) = doc_fields ClearAct"
      by (auto simp: parse_event_action_checked rbind_Inr_iff doc_fields_def dest: exact_fields)
    then show ?thesis by (intro exI [of _ ClearAct]) simp
  next
    case 4
    with assms have "d = action_fields ResetAct" "set (dkeys ev) = doc_fields ResetAct"
      by (auto simp: parse_event_action_checked rbind_Inr_iff doc_fields_def dest: exact_fields)
    then show ?thesis by (intro exI [of _ ResetAct]) simp
  qed
qed

lemma dset_action_fields:
  "dset (action_fields act) (lit ''at_ms'') v = action_fields act @ [(lit ''at_ms'', v)]"
  by (cases act) (simp_all add: dset_fresh)

lemma parse_event_sound:
  assumes "parse_event timeout i v = Inr (t, j, d)"
  shows "j = i \<and> 0 \<le> t \<and> t \<le> timeout \<and>
    (\<exists>act ev. wf_action act \<and> d = norm_event (t, act) \<and> v = pydict_val ev \<and> set (dkeys ev) = doc_fields act)"
proof -
  from assms obtain ev a n where t: "0 \<le> t" "t \<le> timeout" "j = i" and v: "v = pydict_val ev"
    and req: "required ev (map lit [''at'', ''action'']) (event_path i) = Inr ()"
    and n: "parse_event_action ev (event_path i) a = Inr n" and d: "d = dset n (lit ''at_ms'') (PInt t)"
    by (auto simp: parse_event_checked Let_def rbind_Inr_iff parse_duration_iff mapping_iff
          dest: duration_text_nonneg split: if_splits)
  from parse_event_action_sound [OF n req] t d v show ?thesis
    by (auto simp: norm_event_def dset_action_fields)
qed

lemma parse_within_sound:
  assumes "parse_within as path timeout n = Inr d" "\<not> dhas n (lit ''within_ms'')"
  shows "\<exists>b. wf_bound timeout b \<and> d = n @ opt_field (lit ''within_ms'') PInt b"
proof (cases "dhas as (lit ''within'')")
  case True
  with assms obtain ms where "0 \<le> ms" "ms \<le> timeout" "d = n @ [(lit ''within_ms'', PInt ms)]"
    by (auto simp: parse_within_checked rbind_Inr_iff parse_duration_iff dset_fresh
          dest: duration_text_nonneg split: if_splits)
  then show ?thesis by (intro exI [of _ "Some ms"]) (simp add: wf_bound_def)
next
  case False
  with assms show ?thesis by (intro exI [of _ None]) (simp add: parse_within_checked wf_bound_def)
qed

lemma parse_max_latency_sound:
  assumes "parse_max_latency as path timeout event n = Inr d" "\<not> dhas n (lit ''max_latency_ms'')"
  shows "\<exists>b. wf_bound timeout b \<and> (b \<noteq> None \<longrightarrow> event = lit ''RECOVERY_SUCCESS'') \<and>
           d = n @ opt_field (lit ''max_latency_ms'') PInt b"
proof (cases "dhas as (lit ''max_latency'')")
  case True
  with assms obtain ms where "0 \<le> ms" "ms \<le> timeout" "event = lit ''RECOVERY_SUCCESS''"
    "d = n @ [(lit ''max_latency_ms'', PInt ms)]"
    by (auto simp: parse_max_latency_checked rbind_Inr_iff parse_duration_iff dset_fresh
          dest: duration_text_nonneg split: if_splits)
  then show ?thesis by (intro exI [of _ "Some ms"]) (simp add: wf_bound_def)
next
  case False
  with assms show ?thesis by (intro exI [of _ None]) (simp add: parse_max_latency_checked wf_bound_def)
qed

lemma parse_event_assertion_sound:
  assumes "parse_event_assertion as path timeout = Inr d"
  shows "\<exists>x. wf_assertion timeout x \<and> d = norm_assertion x"
proof -
  from assms obtain event count n where ev: "event \<in> set LOG_EVENTS" "1 \<le> count" "count \<le> 1000000"
    and n: "parse_within as path timeout [(lit ''type'', PStr (lit ''event_count'')),
              (lit ''event'', PStr event), (lit ''count'', PInt count)] = Inr n"
    and d: "parse_max_latency as path timeout event n = Inr d"
    by (auto simp: parse_event_assertion_checked rbind_Inr_iff bounded_integer_iff split: if_splits)
  from parse_within_sound [OF n] obtain b where b: "wf_bound timeout b"
    and n': "n = [(lit ''type'', PStr (lit ''event_count'')), (lit ''event'', PStr event),
       (lit ''count'', PInt count)] @ opt_field (lit ''within_ms'') PInt b"
    by auto
  then have "\<not> dhas n (lit ''max_latency_ms'')" by (cases b) simp_all
  from parse_max_latency_sound [OF d this] obtain c where "wf_bound timeout c"
    "c \<noteq> None \<longrightarrow> event = lit ''RECOVERY_SUCCESS''" "d = n @ opt_field (lit ''max_latency_ms'') PInt c"
    by blast
  with ev b n' show ?thesis
    by (intro exI [of _ "EventCountA event count b c"]) simp
qed

lemma parse_stdout_text_sound:
  assumes "parse_stdout_text as path key n = Inr d" "\<not> dhas n key"
  shows "\<exists>t. t \<noteq> Some [] \<and> (t \<noteq> None \<longleftrightarrow> dhas as key) \<and> d = n @ opt_field key PStr t"
proof (cases "dhas as key")
  case True
  with assms obtain s where "s \<noteq> []" "d = n @ [(key, PStr s)]"
    by (auto simp: parse_stdout_text_checked rbind_Inr_iff non_empty_string_iff dset_fresh)
  with True show ?thesis by (intro exI [of _ "Some s"]) simp
next
  case False
  with assms show ?thesis by (intro exI [of _ None]) (simp add: parse_stdout_text_checked)
qed

lemma parse_stdout_assertion_sound:
  assumes "parse_stdout_assertion as path = Inr d"
  shows "\<exists>x. wf_assertion timeout x \<and> d = norm_assertion x"
proof -
  from assms obtain n where some: "dhas as (lit ''contains'') \<or> dhas as (lit ''not_contains'')"
    and n: "parse_stdout_text as path (lit ''contains'') [(lit ''type'', PStr (lit ''stdout''))] = Inr n"
    and d: "parse_stdout_text as path (lit ''not_contains'') n = Inr d"
    by (auto simp: parse_stdout_assertion_def rbind_Inr_iff split: if_splits)
  from parse_stdout_text_sound [OF n] obtain t where t: "t \<noteq> Some []" "t \<noteq> None \<longleftrightarrow> dhas as (lit ''contains'')"
    and n': "n = [(lit ''type'', PStr (lit ''stdout''))] @ opt_field (lit ''contains'') PStr t"
    by auto
  then have "\<not> dhas n (lit ''not_contains'')" by (cases t) simp_all
  from parse_stdout_text_sound [OF d this] obtain r where "r \<noteq> Some []"
    "r \<noteq> None \<longleftrightarrow> dhas as (lit ''not_contains'')" "d = n @ opt_field (lit ''not_contains'') PStr r"
    by auto
  with some t n' show ?thesis by (intro exI [of _ "StdoutA t r"]) auto
qed

lemma parse_assertion_sound:
  assumes "parse_assertion timeout i v = Inr d"
  shows "\<exists>x. wf_assertion timeout x \<and> d = norm_assertion x"
proof -
  from assms obtain as where as: "mapping v (assertion_path i) = Inr as"
    by (auto simp: parse_assertion_checked Let_def rbind_Inr_iff)
  let ?ty = "dget_default as (lit ''type'') (PStr (lit ''event_count''))"
  consider "?ty = PStr (lit ''event_count'')" | "?ty = PStr (lit ''stdout'')"
    | "?ty = PStr (lit ''disconnect'')" | "?ty = PStr (lit ''kernel_warnings'')"
    using assms as by (auto simp: parse_assertion_checked Let_def split: if_splits)
  then show ?thesis
  proof cases
    case 1
    with assms as have "parse_event_assertion as (assertion_path i) timeout = Inr d"
      by (simp add: parse_assertion_checked)
    then show ?thesis by (rule parse_event_assertion_sound)
  next
    case 2
    with assms as have "parse_stdout_assertion as (assertion_path i) = Inr d"
      by (simp add: parse_assertion_checked)
    then show ?thesis by (rule parse_stdout_assertion_sound)
  next
    case 3
    with assms as obtain b where "d = norm_assertion (DisconnectA b)"
      by (auto simp: parse_assertion_checked Let_def rbind_Inr_iff)
    then show ?thesis by (intro exI [of _ "DisconnectA b"]) simp
  next
    case 4
    with assms as obtain n where "d = norm_assertion (KernelWarningsA n)" "0 \<le> n" "n \<le> 1000000"
      by (auto simp: parse_assertion_checked Let_def rbind_Inr_iff bounded_integer_iff)
    then show ?thesis by (intro exI [of _ "KernelWarningsA n"]) simp
  qed
qed

lemma traverse_from_sound:
  assumes "traverse_from n f xs = Inr ys"
    and "\<forall>i x y. f i x = Inr y \<longrightarrow> (\<exists>a. P a \<and> y = g a)"
  shows "\<exists>as. ys = map g as \<and> (\<forall>a \<in> set as. P a) \<and> (as = [] \<longleftrightarrow> xs = [])"
proof -
  have len: "length ys = length xs" using assms(1) by (simp add: traverse_from_Inr_iff)
  have "\<forall>y \<in> set ys. \<exists>a. P a \<and> y = g a"
    using assms by (fastforce simp: traverse_from_Inr_iff in_set_conv_nth)
  from list_preimage [OF this] obtain as where as: "ys = map g as" "\<forall>a \<in> set as. P a" by blast
  moreover have "as = [] \<longleftrightarrow> xs = []" using len as by auto
  ultimately show ?thesis by blast
qed

lemma parse_scenario_section_sound:
  assumes "parse_scenario_section v = Inr (name, timeout, events)"
  shows "name \<noteq> [] \<and> 0 \<le> timeout \<and> timeout \<le> MAX_DURATION_MS \<and>
    (\<exists>evs. evs \<noteq> [] \<and> events = map norm_event evs \<and> sorted (map fst evs) \<and>
      (\<forall>(t, act) \<in> set evs. 0 \<le> t \<and> t \<le> timeout \<and> wf_action act))"
proof -
  from assms obtain raw ps where scalars: "name \<noteq> []" "0 \<le> timeout" "timeout \<le> MAX_DURATION_MS"
    and raw: "raw \<noteq> []" "traverse_from 0 (parse_event timeout) raw = Inr ps"
    and order: "check_event_order 1 ps = Inr ()"
    and events: "events = map (\<lambda>item. snd (snd item)) ps"
    by (auto simp: parse_scenario_section_checked rbind_Inr_iff check_iff
        dest: duration_text_nonneg)
  let ?P = "\<lambda>(t, i :: nat, act). 0 \<le> t \<and> t \<le> timeout \<and> wf_action act"
  let ?g = "\<lambda>(t, i :: nat, act). (t, i, norm_event (t, act))"
  have "\<exists>a. ?P a \<and> p = ?g a" if "parse_event timeout i x = Inr p" for i x p
  proof -
    obtain t j d where p: "p = (t, j, d)" by (cases p)
    with parse_event_sound [OF that [unfolded p]] obtain act where "0 \<le> t" "t \<le> timeout"
      "wf_action act" "d = norm_event (t, act)" by blast
    with p show ?thesis by (intro exI [of _ "(t, j, act)"]) simp
  qed
  then have "\<forall>i x p. parse_event timeout i x = Inr p \<longrightarrow> (\<exists>a. ?P a \<and> p = ?g a)" by blast
  from traverse_from_sound [OF raw(2) this] obtain qs where
    ps: "ps = map ?g qs" and P: "\<forall>a \<in> set qs. ?P a" and ne: "qs = [] \<longleftrightarrow> raw = []" by blast
  let ?evs = "map (\<lambda>(t, i, act). (t, act)) qs"
  have "map fst ps = map fst ?evs" using ps by (auto simp: case_prod_unfold)
  then have "sorted (map fst ?evs)" using order by (simp add: check_event_order_iff)
  moreover have "events = map norm_event ?evs" using events ps by (auto simp: case_prod_unfold)
  moreover have "\<forall>(t, act) \<in> set ?evs. 0 \<le> t \<and> t \<le> timeout \<and> wf_action act" using P by auto
  moreover have "?evs \<noteq> []" using ne raw(1) by simp
  ultimately show ?thesis using scalars by blast
qed

lemma parse_application_sound:
  assumes "parse_application v = Inr (cmd, ms)"
  shows "cmd \<noteq> [] \<and> [] \<notin> set cmd \<and> 0 \<le> ms \<and> ms \<le> MAX_DURATION_MS"
proof -
  from assms obtain raw where raw: "raw \<noteq> []" "traverse_from 0 command_argument raw = Inr cmd"
    and ms: "0 \<le> ms" "ms \<le> MAX_DURATION_MS"
    by (auto simp: parse_application_checked rbind_Inr_iff parse_duration_iff non_empty_list_iff
        dest: duration_text_nonneg)
  have "\<forall>i x s. command_argument i x = Inr s \<longrightarrow> (\<exists>a. a \<noteq> [] \<and> s = id a)"
    by (simp add: command_argument_def non_empty_string_iff)
  from traverse_from_sound [OF raw(2) this] raw(1) ms show ?thesis by auto
qed

lemma parse_assertions_sound:
  assumes "parse_assertions v timeout = Inr ds"
  shows "\<exists>xs. xs \<noteq> [] \<and> ds = map norm_assertion xs \<and> (\<forall>x \<in> set xs. wf_assertion timeout x)"
proof -
  from assms obtain raw where raw: "raw \<noteq> []" "traverse_from 0 (parse_assertion timeout) raw = Inr ds"
    by (auto simp: parse_assertions_def rbind_Inr_iff non_empty_list_iff)
  have "\<forall>i v d. parse_assertion timeout i v = Inr d \<longrightarrow> (\<exists>x. wf_assertion timeout x \<and> d = norm_assertion x)"
    by (blast intro: parse_assertion_sound)
  from traverse_from_sound [OF raw(2) this] raw(1) show ?thesis by blast
qed

lemma parse_document_normal_form:
  assumes "parse_document source v = Inr sd"
  shows "\<exists>a. wf_spec a \<and> sd = normal_form source a"
proof -
  from assms obtain root sv dev cmd startup name timeout events assertions where
    sv: "parse_schema_version (dget root (lit ''schema_version'')) = Inr sv"
    and dev: "parse_device (dget root (lit ''device'')) = Inr dev"
    and app: "parse_application (dget root (lit ''application'')) = Inr (cmd, startup)"
    and sc: "parse_scenario_section (dget root (lit ''scenario'')) = Inr (name, timeout, events)"
    and asr: "parse_assertions (dget root (lit ''assertions'')) timeout = Inr assertions"
    and sd: "sd = \<lparr>sd_source = source, sd_schema_version = sv, sd_device_path = dev,
          sd_command = cmd, sd_startup_timeout_ms = startup, sd_name = name,
          sd_timeout_ms = timeout, sd_events = events, sd_assertions = assertions\<rparr>"
    by (auto simp: parse_document_checked rbind_Inr_iff)
  from sv have "sv = SCHEMA_VERSION" by (auto simp: parse_schema_version_def split: pyval.splits if_splits)
  moreover from dev have "prefix (lit ''/dev/'') dev"
    by (auto simp: parse_device_checked rbind_Inr_iff split: if_splits)
  moreover from parse_scenario_section_sound [OF sc] obtain evs where
    "name \<noteq> []" "0 \<le> timeout" "timeout \<le> MAX_DURATION_MS" "evs \<noteq> []" "events = map norm_event evs"
    "sorted (map fst evs)" "\<forall>(t, act) \<in> set evs. 0 \<le> t \<and> t \<le> timeout \<and> wf_action act"
    by blast
  moreover from parse_assertions_sound [OF asr] obtain xs where
    "xs \<noteq> []" "assertions = map norm_assertion xs" "\<forall>x \<in> set xs. wf_assertion timeout x" by blast
  ultimately show ?thesis
    using parse_application_sound [OF app] sd
    by (intro exI [of _ "\<lparr>ss_device = dev, ss_command = cmd, ss_startup = startup, ss_name = name,
          ss_timeout = timeout, ss_events = evs, ss_assertions = xs\<rparr>"])
       (simp add: wf_spec_def normal_form_def)
qed

text \<open>The first event earlier than its predecessor is the one reported.\<close>

lemma check_event_order_first:
  "check_event_order n ps = Inl e \<Longrightarrow>
     \<exists>i. Suc i < length ps \<and> sorted (map fst (take (Suc i) ps)) \<and> fst (ps ! Suc i) < fst (ps ! i) \<and>
       e = ScenarioError (event_path (n + i) @ lit ''.at'') (lit ''must not be earlier than the previous event'')"
proof (induction n ps rule: check_event_order.induct)
  case (1 n p q ps)
  show ?case
  proof (cases "fst q < fst p")
    case True
    with 1 show ?thesis by (intro exI [of _ 0]) simp
  next
    case False
    with 1 obtain i where i: "Suc i < length (q # ps)" "sorted (map fst (take (Suc i) (q # ps)))"
      "fst ((q # ps) ! Suc i) < fst ((q # ps) ! i)"
      "e = ScenarioError (event_path (Suc n + i) @ lit ''.at'') (lit ''must not be earlier than the previous event'')"
      by auto
    from False i(2) have "sorted (map fst (take (Suc (Suc i)) (p # q # ps)))"
      by (fastforce simp: not_less)
    with i show ?thesis by (intro exI [of _ "Suc i"]) simp
  qed
qed simp_all

end
