(* ===== verification/Scenario_Errors.thy ===== *)
theory Scenario_Errors
  imports Scenario_Spec
begin

text \<open>
  The errors of the scenario parser. A table gives what the format expects at every place of a document; a document
  is rejected with the place of a value that is not as expected, and with the message for it.
\<close>

section \<open>Places in a document\<close>

datatype step = Key pystr | Idx nat

type_synonym place = "step list"

fun show_step :: "step \<Rightarrow> pystr" where
  "show_step (Key k) = lit ''.'' @ k"
| "show_step (Idx i) = lit ''['' @ str_nat i @ lit '']''"

fun show_place :: "place \<Rightarrow> pystr" where
  "show_place (Key k # p) = k @ concat (map show_step p)"
| "show_place (Idx i # p) = concat (map show_step (Idx i # p))"
| "show_place [] = lit ''$''"

fun find_at :: "place \<Rightarrow> pyval \<Rightarrow> pyval option" where
  "find_at [] v = Some v"
| "find_at (Key k # p) (PDict kvs) = (case map_of kvs (PStr k) of None \<Rightarrow> None | Some x \<Rightarrow> find_at p x)"
| "find_at (Idx i # p) (PList xs) = (if i < length xs then find_at p (xs ! i) else None)"
| "find_at (_ # p) v = None"

lemma find_at_append: "find_at (p @ q) v = (case find_at p v of None \<Rightarrow> None | Some x \<Rightarrow> find_at q x)"
  by (induction p v rule: find_at.induct) (auto split: option.splits)

lemma map_of_pydict_val: "map_of (map (\<lambda>(k, v). (PStr k, v)) d) (PStr k) = map_of d k"
  by (induction d) auto

lemma find_at_key: "dhas d k \<Longrightarrow> find_at (Key k # p) (pydict_val d) = find_at p (dget d k)"
  by (auto simp: pydict_val_def map_of_pydict_val dhas_iff dget_def)

lemma show_place_snoc: "p \<noteq> [] \<Longrightarrow> show_place (p @ [s]) = show_place p @ show_step s"
  by (cases p rule: show_place.cases) simp_all

section \<open>What the format expects\<close>

datatype kind =
    Fields "pystr list" "pystr list option"
  | Any_Of "pystr list"
  | Text
  | Below_Dev
  | Items
  | Dur
  | At_Most int
  | Not_Before int
  | Whole int int
  | Flag
  | Choice "pystr list" pystr
  | Version
  | Never pystr

definition duration_value :: "pystr \<Rightarrow> int option" where
  "duration_value s =
     (case duration_match s of
        None \<Rightarrow> None
      | Some (ds, sfx) \<Rightarrow> Some (if sfx = lit ''ms'' then int (digits_value ds) else int (digits_value ds) * 1000))"

fun complaint :: "kind \<Rightarrow> pyval \<Rightarrow> pystr option" where
  "complaint (Fields req opt) v =
     (case v of
        PDict kvs \<Rightarrow>
          if \<exists>kv \<in> set kvs. \<not> is_str (fst kv) then Some (lit ''field names must be strings'')
          else
            let keys = map (\<lambda>kv. the_str (fst kv)) kvs;
                missing = filter (\<lambda>f. f \<notin> set keys) req;
                unexpected = (case opt of None \<Rightarrow> [] | Some names \<Rightarrow> filter (\<lambda>k. k \<notin> set names) keys)
            in if missing \<noteq> [] then Some (lit ''missing required field(s): '' @ str_join (lit '', '') (sort missing))
               else if unexpected \<noteq> [] then Some (lit ''unexpected field(s): '' @ str_join (lit '', '') (sort unexpected))
               else None
      | _ \<Rightarrow> Some (lit ''must be a mapping''))"
| "complaint (Any_Of names) v =
     (if list_ex (\<lambda>k. find_at [Key k] v \<noteq> None) names then None
      else Some (lit ''stdout assertion requires contains or not_contains''))"
| "complaint Text v = (if is_str v \<and> the_str v \<noteq> [] then None else Some (lit ''must be a non-empty string''))"
| "complaint Below_Dev v =
     (if is_str v \<and> prefix (lit ''/dev/'') (the_str v) then None else Some (lit ''must be an absolute /dev path''))"
| "complaint Items v = (case v of PList (x # xs) \<Rightarrow> None | _ \<Rightarrow> Some (lit ''must be a non-empty list''))"
| "complaint Dur v =
     (case v of
        PStr s \<Rightarrow>
          (case duration_value s of
             None \<Rightarrow> Some (lit ''must be an integer duration such as 250ms or 2s'')
           | Some ms \<Rightarrow> if MAX_DURATION_MS < ms then Some (lit ''must not exceed 24h'') else None)
      | _ \<Rightarrow> Some (lit ''must use an ms or s suffix''))"
| "complaint (At_Most limit) v =
     (case v of
        PStr s \<Rightarrow>
          (case duration_value s of
             Some ms \<Rightarrow> if limit < ms then Some (lit ''must not exceed scenario.timeout'') else None
           | None \<Rightarrow> None)
      | _ \<Rightarrow> None)"
| "complaint (Not_Before time) v =
     (case v of
        PStr s \<Rightarrow>
          (case duration_value s of
             Some ms \<Rightarrow> if ms < time then Some (lit ''must not be earlier than the previous event'') else None
           | None \<Rightarrow> None)
      | _ \<Rightarrow> None)"
| "complaint (Whole lo hi) v =
     (case v of
        PInt n \<Rightarrow>
          if lo \<le> n \<and> n \<le> hi then None else Some (lit ''must be between '' @ str_int lo @ lit '' and '' @ str_int hi)
      | _ \<Rightarrow> Some (lit ''must be an integer''))"
| "complaint Flag v = (case v of PBool b \<Rightarrow> None | _ \<Rightarrow> Some (lit ''must be a boolean''))"
| "complaint (Choice options message) v = (if is_str v \<and> the_str v \<in> set options then None else Some message)"
| "complaint Version v =
     (case v of
        PInt n \<Rightarrow> if n = SCHEMA_VERSION then None else Some (lit ''must equal '' @ str_int SCHEMA_VERSION)
      | _ \<Rightarrow> Some (lit ''must be an integer''))"
| "complaint (Never message) v = Some message"

abbreviation K :: "string \<Rightarrow> step" where "K s \<equiv> Key (lit s)"

abbreviation exactly :: "string list \<Rightarrow> kind" where "exactly ks \<equiv> Fields (map lit ks) (Some (map lit ks))"

text \<open>The places every document has\<close>

definition document_table :: "(place \<times> kind) list" where
  "document_table =
     [([], Fields ROOT_FIELDS (Some ROOT_FIELDS)),
      ([K ''schema_version''], Version),
      ([K ''device''], exactly [''path'']),
      ([K ''device'', K ''path''], Text),
      ([K ''device'', K ''path''], Below_Dev),
      ([K ''application''], Fields [lit ''command''] (Some [lit ''command'', lit ''startup_timeout''])),
      ([K ''application'', K ''command''], Items),
      ([K ''application'', K ''startup_timeout''], Dur),
      ([K ''scenario''], exactly [''name'', ''timeout'', ''events'']),
      ([K ''scenario'', K ''name''], Text),
      ([K ''scenario'', K ''timeout''], Dur),
      ([K ''scenario'', K ''events''], Items),
      ([K ''assertions''], Items)]"

text \<open>An event, then by its action, then by the type of a fault\<close>

definition event_table :: "(place \<times> kind) list" where
  "event_table =
     [([], Fields (map lit [''at'', ''action'']) None),
      ([K ''at''], Dur),
      ([K ''action''], Text),
      ([K ''action''], Choice (map lit [''clear'', ''fault'', ''reset'', ''write'']) (lit ''must be one of: clear, fault, reset, write''))]"

definition action_table :: "(pystr \<times> place \<times> kind) list" where
  "action_table =
     [(lit ''write'', [], exactly [''at'', ''action'', ''data'']),
      (lit ''write'', [K ''data''], Text),
      (lit ''clear'', [], exactly [''at'', ''action'']),
      (lit ''reset'', [], exactly [''at'', ''action'']),
      (lit ''fault'', [], Fields [lit ''type''] None),
      (lit ''fault'', [K ''type''], Text),
      (lit ''fault'', [K ''type''], Choice (map lit [''delay'', ''disconnect'', ''eio'', ''partial-read''])
         (lit ''must be one of: delay, disconnect, eio, partial-read''))]"

definition fault_table :: "(pystr \<times> place \<times> kind) list" where
  "fault_table =
     [(lit ''eio'', [], exactly [''at'', ''action'', ''type'', ''repeat'']),
      (lit ''eio'', [K ''repeat''], Whole 1 MAX_EIO_REPEAT),
      (lit ''delay'', [], exactly [''at'', ''action'', ''type'', ''duration'']),
      (lit ''delay'', [K ''duration''], Dur),
      (lit ''partial-read'', [], exactly [''at'', ''action'', ''type'', ''bytes'']),
      (lit ''partial-read'', [K ''bytes''], Whole 1 MAX_PARTIAL_READ_BYTES),
      (lit ''disconnect'', [], exactly [''at'', ''action'', ''type''])]"

text \<open>An assertion, then by its type\<close>

definition assertion_table :: "(place \<times> kind) list" where
  "assertion_table =
     [([], Fields [] None),
      ([K ''type''], Choice (map lit [''disconnect'', ''event_count'', ''kernel_warnings'', ''stdout''])
         (lit ''must be one of: disconnect, event_count, kernel_warnings, stdout''))]"

definition type_table :: "(pystr \<times> place \<times> kind) list" where
  "type_table =
     [(lit ''event_count'', [], Fields (map lit [''event'', ''count''])
         (Some (map lit [''type'', ''event'', ''count'', ''within'', ''max_latency'']))),
      (lit ''event_count'', [K ''event''], Text),
      (lit ''event_count'', [K ''event''], Choice LOG_EVENTS (lit ''is not a supported log event'')),
      (lit ''event_count'', [K ''count''], Whole 1 1000000),
      (lit ''event_count'', [K ''within''], Dur),
      (lit ''event_count'', [K ''max_latency''], Dur),
      (lit ''stdout'', [], Fields [] (Some (map lit [''type'', ''contains'', ''not_contains'']))),
      (lit ''stdout'', [], Any_Of (map lit [''contains'', ''not_contains''])),
      (lit ''stdout'', [K ''contains''], Text),
      (lit ''stdout'', [K ''not_contains''], Text),
      (lit ''disconnect'', [], exactly [''type'', ''expected'']),
      (lit ''disconnect'', [K ''expected''], Flag),
      (lit ''kernel_warnings'', [], exactly [''type'', ''count'']),
      (lit ''kernel_warnings'', [K ''count''], Whole 0 1000000)]"

lemmas tables = document_table_def event_table_def action_table_def fault_table_def assertion_table_def type_table_def

abbreviation event_place :: "nat \<Rightarrow> place" where
  "event_place i \<equiv> [K ''scenario'', K ''events'', Idx i]"

abbreviation assertion_place :: "nat \<Rightarrow> place" where
  "assertion_place i \<equiv> [K ''assertions'', Idx i]"

definition text_at :: "pyval \<Rightarrow> place \<Rightarrow> pystr \<Rightarrow> bool" where
  "text_at doc p s \<longleftrightarrow> find_at p doc = Some (PStr s)"

definition time_at :: "pyval \<Rightarrow> place \<Rightarrow> int \<Rightarrow> bool" where
  "time_at doc p t \<longleftrightarrow> (\<exists>s. text_at doc p s \<and> duration_value s = Some t)"

text \<open>An assertion without a type counts events.\<close>

definition type_at :: "pyval \<Rightarrow> nat \<Rightarrow> pystr \<Rightarrow> bool" where
  "type_at doc i t \<longleftrightarrow>
     (case find_at (assertion_place i @ [K ''type'']) doc of None \<Rightarrow> t = lit ''event_count'' | Some v \<Rightarrow> v = PStr t)"

inductive expects :: "pyval \<Rightarrow> place \<Rightarrow> kind \<Rightarrow> bool" for doc where
  document: "(p, k) \<in> set document_table \<Longrightarrow> expects doc p k"
| argument: "expects doc [K ''application'', K ''command'', Idx i] Text"
| event: "(p, k) \<in> set event_table \<Longrightarrow> expects doc (event_place i @ p) k"
| action: "text_at doc (event_place i @ [K ''action'']) a \<Longrightarrow> (a, p, k) \<in> set action_table \<Longrightarrow> expects doc (event_place i @ p) k"
| fault: "text_at doc (event_place i @ [K ''action'']) (lit ''fault'') \<Longrightarrow> text_at doc (event_place i @ [K ''type'']) t \<Longrightarrow>
    (t, p, k) \<in> set fault_table \<Longrightarrow> expects doc (event_place i @ p) k"
| limit: "time_at doc [K ''scenario'', K ''timeout''] t \<Longrightarrow> expects doc (event_place i @ [K ''at'']) (At_Most t)"
| order: "time_at doc (event_place i @ [K ''at'']) t \<Longrightarrow> expects doc (event_place (Suc i) @ [K ''at'']) (Not_Before t)"
| assertion: "(p, k) \<in> set assertion_table \<Longrightarrow> expects doc (assertion_place i @ p) k"
| asserted: "type_at doc i t \<Longrightarrow> (t, p, k) \<in> set type_table \<Longrightarrow> expects doc (assertion_place i @ p) k"
| bound: "type_at doc i (lit ''event_count'') \<Longrightarrow> time_at doc [K ''scenario'', K ''timeout''] t \<Longrightarrow>
    key \<in> {K ''within'', K ''max_latency''} \<Longrightarrow> expects doc (assertion_place i @ [key]) (At_Most t)"
| latency: "type_at doc i (lit ''event_count'') \<Longrightarrow> text_at doc (assertion_place i @ [K ''event'']) e \<Longrightarrow> e \<noteq> lit ''RECOVERY_SUCCESS'' \<Longrightarrow>
    expects doc (assertion_place i @ [K ''max_latency'']) (Never (lit ''is only valid for RECOVERY_SUCCESS''))"

text \<open>
  A duration of more digits than the interpreter converts is refused by the interpreter, without a place.
\<close>

definition too_many_digits :: "pyval \<Rightarrow> bool" where
  "too_many_digits v \<longleftrightarrow>
     (\<exists>n sfx. v = PStr (str_nat n @ sfx) \<and> sfx \<in> {lit ''ms'', lit ''s''} \<and> INT_MAX_STR_DIGITS < length (str_nat n))"

definition refused :: "kind \<Rightarrow> pyval \<Rightarrow> pystr \<Rightarrow> pyexc \<Rightarrow> bool" where
  "refused k v p e \<longleftrightarrow>
     (\<exists>m. complaint k v = Some m \<and> e = ScenarioError p m) \<or> k = Dur \<and> too_many_digits v \<and> e = digit_limit_error"

text \<open>The blame for a failure in the value at a place: that value or one inside it is not as expected.\<close>

definition blames :: "(place \<Rightarrow> kind \<Rightarrow> bool) \<Rightarrow> place \<Rightarrow> pyval \<Rightarrow> pyexc \<Rightarrow> bool" where
  "blames S base v e \<longleftrightarrow> (\<exists>p x k. find_at p v = Some x \<and> S (base @ p) k \<and> refused k x (show_place (base @ p)) e)"

lemma blames_here: "refused k v (show_place base) e \<Longrightarrow> S base k \<Longrightarrow> blames S base v e"
  unfolding blames_def by (intro exI [of _ "[]"]) auto

lemma blames_key:
  assumes "blames S (base @ [Key k]) (dget d k) e" "dhas d k"
  shows "blames S base (pydict_val d) e"
proof -
  from assms(1) obtain p x kind where "find_at p (dget d k) = Some x" "S (base @ Key k # p) kind"
    "refused kind x (show_place (base @ Key k # p)) e"
    by (auto simp: blames_def)
  then show ?thesis using find_at_key [OF assms(2), of p] unfolding blames_def by (intro exI [of _ "Key k # p"]) auto
qed

lemma blames_item:
  assumes "blames S (base @ [Idx i]) (xs ! i) e" "i < length xs"
  shows "blames S base (PList xs) e"
proof -
  from assms(1) obtain p x kind where "find_at p (xs ! i) = Some x" "S (base @ Idx i # p) kind"
    "refused kind x (show_place (base @ Idx i # p)) e"
    by (auto simp: blames_def)
  then show ?thesis using assms(2) unfolding blames_def by (intro exI [of _ "Idx i # p"]) auto
qed

lemma blames_field:
  assumes "refused kind (dget d (lit k)) (show_place base @ lit (CHR ''.'' # k)) e" "S (base @ [K k]) kind" "dhas d (lit k)" "base \<noteq> []"
  shows "blames S base (pydict_val d) e"
proof (rule blames_key [OF blames_here assms(3)])
  have "show_place (base @ [K k]) = show_place base @ lit (CHR ''.'' # k)"
    using assms(4) by (simp add: show_place_snoc lit_def)
  with assms(1) show "refused kind (dget d (lit k)) (show_place (base @ [K k])) e" by simp
qed (rule assms(2))

section \<open>The checks and what they refuse\<close>

locale field_check =
  fixes check :: "pyval \<Rightarrow> pystr \<Rightarrow> pyexc + 'a" and kind :: kind
  assumes check_refused: "check v p = Inl e \<Longrightarrow> refused kind v p e"
begin

lemma check_here: "check v (show_place base) = Inl e \<Longrightarrow> S base kind \<Longrightarrow> blames S base v e"
  using check_refused by (rule blames_here)

lemma check_field:
  "check (dget d (lit k)) (show_place base @ lit (CHR ''.'' # k)) = Inl e \<Longrightarrow> S (base @ [K k]) kind \<Longrightarrow> dhas d (lit k) \<Longrightarrow>
     base \<noteq> [] \<Longrightarrow> blames S base (pydict_val d) e"
  using check_refused by (rule blames_field)

end

interpretation text_check: field_check non_empty_string Text
  by unfold_locales (auto simp: non_empty_string_def refused_def is_str_iff split: pyval.splits if_splits)

interpretation whole_check: field_check "\<lambda>v p. bounded_integer v p lo hi" "Whole lo hi" for lo hi
  by unfold_locales (auto simp: bounded_integer_def refused_def split: pyval.splits if_splits)

interpretation list_check: field_check non_empty_list Items
  by unfold_locales (auto simp: non_empty_list_def refused_def neq_Nil_conv split: pyval.splits list.splits if_splits)

interpretation flag_check: field_check boolean Flag
  by unfold_locales (auto simp: boolean_def refused_def split: pyval.splits)

lemma duration_value_parse: "parse_duration (PStr s) p = Inr ms \<Longrightarrow> duration_value s = Some ms"
  by (auto simp: parse_duration_def duration_value_def int_of_digits_def Let_def rbind_Inr_iff split: option.splits if_splits)

interpretation duration_check: field_check parse_duration Dur
proof
  fix v p e
  assume *: "parse_duration v p = Inl e"
  show "refused Dur v p e"
  proof (cases v)
    case (PStr s)
    show ?thesis
    proof (cases "duration_match s")
      case None
      with * PStr show ?thesis by (auto simp: parse_duration_def refused_def duration_value_def)
    next
      case (Some m)
      obtain ds sfx where m: "m = (ds, sfx)" by (cases m)
      with Some obtain n where n: "s = ds @ sfx" "ds = str_nat n" "sfx = lit ''ms'' \<or> sfx = lit ''s''"
        by (auto simp: duration_match_iff)
      have val: "duration_value s = Some (if sfx = lit ''ms'' then int (digits_value ds) else int (digits_value ds) * 1000)"
        by (simp add: duration_value_def Some m)
      show ?thesis
      proof (cases "INT_MAX_STR_DIGITS < length ds")
        case True
        with * PStr Some m n show ?thesis
          by (auto simp: parse_duration_def refused_def int_of_digits_def too_many_digits_def)
      next
        case False
        then have "int_of_digits ds = Inr (int (digits_value ds))" by (simp add: int_of_digits_def)
        with * PStr Some m val show ?thesis
          by (auto simp: parse_duration_def refused_def Let_def split: if_splits)
      qed
    qed
  qed (use * in \<open>auto simp: parse_duration_def refused_def\<close>)
qed

lemma is_str_pydict_val: "\<not> (\<exists>kv \<in> set (map (\<lambda>(k, v). (PStr k, v)) d). \<not> is_str (fst kv))"
  by auto

lemma fields_pydict_val:
  "complaint (Fields req opt) (pydict_val d) =
     (let missing = filter (\<lambda>f. \<not> dhas d f) req;
          unexpected = (case opt of None \<Rightarrow> [] | Some names \<Rightarrow> filter (\<lambda>k. k \<notin> set names) (dkeys d))
      in if missing \<noteq> [] then Some (lit ''missing required field(s): '' @ str_join (lit '', '') (sort missing))
         else if unexpected \<noteq> [] then Some (lit ''unexpected field(s): '' @ str_join (lit '', '') (sort unexpected))
         else None)"
proof -
  have "map (\<lambda>kv. the_str (fst kv)) (map (\<lambda>(k, v). (PStr k, v)) d) = dkeys d"
    by (simp add: dkeys_def case_prod_beta comp_def)
  then show ?thesis by (simp add: pydict_val_def is_str_pydict_val dhas_def del: map_map) (auto simp: Let_def)
qed

lemma mapping_refused: "mapping v p = Inl e \<Longrightarrow> refused (Fields req opt) v p e"
  by (auto simp: mapping_def refused_def split: pyval.splits if_splits)

lemma required_refused: "required d req p = Inl e \<Longrightarrow> refused (Fields req opt) (pydict_val d) p e"
  unfolding refused_def fields_pydict_val by (auto simp: required_def Let_def res_iff filter_empty_conv)

lemma allowed_refused:
  "allowed d names p = Inl e \<Longrightarrow> \<forall>n \<in> set req. dhas d n \<Longrightarrow> refused (Fields req (Some names)) (pydict_val d) p e"
  unfolding refused_def fields_pydict_val by (auto simp: allowed_def Let_def res_iff filter_empty_conv)

lemma exact_checked:
  assumes "rbind (required d req p) (\<lambda>_. rbind (allowed d names p) (\<lambda>_. m)) = Inl e"
  obtains "refused (Fields req (Some names)) (pydict_val d) p e" | "\<forall>n \<in> set req. dhas d n" "m = Inl e"
  using assms required_refused [of d req p e] allowed_refused [of d names p e req]
  by (auto simp: rbind_Inl_iff required_iff)

lemma mapping_checked:
  assumes "rbind (mapping v p) f = Inl e"
  obtains "refused (Fields req opt) v p e" | d where "v = pydict_val d" "f d = Inl e"
  using assms mapping_refused [of v p e req opt] by (auto simp: rbind_Inl_iff mapping_iff)

lemma rbind_raises:
  assumes "rbind m f = Inl e"
  obtains "m = Inl e" | x where "m = Inr x" "f x = Inl e"
  using assms by (auto simp: rbind_Inl_iff)

section \<open>Device and application\<close>

lemma parse_device_blames:
  assumes "parse_device v = Inl e"
  shows "blames (expects doc) [K ''device''] v e"
proof -
  have path: "lit ''device.path'' = show_place [K ''device''] @ lit ''.path''" by (simp add: lit_def)
  have S: "(k, kind) \<in> set document_table \<Longrightarrow> expects doc k kind" for k kind by (rule expects.document)
  from assms show ?thesis unfolding parse_device_checked
  proof (cases rule: mapping_checked [where req = "[lit ''path'']" and opt = "Some [lit ''path'']"])
    case 1
    then show ?thesis by (intro blames_here S) (simp_all add: tables)
  next
    case (2 d)
    note v = 2(1)
    from 2(2) show ?thesis
    proof (cases rule: exact_checked)
      case 1
      then show ?thesis unfolding v by (intro blames_here S) (simp_all add: tables)
    next
      case checked: 2
      then have has: "dhas d (lit ''path'')" by simp
      from checked(2) show ?thesis
      proof (cases rule: rbind_raises)
        case 1
        then show ?thesis unfolding v path by (rule text_check.check_field) (simp_all add: has S tables)
      next
        case (2 s)
        then have "refused Below_Dev (dget d (lit ''path'')) (lit ''device.path'') e"
          by (auto simp: refused_def non_empty_string_iff split: if_splits)
        then show ?thesis unfolding v path by (rule blames_field) (simp_all add: has S tables)
      qed
    qed
  qed
qed

lemma parse_application_blames:
  assumes "parse_application v = Inl e"
  shows "blames (expects doc) [K ''application''] v e"
proof -
  let ?base = "[K ''application'']"
  have path: "lit ''application.command'' = show_place ?base @ lit ''.command''"
    "lit ''application.startup_timeout'' = show_place ?base @ lit ''.startup_timeout''" by (simp_all add: lit_def)
  have S: "(k, kind) \<in> set document_table \<Longrightarrow> expects doc k kind" for k kind by (rule expects.document)
  from assms show ?thesis unfolding parse_application_checked
  proof (cases rule: mapping_checked [where req = "[lit ''command'']" and opt = "Some [lit ''command'', lit ''startup_timeout'']"])
    case 1
    then show ?thesis by (intro blames_here S) (simp_all add: tables)
  next
    case (2 d)
    note v = 2(1)
    from 2(2) show ?thesis
    proof (cases rule: exact_checked)
      case 1
      then show ?thesis unfolding v by (intro blames_here S) (simp_all add: tables)
    next
      case checked: 2
      then have has: "dhas d (lit ''command'')" by simp
      from checked(2) show ?thesis
      proof (cases rule: rbind_raises)
        case 1
        then show ?thesis unfolding v path by (rule list_check.check_field) (simp_all add: has S tables)
      next
        case (2 args)
        then have args: "dget d (lit ''command'') = PList args" by (simp add: non_empty_list_iff)
        from 2(2) show ?thesis
        proof (cases rule: rbind_raises)
          case 1
          from traverse_from_Inl [OF this] obtain i where i: "i < length args" "command_argument i (args ! i) = Inl e" by auto
          then have "non_empty_string (args ! i) (show_place ((?base @ [K ''command'']) @ [Idx i])) = Inl e"
            by (simp add: command_argument_def lit_def)
          then have "blames (expects doc) ((?base @ [K ''command'']) @ [Idx i]) (args ! i) e"
            by (rule text_check.check_here) (simp add: expects.argument)
          from blames_item [OF this i(1)] show ?thesis unfolding v using has args by (intro blames_key) simp_all
        next
          case (2 cmd)
          then have dur: "parse_duration (dget_default d (lit ''startup_timeout'') (PStr (lit ''2s''))) (lit ''application.startup_timeout'') = Inl e"
            by (auto simp: rbind_Inl_iff)
          have "parse_duration (PStr (lit ''2s'')) (lit ''application.startup_timeout'') = Inr 2000"
            using duration_text_def by (auto simp: parse_duration_iff MAX_DURATION_MS_def intro!: exI [of _ 2] simp: str_nat.simps lit_def)
          with dur have t: "dhas d (lit ''startup_timeout'')" "dget_default d (lit ''startup_timeout'') (PStr (lit ''2s'')) = dget d (lit ''startup_timeout'')"
            by (auto simp: dget_default_def dget_def dhas_iff split: option.splits)
          from dur show ?thesis unfolding v t(2) path by (rule duration_check.check_field) (simp_all add: t S tables)
        qed
      qed
    qed
  qed
qed

section \<open>Events\<close>

lemma event_path_place: "event_path i = show_place (event_place i)"
  by (simp add: event_path_def lit_def)

lemma text_at_field:
  "find_at base doc = Some (pydict_val d) \<Longrightarrow> dhas d k \<Longrightarrow> dget d k = PStr s \<Longrightarrow> text_at doc (base @ [Key k]) s"
  by (simp add: text_at_def find_at_append find_at_key)

context field_check
begin

text \<open>A form with exactly the given fields, one of which is checked\<close>

lemma exact_field:
  assumes "rbind (required d req p) (\<lambda>_. rbind (allowed d req p) (\<lambda>_.
      rbind (check (dget d (lit k)) (p @ lit (CHR ''.'' # k))) (\<lambda>x. Inr (g x)))) = Inl e"
    and p: "p = show_place base" "base \<noteq> []" and k: "lit k \<in> set req"
    and S: "S base (Fields req (Some req))" "S (base @ [K k]) kind"
  shows "blames S base (pydict_val d) e"
  using assms(1)
proof (cases rule: exact_checked)
  case 1
  then show ?thesis unfolding p(1) by (rule blames_here) (rule S(1))
next
  case 2
  then have "check (dget d (lit k)) (show_place base @ lit (CHR ''.'' # k)) = Inl e" by (auto simp: rbind_Inl_iff p(1))
  then show ?thesis using S(2) bspec [OF 2(1) k] p(2) by (rule check_field)
qed

end

lemma parse_fault_event_blames:
  assumes doc: "find_at (event_place i) doc = Some (pydict_val ev)" and act: "text_at doc (event_place i @ [K ''action'']) (lit ''fault'')"
    and "parse_fault_event ev (event_path i) = Inl e"
  shows "blames (expects doc) (event_place i) (pydict_val ev) e"
proof -
  have A: "expects doc (event_place i @ p) k" if "(lit ''fault'', p, k) \<in> set action_table" for p k
    using expects.action [OF act that] .
  have A0: "expects doc (event_place i) k" if "(lit ''fault'', [], k) \<in> set action_table" for k
    using A [OF that] by simp
  note path = event_path_place
  from assms(3) show ?thesis unfolding parse_fault_event_checked
  proof (cases rule: rbind_raises)
    case 1
    then have "refused (Fields [lit ''type''] None) (pydict_val ev) (show_place (event_place i)) e"
      unfolding path by (rule required_refused)
    then show ?thesis by (rule blames_here) (simp add: A0 tables)
  next
    case (2 req)
    then have has: "dhas ev (lit ''type'')" by (simp add: required_iff)
    from 2(2) show ?thesis
    proof (cases rule: rbind_raises)
      case 1
      then show ?thesis unfolding path by (rule text_check.check_field) (use A [of "[K ''type'']" Text] has in \<open>simp_all add: tables\<close>)
    next
      case (2 t)
      then have t: "dget ev (lit ''type'') = PStr t" by (simp add: non_empty_string_iff)
      have F: "expects doc (event_place i @ p) k" if "(t, p, k) \<in> set fault_table" for p k
        using expects.fault [OF act text_at_field [OF doc has t] that] .
      have F0: "expects doc (event_place i) k" if "(t, [], k) \<in> set fault_table" for k
        using F [OF that] by simp
      note step = 2(2) [unfolded Let_def]
      consider "t = lit ''eio''" | "t = lit ''delay''" | "t = lit ''partial-read''" | "t = lit ''disconnect''"
        | "t \<notin> set (map lit [''delay'', ''disconnect'', ''eio'', ''partial-read''])" by auto
      then show ?thesis
      proof cases
        case 1
        show ?thesis
          by (rule whole_check.exact_field [OF _ path, where k = "''repeat''" and lo = 1 and hi = MAX_EIO_REPEAT and
              req = "map lit [''at'', ''action'', ''type'', ''repeat'']"])
            (use step 1 in \<open>simp_all add: F [simplified] F0 tables\<close>)
      next
        case 2
        show ?thesis
          by (rule duration_check.exact_field [OF _ path, where k = "''duration''" and req = "map lit [''at'', ''action'', ''type'', ''duration'']"])
            (use step 2 in \<open>simp_all add: F [simplified] F0 tables\<close>)
      next
        case 3
        show ?thesis
          by (rule whole_check.exact_field [OF _ path, where k = "''bytes''" and lo = 1 and hi = MAX_PARTIAL_READ_BYTES and
              req = "map lit [''at'', ''action'', ''type'', ''bytes'']"])
            (use step 3 in \<open>simp_all add: F [simplified] F0 tables\<close>)
      next
        case 4
        with step have "rbind (required ev (map lit [''at'', ''action'', ''type'']) (event_path i)) (\<lambda>_.
            rbind (allowed ev (map lit [''at'', ''action'', ''type'']) (event_path i)) (\<lambda>_. (Inr [] :: pyexc + unit list))) = Inl e"
          by (auto simp: rbind_Inl_iff)
        then show ?thesis
          by (cases rule: exact_checked) (auto simp: path 4 tables intro!: blames_here F0)
      next
        case 5
        with step have "e = ScenarioError (show_place (event_place i) @ lit ''.type'') (lit ''must be one of: delay, disconnect, eio, partial-read'')"
          by (simp add: path)
        then have "refused (Choice (map lit [''delay'', ''disconnect'', ''eio'', ''partial-read'']) (lit ''must be one of: delay, disconnect, eio, partial-read''))
            (dget ev (lit ''type'')) (show_place (event_place i) @ lit ''.type'') e"
          using 5 by (simp add: refused_def t)
        then show ?thesis by (rule blames_field) (use has in \<open>simp_all add: A [simplified] tables\<close>)
      qed
    qed
  qed
qed

lemma parse_event_action_blames:
  assumes doc: "find_at (event_place i) doc = Some (pydict_val ev)" and act: "dhas ev (lit ''action'')" "dget ev (lit ''action'') = PStr a"
    and has: "dhas ev (lit ''at'')" and "parse_event_action ev (event_path i) a = Inl e"
  shows "blames (expects doc) (event_place i) (pydict_val ev) e"
proof -
  note said = text_at_field [OF doc act]
  note path = event_path_place
  have A: "expects doc (event_place i @ p) k" if "(a, p, k) \<in> set action_table" for p k
    using expects.action [OF said that] .
  have A0: "expects doc (event_place i) k" if "(a, [], k) \<in> set action_table" for k
    using A [OF that] by simp
  consider "a = lit ''write''" | "a = lit ''fault''" | "a = lit ''clear'' \<or> a = lit ''reset''"
    | "a \<notin> set (map lit [''clear'', ''fault'', ''reset'', ''write''])" by auto
  then show ?thesis
  proof cases
    case 1
    show ?thesis
      by (rule text_check.exact_field [OF _ path, where k = "''data''" and req = "map lit [''at'', ''action'', ''data'']"])
        (use assms(5) 1 in \<open>simp_all add: parse_event_action_checked A [simplified] A0 tables\<close>)
  next
    case 2
    with assms(5) have "parse_fault_event ev (event_path i) = Inl e" by (simp add: parse_event_action_checked)
    then show ?thesis by (rule parse_fault_event_blames [OF doc said [unfolded 2]])
  next
    case 3
    with assms(5) have "allowed ev (map lit [''at'', ''action'']) (event_path i) = Inl e"
      by (auto simp: parse_event_action_checked rbind_Inl_iff)
    then have "refused (exactly [''at'', ''action'']) (pydict_val ev) (show_place (event_place i)) e"
      unfolding path by (rule allowed_refused) (simp add: has act)
    then show ?thesis by (rule blames_here) (use 3 in \<open>auto simp: A0 tables\<close>)
  next
    case 4
    with assms(5) have "e = ScenarioError (show_place (event_place i) @ lit ''.action'') (lit ''must be one of: clear, fault, reset, write'')"
      by (simp add: parse_event_action_checked path)
    then have "refused (Choice (map lit [''clear'', ''fault'', ''reset'', ''write'']) (lit ''must be one of: clear, fault, reset, write''))
        (dget ev (lit ''action'')) (show_place (event_place i) @ lit ''.action'') e"
      using 4 by (simp add: refused_def act)
    then show ?thesis by (rule blames_field) (use act expects.event [of "[K ''action'']" _ doc i] in \<open>simp_all add: tables\<close>)
  qed
qed

lemma parse_event_blames:
  assumes doc: "find_at (event_place i) doc = Some v" and limit: "time_at doc [K ''scenario'', K ''timeout''] timeout"
    and "parse_event timeout i v = Inl e"
  shows "blames (expects doc) (event_place i) v e"
proof -
  note path = event_path_place
  have E: "expects doc (event_place i @ p) k" if "(p, k) \<in> set event_table" for p k using expects.event [OF that] .
  have E0: "expects doc (event_place i) k" if "([], k) \<in> set event_table" for k using E [OF that] by simp
  from assms(3) show ?thesis unfolding parse_event_checked Let_def
  proof (cases rule: mapping_checked [where req = "map lit [''at'', ''action'']" and opt = None])
    case 1
    then show ?thesis unfolding path by (rule blames_here) (simp add: E0 tables)
  next
    case (2 ev)
    note v = 2(1)
    from 2(2) show ?thesis
    proof (cases rule: rbind_raises)
      case 1
      then have "refused (Fields (map lit [''at'', ''action'']) None) (pydict_val ev) (show_place (event_place i)) e"
        unfolding path by (rule required_refused)
      then show ?thesis unfolding v by (rule blames_here) (simp add: E0 tables)
    next
      case (2 ok)
      then have has: "dhas ev (lit ''at'')" "dhas ev (lit ''action'')" by (simp_all add: required_iff)
      from 2(2) show ?thesis
      proof (cases rule: rbind_raises)
        case 1
        then show ?thesis unfolding v path
          by (rule duration_check.check_field) (use has in \<open>simp_all add: E [simplified] tables\<close>)
      next
        case (2 t)
        from 2(1) obtain s where s: "dget ev (lit ''at'') = PStr s" by (auto simp: parse_duration_iff)
        with 2(1) have t: "duration_value s = Some t" by (auto intro: duration_value_parse)
        show ?thesis
        proof (cases "timeout < t")
          case True
          with 2(2) have "refused (At_Most timeout) (dget ev (lit ''at'')) (show_place (event_place i) @ lit ''.at'') e"
            by (simp add: refused_def s t path)
          then show ?thesis unfolding v
            by (rule blames_field) (use has expects.limit [OF limit] in simp_all)
        next
          case False
          with 2(2) have step: "rbind (non_empty_string (dget ev (lit ''action'')) (event_path i @ lit ''.action'')) (\<lambda>action.
              rbind (parse_event_action ev (event_path i) action) (\<lambda>normalized. Inr (t, i, dset normalized (lit ''at_ms'') (PInt t)))) = Inl e"
            by simp
          then show ?thesis
          proof (cases rule: rbind_raises)
            case 1
            then show ?thesis unfolding v path
              by (rule text_check.check_field) (use has in \<open>simp_all add: E [simplified] tables\<close>)
          next
            case (2 a)
            then have "dget ev (lit ''action'') = PStr a" "parse_event_action ev (event_path i) a = Inl e"
              by (auto simp: non_empty_string_iff rbind_Inl_iff)
            with doc has show ?thesis unfolding v by (intro parse_event_action_blames) simp_all
          qed
        qed
      qed
    qed
  qed
qed

lemma parse_event_time:
  assumes "find_at (event_place i) doc = Some v" "parse_event timeout i v = Inr (t, x)"
  shows "time_at doc (event_place i @ [K ''at'']) t"
proof -
  from assms(2) obtain ev s where ev: "v = pydict_val ev" "dhas ev (lit ''at'')" "dget ev (lit ''at'') = PStr s"
    and "parse_duration (PStr s) (event_path i @ lit ''.at'') = Inr t"
    by (auto simp: parse_event_checked Let_def rbind_Inr_iff mapping_iff required_iff parse_duration_iff split: if_splits)
  then show ?thesis unfolding time_at_def
    using text_at_field [of "event_place i" doc ev "lit ''at''" s] assms(1) duration_value_parse by blast
qed

lemma parse_scenario_section_blames:
  assumes doc: "find_at [K ''scenario''] doc = Some v" and "parse_scenario_section v = Inl e"
  shows "blames (expects doc) [K ''scenario''] v e"
proof -
  let ?base = "[K ''scenario'']"
  have path: "lit ''scenario.name'' = show_place ?base @ lit ''.name''"
    "lit ''scenario.timeout'' = show_place ?base @ lit ''.timeout''" "lit ''scenario.events'' = show_place ?base @ lit ''.events''"
    by (simp_all add: lit_def)
  have S: "(k, kind) \<in> set document_table \<Longrightarrow> expects doc k kind" for k kind by (rule expects.document)
  from assms(2) show ?thesis unfolding parse_scenario_section_checked
  proof (cases rule: mapping_checked [where req = "map lit [''name'', ''timeout'', ''events'']" and opt = "Some (map lit [''name'', ''timeout'', ''events''])"])
    case 1
    then show ?thesis by (intro blames_here S) (simp_all add: tables)
  next
    case (2 d)
    note v = 2(1)
    from 2(2) show ?thesis
    proof (cases rule: exact_checked)
      case 1
      then show ?thesis unfolding v by (intro blames_here S) (simp_all add: tables)
    next
      case 2
      then have has: "dhas d (lit ''name'')" "dhas d (lit ''timeout'')" "dhas d (lit ''events'')" by simp_all
      from 2(2) show ?thesis
      proof (cases rule: rbind_raises)
        case 1
        then show ?thesis unfolding v path by (rule text_check.check_field) (simp_all add: has S tables)
      next
        case (2 name)
        from 2(2) show ?thesis
        proof (cases rule: rbind_raises)
          case 1
          then show ?thesis unfolding v path by (rule duration_check.check_field) (simp_all add: has S tables)
        next
          case (2 timeout)
          from 2(1) obtain s where s: "dget d (lit ''timeout'') = PStr s" by (auto simp: parse_duration_iff)
          with 2(1) have "duration_value s = Some timeout" by (auto intro: duration_value_parse)
          with s have limit: "time_at doc [K ''scenario'', K ''timeout''] timeout"
            using text_at_field [OF doc [unfolded v] has(2)] by (auto simp: time_at_def)
          from 2(2) show ?thesis
          proof (cases rule: rbind_raises)
            case 1
            then show ?thesis unfolding v path by (rule list_check.check_field) (simp_all add: has S tables)
          next
            case (2 events)
            then have events: "dget d (lit ''events'') = PList events" by (simp add: non_empty_list_iff)
            have at: "find_at (event_place i) doc = Some (events ! i)" if "i < length events" for i
              using doc that has events find_at_append [of ?base "[K ''events'', Idx i]" doc] by (simp add: v find_at_key)
            have inside: "blames (expects doc) ?base v e" if "blames (expects doc) (event_place i) (events ! i) e" "i < length events" for i
              unfolding v using blames_item [of "expects doc" "?base @ [K ''events'']" i events e] that has events
              by (intro blames_key [where k = "lit ''events''"]) simp_all
            from 2(2) show ?thesis
            proof (cases rule: rbind_raises)
              case 1
              from traverse_from_Inl [OF this] obtain i where i: "i < length events" "parse_event timeout i (events ! i) = Inl e" by auto
              show ?thesis by (rule inside [OF parse_event_blames [OF at [OF i(1)] limit i(2)] i(1)])
            next
              case (2 ps)
              then have ps: "length ps = length events" "\<And>i. i < length events \<Longrightarrow> parse_event timeout i (events ! i) = Inr (ps ! i)"
                by (simp_all add: traverse_from_Inr_iff)
              from 2(2) have "check_event_order 1 ps = Inl e" by (auto simp: rbind_Inl_iff)
              from check_event_order_first [OF this] obtain i where i: "Suc i < length ps" "fst (ps ! Suc i) < fst (ps ! i)"
                "e = ScenarioError (event_path (Suc i) @ lit ''.at'') (lit ''must not be earlier than the previous event'')" by auto
              have t: "time_at doc (event_place j @ [K ''at'']) (fst (ps ! j))" if "j < length ps" for j
                using parse_event_time [OF at, of j timeout "fst (ps ! j)" "snd (ps ! j)"] ps that by simp
              from t [OF i(1)] obtain w s where w: "find_at [K ''at''] (events ! Suc i) = Some w" "w = PStr s" "duration_value s = Some (fst (ps ! Suc i))"
                using at [of "Suc i"] i(1) ps(1) find_at_append [of "event_place (Suc i)" "[K ''at'']" doc]
                by (auto simp: time_at_def text_at_def)
              have "refused (Not_Before (fst (ps ! i))) w (show_place (event_place (Suc i) @ [K ''at''])) e"
                using i w by (simp add: refused_def event_path_def lit_def)
              then have "blames (expects doc) (event_place (Suc i)) (events ! Suc i) e"
                unfolding blames_def using w(1) expects.order [OF t [OF Suc_lessD [OF i(1)]]] by (intro exI [of _ "[K ''at'']"]) auto
              then show ?thesis using inside i(1) ps(1) by simp
            qed
          qed
        qed
      qed
    qed
  qed
qed

section \<open>Assertions\<close>

lemma assertion_path_place: "assertion_path i = show_place (assertion_place i)"
  by (simp add: assertion_path_def lit_def)

lemma type_at_default:
  assumes "find_at (assertion_place i) doc = Some (pydict_val d)"
    and "dget_default d (lit ''type'') (PStr (lit ''event_count'')) = PStr t"
  shows "type_at doc i t"
proof (cases "dhas d (lit ''type'')")
  case True
  then have "dget_default d (lit ''type'') (PStr (lit ''event_count'')) = dget d (lit ''type'')"
    by (auto simp: dget_default_def dget_def dhas_iff)
  with True assms show ?thesis by (simp add: type_at_def find_at_append find_at_key del: append.simps)
next
  case False
  then have "map_of d (lit ''type'') = None" by (simp add: dhas_iff)
  with assms show ?thesis
    by (auto simp: type_at_def find_at_append dget_default_def pydict_val_def map_of_pydict_val simp del: append.simps)
qed

text \<open>An optional duration that must not exceed the timeout of the scenario\<close>

lemma bounded_duration_blames:
  assumes "rbind (parse_duration (dget d (lit k)) (show_place base @ lit (CHR ''.'' # k))) (\<lambda>ms.
      if timeout < ms then Inl (ScenarioError (show_place base @ lit (CHR ''.'' # k)) (lit ''must not exceed scenario.timeout''))
      else Inr (g ms)) = Inl e"
    and has: "dhas d (lit k)" and S: "S (base @ [K k]) Dur" "S (base @ [K k]) (At_Most timeout)" and base: "base \<noteq> []"
  shows "blames S base (pydict_val d) e"
  using assms(1)
proof (cases rule: rbind_raises)
  case 1
  then show ?thesis using S(1) has base by (rule duration_check.check_field)
next
  case (2 ms)
  from 2(1) obtain s where s: "dget d (lit k) = PStr s" by (auto simp: parse_duration_iff)
  with 2(1) have ms: "duration_value s = Some ms" by (auto intro: duration_value_parse)
  from 2(2) have "refused (At_Most timeout) (dget d (lit k)) (show_place base @ lit (CHR ''.'' # k)) e"
    by (auto simp: refused_def s ms split: if_splits)
  then show ?thesis using S(2) has base by (rule blames_field)
qed

lemma parse_event_assertion_blames:
  assumes doc: "find_at (assertion_place i) doc = Some (pydict_val d)" and type: "type_at doc i (lit ''event_count'')"
    and limit: "time_at doc [K ''scenario'', K ''timeout''] timeout"
    and "parse_event_assertion d (assertion_path i) timeout = Inl e"
  shows "blames (expects doc) (assertion_place i) (pydict_val d) e"
proof -
  note path = assertion_path_place
  have T: "expects doc (assertion_place i @ p) k" if "(lit ''event_count'', p, k) \<in> set type_table" for p k
    using expects.asserted [OF type that] .
  have T0: "expects doc (assertion_place i) k" if "(lit ''event_count'', [], k) \<in> set type_table" for k
    using T [OF that] by simp
  note B = expects.bound [OF type limit, simplified]
  from assms(4) show ?thesis unfolding parse_event_assertion_checked
  proof (cases rule: exact_checked)
    case 1
    then show ?thesis unfolding path by (rule blames_here) (simp add: T0 tables)
  next
    case 2
    then have has: "dhas d (lit ''event'')" "dhas d (lit ''count'')" by simp_all
    from 2(2) show ?thesis
    proof (cases rule: rbind_raises)
      case 1
      then show ?thesis unfolding path by (rule text_check.check_field) (use has in \<open>simp_all add: T [simplified] tables\<close>)
    next
      case (2 event)
      then have event: "dget d (lit ''event'') = PStr event" by (simp add: non_empty_string_iff)
      show ?thesis
      proof (cases "event \<in> set LOG_EVENTS")
        case False
        with 2(2) have "refused (Choice LOG_EVENTS (lit ''is not a supported log event'')) (dget d (lit ''event''))
            (show_place (assertion_place i) @ lit ''.event'') e"
          by (simp add: refused_def event path)
        then show ?thesis by (rule blames_field) (use has in \<open>simp_all add: T [simplified] tables\<close>)
      next
        case True
        with 2(2) consider (count) "bounded_integer (dget d (lit ''count'')) (assertion_path i @ lit ''.count'') 1 1000000 = Inl e"
          | (bound) normalized where "parse_within d (assertion_path i) timeout normalized = Inl e"
          | (latency) normalized where "parse_max_latency d (assertion_path i) timeout event normalized = Inl e"
          by (auto simp: rbind_Inl_iff)
        then show ?thesis
        proof cases
          case count
          then show ?thesis unfolding path by (rule whole_check.check_field) (use has in \<open>simp_all add: T [simplified] tables\<close>)
        next
          case bound
          then have w: "dhas d (lit ''within'')" by (auto simp: parse_within_checked split: if_splits)
          from bound [unfolded parse_within_checked path if_P [OF w]] show ?thesis
            by (rule bounded_duration_blames) (simp_all add: w B T [simplified] tables)
        next
          case latency
          then have w: "dhas d (lit ''max_latency'')" by (auto simp: parse_max_latency_checked split: if_splits)
          show ?thesis
          proof (cases "event = lit ''RECOVERY_SUCCESS''")
            case True
            then have "\<not> event \<noteq> lit ''RECOVERY_SUCCESS''" by simp
            from latency [unfolded parse_max_latency_checked path if_P [OF w] if_not_P [OF this]] show ?thesis
              by (rule bounded_duration_blames) (simp_all add: w B T [simplified] tables)
          next
            case False
            with latency w have "refused (Never (lit ''is only valid for RECOVERY_SUCCESS'')) (dget d (lit ''max_latency''))
                (show_place (assertion_place i) @ lit ''.max_latency'') e"
              by (simp add: parse_max_latency_checked refused_def path)
            then show ?thesis
              by (rule blames_field) (use w expects.latency [OF type text_at_field [OF doc has(1) event] False] in simp_all)
          qed
        qed
      qed
    qed
  qed
qed

lemma parse_stdout_text_blames:
  assumes "parse_stdout_text d (show_place base) (lit k) normalized = Inl e" "S (base @ [K k]) Text" "base \<noteq> []"
  shows "blames S base (pydict_val d) e"
proof -
  from assms(1) have "dhas d (lit k)" by (auto simp: parse_stdout_text_checked split: if_splits)
  moreover with assms(1) have "non_empty_string (dget d (lit k)) (show_place base @ lit (CHR ''.'' # k)) = Inl e"
    by (auto simp: parse_stdout_text_checked rbind_Inl_iff lit_def)
  ultimately show ?thesis using assms(2,3) by (intro text_check.check_field)
qed

lemma parse_stdout_assertion_blames:
  assumes type: "type_at doc i (lit ''stdout'')" and "parse_stdout_assertion d (assertion_path i) = Inl e"
  shows "blames (expects doc) (assertion_place i) (pydict_val d) e"
proof -
  note path = assertion_path_place
  have T: "expects doc (assertion_place i @ p) k" if "(lit ''stdout'', p, k) \<in> set type_table" for p k
    using expects.asserted [OF type that] .
  have T0: "expects doc (assertion_place i) k" if "(lit ''stdout'', [], k) \<in> set type_table" for k
    using T [OF that] by simp
  from assms(2) show ?thesis unfolding parse_stdout_assertion_def
  proof (cases rule: rbind_raises)
    case 1
    then have "refused (Fields [] (Some (map lit [''type'', ''contains'', ''not_contains'']))) (pydict_val d) (show_place (assertion_place i)) e"
      unfolding path by (rule allowed_refused) simp
    then show ?thesis by (rule blames_here) (simp add: T0 tables)
  next
    case (2 ok)
    show ?thesis
    proof (cases "dhas d (lit ''contains'') \<or> dhas d (lit ''not_contains'')")
      case False
      with 2(2) have "refused (Any_Of (map lit [''contains'', ''not_contains''])) (pydict_val d) (show_place (assertion_place i)) e"
        by (simp add: refused_def path pydict_val_def map_of_pydict_val dhas_iff)
      then show ?thesis by (rule blames_here) (simp add: T0 tables)
    next
      case True
      with 2(2) have "rbind (parse_stdout_text d (assertion_path i) (lit ''contains'') [(lit ''type'', PStr (lit ''stdout''))])
          (parse_stdout_text d (assertion_path i) (lit ''not_contains'')) = Inl e"
        by auto
      then show ?thesis unfolding path
        by (cases rule: rbind_raises; elim parse_stdout_text_blames) (simp_all add: T [simplified] tables)
    qed
  qed
qed

lemma parse_assertion_blames:
  assumes doc: "find_at (assertion_place i) doc = Some v" and limit: "time_at doc [K ''scenario'', K ''timeout''] timeout"
    and "parse_assertion timeout i v = Inl e"
  shows "blames (expects doc) (assertion_place i) v e"
proof -
  note path = assertion_path_place
  have A: "expects doc (assertion_place i @ p) k" if "(p, k) \<in> set assertion_table" for p k using expects.assertion [OF that] .
  have A0: "expects doc (assertion_place i) k" if "([], k) \<in> set assertion_table" for k using A [OF that] by simp
  from assms(3) show ?thesis unfolding parse_assertion_checked Let_def
  proof (cases rule: mapping_checked [where req = "[]" and opt = None])
    case 1
    then show ?thesis unfolding path by (rule blames_here) (simp add: A0 tables)
  next
    case (2 d)
    note v = 2(1) and step = 2(2)
    let ?type = "dget_default d (lit ''type'') (PStr (lit ''event_count''))"
    have type: "type_at doc i t" if "?type = PStr t" for t by (rule type_at_default [OF doc [unfolded v] that])
    have T: "expects doc (assertion_place i @ p) k" if "?type = PStr t" "(t, p, k) \<in> set type_table" for t p k
      using expects.asserted [OF type [OF that(1)] that(2)] .
    have T0: "expects doc (assertion_place i) k" if "?type = PStr t" "(t, [], k) \<in> set type_table" for t k
      using T [OF that] by simp
    consider "?type = PStr (lit ''event_count'')" | "?type = PStr (lit ''stdout'')" | "?type = PStr (lit ''disconnect'')"
      | "?type = PStr (lit ''kernel_warnings'')" | "?type \<notin> set (map (PStr \<circ> lit) [''disconnect'', ''event_count'', ''kernel_warnings'', ''stdout''])"
      by auto
    then show ?thesis
    proof cases
      case 1
      with step have "parse_event_assertion d (assertion_path i) timeout = Inl e" by simp
      then show ?thesis unfolding v by (rule parse_event_assertion_blames [OF doc [unfolded v] type [OF 1] limit])
    next
      case 2
      with step have "parse_stdout_assertion d (assertion_path i) = Inl e" by simp
      then show ?thesis unfolding v by (rule parse_stdout_assertion_blames [OF type [OF 2]])
    next
      case 3
      show ?thesis unfolding v
        by (rule flag_check.exact_field [OF _ path, where k = "''expected''" and req = "map lit [''type'', ''expected'']"])
          (use step 3 T [OF 3] T0 [OF 3] in \<open>simp_all add: tables\<close>)
    next
      case 4
      show ?thesis unfolding v
        by (rule whole_check.exact_field [OF _ path, where k = "''count''" and lo = 0 and hi = 1000000 and req = "map lit [''type'', ''count'']"])
          (use step 4 T [OF 4] T0 [OF 4] in \<open>simp_all add: tables\<close>)
    next
      case 5
      then have has: "dhas d (lit ''type'')" by (auto simp: dget_default_def dhas_iff split: option.splits)
      then have "?type = dget d (lit ''type'')" by (auto simp: dget_default_def dget_def dhas_iff)
      with 5 step have "refused (Choice (map lit [''disconnect'', ''event_count'', ''kernel_warnings'', ''stdout''])
          (lit ''must be one of: disconnect, event_count, kernel_warnings, stdout'')) (dget d (lit ''type''))
          (show_place (assertion_place i) @ lit ''.type'') e"
        by (auto simp: refused_def path is_str_iff)
      then show ?thesis unfolding v by (rule blames_field) (use has in \<open>simp_all add: A [simplified] tables\<close>)
    qed
  qed
qed

lemma parse_assertions_blames:
  assumes doc: "find_at [K ''assertions''] doc = Some v" and limit: "time_at doc [K ''scenario'', K ''timeout''] timeout"
    and "parse_assertions v timeout = Inl e"
  shows "blames (expects doc) [K ''assertions''] v e"
  using assms(3) unfolding parse_assertions_def
proof (cases rule: rbind_raises)
  case 1
  then have "non_empty_list v (show_place [K ''assertions'']) = Inl e" by simp
  then show ?thesis by (rule list_check.check_here) (simp add: expects.document tables)
next
  case (2 xs)
  then have v: "v = PList xs" by (simp add: non_empty_list_iff)
  from traverse_from_Inl [OF 2(2)] obtain i where i: "i < length xs" "parse_assertion timeout i (xs ! i) = Inl e" by auto
  have "find_at (assertion_place i) doc = Some (xs ! i)"
    using doc i(1) find_at_append [of "[K ''assertions'']" "[Idx i]" doc] by (simp add: v)
  from parse_assertion_blames [OF this limit i(2)] i(1) show ?thesis unfolding v by (intro blames_item) simp_all
qed

section \<open>The document\<close>

lemma parse_schema_version_blames:
  "parse_schema_version v = Inl e \<Longrightarrow> blames (expects doc) [K ''schema_version''] v e"
  by (rule blames_here [where k = Version])
    (auto simp: parse_schema_version_def refused_def expects.document tables split: pyval.splits if_splits)

lemma parse_scenario_section_time:
  assumes "find_at [K ''scenario''] doc = Some v" "parse_scenario_section v = Inr (name, timeout, events)"
  shows "time_at doc [K ''scenario'', K ''timeout''] timeout"
proof -
  from assms(2) obtain d where d: "v = pydict_val d" "dhas d (lit ''timeout'')"
    and "parse_duration (dget d (lit ''timeout'')) (lit ''scenario.timeout'') = Inr timeout"
    by (auto simp: parse_scenario_section_checked rbind_Inr_iff mapping_iff required_iff)
  moreover from this obtain s where s: "dget d (lit ''timeout'') = PStr s" by (auto simp: parse_duration_iff)
  ultimately have "duration_value s = Some timeout" by (auto intro: duration_value_parse)
  with text_at_field [of "[K ''scenario'']" doc d "lit ''timeout''" s] assms(1) d s show ?thesis
    by (auto simp: time_at_def)
qed

lemma parse_document_blames:
  assumes "parse_document source doc = Inl e"
  shows "blames (expects doc) [] doc e"
  using assms unfolding parse_document_checked
proof (cases rule: mapping_checked [where req = ROOT_FIELDS and opt = "Some ROOT_FIELDS"])
  case 1
  then show ?thesis by (intro blames_here [where base = "[]"] expects.document) (simp_all add: tables)
next
  case (2 d)
  note doc = 2(1)
  from 2(2) show ?thesis
  proof (cases rule: exact_checked)
    case 1
    then show ?thesis unfolding doc by (intro blames_here [where base = "[]"] expects.document) (simp_all add: tables)
  next
    case 2
    then have has: "dhas d (lit k)" if "k \<in> set [''schema_version'', ''device'', ''application'', ''scenario'', ''assertions'']" for k
      using that by (auto simp: ROOT_FIELDS_def)
    have inside: "blames (expects doc) [] doc e"
      if "k \<in> set [''schema_version'', ''device'', ''application'', ''scenario'', ''assertions'']"
        "blames (expects doc) [K k] (dget d (lit k)) e" for k
      unfolding doc using that(2) [unfolded doc] has [OF that(1)] by (intro blames_key [where base = "[]" and k = "lit k"]) simp_all
    have found: "find_at [K k] doc = Some (dget d (lit k))"
      if "k \<in> set [''schema_version'', ''device'', ''application'', ''scenario'', ''assertions'']" for k
      unfolding doc using find_at_key [OF has [OF that], of "[]"] by simp
    from 2(2) consider "parse_schema_version (dget d (lit ''schema_version'')) = Inl e" | "parse_device (dget d (lit ''device'')) = Inl e"
      | "parse_application (dget d (lit ''application'')) = Inl e" | "parse_scenario_section (dget d (lit ''scenario'')) = Inl e"
      | name timeout events where "parse_scenario_section (dget d (lit ''scenario'')) = Inr (name, timeout, events)"
          "parse_assertions (dget d (lit ''assertions'')) timeout = Inl e"
      by (auto simp: rbind_Inl_iff)
    then show ?thesis
    proof cases
      case 1
      show ?thesis by (rule inside [OF _ parse_schema_version_blames [OF 1]]) simp
    next
      case 2
      show ?thesis by (rule inside [OF _ parse_device_blames [OF 2]]) simp
    next
      case 3
      show ?thesis by (rule inside [OF _ parse_application_blames [OF 3]]) simp
    next
      case 4
      show ?thesis by (rule inside [OF _ parse_scenario_section_blames [OF found 4]]) simp_all
    next
      case 5
      show ?thesis
        by (rule inside [OF _ parse_assertions_blames [OF found parse_scenario_section_time [OF found 5(1)] 5(2)]]) simp_all
    qed
  qed
qed

end
