(* ===== verification/Scenario_Props.thy ===== *)
theory Scenario_Props
  imports Scenario_Errors
begin

text \<open>
  The properties of the scenario parser, with \<open>examples/scenarios/recovery.yaml\<close> as the concrete
  scenario of their witnesses.
\<close>

section \<open>The recovery example\<close>

definition recovery_spec :: scenario_spec where
  "recovery_spec =
     \<lparr>ss_device = lit ''/dev/vdevlab0'',
      ss_command = map lit [''./examples/vtemp-monitor'', ''--max-events'', ''1'', ''--poll-timeout-ms'', ''250''],
      ss_startup = 2000,
      ss_name = lit ''three-eio-recovery'',
      ss_timeout = 5000,
      ss_events = [(0, ResetAct), (100, EioAct 3), (200, WriteAct (lit ''42'' @ [10]))],
      ss_assertions =
        [EventCountA (lit ''READ_RETRY'') 3 (Some 2000) None,
         EventCountA (lit ''RECOVERY_SUCCESS'') 1 (Some 3000) (Some 1000),
         EventCountA (lit ''TEMPERATURE'') 1 (Some 3000) None,
         StdoutA (Some (lit ''RECOVERY_SUCCESS'')) (Some (lit ''READ_FAILED'')),
         KernelWarningsA 0]\<rparr>"

lemma wf_recovery_spec: "wf_spec recovery_spec"
  by (simp add: wf_spec_def recovery_spec_def scenario_bounds wf_bound_def LOG_EVENTS_def lit_def)

lemma length_str_nat_power: "length (str_nat (10 ^ k)) = Suc k"
proof (induction k)
  case 0
  then show ?case by (simp add: str_nat.simps)
next
  case (Suc k)
  have "str_nat (10 ^ Suc k) = str_nat (10 ^ k) @ [48]"
    by (subst str_nat.simps) simp
  with Suc show ?case by simp
qed

section \<open>Properties\<close>

text \<open>
  C1. Completeness of the parser: whenever the loader returns the document of a well-formed scenario,
  \<open>parse_scenario\<close> accepts it and returns exactly its normal form: times in milliseconds, events and
  assertions in document order, every default filled in.
\<close>

theorem parse_scenario_complete:
  assumes "wf_spec a" and "safe_load txt = Inr (render a)"
  shows "parse_scenario safe_load txt source = Inr (normal_form source a)"
  using assms by (simp add: parse_scenario_def parse_document_render)

theorem parse_scenario_complete_witness:
  "parse_scenario (\<lambda>_. Inr (render recovery_spec)) (lit ''doc'') (lit ''<memory>'') =
     Inr (normal_form (lit ''<memory>'') recovery_spec)"
  by (rule parse_scenario_complete [OF wf_recovery_spec refl])

text \<open>
  C2. Soundness of the parser: whatever document the loader returns, a scenario that is accepted is
  the normal form of a well-formed one. So its device is below \<open>/dev/\<close>, its command is non-empty,
  its events are non-empty, ordered by time and within the timeout, the timeout is at most 24 hours,
  and every fault parameter and every assertion is within its documented range.
\<close>

theorem parse_scenario_sound:
  assumes "parse_scenario safe_load txt source = Inr sd"
  shows "\<exists>a. wf_spec a \<and> sd = normal_form source a"
  using assms parse_document_normal_form
  by (auto simp: parse_scenario_def split: sum.splits pyexc.splits)

theorem parse_scenario_sound_witness:
  "\<exists>a. wf_spec a \<and> normal_form (lit ''f'') recovery_spec = normal_form (lit ''f'') a"
proof (rule parse_scenario_sound)
  show "parse_scenario (\<lambda>_. Inr (render recovery_spec)) [] (lit ''f'') = Inr (normal_form (lit ''f'') recovery_spec)"
    by (simp add: parse_scenario_def parse_document_render wf_recovery_spec)
qed

text \<open>
  C3. Durations: \<open>parse_duration\<close> accepts exactly the canonical decimal numerals followed by \<open>ms\<close> or
  \<open>s\<close> whose value is at most 24 hours, and returns that value in milliseconds. Signs, decimals,
  leading zeros, other suffixes and values of other types are all rejected.
\<close>

theorem parse_duration_exact:
  "parse_duration v path = Inr ms \<longleftrightarrow>
     (\<exists>n. (v = PStr (str_nat n @ lit ''ms'') \<and> ms = int n \<or>
           v = PStr (str_nat n @ lit ''s'') \<and> ms = int n * 1000) \<and> ms \<le> MAX_DURATION_MS)"
  by (auto simp: parse_duration_iff duration_text_def)

text \<open>
  C4. Strictness: an accepted event document has exactly the fields of the event form its action and
  fault type name; a field of another form, or a missing one, is never ignored.
\<close>

theorem parse_event_strict:
  assumes "parse_event timeout i v = Inr (t, j, d)"
  shows "j = i \<and> 0 \<le> t \<and> t \<le> timeout \<and>
    (\<exists>act ev. wf_action act \<and> d = norm_event (t, act) \<and> v = pydict_val ev \<and>
       set (dkeys ev) = insert (lit ''at'') (set (dkeys (action_doc act))))"
  using parse_event_sound [OF assms] by (simp add: doc_fields_def)

theorem parse_event_strict_witness:
  "\<exists>act ev. wf_action act \<and> norm_event (100, EioAct 3) = norm_event (100, act) \<and>
     event_doc (100, EioAct 3) = pydict_val ev \<and>
     set (dkeys ev) = insert (lit ''at'') (set (dkeys (action_doc act)))"
proof -
  have "parse_event 5000 1 (event_doc (100, EioAct 3)) = Inr (100, 1, norm_event (100, EioAct 3))"
    using parse_event_complete [of "(100, EioAct 3)" 5000 1] by (simp add: scenario_bounds)
  from parse_event_strict [OF this] show ?thesis by blast
qed

text \<open>
  C5. Every failure names its place and its cause: when a document is rejected, there is a value in it,
  at a place where the format expects something the value is not, and the exception is the
  \<open>ScenarioError\<close> with the full path of that place and the message for that expectation. The one other
  exception is the interpreter's \<open>ValueError\<close> on a duration of more digits than it converts, and then
  the document has such a duration. What the format expects where is the table of
  \<open>Scenario_Errors\<close>: the fields of each mapping by the action of an event, the type of a fault and the
  type of an assertion, the kind and range of each field, and the times that bound one another.
\<close>

theorem parse_document_errors_located:
  assumes "parse_document source doc = Inl e"
  shows "\<exists>place v kind. find_at place doc = Some v \<and> expects doc place kind \<and>
    ((\<exists>message. complaint kind v = Some message \<and> e = ScenarioError (show_place place) message) \<or>
     kind = Dur \<and> too_many_digits v \<and> e = digit_limit_error)"
  using parse_document_blames [OF assms] unfolding blames_def refused_def by auto

definition no_repeat_document :: pyval where
  "no_repeat_document = pydict_val
     [(lit ''schema_version'', PInt 1),
      (lit ''device'', pydict_val [(lit ''path'', PStr (lit ''/dev/vdevlab0''))]),
      (lit ''application'', pydict_val [(lit ''command'', PList [PStr (lit ''monitor'')]), (lit ''startup_timeout'', ms_val 2000)]),
      (lit ''scenario'', pydict_val
        [(lit ''name'', PStr (lit ''eio'')), (lit ''timeout'', ms_val 5000),
         (lit ''events'', PList
           [pydict_val [(lit ''at'', ms_val 0), (lit ''action'', PStr (lit ''reset''))],
            pydict_val [(lit ''at'', ms_val 100), (lit ''action'', PStr (lit ''fault'')),
              (lit ''type'', PStr (lit ''eio'')), (lit ''repeat'', PInt 0)]])]),
      (lit ''assertions'', PList [pydict_val [(lit ''event'', PStr (lit ''READ_RETRY'')), (lit ''count'', PInt 3)]])]"

theorem parse_document_errors_located_witness:
  "\<exists>place v kind. find_at place no_repeat_document = Some v \<and> expects no_repeat_document place kind \<and>
    complaint kind v = Some (lit ''must be between 1 and 1000000'') \<and> show_place place = lit ''scenario.events[1].repeat''"
proof -
  have "parse_document [] no_repeat_document =
      Inl (ScenarioError (lit ''scenario.events[1].repeat'') (lit ''must be between 1 and 1000000''))"
    by (simp add: no_repeat_document_def parse_document_checked parse_device_checked parse_application_checked
        parse_scenario_section_checked parse_event_checked parse_event_action_checked parse_fault_event_checked
        parse_schema_version_def command_argument_def ROOT_FIELDS_def check_evalI dget_default_def Let_def
        scenario_bounds bounded_integer_def event_path_def str_int_def str_nat.simps lit_def prefix_def)
  from parse_document_errors_located [OF this] show ?thesis by (metis pyexc.distinct pyexc.inject(1))
qed

text \<open>
  Event order: when every event parses but the times are not non-decreasing, the section is
  rejected at the first event that is earlier than its predecessor, and only there.
\<close>

theorem parse_scenario_section_out_of_order:
  assumes "timeout \<le> MAX_DURATION_MS" "0 \<le> timeout" "name \<noteq> []"
    and evs: "\<forall>(t, act) \<in> set evs. 0 \<le> t \<and> t \<le> timeout \<and> wf_action act"
    and "\<not> sorted (map fst evs)"
  shows "\<exists>i. Suc i < length evs \<and> sorted (map fst (take (Suc i) evs)) \<and> fst (evs ! Suc i) < fst (evs ! i) \<and>
    parse_scenario_section (pydict_val
      [(lit ''name'', PStr name), (lit ''timeout'', ms_val timeout), (lit ''events'', PList (map event_doc evs))])
      = Inl (ScenarioError (event_path (Suc i) @ lit ''.at'') (lit ''must not be earlier than the previous event''))"
proof -
  obtain ps where ps: "traverse_from 0 (parse_event timeout) (map event_doc evs) = Inr ps"
      "map fst ps = map fst evs"
    using parse_events_complete [OF evs assms(1)] by blast
  then have "check_event_order 1 ps \<noteq> Inr ()"
    using assms(5) by (simp add: check_event_order_iff)
  then obtain e where e: "check_event_order 1 ps = Inl e"
    by (cases "check_event_order 1 ps") auto
  from check_event_order_first [OF e] obtain i where
    i: "Suc i < length ps" "sorted (map fst (take (Suc i) ps))" "fst (ps ! Suc i) < fst (ps ! i)"
      "e = ScenarioError (event_path (1 + i) @ lit ''.at'') (lit ''must not be earlier than the previous event'')"
    by blast
  have len: "length ps = length evs" using ps(2) by (metis length_map)
  have "map fst (take (Suc i) ps) = map fst (take (Suc i) evs)"
    using ps(2) by (metis take_map)
  moreover have "fst (ps ! k) = fst (evs ! k)" if "k < length ps" for k
    using that len ps(2) by (metis nth_map)
  moreover have "evs \<noteq> []" using assms(5) by auto
  ultimately show ?thesis
    using i len ps(1) e assms(1-3)
    by (intro exI [of _ i]) (simp add: parse_scenario_section_checked check_evalI)
qed

theorem parse_scenario_section_out_of_order_witness:
  "\<exists>i. Suc i < length [(5 :: int, ResetAct), (3, ClearAct)] \<and>
    parse_scenario_section (pydict_val
      [(lit ''name'', PStr (lit ''x'')), (lit ''timeout'', ms_val 10),
       (lit ''events'', PList (map event_doc [(5, ResetAct), (3, ClearAct)]))])
      = Inl (ScenarioError (event_path (Suc i) @ lit ''.at'') (lit ''must not be earlier than the previous event''))"
  using parse_scenario_section_out_of_order [of 10 "lit ''x''" "[(5, ResetAct), (3, ClearAct)]"]
  by (auto simp: scenario_bounds)

text \<open>
  The digit limit is not translated: a duration of more than 4300 digits is rejected with the
  interpreter's \<open>ValueError\<close> instead of the path-qualified \<open>ScenarioError\<close> the module raises for
  every other invalid duration.
\<close>

theorem parse_duration_digit_limit:
  assumes "INT_MAX_STR_DIGITS < length (str_nat n)"
  shows "parse_duration (PStr (str_nat n @ lit ''ms'')) path = Inl digit_limit_error"
proof -
  have "duration_match (str_nat n @ lit ''ms'') = Some (str_nat n, lit ''ms'')"
    by (simp add: duration_match_iff)
  with assms show ?thesis by (simp add: parse_duration_def int_of_digits_def)
qed

theorem parse_duration_digit_limit_witness:
  "parse_duration (PStr (str_nat (10 ^ INT_MAX_STR_DIGITS) @ lit ''ms'')) (lit ''duration'') = Inl digit_limit_error"
  by (rule parse_duration_digit_limit) (simp add: length_str_nat_power)

end
