(* ===== verification/Py_Float.thy ===== *)
theory Py_Float
  imports Py_Prelude "HOL-Library.Log_Nat"
begin

text \<open>
  IEEE 754 binary64 arithmetic as the interpreter performs it: the exact result, rounded to the
  nearest representable value, ties to even, with gradual underflow. A finite float is the rational
  it denotes, so an operation on clock readings is the rational operation followed by \<open>rnd64\<close>.

  The arithmetic laws the scheduler relies on are the locale \<open>rounding\<close>, interpreted on \<open>rnd64\<close>.
\<close>

section \<open>Round to nearest, ties to even\<close>

definition rne :: "rat \<Rightarrow> int" where
  "rne q =
     (let f = \<lfloor>q\<rfloor>; d = q - of_int f
      in if d < 1/2 then f else if d > 1/2 then f + 1 else if even f then f else f + 1)"

definition pow2 :: "int \<Rightarrow> rat" where
  "pow2 k = (if 0 \<le> k then 2 ^ nat k else 1 / 2 ^ nat (- k))"

text \<open>The integer part of the binary logarithm of a positive rational.\<close>

definition ilog2 :: "rat \<Rightarrow> int" where
  "ilog2 q =
     (let (a, b) = quotient_of q; k = bitlen a - bitlen b
      in if pow2 k \<le> q then k else k - 1)"

text \<open>The exponent of the last bit of the 53-bit significand; \<open>-1074\<close> in the subnormal range.\<close>

definition exp64 :: "rat \<Rightarrow> int" where
  "exp64 q = max (ilog2 q - 52) (- 1074)"

definition rnd64_pos :: "rat \<Rightarrow> rat" where
  "rnd64_pos q = of_int (rne (q / pow2 (exp64 q))) * pow2 (exp64 q)"

definition rnd64 :: "rat \<Rightarrow> rat" where
  "rnd64 q = (if q = 0 then 0 else if 0 < q then rnd64_pos q else - rnd64_pos (- q))"

lemma rne_bounds: "of_int (rne q) \<le> q + 1/2" "q - 1/2 \<le> of_int (rne q)"
proof -
  define f where "f = \<lfloor>q\<rfloor>"
  have f: "of_int f \<le> q" "q < of_int f + 1" unfolding f_def by linarith+
  show "of_int (rne q) \<le> q + 1/2" "q - 1/2 \<le> of_int (rne q)"
    using f by (auto simp: rne_def Let_def f_def [symmetric])
qed

lemma rne_of_int [simp]: "rne (of_int n) = n"
  by (simp add: rne_def)

lemma rne_mono: "p \<le> q \<Longrightarrow> rne p \<le> rne q"
proof -
  assume le: "p \<le> q"
  then have fl: "\<lfloor>p\<rfloor> \<le> \<lfloor>q\<rfloor>" by (rule floor_mono)
  show ?thesis
  proof (cases "\<lfloor>p\<rfloor> = \<lfloor>q\<rfloor>")
    case True
    with le show ?thesis by (auto simp: rne_def Let_def)
  next
    case False
    with fl have "\<lfloor>p\<rfloor> + 1 \<le> \<lfloor>q\<rfloor>" by linarith
    moreover have "rne p \<le> \<lfloor>p\<rfloor> + 1" "\<lfloor>q\<rfloor> \<le> rne q" by (auto simp: rne_def Let_def)
    ultimately show ?thesis by linarith
  qed
qed

lemma rne_ge_int: "of_int n \<le> q \<Longrightarrow> n \<le> rne q"
  using rne_mono [of "of_int n" q] by simp

lemma rne_le_int: "q \<le> of_int n \<Longrightarrow> rne q \<le> n"
  using rne_mono [of q "of_int n"] by simp

lemma pow2_pos [simp]: "0 < pow2 k"
  by (simp add: pow2_def)

lemma pow2_nonzero [simp]: "pow2 k \<noteq> 0"
  by (metis pow2_pos less_irrefl)

lemma pow2_Suc: "pow2 (k + 1) = 2 * pow2 k"
proof (cases "0 \<le> k")
  case True
  then show ?thesis by (simp add: pow2_def nat_add_distrib)
next
  case False
  then have "nat (- k) = Suc (nat (- (k + 1)))" by linarith
  with False show ?thesis by (auto simp: pow2_def)
qed

lemma pow2_add_nat: "pow2 (k + int n) = 2 ^ n * pow2 k"
proof (induction n)
  case 0
  then show ?case by simp
next
  case (Suc n)
  have "pow2 (k + int (Suc n)) = pow2 ((k + int n) + 1)" by (simp add: algebra_simps)
  also have "\<dots> = 2 ^ Suc n * pow2 k" using Suc by (simp add: pow2_Suc)
  finally show ?case .
qed

lemma pow2_mono: "j \<le> k \<Longrightarrow> pow2 j \<le> pow2 k"
  using pow2_add_nat [of j "nat (k - j)"] by simp

lemma pow2_diff: "a \<le> b \<Longrightarrow> pow2 (int a - int b) * 2 ^ b = 2 ^ a"
  using pow2_add_nat [of "int a - int b" b] by (simp add: pow2_def mult.commute)

lemma pow2_nat_diff: "pow2 (int a - int b) * 2 ^ b = 2 ^ a"
  using pow2_add_nat [of "int a - int b" b] by (simp add: pow2_def mult.commute)

lemma ilog2_bounds:
  assumes "0 < q"
  shows "pow2 (ilog2 q) \<le> q" "q < pow2 (ilog2 q + 1)"
proof -
  obtain a b where ab: "quotient_of q = (a, b)" by (cases "quotient_of q")
  then have b: "0 < b" and q: "q = of_int a / of_int b"
    by (auto dest: quotient_of_denom_pos quotient_of_div)
  with assms have a: "0 < a" by (auto simp: zero_less_divide_iff)
  obtain la lb where la: "bitlen a = int la" and lb: "bitlen b = int lb"
    by (metis bitlen_nonneg nonneg_int_cases)
  have "la \<noteq> 0" "lb \<noteq> 0" using a b la lb bitlen_eq_zero_iff [of a] bitlen_eq_zero_iff [of b] by auto
  then obtain la' lb' where s: "la = Suc la'" "lb = Suc lb'" by (meson not0_implies_Suc)
  have A: "2 ^ la' \<le> a" "a < 2 * 2 ^ la'" and B: "2 ^ lb' \<le> b" "b < 2 * 2 ^ lb'"
    using bitlen_bounds [OF a] bitlen_bounds [OF b] la lb s by (auto simp: nat_add_distrib)
  have A': "2 ^ la' \<le> (of_int a :: rat)" "of_int a < (2 * 2 ^ la' :: rat)"
    using A(1) [THEN of_int_le_iff [where 'a = rat, THEN iffD2]]
      A(2) [THEN of_int_less_iff [where 'a = rat, THEN iffD2]]
    by (simp_all only: of_int_mult of_int_power of_int_numeral)
  have B': "2 ^ lb' \<le> (of_int b :: rat)" "of_int b < (2 * 2 ^ lb' :: rat)"
    using B(1) [THEN of_int_le_iff [where 'a = rat, THEN iffD2]]
      B(2) [THEN of_int_less_iff [where 'a = rat, THEN iffD2]]
    by (simp_all only: of_int_mult of_int_power of_int_numeral)
  let ?k = "bitlen a - bitlen b"
  have k: "?k = int la' - int lb'" using la lb s by simp
  have p: "pow2 ?k * 2 ^ lb' = 2 ^ la'" using pow2_nat_diff [of la' lb'] k by simp
  have bpos: "0 < (of_int b :: rat)" using b by simp
  have "q * of_int b = of_int a" using q b by simp
  have up: "q < 2 * pow2 ?k"
  proof -
    have "of_int a < 2 * pow2 ?k * 2 ^ lb'" using A'(2) p by (simp add: mult.assoc)
    also have "\<dots> \<le> 2 * pow2 ?k * of_int b" using B'(1) by (intro mult_left_mono) (auto simp: less_imp_le)
    finally have "of_int a < 2 * pow2 ?k * of_int b" .
    then show ?thesis using q bpos pos_divide_less_eq by blast
  qed
  have low: "pow2 (?k - 1) \<le> q"
  proof -
    have "2 * pow2 (?k - 1) = pow2 ?k" using pow2_Suc [of "?k - 1"] by simp
    then have "pow2 (?k - 1) * (2 * 2 ^ lb') = 2 ^ la'"
      unfolding p [symmetric] by (metis mult.assoc mult.commute)
    moreover have "pow2 (?k - 1) * of_int b \<le> pow2 (?k - 1) * (2 * 2 ^ lb')"
      using B'(2) by (intro mult_left_mono) (auto simp: less_imp_le)
    ultimately have "pow2 (?k - 1) * of_int b \<le> 2 ^ la'" by simp
    also have "\<dots> \<le> of_int a" by (rule A'(1))
    finally have "pow2 (?k - 1) * of_int b \<le> of_int a" .
    then show ?thesis using q bpos pos_le_divide_eq by blast
  qed
  show "pow2 (ilog2 q) \<le> q" "q < pow2 (ilog2 q + 1)"
    using up low pow2_Suc [of ?k] by (auto simp: ilog2_def ab Let_def)
qed

lemma ilog2_mono:
  assumes "0 < p" "p \<le> q"
  shows "ilog2 p \<le> ilog2 q"
proof (rule ccontr)
  assume "\<not> ilog2 p \<le> ilog2 q"
  then have "pow2 (ilog2 q + 1) \<le> pow2 (ilog2 p)" by (intro pow2_mono) simp
  with ilog2_bounds [of p] ilog2_bounds [of q] assms show False by auto
qed

lemma exp64_mono: "0 < p \<Longrightarrow> p \<le> q \<Longrightarrow> exp64 p \<le> exp64 q"
  using ilog2_mono by (fastforce simp: exp64_def)

lemma significand_less: "0 < q \<Longrightarrow> q / pow2 (exp64 q) < 2 ^ 53"
proof -
  assume q: "0 < q"
  have "q < pow2 (ilog2 q + 1)" by (rule ilog2_bounds [OF q])
  also have "\<dots> \<le> pow2 (exp64 q + int 53)" by (intro pow2_mono) (auto simp: exp64_def)
  also have "\<dots> = 2 ^ 53 * pow2 (exp64 q)" by (rule pow2_add_nat)
  finally show ?thesis by (simp add: field_simps)
qed

lemma significand_ge: "0 < q \<Longrightarrow> - 1074 < exp64 q \<Longrightarrow> 2 ^ 52 \<le> q / pow2 (exp64 q)"
proof -
  assume q: "0 < q" and "- 1074 < exp64 q"
  then have "exp64 q + int 52 = ilog2 q" by (auto simp: exp64_def)
  then have "2 ^ 52 * pow2 (exp64 q) = pow2 (ilog2 q)" by (metis pow2_add_nat)
  also have "\<dots> \<le> q" by (rule ilog2_bounds [OF q])
  finally show ?thesis by (simp add: field_simps)
qed

lemma rnd64_pos_mono:
  assumes "0 < p" "p \<le> q"
  shows "rnd64_pos p \<le> rnd64_pos q"
proof (cases "exp64 p = exp64 q")
  case True
  have "p / pow2 (exp64 p) \<le> q / pow2 (exp64 p)"
    using assms(2) by (simp add: divide_right_mono less_imp_le)
  then have "rne (p / pow2 (exp64 p)) \<le> rne (q / pow2 (exp64 p))" by (rule rne_mono)
  then show ?thesis
    unfolding rnd64_pos_def True [symmetric] by (intro mult_right_mono) (auto simp: less_imp_le)
next
  case False
  with exp64_mono [OF assms] have lt: "exp64 p + 1 \<le> exp64 q" by simp
  moreover have "- 1074 \<le> exp64 p" by (simp add: exp64_def)
  ultimately have normal: "- 1074 < exp64 q" by simp
  have "p / pow2 (exp64 p) \<le> of_int (2 ^ 53)" using significand_less [OF assms(1)] by simp
  then have "rne (p / pow2 (exp64 p)) \<le> 2 ^ 53" by (rule rne_le_int)
  then have "of_int (rne (p / pow2 (exp64 p))) \<le> (2 ^ 53 :: rat)"
    by (metis of_int_le_iff of_int_numeral of_int_power)
  then have "rnd64_pos p \<le> 2 ^ 53 * pow2 (exp64 p)"
    unfolding rnd64_pos_def by (intro mult_right_mono) (auto simp: less_imp_le)
  also have "\<dots> = 2 ^ 52 * pow2 (exp64 p + 1)" by (simp add: pow2_Suc)
  also have "\<dots> \<le> 2 ^ 52 * pow2 (exp64 q)" using pow2_mono [OF lt] by simp
  also have "\<dots> \<le> rnd64_pos q"
  proof -
    have "of_int (2 ^ 52) \<le> q / pow2 (exp64 q)" using significand_ge [of q] assms normal by simp
    then have "2 ^ 52 \<le> rne (q / pow2 (exp64 q))" by (rule rne_ge_int)
    then have "(2 ^ 52 :: rat) \<le> of_int (rne (q / pow2 (exp64 q)))"
      by (metis of_int_le_iff of_int_numeral of_int_power)
    then show ?thesis unfolding rnd64_pos_def by (intro mult_right_mono) (auto simp: less_imp_le)
  qed
  finally show ?thesis .
qed

lemma rnd64_pos_nonneg: "0 < q \<Longrightarrow> 0 \<le> rnd64_pos q"
proof -
  assume "0 < q"
  then have "of_int 0 \<le> q / pow2 (exp64 q)" by (simp add: less_imp_le)
  then have "0 \<le> rne (q / pow2 (exp64 q))" by (rule rne_ge_int)
  then show ?thesis by (simp add: rnd64_pos_def less_imp_le)
qed

lemma rnd64_0 [simp]: "rnd64 0 = 0"
  by (simp add: rnd64_def)

lemma rnd64_minus: "rnd64 (- q) = - rnd64 q"
  by (simp add: rnd64_def)

lemma rnd64_mono: "p \<le> q \<Longrightarrow> rnd64 p \<le> rnd64 q"
proof -
  assume le: "p \<le> q"
  consider "0 < p" | "q < 0" | "p \<le> 0" "0 \<le> q" by linarith
  then show ?thesis
  proof cases
    case 1
    with le rnd64_pos_mono [of p q] show ?thesis by (simp add: rnd64_def)
  next
    case 2
    with le rnd64_pos_mono [of "- q" "- p"] show ?thesis by (simp add: rnd64_def)
  next
    case 3
    then have "rnd64 p \<le> 0" "0 \<le> rnd64 q"
      using rnd64_pos_nonneg [of "- p"] rnd64_pos_nonneg [of q] by (auto simp: rnd64_def)
    then show ?thesis by simp
  qed
qed

text \<open>The relative error is at most half a unit of the last place.\<close>

lemma rnd64_pos_error: "0 < q \<Longrightarrow> \<bar>rnd64_pos q - q\<bar> \<le> pow2 (exp64 q) / 2"
proof -
  assume q: "0 < q"
  let ?s = "q / pow2 (exp64 q)"
  have "\<bar>of_int (rne ?s) - ?s\<bar> \<le> 1/2" using rne_bounds [of ?s] by linarith
  then have "\<bar>of_int (rne ?s) - ?s\<bar> * pow2 (exp64 q) \<le> 1/2 * pow2 (exp64 q)"
    by (intro mult_right_mono) (auto simp: less_imp_le)
  moreover have "(of_int (rne ?s) - ?s) * pow2 (exp64 q) = rnd64_pos q - q"
    by (simp add: rnd64_pos_def left_diff_distrib)
  then have "\<bar>of_int (rne ?s) - ?s\<bar> * pow2 (exp64 q) = \<bar>rnd64_pos q - q\<bar>"
    by (metis abs_mult abs_of_pos pow2_pos)
  ultimately show ?thesis by simp
qed

lemma rnd64_error:
  assumes "\<bar>q\<bar> < pow2 k" "- 1021 \<le> k"
  shows "\<bar>rnd64 q - q\<bar> \<le> pow2 (k - 54)"
proof (cases "q = 0")
  case True
  then show ?thesis by (simp add: less_imp_le)
next
  case False
  let ?q = "\<bar>q\<bar>"
  have q: "0 < ?q" using False by simp
  have "ilog2 ?q < k"
  proof (rule ccontr)
    assume "\<not> ilog2 ?q < k"
    then have "pow2 k \<le> pow2 (ilog2 ?q)" by (intro pow2_mono) simp
    with ilog2_bounds(1) [OF q] assms show False by simp
  qed
  with assms have "exp64 ?q \<le> k - 53" by (auto simp: exp64_def)
  then have "pow2 (exp64 ?q) \<le> pow2 (k - 54 + 1)" by (intro pow2_mono) simp
  then have "pow2 (exp64 ?q) / 2 \<le> pow2 (k - 54)" unfolding pow2_Suc by simp
  moreover have "\<bar>rnd64 q - q\<bar> = \<bar>rnd64_pos ?q - ?q\<bar>"
    using False by (auto simp: rnd64_def abs_if)
  ultimately show ?thesis using rnd64_pos_error [OF q] by simp
qed

section \<open>The laws of rounded arithmetic\<close>

locale rounding =
  fixes rnd :: "rat \<Rightarrow> rat"
  assumes mono: "x \<le> y \<Longrightarrow> rnd x \<le> rnd y"
    and zero: "rnd 0 = 0"
begin

lemma nonneg: "0 \<le> x \<Longrightarrow> 0 \<le> rnd x"
  using mono [of 0 x] by (simp add: zero)

lemma diff_nonneg: "y \<le> x \<Longrightarrow> 0 \<le> rnd (x - y)"
  by (rule nonneg) simp

text \<open>A difference scaled to another unit keeps the order of the readings it is taken from.\<close>

lemma scaled_diff_mono: "0 \<le> c \<Longrightarrow> x \<le> y \<Longrightarrow> rnd (rnd (x - z) * c) \<le> rnd (rnd (y - z) * c)"
  by (intro mono mult_right_mono) simp_all

lemma scaled_diff_nonneg: "0 \<le> c \<Longrightarrow> z \<le> x \<Longrightarrow> 0 \<le> rnd (rnd (x - z) * c)"
  using scaled_diff_mono [of c z x z] by (simp add: zero)

lemma scaled_mono: "0 \<le> c \<Longrightarrow> x \<le> y \<Longrightarrow> rnd (x * c) \<le> rnd (y * c)"
  by (intro mono mult_right_mono)

lemma positive_diff: "0 < rnd (x - y) \<Longrightarrow> y < x"
  using mono [of "x - y" 0] by (force simp: zero not_less)

end

interpretation binary64: rounding rnd64
  by unfold_locales (auto intro: rnd64_mono)

section \<open>Operations of the sources\<close>

definition fl_add :: "rat \<Rightarrow> rat \<Rightarrow> rat" where "fl_add x y = rnd64 (x + y)"
definition fl_sub :: "rat \<Rightarrow> rat \<Rightarrow> rat" where "fl_sub x y = rnd64 (x - y)"
definition fl_mul :: "rat \<Rightarrow> rat \<Rightarrow> rat" where "fl_mul x y = rnd64 (x * y)"

text \<open>\<open>int(x)\<close> truncates towards zero.\<close>

definition fl_int :: "rat \<Rightarrow> int" where
  "fl_int x = (if 0 \<le> x then \<lfloor>x\<rfloor> else \<lceil>x\<rceil>)"

text \<open>
  \<open>float(n)\<close> and \<open>n / m\<close> for integers are correctly rounded; a result beyond the largest finite
  value raises \<open>OverflowError\<close>.
\<close>

definition fl_of_rat :: "pystr \<Rightarrow> rat \<Rightarrow> pyexc + rat" where
  "fl_of_rat msg q = (if pow2 1024 \<le> \<bar>rnd64 q\<bar> then Inl (OverflowError msg) else Inr (rnd64 q))"

definition fl_of_int :: "int \<Rightarrow> pyexc + rat" where
  "fl_of_int n = fl_of_rat (lit ''int too large to convert to float'') (of_int n)"

definition fl_truediv :: "int \<Rightarrow> int \<Rightarrow> pyexc + rat" where
  "fl_truediv n m = fl_of_rat (lit ''integer division result too large for a float'') (of_int n / of_int m)"

lemma rnd64_small: "\<bar>q\<bar> < pow2 1000 \<Longrightarrow> \<bar>rnd64 q\<bar> < pow2 1024"
proof -
  assume q: "\<bar>q\<bar> < pow2 1000"
  then have "\<bar>rnd64 q - q\<bar> \<le> pow2 946" using rnd64_error [of q 1000] by simp
  moreover have "pow2 946 \<le> pow2 1000" "pow2 (1000 + 1) \<le> pow2 1024" by (intro pow2_mono; simp)+
  ultimately show ?thesis using q unfolding pow2_Suc by linarith
qed

lemma fl_truediv_small: "\<bar>of_int n / of_int m\<bar> < pow2 1000 \<Longrightarrow> fl_truediv n m = Inr (rnd64 (of_int n / of_int m))"
  using rnd64_small by (simp add: fl_truediv_def fl_of_rat_def not_le)

lemma fl_of_int_small: "\<bar>n\<bar> < 2 ^ 64 \<Longrightarrow> fl_of_int n = Inr (rnd64 (of_int n))"
proof -
  assume "\<bar>n\<bar> < 2 ^ 64"
  then have "\<bar>of_int n :: rat\<bar> < of_int (2 ^ 64)" by (metis of_int_abs of_int_less_iff)
  also have "\<dots> = pow2 64" by (simp add: pow2_def)
  also have "\<dots> \<le> pow2 1000" by (rule pow2_mono) simp
  finally show ?thesis using rnd64_small by (simp add: fl_of_int_def fl_of_rat_def not_le)
qed

text \<open>The default grace period is one second.\<close>

lemma fl_truediv_1000: "fl_truediv 1000 1000 = Inr 1"
proof -
  have "1 \<le> pow2 1000" using pow2_mono [of 0 1000] by (simp add: pow2_def)
  moreover have "pow2 1000 \<noteq> 1" using pow2_mono [of 1 1000] by (auto simp: pow2_def)
  ultimately have "fl_truediv 1000 1000 = Inr (rnd64 1)" using fl_truediv_small [of 1000 1000] by simp
  moreover have "rnd64 1 = 1" by code_simp
  ultimately show ?thesis by simp
qed

end
