(* ===== verification/Py_Text.thy ===== *)
theory Py_Text
  imports Py_Prelude "HOL-Library.Word"
begin

text \<open>
  The text methods of the standard library the sources call: \<open>str.splitlines\<close>, \<open>str.strip\<close> as the
  test for a blank line, \<open>str.encode("utf-8")\<close> and \<open>bytes.decode("utf-8", errors="replace")\<close>.
\<close>

section \<open>Lines and white space\<close>

definition is_linebreak :: "nat \<Rightarrow> bool" where
  "is_linebreak c \<longleftrightarrow> c \<in> {10, 11, 12, 13, 28, 29, 30, 133, 8232, 8233}"

definition is_space :: "nat \<Rightarrow> bool" where
  "is_space c \<longleftrightarrow>
     9 \<le> c \<and> c \<le> 13 \<or> 28 \<le> c \<and> c \<le> 32 \<or> c = 133 \<or> c = 160 \<or> c = 5760 \<or>
     8192 \<le> c \<and> c \<le> 8202 \<or> c = 8232 \<or> c = 8233 \<or> c = 8239 \<or> c = 8287 \<or> c = 12288"

text \<open>A string is blank when \<open>s.strip()\<close> is empty.\<close>

definition is_blank :: "pystr \<Rightarrow> bool" where
  "is_blank s \<longleftrightarrow> (\<forall>c \<in> set s. is_space c)"

fun splitlines_acc :: "pystr \<Rightarrow> pystr \<Rightarrow> pystr list" where
  "splitlines_acc acc [] = (if acc = [] then [] else [rev acc])"
| "splitlines_acc acc (c # cs) =
     (if c = 13 \<and> cs \<noteq> [] \<and> hd cs = 10 then rev acc # splitlines_acc [] (tl cs)
      else if is_linebreak c then rev acc # splitlines_acc [] cs
      else splitlines_acc (c # acc) cs)"

definition splitlines :: "pystr \<Rightarrow> pystr list" where
  "splitlines s = splitlines_acc [] s"

lemma splitlines_acc_no_break:
  "\<forall>c \<in> set acc. \<not> is_linebreak c \<Longrightarrow> l \<in> set (splitlines_acc acc s) \<Longrightarrow> \<forall>c \<in> set l. \<not> is_linebreak c"
proof (induction acc s rule: splitlines_acc.induct)
  case (1 acc)
  then show ?case by (cases "acc = []") simp_all
next
  case (2 acc c cs)
  consider "c = 13 \<and> cs \<noteq> [] \<and> hd cs = 10" | "\<not> (c = 13 \<and> cs \<noteq> [] \<and> hd cs = 10)" "is_linebreak c"
    | "\<not> (c = 13 \<and> cs \<noteq> [] \<and> hd cs = 10)" "\<not> is_linebreak c" by blast
  then show ?case
  proof cases
    case case1: 1
    then have "l = rev acc \<or> l \<in> set (splitlines_acc [] (tl cs))" using 2(5) by simp
    with 2(1) [OF case1] 2(4) show ?thesis by auto
  next
    case case2: 2
    then have "l = rev acc \<or> l \<in> set (splitlines_acc [] cs)" using 2(5) by (auto split: if_splits)
    with 2(2) [OF case2] 2(4) show ?thesis by auto
  next
    case 3
    then have "l \<in> set (splitlines_acc (c # acc) cs)" using 2(5) by (auto split: if_splits)
    with 2(3) [OF 3] 2(4) 3 show ?thesis by auto
  qed
qed

lemma splitlines_no_break: "l \<in> set (splitlines s) \<Longrightarrow> c \<in> set l \<Longrightarrow> \<not> is_linebreak c"
  using splitlines_acc_no_break [of "[]"] by (auto simp: splitlines_def)

lemma splitlines_acc_join:
  "\<forall>c \<in> set l. \<not> is_linebreak c \<Longrightarrow>
     splitlines_acc acc (l @ 10 # s) = (rev acc @ l) # splitlines_acc [] s"
proof (induction l arbitrary: acc)
  case Nil
  then show ?case by (simp add: is_linebreak_def)
next
  case (Cons c l)
  then have "\<not> (c = 13 \<and> l @ 10 # s \<noteq> [] \<and> hd (l @ 10 # s) = 10)" "\<not> is_linebreak c"
    by (auto simp: is_linebreak_def)
  with Cons show ?case by auto
qed

text \<open>Lines written one by one with a newline after each are read back one by one.\<close>

lemma splitlines_concat:
  "\<forall>l \<in> set ls. \<forall>c \<in> set l. \<not> is_linebreak c \<Longrightarrow> splitlines (concat (map (\<lambda>l. l @ [10]) ls)) = ls"
proof (induction ls)
  case Nil
  then show ?case by (simp add: splitlines_def)
next
  case (Cons l ls)
  then show ?case by (simp add: splitlines_def splitlines_acc_join)
qed

section \<open>UTF-8\<close>

type_synonym byte = "8 word"

definition is_surrogate :: "nat \<Rightarrow> bool" where
  "is_surrogate c \<longleftrightarrow> 55296 \<le> c \<and> c \<le> 57343"

definition utf8_char :: "nat \<Rightarrow> nat list" where
  "utf8_char c =
     (if c < 128 then [c]
      else if c < 2048 then [192 + c div 64, 128 + c mod 64]
      else if c < 65536 then [224 + c div 4096, 128 + c div 64 mod 64, 128 + c mod 64]
      else [240 + c div 262144, 128 + c div 4096 mod 64, 128 + c div 64 mod 64, 128 + c mod 64])"

definition utf8_encode :: "pystr \<Rightarrow> pyexc + byte list" where
  "utf8_encode s =
     (if \<exists>c \<in> set s. is_surrogate c then Inl UnicodeEncodeError
      else Inr (map of_nat (concat (map utf8_char s))))"

text \<open>
  Decoding replaces each maximal ill-formed prefix by the replacement character U+FFFD, as the
  interpreter does. \<open>second_ok\<close> is the range of the byte after a lead byte.
\<close>

definition is_cont :: "nat \<Rightarrow> bool" where
  "is_cont b \<longleftrightarrow> 128 \<le> b \<and> b \<le> 191"

definition second_ok :: "nat \<Rightarrow> nat \<Rightarrow> bool" where
  "second_ok lead b \<longleftrightarrow>
     (if lead = 224 then 160 \<le> b \<and> b \<le> 191
      else if lead = 237 then 128 \<le> b \<and> b \<le> 159
      else if lead = 240 then 144 \<le> b \<and> b \<le> 191
      else if lead = 244 then 128 \<le> b \<and> b \<le> 143
      else is_cont b)"

fun utf8_decode_nat :: "nat list \<Rightarrow> pystr" where
  "utf8_decode_nat [] = []"
| "utf8_decode_nat (b # bs) =
     (if b < 128 then b # utf8_decode_nat bs
      else if 194 \<le> b \<and> b \<le> 223 then
        (case bs of
           c # cs \<Rightarrow> if is_cont c then ((b - 192) * 64 + (c - 128)) # utf8_decode_nat cs
                     else 65533 # utf8_decode_nat (c # cs)
         | [] \<Rightarrow> [65533])
      else if 224 \<le> b \<and> b \<le> 239 then
        (case bs of
           c # cs \<Rightarrow>
             if second_ok b c then
               (case cs of
                  d # ds \<Rightarrow> if is_cont d
                            then ((b - 224) * 4096 + (c - 128) * 64 + (d - 128)) # utf8_decode_nat ds
                            else 65533 # utf8_decode_nat (d # ds)
                | [] \<Rightarrow> [65533])
             else 65533 # utf8_decode_nat (c # cs)
         | [] \<Rightarrow> [65533])
      else if 240 \<le> b \<and> b \<le> 244 then
        (case bs of
           c # cs \<Rightarrow>
             if second_ok b c then
               (case cs of
                  d # ds \<Rightarrow>
                    if is_cont d then
                      (case ds of
                         e # es \<Rightarrow> if is_cont e
                           then ((b - 240) * 262144 + (c - 128) * 4096 + (d - 128) * 64 + (e - 128))
                                # utf8_decode_nat es
                           else 65533 # utf8_decode_nat (e # es)
                       | [] \<Rightarrow> [65533])
                    else 65533 # utf8_decode_nat (d # ds)
                | [] \<Rightarrow> [65533])
             else 65533 # utf8_decode_nat (c # cs)
         | [] \<Rightarrow> [65533])
      else 65533 # utf8_decode_nat bs)"

definition utf8_decode_replace :: "byte list \<Rightarrow> pystr" where
  "utf8_decode_replace bs = utf8_decode_nat (map unat bs)"

definition is_code_point :: "nat \<Rightarrow> bool" where
  "is_code_point c \<longleftrightarrow> c < 1114112"

lemma utf8_char_bytes: "is_code_point c \<Longrightarrow> \<forall>b \<in> set (utf8_char c). b < 256"
  by (auto simp: utf8_char_def is_code_point_def)

lemma mod64_cont: "is_cont (128 + n mod 64)"
  using mod_less_divisor [of 64 n] by (simp add: is_cont_def)

lemma base64_digits:
  "c div 64 = c div 4096 * 64 + c div 64 mod (64 :: nat)"
  "c div 4096 = c div 262144 * 64 + c div 4096 mod (64 :: nat)"
proof -
  have "c div 64 div 64 = c div 4096" "c div 4096 div 64 = c div 262144"
    using div_mult2_eq [of c 64 64] div_mult2_eq [of c 4096 64] by simp_all
  then show "c div 64 = c div 4096 * 64 + c div 64 mod 64"
    "c div 4096 = c div 262144 * 64 + c div 4096 mod 64"
    by (metis div_mult_mod_eq)+
qed

lemma base64_sum:
  "c div 4096 * 4096 + c div 64 mod 64 * 64 + c mod 64 = (c :: nat)"
  "c div 262144 * 262144 + c div 4096 mod 64 * 4096 + c div 64 mod 64 * 64 + c mod 64 = (c :: nat)"
proof -
  have c: "c = c div 64 * 64 + c mod 64" by simp
  from c base64_digits(1) [of c] show "c div 4096 * 4096 + c div 64 mod 64 * 64 + c mod 64 = c" by linarith
  with base64_digits(2) [of c] show "c div 262144 * 262144 + c div 4096 mod 64 * 4096 + c div 64 mod 64 * 64 + c mod 64 = c" by linarith
qed

lemma utf8_decode_char:
  assumes "is_code_point c" "\<not> is_surrogate c"
  shows "utf8_decode_nat (utf8_char c @ bs) = c # utf8_decode_nat bs"
proof -
  consider "c < 128" | "128 \<le> c" "c < 2048" | "2048 \<le> c" "c < 65536" | "65536 \<le> c" "c < 1114112"
    using assms(1) unfolding is_code_point_def by linarith
  then show ?thesis
  proof cases
    case 1
    then show ?thesis by (simp add: utf8_char_def)
  next
    case 2
    moreover have "c div 64 * 64 + c mod 64 = c" by simp
    moreover have "2 \<le> c div 64" "c div 64 < 32" using 2 by auto
    ultimately show ?thesis by (simp add: utf8_char_def mod64_cont)
  next
    case 3
    have le: "c div 4096 < 16" using 3 by auto
    have sum: "c div 4096 * 4096 + c div 64 mod 64 * 64 + c mod 64 = c" by (rule base64_sum(1))
    have sec: "second_ok (224 + c div 4096) (128 + c div 64 mod 64)"
    proof -
      have "c div 4096 = 0 \<Longrightarrow> 32 \<le> c div 64 mod 64"
      proof -
        assume "c div 4096 = 0"
        then have "c div 64 mod 64 = c div 64" using base64_digits(1) [of c] by simp
        moreover have "32 \<le> c div 64" using 3(1) by auto
        ultimately show "32 \<le> c div 64 mod 64" by simp
      qed
      moreover have "c div 4096 = 13 \<Longrightarrow> c div 64 mod 64 \<le> 31"
      proof -
        assume 13: "c div 4096 = 13"
        then have "c < 57344" by auto
        with assms(2) have "c < 55296" by (simp add: is_surrogate_def)
        then have "c div 64 < 864" by auto
        with 13 base64_digits(1) [of c] show "c div 64 mod 64 \<le> 31" by simp
      qed
      moreover have "c div 64 mod 64 < 64" by simp
      ultimately show ?thesis using le by (auto simp: second_ok_def is_cont_def)
    qed
    from 3 le sum sec show ?thesis by (simp add: utf8_char_def mod64_cont)
  next
    case 4
    have le: "c div 262144 < 5" using 4 by auto
    have sum: "c div 262144 * 262144 + c div 4096 mod 64 * 4096 + c div 64 mod 64 * 64 + c mod 64 = c"
      by (rule base64_sum(2))
    have sec: "second_ok (240 + c div 262144) (128 + c div 4096 mod 64)"
    proof -
      have "16 \<le> c div 4096" "c div 4096 < 272" using 4 by auto
      then have "c div 262144 = 0 \<Longrightarrow> 16 \<le> c div 4096 mod 64"
        "c div 262144 = 4 \<Longrightarrow> c div 4096 mod 64 \<le> 15"
        using base64_digits(2) [of c] by simp_all
      moreover have "c div 4096 mod 64 < 64" by simp
      ultimately show ?thesis using le by (auto simp: second_ok_def is_cont_def)
    qed
    from 4 le sum sec show ?thesis by (simp add: utf8_char_def mod64_cont)
  qed
qed

lemma utf8_decode_chars:
  "\<forall>c \<in> set s. is_code_point c \<and> \<not> is_surrogate c \<Longrightarrow>
     utf8_decode_nat (concat (map utf8_char s)) = s"
  by (induction s) (simp_all add: utf8_decode_char)

lemma unat_of_nat_bytes: "\<forall>b \<in> set bs. b < 256 \<Longrightarrow> map (\<lambda>b. unat (of_nat b :: byte)) bs = bs"
  by (induction bs) (simp_all add: unat_of_nat)

lemma utf8_roundtrip:
  assumes "\<forall>c \<in> set s. is_code_point c" "utf8_encode s = Inr bs"
  shows "utf8_decode_replace bs = s"
proof -
  from assms have "\<forall>c \<in> set s. \<not> is_surrogate c" and bs: "bs = map of_nat (concat (map utf8_char s))"
    by (auto simp: utf8_encode_def split: if_splits)
  moreover have "\<forall>b \<in> set (concat (map utf8_char s)). b < 256"
    using assms(1) utf8_char_bytes by auto
  ultimately show ?thesis
    using assms(1) by (simp add: utf8_decode_replace_def unat_of_nat_bytes comp_def utf8_decode_chars)
qed

end
