(* ===== verification/Py_Json.thy ===== *)
theory Py_Json
  imports Py_Float Py_Text
begin

text \<open>
  \<open>json.loads\<close> on a string, as the interpreter's scanner works: the value grammar with the
  extensions \<open>NaN\<close>, \<open>Infinity\<close> and \<open>-Infinity\<close>, strict strings, later duplicates of a key replacing
  earlier ones. Every syntax error is \<open>JSONDecodeError\<close>; an integer of more than 4300 digits is the
  \<open>ValueError\<close> of the integer conversion. The mutual recursion of values, arrays and objects runs on
  fuel; \<open>json_loads\<close> gives it twice the length of the text, which is shown to be enough.
\<close>

section \<open>Strings\<close>

definition hex_value :: "nat \<Rightarrow> nat option" where
  "hex_value c =
     (if 48 \<le> c \<and> c \<le> 57 then Some (c - 48)
      else if 97 \<le> c \<and> c \<le> 102 then Some (c - 87)
      else if 65 \<le> c \<and> c \<le> 70 then Some (c - 55)
      else None)"

definition hex4 :: "nat \<Rightarrow> nat \<Rightarrow> nat \<Rightarrow> nat \<Rightarrow> nat option" where
  "hex4 a b c d =
     (case (hex_value a, hex_value b, hex_value c, hex_value d) of
        (Some w, Some x, Some y, Some z) \<Rightarrow> Some (((w * 16 + x) * 16 + y) * 16 + z)
      | _ \<Rightarrow> None)"

definition escape_value :: "nat \<Rightarrow> nat option" where
  "escape_value c =
     (if c = 34 \<or> c = 92 \<or> c = 47 then Some c
      else if c = 98 then Some 8
      else if c = 102 then Some 12
      else if c = 110 then Some 10
      else if c = 114 then Some 13
      else if c = 116 then Some 9
      else None)"

definition is_high_surrogate :: "nat \<Rightarrow> bool" where
  "is_high_surrogate c \<longleftrightarrow> 55296 \<le> c \<and> c \<le> 56319"

definition is_low_surrogate :: "nat \<Rightarrow> bool" where
  "is_low_surrogate c \<longleftrightarrow> 56320 \<le> c \<and> c \<le> 57343"

definition join_surrogates :: "nat \<Rightarrow> nat \<Rightarrow> nat" where
  "join_surrogates h l = 65536 + (h - 55296) * 1024 + (l - 56320)"

text \<open>
  The text after \<open>\u\<close>: four hexadecimal digits; a high surrogate is joined with the escape of a low
  surrogate that follows it, and kept alone otherwise.
\<close>

definition scan_hex4 :: "pystr \<Rightarrow> (nat \<times> pystr) option" where
  "scan_hex4 s =
     (case s of
        a # b # c # d # rest \<Rightarrow> (case hex4 a b c d of None \<Rightarrow> None | Some h \<Rightarrow> Some (h, rest))
      | _ \<Rightarrow> None)"

definition scan_unicode :: "pystr \<Rightarrow> (nat \<times> pystr) option" where
  "scan_unicode s =
     (case scan_hex4 s of
        None \<Rightarrow> None
      | Some (h, rest) \<Rightarrow>
          if is_high_surrogate h \<and> prefix [92, 117] rest then
            (case scan_hex4 (drop 2 rest) of
               None \<Rightarrow> None
             | Some (l, rest2) \<Rightarrow>
                 if is_low_surrogate l then Some (join_surrogates h l, rest2) else Some (h, rest))
          else Some (h, rest))"

text \<open>The text after a backslash.\<close>

definition scan_escape :: "pystr \<Rightarrow> (nat \<times> pystr) option" where
  "scan_escape s =
     (case s of
        [] \<Rightarrow> None
      | e # es \<Rightarrow>
          if e = 117 then scan_unicode es
          else (case escape_value e of None \<Rightarrow> None | Some x \<Rightarrow> Some (x, es)))"

lemma scan_hex4_length: "scan_hex4 s = Some (h, r) \<Longrightarrow> length r < length s"
  by (auto simp: scan_hex4_def split: list.splits option.splits)

lemma scan_unicode_length:
  assumes "scan_unicode s = Some (x, r)"
  shows "length r < length s"
proof -
  from assms obtain h rest where h: "scan_hex4 s = Some (h, rest)"
    by (auto simp: scan_unicode_def split: option.splits)
  with assms have "r = rest \<or> (\<exists>l. scan_hex4 (drop 2 rest) = Some (l, r))"
    by (auto simp: scan_unicode_def split: option.splits if_splits)
  with scan_hex4_length [OF h] show ?thesis
    by (auto dest: scan_hex4_length)
qed

lemma scan_escape_length: "scan_escape s = Some (x, r) \<Longrightarrow> length r < length s"
  by (auto simp: scan_escape_def less_SucI dest: scan_unicode_length split: list.splits if_splits option.splits)

text \<open>The text after the opening quote; the characters read so far are kept in reverse.\<close>

function scan_string :: "pystr \<Rightarrow> pystr \<Rightarrow> pyexc + (pystr \<times> pystr)" where
  "scan_string acc [] = Inl JSONDecodeError"
| "scan_string acc (c # cs) =
     (if c = 34 then Inr (rev acc, cs)
      else if c = 92 then
        (case scan_escape cs of
           None \<Rightarrow> Inl JSONDecodeError
         | Some (x, rest) \<Rightarrow> scan_string (x # acc) rest)
      else if c \<le> 31 then Inl JSONDecodeError
      else scan_string (c # acc) cs)"
  by pat_completeness auto
termination
  by (relation "measure (\<lambda>(acc, s). length s)") (auto dest: scan_escape_length)

section \<open>Numbers\<close>

text \<open>A conversion of digits refused by the interpreter's limit.\<close>

definition json_int :: "bool \<Rightarrow> pystr \<Rightarrow> pyexc + pyval" where
  "json_int neg ds =
     (if length ds > 4300
      then Inl digit_limit_error
      else Inr (PInt (if neg then - int (digits_value ds) else int (digits_value ds))))"

definition json_float :: "bool \<Rightarrow> rat \<Rightarrow> pyval" where
  "json_float neg q =
     PFloat
       (let r = rnd64 q
        in if pow2 1024 \<le> r then (if neg then FNegInf else FInf)
           else if r = 0 then (if neg then FNegZero else FFin 0)
           else FFin (if neg then - r else r))"

text \<open>The optional fraction and exponent; each is taken only when it has a digit.\<close>

definition scan_fraction :: "pystr \<Rightarrow> pystr \<times> pystr" where
  "scan_fraction s =
     (case s of
        d # ds \<Rightarrow>
          if d = 46 \<and> ds \<noteq> [] \<and> is_digit (hd ds)
          then (takeWhile is_digit ds, dropWhile is_digit ds) else ([], s)
      | [] \<Rightarrow> ([], s))"

definition scan_exponent :: "pystr \<Rightarrow> int option \<times> pystr" where
  "scan_exponent s =
     (case s of
        e # es \<Rightarrow>
          if e = 101 \<or> e = 69 then
            let signed = (es \<noteq> [] \<and> (hd es = 43 \<or> hd es = 45));
                ds = (if signed then tl es else es)
            in if ds \<noteq> [] \<and> is_digit (hd ds)
               then (Some (if signed \<and> hd es = 45 then - int (digits_value (takeWhile is_digit ds))
                           else int (digits_value (takeWhile is_digit ds))),
                     dropWhile is_digit ds)
               else (None, s)
          else (None, s)
      | [] \<Rightarrow> (None, s))"

definition pow10 :: "int \<Rightarrow> rat" where
  "pow10 k = (if 0 \<le> k then 10 ^ nat k else 1 / 10 ^ nat (- k))"

text \<open>The text at the first digit of the integer part.\<close>

definition scan_number :: "bool \<Rightarrow> pystr \<Rightarrow> pyexc + (pyval \<times> pystr)" where
  "scan_number neg s =
     (if s = [] \<or> \<not> is_digit (hd s) then Inl JSONDecodeError
      else
        let (whole, rest) =
              (if hd s = 48 then ([48], tl s) else (takeWhile is_digit s, dropWhile is_digit s));
            (frac, rest1) = scan_fraction rest;
            (ex, rest2) = scan_exponent rest1
        in if frac = [] \<and> ex = None
           then rbind (json_int neg whole) (\<lambda>v. Inr (v, rest2))
           else Inr (json_float neg
                       (of_nat (digits_value (whole @ frac)) *
                        pow10 ((case ex of None \<Rightarrow> 0 | Some k \<Rightarrow> k) - int (length frac))), rest2))"

section \<open>Values\<close>

definition json_ws :: "pystr \<Rightarrow> pystr" where
  "json_ws s = dropWhile (\<lambda>c. c = 32 \<or> c = 9 \<or> c = 10 \<or> c = 13) s"

definition out_of_fuel :: pyexc where
  "out_of_fuel = OtherError (lit ''OutOfFuel'') []"

definition strip_prefix :: "pystr \<Rightarrow> pystr \<Rightarrow> pystr option" where
  "strip_prefix p s = (if prefix p s then Some (drop (length p) s) else None)"

definition json_keyword :: "pystr \<Rightarrow> pyval \<Rightarrow> pystr \<Rightarrow> pyexc + (pyval \<times> pystr)" where
  "json_keyword w v s = (case strip_prefix w s of None \<Rightarrow> Inl JSONDecodeError | Some r \<Rightarrow> Inr (v, r))"

text \<open>Strings, keywords and numbers.\<close>

definition json_scalar :: "pystr \<Rightarrow> pyexc + (pyval \<times> pystr)" where
  "json_scalar s =
     (case s of
        [] \<Rightarrow> Inl JSONDecodeError
      | c # cs \<Rightarrow>
          if c = 34 then rbind (scan_string [] cs) (\<lambda>(str, r). Inr (PStr str, r))
          else if c = 110 then json_keyword (lit ''null'') PNone s
          else if c = 116 then json_keyword (lit ''true'') (PBool True) s
          else if c = 102 then json_keyword (lit ''false'') (PBool False) s
          else if c = 78 then json_keyword (lit ''NaN'') (PFloat FNaN) s
          else if c = 73 then json_keyword (lit ''Infinity'') (PFloat FInf) s
          else if c = 45 then
            (if cs \<noteq> [] \<and> hd cs = 73 then json_keyword (lit ''-Infinity'') (PFloat FNegInf) s
             else scan_number True cs)
          else scan_number False s)"

text \<open>The next character after white space; the end of the text is a syntax error.\<close>

definition next_token :: "pystr \<Rightarrow> pyexc + (nat \<times> pystr)" where
  "next_token s = (case json_ws s of [] \<Rightarrow> Inl JSONDecodeError | c # cs \<Rightarrow> Inr (c, cs))"

text \<open>
  \<open>json_value\<close> reads one value, \<open>json_elements\<close> the elements of a non-empty array up to and with the
  closing bracket, \<open>json_members\<close> the members of a non-empty object, whose first quote has been read,
  up to and with the closing brace.
\<close>

fun json_value :: "nat \<Rightarrow> pystr \<Rightarrow> pyexc + (pyval \<times> pystr)"
  and json_elements :: "nat \<Rightarrow> pyval list \<Rightarrow> pystr \<Rightarrow> pyexc + (pyval list \<times> pystr)"
  and json_members :: "nat \<Rightarrow> pydict \<Rightarrow> pystr \<Rightarrow> pyexc + (pydict \<times> pystr)" where
  "json_value 0 s = Inl out_of_fuel"
| "json_value (Suc n) s =
     (if prefix [123] s then
        rbind (next_token (tl s)) (\<lambda>(d, ds).
        if d = 125 then Inr (PDict [], ds)
        else if d = 34 then rbind (json_members n [] ds) (\<lambda>(m, r). Inr (pydict_val m, r))
        else Inl JSONDecodeError)
      else if prefix [91] s then
        rbind (next_token (tl s)) (\<lambda>(d, ds).
        if d = 93 then Inr (PList [], ds)
        else rbind (json_elements n [] (d # ds)) (\<lambda>(vs, r). Inr (PList vs, r)))
      else json_scalar s)"
| "json_elements 0 acc s = Inl out_of_fuel"
| "json_elements (Suc n) acc s =
     rbind (json_value n s) (\<lambda>(v, r).
     rbind (next_token r) (\<lambda>(c, cs).
     if c = 93 then Inr (rev (v # acc), cs)
     else if c = 44 then json_elements n (v # acc) (json_ws cs)
     else Inl JSONDecodeError))"
| "json_members 0 acc s = Inl out_of_fuel"
| "json_members (Suc n) acc s =
     rbind (scan_string [] s) (\<lambda>(k, r).
     rbind (next_token r) (\<lambda>(c, cs).
     if c \<noteq> 58 then Inl JSONDecodeError
     else
     rbind (json_value n (json_ws cs)) (\<lambda>(v, r2).
     rbind (next_token r2) (\<lambda>(d, ds).
     if d = 125 then Inr (dset acc k v, ds)
     else if d = 44 then
       rbind (next_token ds) (\<lambda>(q, qs).
       if q = 34 then json_members n (dset acc k v) qs else Inl JSONDecodeError)
     else Inl JSONDecodeError))))"

text \<open>A text that begins with a byte order mark is refused; nothing but white space may follow the value.\<close>

definition json_loads :: "pystr \<Rightarrow> pyexc + pyval" where
  "json_loads s =
     (if prefix [65279] s then Inl JSONDecodeError
      else rbind (json_value (2 * length s + 2) (json_ws s)) (\<lambda>(v, r).
             if json_ws r = [] then Inr v else Inl JSONDecodeError))"

section \<open>The scanner consumes its input, and the fuel is enough\<close>

lemma scan_string_consumes: "scan_string acc s = Inr (str, r) \<Longrightarrow> length r < length s"
proof (induction acc s rule: scan_string.induct)
  case (2 acc c cs)
  show ?case
  proof (cases "c = 92")
    case True
    with 2 show ?thesis by (fastforce split: option.splits dest: scan_escape_length)
  next
    case False
    with 2 show ?thesis by (fastforce split: if_splits)
  qed
qed simp

lemma scan_string_fuel: "scan_string acc s \<noteq> Inl out_of_fuel"
  by (induction acc s rule: scan_string.induct) (auto simp: out_of_fuel_def split: option.splits)

lemma length_json_ws: "length (json_ws s) \<le> length s"
  by (simp add: json_ws_def length_dropWhile_le)

lemma next_token_consumes: "next_token s = Inr (c, cs) \<Longrightarrow> length cs < length s"
  using length_json_ws [of s] by (auto simp: next_token_def split: list.splits)

lemma next_token_fuel: "next_token s \<noteq> Inl out_of_fuel"
  by (simp add: next_token_def out_of_fuel_def split: list.splits)

lemma scan_fraction_length: "scan_fraction s = (f, r) \<Longrightarrow> length r \<le> length s"
  by (auto simp: scan_fraction_def length_dropWhile_le le_SucI split: list.splits if_splits)

lemma scan_exponent_length:
  assumes "scan_exponent s = (f, r)"
  shows "length r \<le> length s"
proof (cases s)
  case Nil
  with assms show ?thesis by (simp add: scan_exponent_def)
next
  case (Cons e es)
  have "length (dropWhile is_digit (tl es)) \<le> Suc (length es)" "length (dropWhile is_digit es) \<le> Suc (length es)"
    using length_dropWhile_le [of is_digit "tl es"] length_dropWhile_le [of is_digit es] by auto
  with assms Cons show ?thesis by (auto simp: scan_exponent_def Let_def split: if_splits)
qed

lemma length_dropWhile_hd: "s \<noteq> [] \<Longrightarrow> P (hd s) \<Longrightarrow> length (dropWhile P s) < length s"
  by (cases s) (simp_all add: length_dropWhile_le le_imp_less_Suc)

lemma scan_number_consumes:
  assumes "scan_number neg s = Inr (v, r)"
  shows "length r < length s"
proof -
  let ?w = "if hd s = 48 then ([48], tl s) else (takeWhile is_digit s, dropWhile is_digit s)"
  obtain frac rest1 where f: "scan_fraction (snd ?w) = (frac, rest1)" by (cases "scan_fraction (snd ?w)")
  obtain ex rest2 where e: "scan_exponent rest1 = (ex, rest2)" by (cases "scan_exponent rest1")
  from assms have s: "s \<noteq> []" "is_digit (hd s)" by (auto simp: scan_number_def split: if_splits)
  with assms f e have "r = rest2"
    by (auto simp: scan_number_def Let_def rbind_Inr_iff case_prod_unfold split: if_splits)
  moreover have "length (snd ?w) < length s"
    using s length_dropWhile_hd [of s is_digit] by auto
  ultimately show ?thesis
    using scan_fraction_length [OF f] scan_exponent_length [OF e] by simp
qed

lemma scan_number_fuel: "scan_number neg s \<noteq> Inl out_of_fuel"
  by (auto simp: scan_number_def Let_def out_of_fuel_def json_int_def rbind_Inl_iff split: prod.splits if_splits)

lemma json_keyword_consumes: "w \<noteq> [] \<Longrightarrow> json_keyword w v s = Inr (v', r) \<Longrightarrow> length r < length s"
  by (auto simp: json_keyword_def strip_prefix_def prefix_def split: if_splits)

lemma json_keyword_fuel: "json_keyword w v s \<noteq> Inl out_of_fuel"
  by (auto simp: json_keyword_def strip_prefix_def out_of_fuel_def)

lemma json_scalar_consumes: "json_scalar s = Inr (v, r) \<Longrightarrow> length r < length s"
  by (auto simp: json_scalar_def rbind_Inr_iff less_SucI split: list.splits if_splits
      dest!: scan_string_consumes scan_number_consumes json_keyword_consumes [rotated])

lemma json_scalar_fuel: "json_scalar s \<noteq> Inl out_of_fuel"
  using scan_string_fuel scan_number_fuel json_keyword_fuel
  by (auto simp: json_scalar_def rbind_Inl_iff split: list.splits if_splits) (simp add: out_of_fuel_def)

text \<open>One level of the recursion, given what the level below consumes.\<close>

lemma json_value_step:
  assumes members: "\<And>d s d' r. json_members n d s = Inr (d', r) \<Longrightarrow> length r < length s"
    and elements: "\<And>acc s vs r. json_elements n acc s = Inr (vs, r) \<Longrightarrow> length r < length s"
    and eq: "json_value (Suc n) s = Inr (v, r)"
  shows "length r < length s"
proof -
  consider "\<exists>e es. next_token (tl s) = Inr (e, es) \<and> length r \<le> length es" | "json_scalar s = Inr (v, r)"
  proof (cases "prefix [123] s \<or> prefix [91] s")
    case True
    with eq obtain e es where t: "next_token (tl s) = Inr (e, es)"
      and r: "r = es \<or> (\<exists>d. json_members n [] es = Inr (d, r)) \<or> (\<exists>vs. json_elements n [] (e # es) = Inr (vs, r))"
      by (auto simp: rbind_Inr_iff split: if_splits)
    from r have "length r \<le> length es" by (auto dest: members elements)
    with t show ?thesis using that(1) by blast
  next
    case False
    with eq show ?thesis using that(2) by simp
  qed
  then show ?thesis
    by cases (auto dest!: next_token_consumes json_scalar_consumes simp: less_le_trans)
qed

lemma json_elements_step:
  assumes elements: "\<And>acc s vs r. json_elements n acc s = Inr (vs, r) \<Longrightarrow> length r < length s"
    and vals: "\<And>s v r. json_value n s = Inr (v, r) \<Longrightarrow> length r < length s"
    and eq: "json_elements (Suc n) acc s = Inr (vs, r)"
  shows "length r < length s"
proof -
  from eq obtain v q c cs where v: "json_value n s = Inr (v, q)" and ws: "next_token q = Inr (c, cs)"
    and r: "r = cs \<or> json_elements n (v # acc) (json_ws cs) = Inr (vs, r)"
    by (auto simp: rbind_Inr_iff split: if_splits)
  have "length r \<le> length cs"
    using r elements [of "v # acc" "json_ws cs" vs r] length_json_ws [of cs] by auto
  with vals [OF v] next_token_consumes [OF ws] show ?thesis by simp
qed

lemma json_members_inv:
  assumes "json_members (Suc n) d s = Inr (d', r)"
  obtains k r1 c cs v r2 e es where "scan_string [] s = Inr (k, r1)" "next_token r1 = Inr (c, cs)"
    "json_value n (json_ws cs) = Inr (v, r2)" "next_token r2 = Inr (e, es)"
    "r = es \<or> (\<exists>q qs. next_token es = Inr (q, qs) \<and> json_members n (dset d k v) qs = Inr (d', r))"
  using assms by (auto simp: rbind_Inr_iff split: if_splits)

lemma json_members_step:
  assumes members: "\<And>d s d' r. json_members n d s = Inr (d', r) \<Longrightarrow> length r < length s"
    and vals: "\<And>s v r. json_value n s = Inr (v, r) \<Longrightarrow> length r < length s"
    and eq: "json_members (Suc n) d s = Inr (d', r)"
  shows "length r < length s"
proof -
  from eq obtain k r1 c cs v r2 e es where k: "scan_string [] s = Inr (k, r1)" and ws: "next_token r1 = Inr (c, cs)"
    and v: "json_value n (json_ws cs) = Inr (v, r2)" and ws2: "next_token r2 = Inr (e, es)"
    and r: "r = es \<or> (\<exists>q qs. next_token es = Inr (q, qs) \<and> json_members n (dset d k v) qs = Inr (d', r))"
    by (rule json_members_inv)
  from r have "length r \<le> length es" by (fastforce dest: members next_token_consumes)
  moreover have "length r2 < length r1"
    using vals [OF v] length_json_ws [of cs] next_token_consumes [OF ws] by simp
  ultimately show ?thesis
    using scan_string_consumes [OF k] next_token_consumes [OF ws2] by simp
qed

lemma json_consumes_all:
  "(\<forall>s v r. json_value n s = Inr (v, r) \<longrightarrow> length r < length s) \<and>
   (\<forall>acc s vs r. json_elements n acc s = Inr (vs, r) \<longrightarrow> length r < length s) \<and>
   (\<forall>d s d' r. json_members n d s = Inr (d', r) \<longrightarrow> length r < length s)"
proof (induction n)
  case 0
  then show ?case by simp
next
  case (Suc n)
  then show ?case
    by (intro conjI allI impI)
       (erule json_value_step [rotated -1] json_elements_step [rotated -1] json_members_step [rotated -1]; blast)+
qed

lemmas json_consumes =
  json_consumes_all [THEN conjunct1, rule_format]
  json_consumes_all [THEN conjunct2, THEN conjunct1, rule_format]
  json_consumes_all [THEN conjunct2, THEN conjunct2, rule_format]

text \<open>With fuel for twice the text, no call runs out.\<close>

lemma json_value_fuel_step:
  assumes members: "\<And>d s. 2 * length s + 1 < n \<Longrightarrow> json_members n d s \<noteq> Inl out_of_fuel"
    and elements: "\<And>acc s. 2 * length s + 1 < n \<Longrightarrow> json_elements n acc s \<noteq> Inl out_of_fuel"
    and fuel: "2 * length s < Suc n"
  shows "json_value (Suc n) s \<noteq> Inl out_of_fuel"
proof (cases "prefix [123] s \<or> prefix [91] s")
  case True
  then have "s \<noteq> []" by auto
  then have len: "2 * length (e # es) + 1 < n" if "next_token (tl s) = Inr (e, es)" for e es
    using next_token_consumes [OF that] fuel by (cases s) simp_all
  then have "json_members n [] es \<noteq> Inl out_of_fuel" "json_elements n [] (e # es) \<noteq> Inl out_of_fuel"
    if "next_token (tl s) = Inr (e, es)" for e es
    using members [of es] elements [of "e # es"] that by fastforce+
  with True next_token_fuel [of "tl s"] show ?thesis
    by (auto simp: rbind_Inl_iff split: if_splits) (simp_all add: out_of_fuel_def)
next
  case False
  with json_scalar_fuel [of s] show ?thesis by simp
qed

lemma json_elements_fuel_step:
  assumes elements: "\<And>acc s. 2 * length s + 1 < n \<Longrightarrow> json_elements n acc s \<noteq> Inl out_of_fuel"
    and vals: "\<And>s. 2 * length s < n \<Longrightarrow> json_value n s \<noteq> Inl out_of_fuel"
    and fuel: "2 * length s + 1 < Suc n"
  shows "json_elements (Suc n) acc s \<noteq> Inl out_of_fuel"
proof
  assume *: "json_elements (Suc n) acc s = Inl out_of_fuel"
  have "json_value n s \<noteq> Inl out_of_fuel" using fuel by (intro vals) simp
  with * obtain v q c cs where v: "json_value n s = Inr (v, q)" and ws: "next_token q = Inr (c, cs)"
    and e: "json_elements n (v # acc) (json_ws cs) = Inl out_of_fuel"
    using next_token_fuel
    by (auto simp: rbind_Inl_iff split: if_splits) (simp_all add: out_of_fuel_def)
  have "2 * length (json_ws cs) + 1 < n"
    using json_consumes(1) [OF v] next_token_consumes [OF ws] length_json_ws [of cs] fuel by simp
  with elements e show False by blast
qed

lemma json_members_fuel_step:
  assumes members: "\<And>d s. 2 * length s + 1 < n \<Longrightarrow> json_members n d s \<noteq> Inl out_of_fuel"
    and vals: "\<And>s. 2 * length s < n \<Longrightarrow> json_value n s \<noteq> Inl out_of_fuel"
    and fuel: "2 * length s + 1 < Suc n"
  shows "json_members (Suc n) d s \<noteq> Inl out_of_fuel"
proof
  assume "json_members (Suc n) d s = Inl out_of_fuel"
  then obtain k r1 c cs where k: "scan_string [] s = Inr (k, r1)" and ws: "next_token r1 = Inr (c, cs)"
    and rest: "json_value n (json_ws cs) = Inl out_of_fuel \<or>
      (\<exists>v r2 e es q qs. json_value n (json_ws cs) = Inr (v, r2) \<and> next_token r2 = Inr (e, es) \<and>
         next_token es = Inr (q, qs) \<and> json_members n (dset d k v) qs = Inl out_of_fuel)"
    using scan_string_fuel [of "[]" s] next_token_fuel
    by (auto simp: rbind_Inl_iff split: if_splits) (simp_all add: out_of_fuel_def)
  have len: "2 * length (json_ws cs) + 3 < n"
    using scan_string_consumes [OF k] next_token_consumes [OF ws] length_json_ws [of cs] fuel by simp
  then have "json_value n (json_ws cs) \<noteq> Inl out_of_fuel" by (intro vals) simp
  with rest obtain v r2 e es q qs where v: "json_value n (json_ws cs) = Inr (v, r2)"
    and ws2: "next_token r2 = Inr (e, es)" "next_token es = Inr (q, qs)"
    and m: "json_members n (dset d k v) qs = Inl out_of_fuel" by blast
  have "2 * length qs + 1 < n"
    using json_consumes(1) [OF v] next_token_consumes [OF ws2(1)] next_token_consumes [OF ws2(2)] len by simp
  with members m show False by blast
qed

lemma json_fuel_all:
  "(\<forall>s. 2 * length s < n \<longrightarrow> json_value n s \<noteq> Inl out_of_fuel) \<and>
   (\<forall>acc s. 2 * length s + 1 < n \<longrightarrow> json_elements n acc s \<noteq> Inl out_of_fuel) \<and>
   (\<forall>d s. 2 * length s + 1 < n \<longrightarrow> json_members n d s \<noteq> Inl out_of_fuel)"
proof (induction n)
  case 0
  then show ?case by simp
next
  case (Suc n)
  then show ?case
    by (intro conjI allI impI)
       (rule json_value_fuel_step json_elements_fuel_step json_members_fuel_step; blast)+
qed

lemma json_loads_fuel: "json_loads s \<noteq> Inl out_of_fuel"
proof -
  have "2 * length (json_ws s) < 2 * length s + 2" using length_json_ws [of s] by simp
  then have "json_value (2 * length s + 2) (json_ws s) \<noteq> Inl out_of_fuel"
    using json_fuel_all by blast
  then show ?thesis
    by (auto simp: json_loads_def rbind_Inl_iff split: if_splits) (simp_all add: out_of_fuel_def)
qed

section \<open>Evaluation\<close>

text \<open>Rules to evaluate the scanner on a concrete text, with \<open>cong: rbind_weak_cong\<close>.\<close>

lemmas json_numeral =
  json_value.simps(2) [of "pred_numeral k" for k, folded numeral_eq_Suc]
  json_elements.simps(2) [of "pred_numeral k" for k, folded numeral_eq_Suc]
  json_members.simps(2) [of "pred_numeral k" for k, folded numeral_eq_Suc]

declare json_value.simps [simp del] json_elements.simps [simp del] json_members.simps [simp del]

lemmas json_eval =
  json_loads_def json_numeral json_ws_def next_token_def json_scalar_def scan_number_def json_int_def
  is_digit_def scan_fraction_def scan_exponent_def pydict_val_def digits_value_def json_keyword_def
  strip_prefix_def

section \<open>Exceptions\<close>

text \<open>The exceptions of the scanner: a syntax error, or a number above the digit limit.\<close>

definition json_exc :: "pyexc \<Rightarrow> bool" where
  "json_exc e \<longleftrightarrow> e = JSONDecodeError \<or> (\<exists>m. e = ValueError m) \<or> e = out_of_fuel"

lemma json_exc_simps [simp]: "json_exc JSONDecodeError" "json_exc (ValueError m)" "json_exc out_of_fuel"
  by (simp_all add: json_exc_def)

lemma scan_string_exc: "scan_string acc s = Inl e \<Longrightarrow> json_exc e"
  by (induction acc s rule: scan_string.induct) (auto split: option.splits if_splits)

lemma next_token_exc: "next_token s = Inl e \<Longrightarrow> json_exc e"
  by (auto simp: next_token_def split: list.splits)

lemma json_scalar_exc: "json_scalar s = Inl e \<Longrightarrow> json_exc e"
  by (auto simp: json_scalar_def scan_number_def json_int_def json_keyword_def Let_def rbind_Inl_iff
      split: list.splits if_splits prod.splits option.splits dest: scan_string_exc)

lemma json_exc_all:
  "(\<forall>s. json_value n s = Inl e \<longrightarrow> json_exc e) \<and>
   (\<forall>acc s. json_elements n acc s = Inl e \<longrightarrow> json_exc e) \<and>
   (\<forall>d s. json_members n d s = Inl e \<longrightarrow> json_exc e)"
proof (induction n)
  case 0
  then show ?case by (auto simp: json_value.simps json_elements.simps json_members.simps)
next
  case (Suc n)
  note exc = scan_string_exc next_token_exc json_scalar_exc
  have "json_exc e" if "json_value (Suc n) s = Inl e" for s
    using that Suc exc
    by (auto simp: json_value.simps rbind_Inl_iff split: if_splits)
  moreover have "json_exc e" if "json_elements (Suc n) acc s = Inl e" for acc s
    using that Suc exc
    by (auto simp: json_elements.simps rbind_Inl_iff split: if_splits)
  moreover have "json_exc e" if "json_members (Suc n) d s = Inl e" for d s
    using that Suc exc
    by (auto simp: json_members.simps rbind_Inl_iff split: if_splits)
  ultimately show ?case by blast
qed

lemma json_loads_exc:
  assumes "json_loads s = Inl e"
  shows "e = JSONDecodeError \<or> (\<exists>m. e = ValueError m)"
proof -
  have "e = JSONDecodeError \<or> (\<exists>n t. json_value n t = Inl e)"
    using assms by (auto simp: json_loads_def rbind_Inl_iff split: if_splits)
  then have "json_exc e" using json_exc_all by (elim disjE exE) (simp, blast)
  with assms json_loads_fuel show ?thesis unfolding json_exc_def by metis
qed

end
