(* ===== verification/Analysis.thy ===== *)
theory Analysis
  imports Py_Json
begin

text \<open>
  The application-log analysis of \<open>src/vdevlab/analysis.py\<close>: the JSONL parser, the recovery metrics
  and the evaluators of the scenario assertions. The loops of the module are recursive functions over
  the remaining lines or events that carry the variables the code assigns.
\<close>

section \<open>Data\<close>

record ApplicationLogEvent =
  le_line :: int
  le_timestamp_ms :: int
  le_event :: pystr
  le_fields :: pydict

record RecoveryWindow =
  rw_first_error_timestamp_ms :: int
  rw_recovery_timestamp_ms :: int
  rw_recovery_latency_ms :: int
  rw_observed_retries :: int
  rw_reported_retries :: int

record RecoveryMetrics =
  rm_observed_eio_count :: int
  rm_application_retry_count :: int
  rm_recoveries :: "RecoveryWindow list"
  rm_first_error_timestamp_ms :: "int option"
  rm_recovery_timestamp_ms :: "int option"
  rm_recovery_latency_ms :: "int option"

record RetryAssertion =
  ra_expected :: int
  ra_observed :: int
  ra_passed :: bool

record RecoveryLatencyAssertion =
  rl_maximum_ms :: int
  rl_observed_ms :: "int option"
  rl_passed :: bool

record EventCountAssertion =
  ec_event :: pystr
  ec_expected :: int
  ec_observed :: int
  ec_within_ms :: "int option"
  ec_passed :: bool

record StdoutAssertion =
  so_operator :: pystr
  so_text :: pystr
  so_passed :: bool

record DisconnectAssertion =
  da_expected :: bool
  da_observed :: bool
  da_passed :: bool

record KernelWarningAssertion =
  kw_expected :: int
  kw_observed :: "int option"
  kw_available :: bool
  kw_passed :: bool

section \<open>The log parser\<close>

definition require_nonnegative_integer :: "pyval \<Rightarrow> int \<Rightarrow> pystr \<Rightarrow> pyexc + int" where
  "require_nonnegative_integer value line field =
     (case value of
        PInt n \<Rightarrow>
          if n < 0 then Inl (ApplicationLogError line (field @ lit '' must be a non-negative integer''))
          else Inr n
      | _ \<Rightarrow> Inl (ApplicationLogError line (field @ lit '' must be a non-negative integer'')))"

text \<open>\<open>json.loads\<close> of a line, its \<open>JSONDecodeError\<close> translated; a \<open>ValueError\<close> passes.\<close>

definition load_line :: "int \<Rightarrow> pystr \<Rightarrow> pyexc + pyval" where
  "load_line line raw =
     (case json_loads raw of
        Inl e \<Rightarrow> if e = JSONDecodeError then Inl (ApplicationLogError line (lit ''invalid JSON'')) else Inl e
      | Inr v \<Rightarrow> Inr v)"

definition json_object :: "int \<Rightarrow> pyval \<Rightarrow> pyexc + pydict" where
  "json_object line value =
     (case value of
        PDict kvs \<Rightarrow> Inr (map (\<lambda>(k, v). (the_str k, v)) kvs)
      | _ \<Rightarrow> Inl (ApplicationLogError line (lit ''event must be a JSON object'')))"

definition event_name :: "int \<Rightarrow> pyval \<Rightarrow> pyexc + pystr" where
  "event_name line value =
     (case value of
        PStr s \<Rightarrow> if is_blank s then Inl (ApplicationLogError line (lit ''event must be a non-empty string''))
                  else Inr s
      | _ \<Rightarrow> Inl (ApplicationLogError line (lit ''event must be a non-empty string'')))"

text \<open>The body of the loop for a line that is not blank.\<close>

definition parse_log_line :: "int \<Rightarrow> int option \<Rightarrow> pystr \<Rightarrow> pyexc + ApplicationLogEvent" where
  "parse_log_line line previous_timestamp raw_line =
     rbind (load_line line raw_line) (\<lambda>value.
     rbind (json_object line value) (\<lambda>d.
     rbind (require_nonnegative_integer (dget d (lit ''timestamp_ms'')) line (lit ''timestamp_ms''))
       (\<lambda>timestamp_ms.
     rbind (ensure (case previous_timestamp of None \<Rightarrow> True | Some p \<Rightarrow> \<not> timestamp_ms < p)
              (ApplicationLogError line (lit ''timestamp_ms must be monotonically non-decreasing''))) (\<lambda>_.
     rbind (event_name line (dget d (lit ''event''))) (\<lambda>event.
     Inr \<lparr>le_line = line, le_timestamp_ms = timestamp_ms, le_event = event,
          le_fields = filter (\<lambda>kv. fst kv \<noteq> lit ''timestamp_ms'' \<and> fst kv \<noteq> lit ''event'') d\<rparr>)))))"

fun parse_log_lines :: "int \<Rightarrow> int option \<Rightarrow> pystr list \<Rightarrow> pyexc + ApplicationLogEvent list" where
  "parse_log_lines line previous_timestamp [] = Inr []"
| "parse_log_lines line previous_timestamp (raw_line # lines) =
     (if is_blank raw_line then parse_log_lines (line + 1) previous_timestamp lines
      else
        rbind (parse_log_line line previous_timestamp raw_line) (\<lambda>event.
        rbind (parse_log_lines (line + 1) (Some (le_timestamp_ms event)) lines) (\<lambda>events.
        Inr (event # events))))"

definition parse_application_log :: "pystr \<Rightarrow> pyexc + ApplicationLogEvent list" where
  "parse_application_log text = parse_log_lines 1 None (splitlines text)"

section \<open>Recovery metrics\<close>

definition EIO :: int where "EIO = 5"

record metrics_state =
  ms_observed_eio_count :: int
  ms_application_retry_count :: int
  ms_recoveries :: "RecoveryWindow list"
  ms_first_observed_error :: "int option"
  ms_first_error :: "int option"
  ms_active_retry_count :: int

definition metrics_init :: metrics_state where
  "metrics_init =
     \<lparr>ms_observed_eio_count = 0, ms_application_retry_count = 0, ms_recoveries = [],
      ms_first_observed_error = None, ms_first_error = None, ms_active_retry_count = 0\<rparr>"

definition or_else :: "'a option \<Rightarrow> 'a \<Rightarrow> 'a option" where
  "or_else x v = (case x of None \<Rightarrow> Some v | Some _ \<Rightarrow> x)"

text \<open>The branch of \<open>READ_RETRY\<close>\<close>

definition retry_step :: "metrics_state \<Rightarrow> ApplicationLogEvent \<Rightarrow> pyexc + metrics_state" where
  "retry_step st event =
     rbind (require_nonnegative_integer (dget (le_fields event) (lit ''errno'')) (le_line event) (lit ''errno''))
       (\<lambda>retry_errno.
     rbind (require_nonnegative_integer (dget (le_fields event) (lit ''retry'')) (le_line event) (lit ''retry''))
       (\<lambda>_.
     Inr (st\<lparr>ms_application_retry_count := ms_application_retry_count st + 1,
             ms_active_retry_count := ms_active_retry_count st + 1,
             ms_observed_eio_count := ms_observed_eio_count st + (if retry_errno = EIO then 1 else 0),
             ms_first_observed_error := or_else (ms_first_observed_error st) (le_timestamp_ms event),
             ms_first_error := or_else (ms_first_error st) (le_timestamp_ms event)\<rparr>)))"

text \<open>The branch of \<open>RECOVERY_SUCCESS\<close>\<close>

definition recovery_step :: "metrics_state \<Rightarrow> ApplicationLogEvent \<Rightarrow> pyexc + metrics_state" where
  "recovery_step st event =
     rbind (require_nonnegative_integer (dget (le_fields event) (lit ''retries'')) (le_line event) (lit ''retries''))
       (\<lambda>reported_retries.
     case ms_first_error st of
       None \<Rightarrow> Inl (ApplicationLogError (le_line event) (lit ''RECOVERY_SUCCESS has no preceding READ_RETRY''))
     | Some first_error \<Rightarrow>
         Inr (st\<lparr>ms_recoveries := ms_recoveries st @
                   [\<lparr>rw_first_error_timestamp_ms = first_error,
                     rw_recovery_timestamp_ms = le_timestamp_ms event,
                     rw_recovery_latency_ms = le_timestamp_ms event - first_error,
                     rw_observed_retries = ms_active_retry_count st,
                     rw_reported_retries = reported_retries\<rparr>],
                 ms_first_error := None,
                 ms_active_retry_count := 0\<rparr>))"

definition metrics_step :: "metrics_state \<Rightarrow> ApplicationLogEvent \<Rightarrow> pyexc + metrics_state" where
  "metrics_step st event =
     (if le_event event = lit ''READ_RETRY'' then retry_step st event
      else if le_event event = lit ''RECOVERY_SUCCESS'' then recovery_step st event
      else Inr st)"

fun metrics_loop :: "metrics_state \<Rightarrow> ApplicationLogEvent list \<Rightarrow> pyexc + metrics_state" where
  "metrics_loop st [] = Inr st"
| "metrics_loop st (event # events) = rbind (metrics_step st event) (\<lambda>st'. metrics_loop st' events)"

definition metrics_result :: "metrics_state \<Rightarrow> RecoveryMetrics" where
  "metrics_result st =
     \<lparr>rm_observed_eio_count = ms_observed_eio_count st,
      rm_application_retry_count = ms_application_retry_count st,
      rm_recoveries = ms_recoveries st,
      rm_first_error_timestamp_ms = ms_first_observed_error st,
      rm_recovery_timestamp_ms =
        (case ms_recoveries st of [] \<Rightarrow> None | w # _ \<Rightarrow> Some (rw_recovery_timestamp_ms w)),
      rm_recovery_latency_ms =
        (case ms_recoveries st of [] \<Rightarrow> None | w # _ \<Rightarrow> Some (rw_recovery_latency_ms w))\<rparr>"

definition calculate_recovery_metrics :: "ApplicationLogEvent list \<Rightarrow> pyexc + RecoveryMetrics" where
  "calculate_recovery_metrics events =
     rbind (metrics_loop metrics_init events) (\<lambda>st. Inr (metrics_result st))"

section \<open>Assertions\<close>

definition evaluate_retry_count :: "RecoveryMetrics \<Rightarrow> pyval \<Rightarrow> pyexc + RetryAssertion" where
  "evaluate_retry_count metrics expected =
     rbind (require_nonnegative_integer expected 0 (lit ''expected retry count'')) (\<lambda>expected_count.
     Inr \<lparr>ra_expected = expected_count, ra_observed = rm_application_retry_count metrics,
          ra_passed = (rm_application_retry_count metrics = expected_count)\<rparr>)"

text \<open>\<open>max(values, default=None)\<close>\<close>

definition max_default :: "int list \<Rightarrow> int option" where
  "max_default xs = (case xs of [] \<Rightarrow> None | x # ys \<Rightarrow> Some (fold max ys x))"

definition evaluate_recovery_latency :: "RecoveryMetrics \<Rightarrow> pyval \<Rightarrow> pyexc + RecoveryLatencyAssertion" where
  "evaluate_recovery_latency metrics maximum_ms =
     rbind (require_nonnegative_integer maximum_ms 0 (lit ''maximum recovery latency'')) (\<lambda>maximum.
     let observed = max_default (map rw_recovery_latency_ms (rm_recoveries metrics))
     in Inr \<lparr>rl_maximum_ms = maximum, rl_observed_ms = observed,
             rl_passed = (case observed of None \<Rightarrow> False | Some n \<Rightarrow> n \<le> maximum)\<rparr>)"

definition assertion_event :: "pyval \<Rightarrow> pyexc + pystr" where
  "assertion_event value =
     (case value of
        PStr s \<Rightarrow> if s = [] then Inl (ValueError (lit ''assertion event must be a non-empty string'')) else Inr s
      | _ \<Rightarrow> Inl (ValueError (lit ''assertion event must be a non-empty string'')))"

definition assertion_count :: "pyval \<Rightarrow> pyexc + int" where
  "assertion_count value =
     (case value of
        PInt n \<Rightarrow> if n \<le> 0 then Inl (ValueError (lit ''assertion count must be a positive integer'')) else Inr n
      | _ \<Rightarrow> Inl (ValueError (lit ''assertion count must be a positive integer'')))"

definition assertion_within :: "pyval \<Rightarrow> pyexc + int option" where
  "assertion_within value =
     (case value of
        PNone \<Rightarrow> Inr None
      | PInt n \<Rightarrow> if n < 0 then Inl (ValueError (lit ''assertion within_ms must be a non-negative integer''))
                  else Inr (Some n)
      | _ \<Rightarrow> Inl (ValueError (lit ''assertion within_ms must be a non-negative integer'')))"

definition counts_event :: "int option \<Rightarrow> pystr \<Rightarrow> int option \<Rightarrow> ApplicationLogEvent \<Rightarrow> bool" where
  "counts_event origin event within_ms item \<longleftrightarrow>
     le_event item = event \<and>
     (case within_ms of
        None \<Rightarrow> True
      | Some w \<Rightarrow> (case origin of None \<Rightarrow> False | Some t0 \<Rightarrow> le_timestamp_ms item - t0 \<le> w))"

definition evaluate_event_assertion ::
  "ApplicationLogEvent list \<Rightarrow> int option \<Rightarrow> pydict \<Rightarrow> pyexc + EventCountAssertion" where
  "evaluate_event_assertion events origin d =
     rbind (assertion_event (dget d (lit ''event''))) (\<lambda>event.
     rbind (assertion_count (dget d (lit ''count''))) (\<lambda>expected.
     rbind (assertion_within (dget d (lit ''within_ms''))) (\<lambda>within_ms.
     let observed = int (length (filter (counts_event origin event within_ms) events))
     in Inr \<lparr>ec_event = event, ec_expected = expected, ec_observed = observed, ec_within_ms = within_ms,
             ec_passed = (observed = expected)\<rparr>)))"

definition origin_timestamp :: "ApplicationLogEvent list \<Rightarrow> int option" where
  "origin_timestamp events = (case events of [] \<Rightarrow> None | e # _ \<Rightarrow> Some (le_timestamp_ms e))"

definition evaluate_event_assertions ::
  "ApplicationLogEvent list \<Rightarrow> pydict list \<Rightarrow> pyexc + EventCountAssertion list" where
  "evaluate_event_assertions events definitions =
     traverse_from 0 (\<lambda>_. evaluate_event_assertion events (origin_timestamp events)) definitions"

definition evaluate_stdout_assertion :: "pystr \<Rightarrow> pydict \<Rightarrow> pyexc + StdoutAssertion list" where
  "evaluate_stdout_assertion stdout d =
     (let results =
        (case dget d (lit ''contains'') of
           PStr s \<Rightarrow> [\<lparr>so_operator = lit ''contains'', so_text = s, so_passed = sublist s stdout\<rparr>]
         | _ \<Rightarrow> []) @
        (case dget d (lit ''not_contains'') of
           PStr s \<Rightarrow> [\<lparr>so_operator = lit ''not_contains'', so_text = s, so_passed = (\<not> sublist s stdout)\<rparr>]
         | _ \<Rightarrow> [])
      in if results = [] then Inl (ValueError (lit ''stdout assertion requires contains or not_contains''))
         else Inr results)"

definition is_disconnect :: "ApplicationLogEvent \<Rightarrow> bool" where
  "is_disconnect event \<longleftrightarrow> le_event event = lit ''DEVICE_DISCONNECTED''"

definition evaluate_disconnect :: "ApplicationLogEvent list \<Rightarrow> pyval \<Rightarrow> pyexc + DisconnectAssertion" where
  "evaluate_disconnect events expected =
     (case expected of
        PBool b \<Rightarrow>
          let observed = list_ex is_disconnect events
          in Inr \<lparr>da_expected = b, da_observed = observed, da_passed = (observed = b)\<rparr>
      | _ \<Rightarrow> Inl (ValueError (lit ''disconnect expected value must be a boolean'')))"

definition evaluate_kernel_warnings :: "pystr list \<Rightarrow> pyval \<Rightarrow> bool \<Rightarrow> pyexc + KernelWarningAssertion" where
  "evaluate_kernel_warnings warnings expected available =
     (case expected of
        PInt n \<Rightarrow>
          if n < 0 then Inl (ValueError (lit ''kernel warning count must be a non-negative integer''))
          else
            let observed = (if available then Some (int (length warnings)) else None)
            in Inr \<lparr>kw_expected = n, kw_observed = observed, kw_available = available,
                    kw_passed = (available \<and> observed = Some n)\<rparr>
      | _ \<Rightarrow> Inl (ValueError (lit ''kernel warning count must be a non-negative integer'')))"

end
