(* ===== verification/Py_Json_Limit.thy ===== *)
theory Py_Json_Limit
  imports Py_Json
begin

text \<open>
  When \<open>json_loads\<close> raises something else than a \<open>JSONDecodeError\<close>: it is the \<open>ValueError\<close> of the integer conversion,
  and the text has a run of more than 4300 digits.
\<close>

section \<open>What is left is a suffix\<close>

lemma scan_hex4_suffix: "scan_hex4 s = Some (h, r) \<Longrightarrow> suffix r s"
  by (auto simp: scan_hex4_def suffix_def split: list.splits option.splits)

lemma scan_unicode_suffix:
  assumes "scan_unicode s = Some (x, r)"
  shows "suffix r s"
proof -
  from assms obtain h rest where h: "scan_hex4 s = Some (h, rest)"
    by (auto simp: scan_unicode_def split: option.splits)
  with assms have "r = rest \<or> (\<exists>l. scan_hex4 (drop 2 rest) = Some (l, r))"
    by (auto simp: scan_unicode_def split: option.splits if_splits)
  with scan_hex4_suffix [OF h] show ?thesis
    by (metis scan_hex4_suffix suffix_drop suffix_order.order_trans)
qed

lemma scan_escape_suffix: "scan_escape s = Some (x, r) \<Longrightarrow> suffix r s"
  by (auto simp: scan_escape_def dest: scan_unicode_suffix intro: suffix_ConsI split: list.splits if_splits option.splits)

lemma scan_string_suffix: "scan_string acc s = Inr (str, r) \<Longrightarrow> suffix r s"
proof (induction acc s rule: scan_string.induct)
  case (2 acc c cs)
  show ?case
  proof (cases "c = 92")
    case True
    with 2 obtain x rest where "scan_escape cs = Some (x, rest)" "suffix r rest" by (fastforce split: option.splits)
    with scan_escape_suffix [of cs x rest] show ?thesis by (metis suffix_ConsI suffix_order.order_trans)
  next
    case False
    with 2 show ?thesis by (auto split: if_splits intro: suffix_ConsI)
  qed
qed simp

lemma json_ws_suffix: "suffix (json_ws s) s"
  by (simp add: json_ws_def suffix_dropWhile)

lemma next_token_suffix: "next_token s = Inr (c, cs) \<Longrightarrow> suffix (c # cs) s"
  using json_ws_suffix [of s] by (auto simp: next_token_def split: list.splits)

lemma scan_fraction_suffix: "scan_fraction s = (f, r) \<Longrightarrow> suffix r s"
  by (auto simp: scan_fraction_def suffix_dropWhile intro: suffix_ConsI split: list.splits if_splits)

lemma scan_exponent_suffix:
  assumes "scan_exponent s = (f, r)"
  shows "suffix r s"
proof (cases s)
  case Nil
  with assms show ?thesis by (simp add: scan_exponent_def)
next
  case (Cons e es)
  have "suffix (dropWhile is_digit (tl es)) (e # es)" "suffix (dropWhile is_digit es) (e # es)"
    by (metis suffix_ConsI suffix_dropWhile suffix_order.order_trans suffix_tl)+
  with assms Cons show ?thesis by (auto simp: scan_exponent_def Let_def split: if_splits)
qed

lemma scan_number_suffix:
  assumes "scan_number neg s = Inr (v, r)"
  shows "suffix r s"
proof -
  let ?w = "if hd s = 48 then ([48], tl s) else (takeWhile is_digit s, dropWhile is_digit s)"
  obtain fr rest1 where f: "scan_fraction (snd ?w) = (fr, rest1)" by (cases "scan_fraction (snd ?w)")
  obtain ex rest2 where e: "scan_exponent rest1 = (ex, rest2)" by (cases "scan_exponent rest1")
  have "r = rest2" using assms f e
    by (auto simp: scan_number_def Let_def rbind_Inr_iff case_prod_unfold split: if_splits)
  moreover have "suffix (snd ?w) s" by (simp add: suffix_dropWhile suffix_tl)
  ultimately show ?thesis
    using suffix_order.order_trans [OF scan_exponent_suffix [OF e] suffix_order.order_trans [OF scan_fraction_suffix [OF f]]] by blast
qed

lemma json_keyword_suffix: "json_keyword w v s = Inr (v', r) \<Longrightarrow> suffix r s"
  by (auto simp: json_keyword_def strip_prefix_def suffix_drop split: if_splits)

lemma json_scalar_suffix: "json_scalar s = Inr (v, r) \<Longrightarrow> suffix r s"
  by (auto simp: json_scalar_def rbind_Inr_iff split: list.splits if_splits intro: suffix_ConsI
      dest!: scan_string_suffix scan_number_suffix json_keyword_suffix)

section \<open>The digit limit\<close>

definition long_number :: "pystr \<Rightarrow> bool" where
  "long_number s \<longleftrightarrow> (\<exists>ds. sublist ds s \<and> list_all is_digit ds \<and> 4300 < length ds)"

lemma long_number_suffix: "long_number r \<Longrightarrow> suffix r s \<Longrightarrow> long_number s"
  unfolding long_number_def by (meson suffix_imp_sublist sublist_order.order_trans)

text \<open>The exception and, for the limit, the number in the text that was read\<close>

definition scan_exc :: "pystr \<Rightarrow> pyexc \<Rightarrow> bool" where
  "scan_exc s e \<longleftrightarrow> e = JSONDecodeError \<or> e = digit_limit_error \<and> long_number s \<or> e = out_of_fuel"

lemma scan_exc_simps [simp]: "scan_exc s JSONDecodeError" "scan_exc s out_of_fuel"
  by (simp_all add: scan_exc_def)

lemma scan_exc_suffix: "scan_exc r e \<Longrightarrow> suffix r s \<Longrightarrow> scan_exc s e"
  using long_number_suffix by (auto simp: scan_exc_def)

lemma scan_string_exc': "scan_string acc s = Inl e \<Longrightarrow> e = JSONDecodeError"
  by (induction acc s rule: scan_string.induct) (auto split: option.splits if_splits)

lemma next_token_exc': "next_token s = Inl e \<Longrightarrow> e = JSONDecodeError"
  by (auto simp: next_token_def split: list.splits)

lemma json_keyword_exc: "json_keyword w v s = Inl e \<Longrightarrow> e = JSONDecodeError"
  by (auto simp: json_keyword_def split: option.splits)

lemma scan_number_exc:
  assumes "scan_number neg s = Inl e"
  shows "scan_exc s e"
proof (cases "s = [] \<or> \<not> is_digit (hd s)")
  case True
  with assms show ?thesis by (simp add: scan_number_def)
next
  case False
  let ?w = "if hd s = 48 then [48] else takeWhile is_digit s"
  from False assms have "json_int neg ?w = Inl e"
    by (auto simp: scan_number_def Let_def rbind_Inl_iff case_prod_unfold split: if_splits)
  then have "e = digit_limit_error" "4300 < length (takeWhile is_digit s)" by (auto simp: json_int_def split: if_splits)
  moreover have "sublist (takeWhile is_digit s) s" by (metis prefix_imp_sublist takeWhile_is_prefix)
  moreover have "list_all is_digit (takeWhile is_digit s)" by (auto simp: list_all_iff dest: set_takeWhileD)
  ultimately show ?thesis by (auto simp: scan_exc_def long_number_def)
qed

lemma json_scalar_exc': "json_scalar s = Inl e \<Longrightarrow> scan_exc s e"
  by (auto simp: json_scalar_def rbind_Inl_iff split: list.splits if_splits
      dest!: scan_string_exc' json_keyword_exc scan_number_exc intro: scan_exc_suffix suffix_ConsI)

lemma token_suffixes:
  "next_token s = Inr (c, cs) \<Longrightarrow> suffix cs s" "next_token (tl s) = Inr (c, cs) \<Longrightarrow> suffix cs s"
  "next_token (tl s) = Inr (c, cs) \<Longrightarrow> suffix (c # cs) s"
  by (metis next_token_suffix suffix_ConsD suffix_order.order_trans suffix_tl)+

lemma json_suffix_all:
  "(\<forall>s v r. json_value n s = Inr (v, r) \<longrightarrow> suffix r s) \<and>
   (\<forall>acc s vs r. json_elements n acc s = Inr (vs, r) \<longrightarrow> suffix r s) \<and>
   (\<forall>d s m r. json_members n d s = Inr (m, r) \<longrightarrow> suffix r s)"
proof (induction n)
  case 0
  then show ?case by (simp add: json_value.simps json_elements.simps json_members.simps)
next
  case (Suc n)
  have "suffix r s" if "json_value (Suc n) s = Inr (v, r)" for s v r
    using that Suc
    by (auto simp: json_value.simps rbind_Inr_iff split: if_splits dest: json_scalar_suffix)
      (metis token_suffixes(2,3) suffix_order.order_trans)+
  moreover have "suffix r s" if "json_elements (Suc n) acc s = Inr (vs, r)" for acc s vs r
    using that Suc
    by (auto simp: json_elements.simps rbind_Inr_iff split: if_splits)
      (metis token_suffixes(1) json_ws_suffix suffix_order.order_trans)+
  moreover have "suffix r s" if "json_members (Suc n) d s = Inr (m, r)" for d s m r
    using that Suc
    by (auto simp: json_members.simps rbind_Inr_iff split: if_splits)
      (metis token_suffixes(1) scan_string_suffix json_ws_suffix suffix_order.order_trans)+
  ultimately show ?case by blast
qed

lemmas json_suffix = json_suffix_all [THEN conjunct1, rule_format]

lemma json_scan_exc_all:
  "(\<forall>s. json_value n s = Inl e \<longrightarrow> scan_exc s e) \<and>
   (\<forall>acc s. json_elements n acc s = Inl e \<longrightarrow> scan_exc s e) \<and>
   (\<forall>d s. json_members n d s = Inl e \<longrightarrow> scan_exc s e)"
proof (induction n)
  case 0
  then show ?case by (auto simp: json_value.simps json_elements.simps json_members.simps)
next
  case (Suc n)
  have "scan_exc s e" if "json_value (Suc n) s = Inl e" for s
    using that Suc
    by (auto simp: json_value.simps rbind_Inl_iff split: if_splits dest!: next_token_exc' json_scalar_exc')
      (metis token_suffixes(2,3) scan_exc_suffix)+
  moreover have "scan_exc s e" if "json_elements (Suc n) acc s = Inl e" for acc s
    using that Suc
    by (auto simp: json_elements.simps rbind_Inl_iff split: if_splits dest!: next_token_exc')
      (metis token_suffixes(1) json_suffix json_ws_suffix scan_exc_suffix)+
  moreover have "scan_exc s e" if "json_members (Suc n) d s = Inl e" for d s
    using that Suc
    by (auto simp: json_members.simps rbind_Inl_iff split: if_splits dest!: next_token_exc' scan_string_exc')
      (metis token_suffixes(1) json_suffix scan_string_suffix json_ws_suffix scan_exc_suffix)+
  ultimately show ?case by blast
qed

lemma json_loads_limit:
  assumes "json_loads s = Inl e"
  shows "e = JSONDecodeError \<or> e = digit_limit_error \<and> long_number s"
proof -
  have "e = JSONDecodeError \<or> json_value (2 * length s + 2) (json_ws s) = Inl e"
    using assms by (auto simp: json_loads_def rbind_Inl_iff split: if_splits)
  then have "scan_exc s e"
  proof
    assume "json_value (2 * length s + 2) (json_ws s) = Inl e"
    then have "scan_exc (json_ws s) e" using json_scan_exc_all by blast
    then show ?thesis using json_ws_suffix by (rule scan_exc_suffix)
  qed simp
  with assms json_loads_fuel show ?thesis unfolding scan_exc_def by metis
qed

end
