(* ===== verification/Analysis_Props.thy ===== *)
theory Analysis_Props
  imports Analysis Py_Json_Limit
begin

text \<open>
  What the analysis computes, against declarative specifications: the events of a parsed log and their
  lines, the recovery windows of a log, and the verdicts of the assertion evaluators.
\<close>

section \<open>Field checks\<close>

lemma require_nonnegative_integer_iff [res_iff]:
  "require_nonnegative_integer v line field = Inr n \<longleftrightarrow> v = PInt n \<and> 0 \<le> n"
  by (auto simp: require_nonnegative_integer_def split: pyval.splits if_splits)

lemma require_nonnegative_integer_err:
  "require_nonnegative_integer v line field = Inl e \<Longrightarrow> \<exists>m. e = ApplicationLogError line m"
  by (auto simp: require_nonnegative_integer_def split: pyval.splits if_splits)

lemma require_nonnegative_integer_simps [simp]:
  "0 \<le> n \<Longrightarrow> require_nonnegative_integer (PInt n) line field = Inr n"
  by (simp add: require_nonnegative_integer_def)

lemma event_name_iff [res_iff]:
  "event_name line v = Inr s \<longleftrightarrow> v = PStr s \<and> \<not> is_blank s"
  by (auto simp: event_name_def split: pyval.splits if_splits)

lemma json_object_iff [res_iff]:
  "json_object line v = Inr d \<longleftrightarrow> (\<exists>kvs. v = PDict kvs \<and> d = map (\<lambda>(k, v). (the_str k, v)) kvs)"
  by (auto simp: json_object_def split: pyval.splits)

lemma load_line_iff [res_iff]: "load_line line s = Inr v \<longleftrightarrow> json_loads s = Inr v"
  by (auto simp: load_line_def split: sum.splits if_splits)

lemma dget_filter_key:
  "dget (filter (\<lambda>kv. P (fst kv)) d) k = (if P k then dget d k else PNone)"
  by (induction d) auto

section \<open>The log parser\<close>

definition line_object :: "pystr \<Rightarrow> pydict \<Rightarrow> bool" where
  "line_object raw d \<longleftrightarrow>
     (\<exists>kvs. json_loads raw = Inr (PDict kvs) \<and> d = map (\<lambda>(k, v). (the_str k, v)) kvs)"

text \<open>An event is what its line says: the two reserved members and the rest as fields.\<close>

definition event_of_line :: "pystr \<Rightarrow> ApplicationLogEvent \<Rightarrow> bool" where
  "event_of_line raw e \<longleftrightarrow>
     (\<exists>d. line_object raw d \<and>
        dget d (lit ''timestamp_ms'') = PInt (le_timestamp_ms e) \<and> 0 \<le> le_timestamp_ms e \<and>
        dget d (lit ''event'') = PStr (le_event e) \<and> \<not> is_blank (le_event e) \<and>
        le_fields e = filter (\<lambda>kv. fst kv \<noteq> lit ''timestamp_ms'' \<and> fst kv \<noteq> lit ''event'') d)"

lemma parse_log_line_iff:
  "parse_log_line line prev raw = Inr e \<longleftrightarrow>
     event_of_line raw e \<and> le_line e = line \<and> (\<forall>p. prev = Some p \<longrightarrow> p \<le> le_timestamp_ms e)"
  by (cases e) (auto simp: parse_log_line_def event_of_line_def line_object_def res_iff not_less split: option.splits)

text \<open>
  What can be wrong with a line after an event at the time \<open>prev\<close>, with the message for it
\<close>

inductive line_flaw :: "int option \<Rightarrow> pystr \<Rightarrow> pystr \<Rightarrow> bool" where
  not_json: "json_loads raw = Inl JSONDecodeError \<Longrightarrow> line_flaw prev raw (lit ''invalid JSON'')"
| not_object: "json_loads raw = Inr v \<Longrightarrow> \<nexists>kvs. v = PDict kvs \<Longrightarrow> line_flaw prev raw (lit ''event must be a JSON object'')"
| bad_time: "line_object raw d \<Longrightarrow> \<nexists>n. dget d (lit ''timestamp_ms'') = PInt n \<and> 0 \<le> n \<Longrightarrow>
    line_flaw prev raw (lit ''timestamp_ms must be a non-negative integer'')"
| decreasing: "line_object raw d \<Longrightarrow> dget d (lit ''timestamp_ms'') = PInt n \<Longrightarrow> n < p \<Longrightarrow>
    line_flaw (Some p) raw (lit ''timestamp_ms must be monotonically non-decreasing'')"
| bad_event: "line_object raw d \<Longrightarrow> \<nexists>s. dget d (lit ''event'') = PStr s \<and> \<not> is_blank s \<Longrightarrow>
    line_flaw prev raw (lit ''event must be a non-empty string'')"

lemma line_flaw_bad:
  "line_flaw prev raw m \<Longrightarrow> event_of_line raw e \<Longrightarrow> \<exists>p. prev = Some p \<and> le_timestamp_ms e < p"
  by (induction rule: line_flaw.induct) (auto simp: event_of_line_def line_object_def)

lemma line_objectI: "json_loads raw = Inr (PDict kvs) \<Longrightarrow> line_object raw (map (\<lambda>(k, v). (the_str k, v)) kvs)"
  by (auto simp: line_object_def)

lemmas line_flaws = not_json not_object bad_time [OF line_objectI] decreasing [OF line_objectI] bad_event [OF line_objectI]

lemma load_line_err:
  "load_line line raw = Inl e \<longleftrightarrow>
     json_loads raw = Inl JSONDecodeError \<and> e = ApplicationLogError line (lit ''invalid JSON'') \<or>
     json_loads raw = Inl e \<and> e = digit_limit_error \<and> long_number raw"
  by (auto simp: load_line_def split: sum.splits if_splits dest: json_loads_limit)

lemma json_object_err:
  "json_object line v = Inl e \<longleftrightarrow>
     (\<nexists>kvs. v = PDict kvs) \<and> e = ApplicationLogError line (lit ''event must be a JSON object'')"
  by (auto simp: json_object_def split: pyval.splits)

lemma event_name_err:
  "event_name line v = Inl e \<longleftrightarrow>
     (\<nexists>s. v = PStr s \<and> \<not> is_blank s) \<and> e = ApplicationLogError line (lit ''event must be a non-empty string'')"
  by (auto simp: event_name_def split: pyval.splits if_splits)

lemma require_nonnegative_integer_message:
  "require_nonnegative_integer v line field = Inl e \<longleftrightarrow>
     (\<nexists>n. v = PInt n \<and> 0 \<le> n) \<and> e = ApplicationLogError line (field @ lit '' must be a non-negative integer'')"
  by (auto simp: require_nonnegative_integer_def split: pyval.splits if_splits)

lemma parse_log_line_err:
  assumes "parse_log_line line prev raw = Inl e"
  shows "(\<exists>m. line_flaw prev raw m \<and> e = ApplicationLogError line m) \<or>
    json_loads raw = Inl e \<and> e = digit_limit_error \<and> long_number raw"
proof -
  have "lit ''timestamp_ms'' @ lit '' must be a non-negative integer'' = lit ''timestamp_ms must be a non-negative integer''"
    by (simp add: lit_def)
  then show ?thesis
    using assms
    by (auto simp: parse_log_line_def rbind_Inl_iff load_line_err json_object_err json_object_iff load_line_iff event_name_err
        require_nonnegative_integer_message require_nonnegative_integer_iff ensure_iff split: option.splits
        intro: not_json not_object) (blast intro: line_flaws)+
qed

text \<open>The numbered lines that carry events\<close>

definition numbered :: "int \<Rightarrow> pystr list \<Rightarrow> (int \<times> pystr) list" where
  "numbered n ls = filter (\<lambda>(i, l). \<not> is_blank l) (zip (map (\<lambda>i. n + int i) [0..<length ls]) ls)"

lemma numbered_simps [simp]:
  "numbered n [] = []"
  "numbered n (l # ls) = (if is_blank l then numbered (n + 1) ls else (n, l) # numbered (n + 1) ls)"
proof -
  have "map (\<lambda>i. n + int i) [0..<Suc k] = n # map (\<lambda>i. (n + 1) + int i) [0..<k]" for k
    by (simp add: upt_conv_Cons map_Suc_upt [symmetric] ac_simps del: upt_Suc)
  then show "numbered n (l # ls) = (if is_blank l then numbered (n + 1) ls else (n, l) # numbered (n + 1) ls)"
    by (simp add: numbered_def del: upt_Suc)
qed (simp add: numbered_def)

lemma parse_log_lines_iff:
  "parse_log_lines n prev ls = Inr es \<longleftrightarrow>
     list_all2 (\<lambda>(i, l) e. le_line e = i \<and> event_of_line l e) (numbered n ls) es \<and>
     sorted (map le_timestamp_ms es) \<and> (\<forall>p e. prev = Some p \<longrightarrow> e \<in> set es \<longrightarrow> p \<le> le_timestamp_ms e)"
proof (induction n prev ls arbitrary: es rule: parse_log_lines.induct)
  case (1 line prev)
  then show ?case by auto
next
  case (2 line prev raw ls)
  show ?case
  proof (cases "is_blank raw")
    case True
    with 2(1) show ?thesis by simp
  next
    case False
    have IH: "parse_log_lines (line + 1) (Some (le_timestamp_ms e)) ls = Inr fs \<longleftrightarrow>
       list_all2 (\<lambda>(i, l) e. le_line e = i \<and> event_of_line l e) (numbered (line + 1) ls) fs \<and>
       sorted (map le_timestamp_ms fs) \<and> (\<forall>f \<in> set fs. le_timestamp_ms e \<le> le_timestamp_ms f)"
      if "parse_log_line line prev raw = Inr e" for e fs
      using 2(2) [OF False, of e fs] that by auto
    show ?thesis
    proof (cases es)
      case Nil
      then show ?thesis using False by (auto simp: res_iff)
    next
      case (Cons e fs)
      show ?thesis
        using False IH [of e fs]
        by (cases "parse_log_line line prev raw = Inr e")
          (auto simp: Cons res_iff parse_log_line_iff intro: order_trans)
    qed
  qed
qed

lemma numbered_bounds: "p \<in> set (numbered n ls) \<Longrightarrow> n \<le> fst p \<and> fst p < n + int (length ls)"
proof (induction ls arbitrary: n)
  case (Cons l ls)
  show ?case using Cons.IH [of "n + 1"] Cons.prems by (auto split: if_splits)
qed simp

lemma numbered_sorted: "sorted_wrt (<) (map fst (numbered n ls))"
proof (induction ls arbitrary: n)
  case (Cons l ls)
  then show ?case using numbered_bounds [of _ "n + 1" ls] by fastforce
qed simp

lemma list_all2_map_fst:
  "list_all2 (\<lambda>(i, l) e. f e = i \<and> P l e) xs es \<Longrightarrow> map f es = map fst xs"
  by (induction rule: list_all2_induct) auto

lemma parse_application_log_iff:
  "parse_application_log t = Inr es \<longleftrightarrow>
     list_all2 (\<lambda>(i, l) e. le_line e = i \<and> event_of_line l e) (numbered 1 (splitlines t)) es \<and>
     sorted (map le_timestamp_ms es)"
  by (simp add: parse_application_log_def parse_log_lines_iff)

text \<open>The time of the last event so far\<close>

definition latest :: "int option \<Rightarrow> ApplicationLogEvent list \<Rightarrow> int option" where
  "latest prev es = (if es = [] then prev else Some (le_timestamp_ms (last es)))"

lemma parse_log_lines_err:
  "parse_log_lines n prev ls = Inl e \<Longrightarrow>
     \<exists>i es. i < length ls \<and> \<not> is_blank (ls ! i) \<and> parse_log_lines n prev (take i ls) = Inr es \<and>
       ((\<exists>m. line_flaw (latest prev es) (ls ! i) m \<and> e = ApplicationLogError (n + int i) m) \<or>
        json_loads (ls ! i) = Inl e \<and> e = digit_limit_error \<and> long_number (ls ! i))"
proof (induction n prev ls rule: parse_log_lines.induct)
  case (1 line prev)
  then show ?case by simp
next
  case (2 line prev raw ls)
  show ?case
  proof (cases "is_blank raw")
    case True
    with 2(1,3) obtain i es where "i < length ls" "\<not> is_blank (ls ! i)" "parse_log_lines (line + 1) prev (take i ls) = Inr es"
      "(\<exists>m. line_flaw (latest prev es) (ls ! i) m \<and> e = ApplicationLogError (line + 1 + int i) m) \<or>
        json_loads (ls ! i) = Inl e \<and> e = digit_limit_error \<and> long_number (ls ! i)"
      by auto
    with True show ?thesis by (intro exI [of _ "Suc i"] exI [of _ es]) (simp add: ac_simps)
  next
    case False
    show ?thesis
    proof (cases "parse_log_line line prev raw")
      case (Inl err)
      with 2(3) False parse_log_line_err [OF Inl] show ?thesis
        by (intro exI [of _ 0] exI [of _ "[]"]) (simp add: latest_def)
    next
      case (Inr ev)
      with 2(3) False have "parse_log_lines (line + 1) (Some (le_timestamp_ms ev)) ls = Inl e" by (auto simp: rbind_Inl_iff)
      from 2(2) [OF False Inr this] obtain i es where i: "i < length ls" "\<not> is_blank (ls ! i)"
        "parse_log_lines (line + 1) (Some (le_timestamp_ms ev)) (take i ls) = Inr es"
        "(\<exists>m. line_flaw (latest (Some (le_timestamp_ms ev)) es) (ls ! i) m \<and> e = ApplicationLogError (line + 1 + int i) m) \<or>
          json_loads (ls ! i) = Inl e \<and> e = digit_limit_error \<and> long_number (ls ! i)"
        by blast
      moreover have "latest prev (ev # es) = latest (Some (le_timestamp_ms ev)) es" by (simp add: latest_def)
      ultimately show ?thesis using False Inr by (intro exI [of _ "Suc i"] exI [of _ "ev # es"]) (simp add: ac_simps)
    qed
  qed
qed

section \<open>Recovery metrics\<close>

text \<open>
  The relevant events of a log are a sequence of recoveries, each a non-empty run of retries closed by
  a success, and a run of retries that is still open.
\<close>

definition is_retry :: "ApplicationLogEvent \<Rightarrow> bool" where
  "is_retry e \<longleftrightarrow> le_event e = lit ''READ_RETRY''"

definition is_recovery :: "ApplicationLogEvent \<Rightarrow> bool" where
  "is_recovery e \<longleftrightarrow> le_event e = lit ''RECOVERY_SUCCESS''"

definition int_field :: "ApplicationLogEvent \<Rightarrow> pystr \<Rightarrow> int" where
  "int_field e k = (case dget (le_fields e) k of PInt n \<Rightarrow> n | _ \<Rightarrow> 0)"

definition nonneg_field :: "ApplicationLogEvent \<Rightarrow> pystr \<Rightarrow> bool" where
  "nonneg_field e k \<longleftrightarrow> dget (le_fields e) k = PInt (int_field e k) \<and> 0 \<le> int_field e k"

definition valid_retry :: "ApplicationLogEvent \<Rightarrow> bool" where
  "valid_retry e \<longleftrightarrow> is_retry e \<and> nonneg_field e (lit ''errno'') \<and> nonneg_field e (lit ''retry'')"

definition valid_recovery :: "ApplicationLogEvent \<Rightarrow> bool" where
  "valid_recovery e \<longleftrightarrow> is_recovery e \<and> nonneg_field e (lit ''retries'')"

type_synonym episode = "ApplicationLogEvent list \<times> ApplicationLogEvent"

definition flatten :: "episode list \<Rightarrow> ApplicationLogEvent list \<Rightarrow> ApplicationLogEvent list" where
  "flatten eps tail = concat (map (\<lambda>(rs, r). rs @ [r]) eps) @ tail"

definition wf_episodes :: "episode list \<Rightarrow> ApplicationLogEvent list \<Rightarrow> bool" where
  "wf_episodes eps tail \<longleftrightarrow>
     (\<forall>(rs, r) \<in> set eps. rs \<noteq> [] \<and> list_all valid_retry rs \<and> valid_recovery r) \<and> list_all valid_retry tail"

definition window :: "episode \<Rightarrow> RecoveryWindow" where
  "window ep =
     (case ep of (rs, r) \<Rightarrow>
        \<lparr>rw_first_error_timestamp_ms = le_timestamp_ms (hd rs),
         rw_recovery_timestamp_ms = le_timestamp_ms r,
         rw_recovery_latency_ms = le_timestamp_ms r - le_timestamp_ms (hd rs),
         rw_observed_retries = int (length rs),
         rw_reported_retries = int_field r (lit ''retries'')\<rparr>)"

definition head_time :: "ApplicationLogEvent list \<Rightarrow> int option" where
  "head_time es = (case es of [] \<Rightarrow> None | e # _ \<Rightarrow> Some (le_timestamp_ms e))"

definition metrics_of :: "episode list \<Rightarrow> ApplicationLogEvent list \<Rightarrow> RecoveryMetrics" where
  "metrics_of eps tail =
     (let retries = filter is_retry (flatten eps tail); ws = map window eps
      in \<lparr>rm_observed_eio_count = int (length (filter (\<lambda>e. int_field e (lit ''errno'') = EIO) retries)),
          rm_application_retry_count = int (length retries),
          rm_recoveries = ws,
          rm_first_error_timestamp_ms = head_time retries,
          rm_recovery_timestamp_ms = (if ws = [] then None else Some (rw_recovery_timestamp_ms (hd ws))),
          rm_recovery_latency_ms = (if ws = [] then None else Some (rw_recovery_latency_ms (hd ws)))\<rparr>)"

text \<open>The state of the loop after the episodes and the open run\<close>

definition state_of :: "episode list \<Rightarrow> ApplicationLogEvent list \<Rightarrow> metrics_state" where
  "state_of eps tail =
     \<lparr>ms_observed_eio_count = rm_observed_eio_count (metrics_of eps tail),
      ms_application_retry_count = rm_application_retry_count (metrics_of eps tail),
      ms_recoveries = map window eps,
      ms_first_observed_error = rm_first_error_timestamp_ms (metrics_of eps tail),
      ms_first_error = head_time tail,
      ms_active_retry_count = int (length tail)\<rparr>"

lemma nonneg_field_iff: "nonneg_field e k \<longleftrightarrow> (\<exists>n. dget (le_fields e) k = PInt n \<and> 0 \<le> n)"
  by (auto simp: nonneg_field_def int_field_def)

lemma retry_not_recovery: "is_recovery e \<Longrightarrow> \<not> is_retry e"
  by (simp add: is_retry_def is_recovery_def lit_def)

lemma head_time_append: "head_time (xs @ ys) = (if xs = [] then head_time ys else head_time xs)"
  by (cases xs) (simp_all add: head_time_def)

lemma flatten_snoc: "flatten eps (tail @ [e]) = flatten eps tail @ [e]" "flatten (eps @ [(tail, e)]) [] = flatten eps tail @ [e]"
  by (simp_all add: flatten_def)

lemma state_of_empty: "metrics_init = state_of [] []"
  by (simp add: metrics_init_def state_of_def metrics_of_def flatten_def head_time_def)

lemma metrics_result_state_of: "metrics_result (state_of eps tail) = metrics_of eps tail"
  by (cases eps) (simp_all add: metrics_result_def state_of_def metrics_of_def Let_def)

lemma head_time_snoc: "head_time (xs @ [e]) = or_else (head_time xs) (le_timestamp_ms e)"
  by (cases xs) (simp_all add: head_time_def or_else_def)

lemma state_of_retry:
  "is_retry e \<Longrightarrow> state_of eps (tail @ [e]) =
     (state_of eps tail)\<lparr>ms_application_retry_count := ms_application_retry_count (state_of eps tail) + 1,
       ms_active_retry_count := ms_active_retry_count (state_of eps tail) + 1,
       ms_observed_eio_count :=
         ms_observed_eio_count (state_of eps tail) + (if int_field e (lit ''errno'') = EIO then 1 else 0),
       ms_first_observed_error := or_else (ms_first_observed_error (state_of eps tail)) (le_timestamp_ms e),
       ms_first_error := or_else (ms_first_error (state_of eps tail)) (le_timestamp_ms e)\<rparr>"
  by (simp add: state_of_def metrics_of_def Let_def flatten_snoc head_time_snoc)

lemma state_of_recovery:
  "is_recovery e \<Longrightarrow> state_of (eps @ [(tail, e)]) [] =
     (state_of eps tail)\<lparr>ms_recoveries := ms_recoveries (state_of eps tail) @ [window (tail, e)],
       ms_first_error := None, ms_active_retry_count := 0\<rparr>"
  by (simp add: state_of_def metrics_of_def Let_def flatten_snoc retry_not_recovery head_time_def)

lemma retry_step_iff:
  assumes "is_retry e"
  shows "metrics_step (state_of eps tail) e = Inr st \<longleftrightarrow> valid_retry e \<and> st = state_of eps (tail @ [e])"
proof (cases "valid_retry e")
  case True
  then obtain n k where "dget (le_fields e) (lit ''errno'') = PInt n" "0 \<le> n"
    "dget (le_fields e) (lit ''retry'') = PInt k" "0 \<le> k"
    by (auto simp: valid_retry_def nonneg_field_iff)
  then have "retry_step (state_of eps tail) e = Inr (state_of eps (tail @ [e]))"
    unfolding state_of_retry [OF assms] retry_step_def int_field_def by simp
  with True assms show ?thesis by (auto simp: metrics_step_def is_retry_def)
next
  case False
  with assms show ?thesis
    by (auto simp: metrics_step_def is_retry_def valid_retry_def nonneg_field_iff retry_step_def rbind_Inr_iff
        require_nonnegative_integer_iff)
qed

lemma recovery_step_iff:
  assumes "is_recovery e"
  shows "metrics_step (state_of eps tail) e = Inr st \<longleftrightarrow>
    valid_recovery e \<and> tail \<noteq> [] \<and> st = state_of (eps @ [(tail, e)]) []"
proof -
  have "metrics_step (state_of eps tail) e = recovery_step (state_of eps tail) e"
    using retry_not_recovery [OF assms] assms by (simp add: metrics_step_def is_retry_def is_recovery_def)
  moreover have "ms_first_error (state_of eps tail) = head_time tail"
      "ms_active_retry_count (state_of eps tail) = int (length tail)"
    by (simp_all add: state_of_def)
  ultimately show ?thesis
    unfolding state_of_recovery [OF assms] using assms
    by (cases tail) (auto simp: valid_recovery_def nonneg_field_iff recovery_step_def res_iff int_field_def
        window_def head_time_def)
qed

lemma other_step: "\<not> is_retry e \<Longrightarrow> \<not> is_recovery e \<Longrightarrow> metrics_step st e = Inr st"
  by (simp add: metrics_step_def is_retry_def is_recovery_def)

definition relevant :: "ApplicationLogEvent list \<Rightarrow> ApplicationLogEvent list" where
  "relevant es = filter (\<lambda>e. is_retry e \<or> is_recovery e) es"

lemma metrics_loop_relevant: "metrics_loop st es = metrics_loop st (relevant es)"
  by (induction es arbitrary: st) (auto simp: relevant_def other_step intro: rbind_cong)

lemma metrics_loop_append: "metrics_loop st (xs @ ys) = rbind (metrics_loop st xs) (\<lambda>st'. metrics_loop st' ys)"
  by (induction xs arbitrary: st) (simp_all add: rbind_assoc)

lemma metrics_loop_retries:
  "list_all valid_retry rs \<Longrightarrow> metrics_loop (state_of eps tail) rs = Inr (state_of eps (tail @ rs))"
proof (induction rs arbitrary: tail)
  case (Cons r rs)
  then have "metrics_step (state_of eps tail) r = Inr (state_of eps (tail @ [r]))"
    using retry_step_iff by (simp add: valid_retry_def)
  with Cons show ?case by simp
qed simp

lemma metrics_loop_complete:
  "wf_episodes (eps @ eps') tail \<Longrightarrow>
     metrics_loop (state_of eps []) (flatten eps' tail) = Inr (state_of (eps @ eps') tail)"
proof (induction eps' arbitrary: eps)
  case Nil
  then show ?case by (simp add: flatten_def metrics_loop_retries wf_episodes_def)
next
  case (Cons ep eps')
  obtain rs r where ep: "ep = (rs, r)" by (cases ep)
  with Cons.prems have rs: "rs \<noteq> []" "list_all valid_retry rs" "valid_recovery r"
    by (auto simp: wf_episodes_def)
  then have "metrics_step (state_of eps rs) r = Inr (state_of (eps @ [ep]) [])"
    using recovery_step_iff [of r eps rs] by (simp add: ep valid_recovery_def)
  moreover have "flatten (ep # eps') tail = rs @ r # flatten eps' tail" by (simp add: flatten_def ep)
  ultimately show ?case
    using Cons.IH [of "eps @ [ep]"] Cons.prems metrics_loop_retries [OF rs(2), of eps "[]"]
    by (simp add: metrics_loop_append)
qed

lemma metrics_loop_sound:
  "metrics_loop (state_of eps tail) es = Inr st \<Longrightarrow> wf_episodes eps tail \<Longrightarrow>
     \<exists>eps' tail'. st = state_of eps' tail' \<and> wf_episodes eps' tail' \<and>
       flatten eps' tail' = flatten eps tail @ relevant es"
proof (induction es arbitrary: eps tail)
  case Nil
  then show ?case by (auto simp: relevant_def)
next
  case (Cons e es)
  then obtain st' where st': "metrics_step (state_of eps tail) e = Inr st'" "metrics_loop st' es = Inr st"
    by (auto simp: res_iff)
  consider (retry) "is_retry e" | (recovery) "is_recovery e" | (other) "\<not> is_retry e" "\<not> is_recovery e" by blast
  then show ?case
  proof cases
    case retry
    then have "valid_retry e" "st' = state_of eps (tail @ [e])" using st' retry_step_iff by auto
    then show ?thesis
      using Cons.IH [of eps "tail @ [e]"] st' Cons.prems retry by (auto simp: wf_episodes_def flatten_snoc relevant_def)
  next
    case recovery
    then have "valid_recovery e" "tail \<noteq> []" "st' = state_of (eps @ [(tail, e)]) []"
      using st' recovery_step_iff by auto
    then show ?thesis
      using Cons.IH [of "eps @ [(tail, e)]" "[]"] st' Cons.prems recovery
      by (auto simp: wf_episodes_def flatten_snoc relevant_def)
  next
    case other
    then show ?thesis using Cons.IH [of eps tail] st' Cons.prems by (auto simp: other_step relevant_def)
  qed
qed

lemma calculate_recovery_metrics_iff:
  "calculate_recovery_metrics es = Inr m \<longleftrightarrow>
     (\<exists>eps tail. wf_episodes eps tail \<and> relevant es = flatten eps tail \<and> m = metrics_of eps tail)"
proof
  assume "calculate_recovery_metrics es = Inr m"
  then obtain st where "metrics_loop (state_of [] []) es = Inr st" "m = metrics_result st"
    by (auto simp: calculate_recovery_metrics_def state_of_empty res_iff)
  moreover have "wf_episodes [] []" "flatten [] [] = []" by (simp_all add: wf_episodes_def flatten_def)
  ultimately show "\<exists>eps tail. wf_episodes eps tail \<and> relevant es = flatten eps tail \<and> m = metrics_of eps tail"
    using metrics_loop_sound [of "[]" "[]" es st] metrics_result_state_of by fastforce
next
  assume "\<exists>eps tail. wf_episodes eps tail \<and> relevant es = flatten eps tail \<and> m = metrics_of eps tail"
  then show "calculate_recovery_metrics es = Inr m"
    using metrics_loop_complete [of "[]"] metrics_loop_relevant [of _ es]
    by (auto simp: calculate_recovery_metrics_def state_of_empty metrics_result_state_of)
qed

section \<open>Consequences for the windows\<close>

lemma sorted_subseq: "subseq xs ys \<Longrightarrow> sorted ys \<Longrightarrow> sorted (xs :: int list)"
  by (induction rule: list_emb.induct) (auto dest: list_emb_set)

lemma window_simps [simp]:
  "rw_first_error_timestamp_ms (window (rs, r)) = le_timestamp_ms (hd rs)"
  "rw_recovery_timestamp_ms (window (rs, r)) = le_timestamp_ms r"
  "rw_recovery_latency_ms (window (rs, r)) = le_timestamp_ms r - le_timestamp_ms (hd rs)"
  "rw_observed_retries (window (rs, r)) = int (length rs)"
  by (simp_all add: window_def)

lemma window_times_subseq:
  "(\<And>rs r. (rs, r) \<in> set eps \<Longrightarrow> rs \<noteq> []) \<Longrightarrow>
     subseq (concat (map (\<lambda>w. [rw_first_error_timestamp_ms w, rw_recovery_timestamp_ms w]) (map window eps)))
       (map le_timestamp_ms (flatten eps tail))"
proof (induction eps)
  case Nil
  then show ?case by (simp add: flatten_def)
next
  case (Cons ep eps)
  obtain r0 rs r where ep: "ep = (r0 # rs, r)"
    using Cons.prems by (cases ep; cases "fst ep") auto
  have flat: "map le_timestamp_ms (flatten (ep # eps) tail) =
      le_timestamp_ms r0 # map le_timestamp_ms rs @ le_timestamp_ms r # map le_timestamp_ms (flatten eps tail)"
    by (simp add: flatten_def ep)
  have "subseq (concat (map (\<lambda>w. [rw_first_error_timestamp_ms w, rw_recovery_timestamp_ms w]) (map window eps)))
       (map le_timestamp_ms (flatten eps tail))"
    using Cons by auto
  then show ?case
    unfolding flat by (auto simp: ep intro: list_emb_append2)
qed

lemma sorted_relevant: "sorted (map le_timestamp_ms es) \<Longrightarrow> sorted (map le_timestamp_ms (relevant es))"
  unfolding relevant_def by (rule sorted_filter)

lemma retries_of_flatten:
  "wf_episodes eps tail \<Longrightarrow> filter is_retry (flatten eps tail) = concat (map fst eps) @ tail"
  by (induction eps)
    (auto simp: flatten_def wf_episodes_def valid_retry_def valid_recovery_def retry_not_recovery filter_id_conv list_all_iff)

lemma retry_conservation:
  assumes "wf_episodes eps tail"
  shows "rm_application_retry_count (metrics_of eps tail) =
    sum_list (map rw_observed_retries (rm_recoveries (metrics_of eps tail))) + int (length tail)"
proof -
  have "int (length (concat (map fst eps))) = sum_list (map rw_observed_retries (map window eps))"
    by (induction eps) (auto simp: window_def)
  then show ?thesis by (simp add: metrics_of_def Let_def retries_of_flatten [OF assms])
qed

section \<open>Evaluators\<close>

lemma max_default_eq: "max_default xs = (if xs = [] then None else Some (Max (set xs)))"
proof -
  have "fold max ys x = Max (insert x (set ys))" for x :: int and ys
    by (metis Max.set_eq_fold list.set(2))
  then show ?thesis by (cases xs) (simp_all add: max_default_def)
qed

section \<open>A sample log\<close>

definition json_line :: "nat \<Rightarrow> string \<Rightarrow> (string \<times> nat) list \<Rightarrow> pystr" where
  "json_line ts ev fs =
     [123, 34] @ lit ''timestamp_ms'' @ [34, 58] @ str_nat ts @ [44, 34] @ lit ''event'' @ [34, 58, 34] @ lit ev @ [34] @
     concat (map (\<lambda>(k, n). [44, 34] @ lit k @ [34, 58] @ str_nat n) fs) @ [125]"

definition sample_log :: pystr where
  "sample_log = json_line 1000 ''READ_RETRY'' [(''errno'', 5), (''retry'', 1)] @ [10, 10] @
     json_line 1250 ''RECOVERY_SUCCESS'' [(''retries'', 1)] @ [10]"

definition sample_events :: "ApplicationLogEvent list" where
  "sample_events =
     [\<lparr>le_line = 1, le_timestamp_ms = 1000, le_event = lit ''READ_RETRY'',
       le_fields = [(lit ''errno'', PInt 5), (lit ''retry'', PInt 1)]\<rparr>,
      \<lparr>le_line = 3, le_timestamp_ms = 1250, le_event = lit ''RECOVERY_SUCCESS'',
       le_fields = [(lit ''retries'', PInt 1)]\<rparr>]"

lemma sample_log_lines:
  "splitlines sample_log =
     [json_line 1000 ''READ_RETRY'' [(''errno'', 5), (''retry'', 1)], [],
      json_line 1250 ''RECOVERY_SUCCESS'' [(''retries'', 1)]]"
  by (simp add: sample_log_def json_line_def lit_def str_nat.simps splitlines_def is_linebreak_def)

lemma parse_sample_log: "parse_application_log sample_log = Inr sample_events"
  unfolding parse_application_log_def sample_log_lines
  by (simp add: json_line_def lit_def str_nat.simps is_blank_def is_space_def sample_events_def
        parse_log_line_def load_line_def json_object_def require_nonnegative_integer_def event_name_def json_eval
        cong: rbind_weak_cong)

lemma sample_metrics:
  "\<exists>m. calculate_recovery_metrics sample_events = Inr m \<and>
     rm_recoveries m = [\<lparr>rw_first_error_timestamp_ms = 1000, rw_recovery_timestamp_ms = 1250,
       rw_recovery_latency_ms = 250, rw_observed_retries = 1, rw_reported_retries = 1\<rparr>]"
  by (simp add: calculate_recovery_metrics_def sample_events_def metrics_step_def retry_step_def recovery_step_def
      metrics_init_def metrics_result_def or_else_def lit_def)

section \<open>Properties\<close>

text \<open>
  C8. The log parser is exact: it succeeds if and only if every line that is not blank is a JSON object
  with a non-negative integer \<open>timestamp_ms\<close> and a non-blank string \<open>event\<close>, and the timestamps never
  decrease. It then returns one event per such line, in order, with the line's number and all its other
  members.
\<close>

theorem parse_application_log_exact:
  "parse_application_log t = Inr es \<longleftrightarrow>
     list_all2 (\<lambda>(i, l) e. le_line e = i \<and> event_of_line l e) (numbered 1 (splitlines t)) es \<and>
     sorted (map le_timestamp_ms es)"
  by (rule parse_application_log_iff)

text \<open>
  C9. A rejected log is rejected at its first bad line. All lines before line \<open>i\<close> parse, line \<open>i\<close> is not blank,
  and it is the line of no event that is later than those before it. The exception is the
  \<open>ApplicationLogError\<close> with the number of that line and the message for what is wrong with it: its text is not
  JSON, not an object, its time is missing or negative or earlier than the last one, or its event is missing or blank.
  The only other exception is the \<open>ValueError\<close> of the interpreter's digit limit, when \<open>json.loads\<close> raises it for that
  line, which then has a number of more than 4300 digits.
\<close>

theorem parse_application_log_first_error:
  assumes "parse_application_log t = Inl e"
  shows "\<exists>i es. i < length (splitlines t) \<and> \<not> is_blank (splitlines t ! i) \<and>
    parse_log_lines 1 None (take i (splitlines t)) = Inr es \<and>
    (\<nexists>ev. event_of_line (splitlines t ! i) ev \<and> (\<forall>x \<in> set es. le_timestamp_ms x \<le> le_timestamp_ms ev)) \<and>
    ((\<exists>m. line_flaw (latest None es) (splitlines t ! i) m \<and> e = ApplicationLogError (1 + int i) m) \<or>
     json_loads (splitlines t ! i) = Inl e \<and> e = digit_limit_error \<and> long_number (splitlines t ! i))"
proof -
  from parse_log_lines_err [OF assms [unfolded parse_application_log_def]] obtain i es where
    i: "i < length (splitlines t)" "\<not> is_blank (splitlines t ! i)" "parse_log_lines 1 None (take i (splitlines t)) = Inr es"
    and e: "(\<exists>m. line_flaw (latest None es) (splitlines t ! i) m \<and> e = ApplicationLogError (1 + int i) m) \<or>
      json_loads (splitlines t ! i) = Inl e \<and> e = digit_limit_error \<and> long_number (splitlines t ! i)"
    by blast
  have "\<nexists>ev. event_of_line (splitlines t ! i) ev \<and> (\<forall>x \<in> set es. le_timestamp_ms x \<le> le_timestamp_ms ev)"
  proof
    assume "\<exists>ev. event_of_line (splitlines t ! i) ev \<and> (\<forall>x \<in> set es. le_timestamp_ms x \<le> le_timestamp_ms ev)"
    then obtain ev where ev: "event_of_line (splitlines t ! i) ev" "\<forall>x \<in> set es. le_timestamp_ms x \<le> le_timestamp_ms ev" by blast
    then have "json_loads (splitlines t ! i) \<noteq> Inl e" by (auto simp: event_of_line_def line_object_def)
    with e obtain m where "line_flaw (latest None es) (splitlines t ! i) m" by blast
    from line_flaw_bad [OF this ev(1)] have "es \<noteq> []" "le_timestamp_ms ev < le_timestamp_ms (last es)"
      by (auto simp: latest_def split: if_splits)
    with ev(2) last_in_set [of es] show False by fastforce
  qed
  with i e show ?thesis by blast
qed

theorem parse_application_log_first_error_witness:
  "line_flaw None (lit ''{}'') (lit ''timestamp_ms must be a non-negative integer'')"
proof -
  have lines: "splitlines (lit ''{}'') = [lit ''{}'']" by (simp add: splitlines_def is_linebreak_def lit_def)
  have "parse_application_log (lit ''{}'') =
      Inl (ApplicationLogError 1 (lit ''timestamp_ms must be a non-negative integer''))"
    by (simp add: parse_application_log_def splitlines_def is_linebreak_def is_blank_def is_space_def lit_def
        parse_log_line_def load_line_def json_object_def require_nonnegative_integer_def json_eval
        cong: rbind_weak_cong)
  from parse_application_log_first_error [OF this] show ?thesis by (auto simp: lines latest_def)
qed

text \<open>
  C10. The recovery metrics are exact: they are computed if and only if the retries and recoveries of
  the log split into episodes, each a non-empty run of valid \<open>READ_RETRY\<close> events closed by a valid
  \<open>RECOVERY_SUCCESS\<close>, and an open run of retries at the end. The result counts the retries and the
  \<open>EIO\<close> retries of the log, takes the time of the first one, and has one window per episode, from the
  first retry of the episode to its recovery, with the number of its retries.
\<close>

theorem calculate_recovery_metrics_exact:
  "calculate_recovery_metrics es = Inr m \<longleftrightarrow>
     (\<exists>eps tail. wf_episodes eps tail \<and> relevant es = flatten eps tail \<and> m = metrics_of eps tail)"
  by (rule calculate_recovery_metrics_iff)

text \<open>
  The windows of a parsed log are disjoint and in order: every recovery latency is non-negative and
  is the distance of the window's two timestamps, and no window begins before the previous one has
  ended.
\<close>

theorem recovery_windows_ordered:
  assumes "parse_application_log t = Inr es" and "calculate_recovery_metrics es = Inr m"
  shows "sorted (concat (map (\<lambda>w. [rw_first_error_timestamp_ms w, rw_recovery_timestamp_ms w]) (rm_recoveries m))) \<and>
    (\<forall>w \<in> set (rm_recoveries m). 0 \<le> rw_recovery_latency_ms w \<and>
       rw_recovery_latency_ms w = rw_recovery_timestamp_ms w - rw_first_error_timestamp_ms w)"
proof -
  from assms(2) obtain eps tail where eps: "wf_episodes eps tail" "relevant es = flatten eps tail"
      and m: "rm_recoveries m = map window eps"
    by (auto simp: calculate_recovery_metrics_iff metrics_of_def Let_def)
  have "sorted (map le_timestamp_ms (flatten eps tail))"
    using assms(1) sorted_relevant [of es] by (simp add: parse_application_log_iff eps(2))
  then have *: "sorted (concat (map (\<lambda>w. [rw_first_error_timestamp_ms w, rw_recovery_timestamp_ms w]) (map window eps)))"
    by (rule sorted_subseq [OF window_times_subseq, rotated]) (use eps(1) in \<open>auto simp: wf_episodes_def\<close>)
  then have "rw_first_error_timestamp_ms w \<le> rw_recovery_timestamp_ms w" if "w \<in> set (map window eps)" for w
    using that by (induction eps) (auto simp: sorted_append)
  moreover have "rw_recovery_latency_ms (window ep) =
      rw_recovery_timestamp_ms (window ep) - rw_first_error_timestamp_ms (window ep)" for ep
    by (cases ep) simp
  ultimately show ?thesis using * by (auto simp: m)
qed

theorem recovery_windows_ordered_witness:
  "\<exists>m. calculate_recovery_metrics sample_events = Inr m \<and>
    sorted (concat (map (\<lambda>w. [rw_first_error_timestamp_ms w, rw_recovery_timestamp_ms w]) (rm_recoveries m)))"
  using sample_metrics recovery_windows_ordered [OF parse_sample_log] by blast

text \<open>
  No retry is lost or counted twice: the retry count of the log is the sum of the retries of the
  windows and those after the last recovery, every window has at least one, and the \<open>EIO\<close> count never
  exceeds the retry count.
\<close>

theorem recovery_retries_conserved:
  assumes "calculate_recovery_metrics es = Inr m"
  shows "\<exists>unrecovered \<ge> 0. rm_application_retry_count m =
      sum_list (map rw_observed_retries (rm_recoveries m)) + unrecovered \<and>
      (\<forall>w \<in> set (rm_recoveries m). 1 \<le> rw_observed_retries w) \<and>
      0 \<le> rm_observed_eio_count m \<and> rm_observed_eio_count m \<le> rm_application_retry_count m"
proof -
  from assms obtain eps tail where eps: "wf_episodes eps tail" and m: "m = metrics_of eps tail"
    by (auto simp: calculate_recovery_metrics_iff)
  have "1 \<le> rw_observed_retries w" if w: "w \<in> set (rm_recoveries m)" for w
  proof -
    from w obtain rs r where "(rs, r) \<in> set eps" "w = window (rs, r)"
      by (auto simp: m metrics_of_def Let_def)
    with eps show ?thesis by (cases rs) (auto simp: wf_episodes_def)
  qed
  moreover have "rm_observed_eio_count m \<le> rm_application_retry_count m" "0 \<le> rm_observed_eio_count m"
    by (simp_all add: m metrics_of_def Let_def del: filter_filter)
  ultimately show ?thesis
    using retry_conservation [OF eps] by (intro exI [of _ "int (length tail)"]) (simp add: m)
qed

theorem recovery_retries_conserved_witness:
  "\<exists>m. calculate_recovery_metrics sample_events = Inr m \<and> rm_observed_eio_count m \<le> rm_application_retry_count m"
  using sample_metrics recovery_retries_conserved by blast

text \<open>
  The latency assertion: with a non-negative bound it passes exactly when the log has a recovery
  and no recovery took longer than the bound; with anything else it raises.
\<close>

theorem evaluate_recovery_latency_verdict:
  "evaluate_recovery_latency m v = Inr r \<longleftrightarrow>
     (\<exists>n. v = PInt n \<and> 0 \<le> n \<and> rl_maximum_ms r = n \<and>
        rl_observed_ms r = max_default (map rw_recovery_latency_ms (rm_recoveries m)) \<and>
        rl_passed r = (rm_recoveries m \<noteq> [] \<and> list_all (\<lambda>w. rw_recovery_latency_ms w \<le> n) (rm_recoveries m)))"
  by (cases r; cases "rm_recoveries m = []")
    (auto simp: evaluate_recovery_latency_def Let_def max_default_eq res_iff list_all_iff)

end
