(* ===== verification/Device_Backend.thy ===== *)
theory Device_Backend
  imports Py_Text
begin

text \<open>
  The device backend of \<open>src/vdevlab/runner.py\<close>: the \<open>ioctl\<close> request numbers, the packed fault
  structure, the \<open>DeviceBackend\<close> protocol as a record of operations on a world, and
  \<open>LinuxDeviceBackend\<close>, an object with a file descriptor beside the system calls of its world.
\<close>

unbundle bit_operations_syntax

section \<open>Request numbers\<close>

definition IOC_NRBITS :: nat where "IOC_NRBITS = 8"
definition IOC_TYPEBITS :: nat where "IOC_TYPEBITS = 8"
definition IOC_SIZEBITS :: nat where "IOC_SIZEBITS = 14"
definition IOC_NRSHIFT :: nat where "IOC_NRSHIFT = 0"
definition IOC_TYPESHIFT :: nat where "IOC_TYPESHIFT = IOC_NRSHIFT + IOC_NRBITS"
definition IOC_SIZESHIFT :: nat where "IOC_SIZESHIFT = IOC_TYPESHIFT + IOC_TYPEBITS"
definition IOC_DIRSHIFT :: nat where "IOC_DIRSHIFT = IOC_SIZESHIFT + IOC_SIZEBITS"
definition IOC_NONE :: int where "IOC_NONE = 0"
definition IOC_WRITE :: int where "IOC_WRITE = 1"

lemmas ioc_shifts =
  IOC_NRBITS_def IOC_TYPEBITS_def IOC_SIZEBITS_def IOC_NRSHIFT_def IOC_TYPESHIFT_def IOC_SIZESHIFT_def
  IOC_DIRSHIFT_def

definition ioctl_number :: "int \<Rightarrow> int \<Rightarrow> int \<Rightarrow> int" where
  "ioctl_number direction number sz =
     push_bit IOC_DIRSHIFT direction OR push_bit IOC_TYPESHIFT (int (hd (lit ''V''))) OR
     push_bit IOC_NRSHIFT number OR push_bit IOC_SIZESHIFT sz"

text \<open>\<open>struct.Struct("=IIII")\<close> has four fields of four bytes.\<close>

definition FAULT_STRUCT_size :: int where "FAULT_STRUCT_size = 16"

definition VDEVLAB_IOC_SET_FAULT :: int where
  "VDEVLAB_IOC_SET_FAULT = ioctl_number IOC_WRITE 0x01 FAULT_STRUCT_size"

definition VDEVLAB_IOC_CLEAR_FAULT :: int where
  "VDEVLAB_IOC_CLEAR_FAULT = ioctl_number IOC_NONE 0x03 0"

definition VDEVLAB_IOC_RESET :: int where
  "VDEVLAB_IOC_RESET = ioctl_number IOC_NONE 0x04 0"

section \<open>The packed fault structure\<close>

text \<open>The prefix \<open>=\<close> of the format is the native byte order with standard sizes.\<close>

datatype byteorder = LittleEndian | BigEndian

definition u32_bytes :: "byteorder \<Rightarrow> 32 word \<Rightarrow> byte list" where
  "u32_bytes order w =
     (let bs = [ucast w, ucast (drop_bit 8 w), ucast (drop_bit 16 w), ucast (drop_bit 24 w)]
      in case order of LittleEndian \<Rightarrow> bs | BigEndian \<Rightarrow> rev bs)"

definition pack_u32 :: "byteorder \<Rightarrow> int \<Rightarrow> pyexc + byte list" where
  "pack_u32 order n =
     (if 0 \<le> n \<and> n < 2 ^ 32 then Inr (u32_bytes order (word_of_int n))
      else Inl (StructError (lit ''argument out of range'')))"

definition FAULT_STRUCT_pack :: "byteorder \<Rightarrow> int \<Rightarrow> int \<Rightarrow> int \<Rightarrow> int \<Rightarrow> pyexc + byte list" where
  "FAULT_STRUCT_pack order a b c d =
     rbind (pack_u32 order a) (\<lambda>pa.
     rbind (pack_u32 order b) (\<lambda>pb.
     rbind (pack_u32 order c) (\<lambda>pc.
     rbind (pack_u32 order d) (\<lambda>pd. Inr (pa @ pb @ pc @ pd)))))"

section \<open>Faults\<close>

record FaultConfiguration =
  fc_fault_type :: pystr
  fc_repeat :: int
  fc_delay_ms :: int
  fc_partial_read_bytes :: int

definition FAULT_TYPES :: "(pystr \<times> int) list" where
  "FAULT_TYPES = [(lit ''eio'', 1), (lit ''delay'', 2), (lit ''disconnect'', 3), (lit ''partial-read'', 4)]"

section \<open>The protocol\<close>

text \<open>\<open>close\<close> is looked up with \<open>getattr(backend, "close", None)\<close> and may be missing.\<close>

record 'w DeviceBackend =
  db_reset :: "('w, unit) io"
  db_clear_fault :: "('w, unit) io"
  db_write :: "byte list \<Rightarrow> ('w, unit) io"
  db_set_fault :: "FaultConfiguration \<Rightarrow> ('w, unit) io"
  db_close :: "('w, unit) io option"

section \<open>The backend of a Linux device\<close>

text \<open>The system calls the backend makes, and what the platform provides.\<close>

record 'o device_os =
  do_has_ioctl :: bool
  do_order :: byteorder
  do_open :: "pystr \<Rightarrow> int \<Rightarrow> ('o, int) io"
  do_close :: "int \<Rightarrow> ('o, unit) io"
  do_write :: "int \<Rightarrow> byte list \<Rightarrow> ('o, nat) io"
  do_ioctl :: "int \<Rightarrow> int \<Rightarrow> byte list option \<Rightarrow> ('o, unit) io"

record LinuxDeviceBackend =
  lb_device_path :: pystr
  lb_fd :: "int option"

definition O_RDWR :: int where "O_RDWR = 2"
definition O_CLOEXEC :: int where "O_CLOEXEC = 0x80000"

definition linux_init :: "'o device_os \<Rightarrow> pystr \<Rightarrow> ('o, LinuxDeviceBackend) io" where
  "linux_init os device_path =
     (if \<not> do_has_ioctl os
      then io_raise (RunnerError (lit ''Linux ioctl support is unavailable on this platform''))
      else io_bind (do_open os device_path (O_RDWR OR O_CLOEXEC)) (\<lambda>fd.
           io_return \<lparr>lb_device_path = device_path, lb_fd = Some fd\<rparr>))"

definition linux_close :: "'o device_os \<Rightarrow> (LinuxDeviceBackend \<times> 'o, unit) io" where
  "linux_close os =
     io_bind io_self (\<lambda>self.
     case lb_fd self of
       None \<Rightarrow> io_return ()
     | Some fd \<Rightarrow>
         io_bind (io_snd (do_close os fd)) (\<lambda>_.
         io_bind io_self (\<lambda>self. io_set (self\<lparr>lb_fd := None\<rparr>))))"

definition linux_enter :: "(LinuxDeviceBackend \<times> 'o, LinuxDeviceBackend) io" where
  "linux_enter = io_self"

definition linux_exit :: "'o device_os \<Rightarrow> (LinuxDeviceBackend \<times> 'o, unit) io" where
  "linux_exit os = linux_close os"

definition linux_fileno :: "(LinuxDeviceBackend \<times> 'o, int) io" where
  "linux_fileno =
     io_bind io_self (\<lambda>self.
     case lb_fd self of
       None \<Rightarrow> io_raise (RunnerError (lit ''device backend is closed''))
     | Some fd \<Rightarrow> io_return fd)"

text \<open>\<open>assert _system_ioctl is not None\<close> followed by a call of it\<close>

definition system_ioctl :: "'o device_os \<Rightarrow> int \<Rightarrow> byte list option \<Rightarrow> (LinuxDeviceBackend \<times> 'o, unit) io" where
  "system_ioctl os request arg =
     (if \<not> do_has_ioctl os then io_raise AssertionError
      else io_bind linux_fileno (\<lambda>fd. io_snd (do_ioctl os fd request arg)))"

definition linux_reset :: "'o device_os \<Rightarrow> (LinuxDeviceBackend \<times> 'o, unit) io" where
  "linux_reset os = system_ioctl os VDEVLAB_IOC_RESET None"

definition linux_clear_fault :: "'o device_os \<Rightarrow> (LinuxDeviceBackend \<times> 'o, unit) io" where
  "linux_clear_fault os = system_ioctl os VDEVLAB_IOC_CLEAR_FAULT None"

text \<open>
  The loop of \<open>write\<close> ends when all bytes are written or an exception leaves it; a system call that is
  interrupted for ever keeps it running, so its model carries fuel, one unit per call.
\<close>

definition write_out_of_fuel :: pyexc where
  "write_out_of_fuel = OtherError (lit ''OutOfFuel'') []"

definition no_progress :: pyexc where
  "no_progress = OSError (lit ''OSError'') (Some (lit ''device write made no progress''))
     (lit ''[Errno 5] device write made no progress'')"

definition write_once :: "'o device_os \<Rightarrow> byte list \<Rightarrow> (LinuxDeviceBackend \<times> 'o, nat option) io" where
  "write_once os remaining =
     io_catch
       (io_bind linux_fileno (\<lambda>fd.
        io_bind (io_snd (do_write os fd remaining)) (\<lambda>written. io_return (Some written))))
       (\<lambda>e. if e = InterruptedError then io_return None else io_raise e)"

fun linux_write_loop :: "'o device_os \<Rightarrow> nat \<Rightarrow> byte list \<Rightarrow> (LinuxDeviceBackend \<times> 'o, unit) io" where
  "linux_write_loop os fuel [] = io_return ()"
| "linux_write_loop os 0 (b # bs) = io_raise write_out_of_fuel"
| "linux_write_loop os (Suc fuel) (b # bs) =
     io_bind (write_once os (b # bs)) (\<lambda>r.
     case r of
       None \<Rightarrow> linux_write_loop os fuel (b # bs)
     | Some written \<Rightarrow>
         if written = 0 then io_raise no_progress
         else linux_write_loop os fuel (drop written (b # bs)))"

definition linux_write :: "'o device_os \<Rightarrow> nat \<Rightarrow> byte list \<Rightarrow> (LinuxDeviceBackend \<times> 'o, unit) io" where
  "linux_write os fuel data = linux_write_loop os fuel data"

definition linux_set_fault :: "'o device_os \<Rightarrow> FaultConfiguration \<Rightarrow> (LinuxDeviceBackend \<times> 'o, unit) io" where
  "linux_set_fault os configuration =
     (case map_of FAULT_TYPES (fc_fault_type configuration) of
        None \<Rightarrow> io_raise (RunnerError (lit ''unsupported fault type: '' @ fc_fault_type configuration))
      | Some fault_type \<Rightarrow>
          io_bind (io_lift (FAULT_STRUCT_pack (do_order os) fault_type (fc_repeat configuration)
                     (fc_delay_ms configuration) (fc_partial_read_bytes configuration))) (\<lambda>payload.
          system_ioctl os VDEVLAB_IOC_SET_FAULT (Some payload)))"

text \<open>\<open>LinuxDeviceBackend\<close> as a \<open>DeviceBackend\<close>\<close>

definition linux_backend :: "'o device_os \<Rightarrow> nat \<Rightarrow> (LinuxDeviceBackend \<times> 'o) DeviceBackend" where
  "linux_backend os fuel =
     \<lparr>db_reset = linux_reset os, db_clear_fault = linux_clear_fault os, db_write = linux_write os fuel,
      db_set_fault = linux_set_fault os, db_close = Some (linux_close os)\<rparr>"

text \<open>After a \<open>with\<close> block has closed the device it stays closed, and another close makes no system call.\<close>

lemma linux_exit_closed:
  assumes "linux_exit os s = (Inr (), s')"
  shows "lb_fd (fst s') = None \<and> linux_exit os s' = (Inr (), s')"
  using assms
  by (cases s) (auto simp: linux_exit_def linux_close_def io_bind_def io_self_def io_set_def io_snd_def io_return_def
      split: option.splits sum.splits prod.splits)

end
