(* ===== verification/Kernel_Device.thy ===== *)
theory Kernel_Device
  imports Device_Backend
begin

text \<open>
  The character device of \<open>kernel/vdevlab_core.c\<close> with the interface of \<open>include/vdevlab.h\<close>: the fault
  configuration, the FIFO and the file operations \<open>read\<close>, \<open>write\<close>, \<open>poll\<close> and \<open>ioctl\<close>. Each critical
  section is one step. A call that sleeps on a wait queue is resumed with the device the other tasks
  have left behind; the list of these devices is an argument, and a call that is still asleep at its
  end has no result.
\<close>

section \<open>Interface\<close>

definition VDEVLAB_MAX_DELAY_MS :: "32 word" where "VDEVLAB_MAX_DELAY_MS = 10000"
definition VDEVLAB_MAX_FAULT_REPEAT :: "32 word" where "VDEVLAB_MAX_FAULT_REPEAT = 1000000"
definition VDEVLAB_MAX_PARTIAL_READ :: "32 word" where "VDEVLAB_MAX_PARTIAL_READ = 4096"

definition VDEVLAB_FAULT_NONE :: "32 word" where "VDEVLAB_FAULT_NONE = 0"
definition VDEVLAB_FAULT_EIO :: "32 word" where "VDEVLAB_FAULT_EIO = 1"
definition VDEVLAB_FAULT_DELAY :: "32 word" where "VDEVLAB_FAULT_DELAY = 2"
definition VDEVLAB_FAULT_DISCONNECT :: "32 word" where "VDEVLAB_FAULT_DISCONNECT = 3"
definition VDEVLAB_FAULT_PARTIAL_READ :: "32 word" where "VDEVLAB_FAULT_PARTIAL_READ = 4"

lemmas fault_types =
  VDEVLAB_FAULT_NONE_def VDEVLAB_FAULT_EIO_def VDEVLAB_FAULT_DELAY_def VDEVLAB_FAULT_DISCONNECT_def
  VDEVLAB_FAULT_PARTIAL_READ_def

lemmas fault_limits =
  VDEVLAB_MAX_DELAY_MS_def VDEVLAB_MAX_FAULT_REPEAT_def VDEVLAB_MAX_PARTIAL_READ_def

record vdevlab_fault_config =
  kf_type :: "32 word"
  kf_repeat :: "32 word"
  kf_delay_ms :: "32 word"
  kf_partial_read_bytes :: "32 word"

text \<open>\<open>_IO\<close>, \<open>_IOW\<close> and \<open>_IOR\<close> of \<open>linux/ioctl.h\<close>: direction, size, magic and number in one word.\<close>

definition IOC :: "32 word \<Rightarrow> 32 word \<Rightarrow> 32 word \<Rightarrow> 32 word" where
  "IOC dir nr sz = push_bit 30 dir OR push_bit 16 sz OR push_bit 8 0x56 OR nr"

definition KERNEL_IOC_SET_FAULT :: "32 word" where "KERNEL_IOC_SET_FAULT = IOC 1 0x01 16"
definition KERNEL_IOC_GET_FAULT :: "32 word" where "KERNEL_IOC_GET_FAULT = IOC 2 0x02 16"
definition KERNEL_IOC_CLEAR_FAULT :: "32 word" where "KERNEL_IOC_CLEAR_FAULT = IOC 0 0x03 0"
definition KERNEL_IOC_RESET :: "32 word" where "KERNEL_IOC_RESET = IOC 0 0x04 0"

lemmas kernel_requests =
  KERNEL_IOC_SET_FAULT_def KERNEL_IOC_GET_FAULT_def KERNEL_IOC_CLEAR_FAULT_def KERNEL_IOC_RESET_def

section \<open>State\<close>

definition VDEVLAB_FIFO_SIZE :: nat where "VDEVLAB_FIFO_SIZE = 4096"

record vdevlab =
  kd_fault :: vdevlab_fault_config
  kd_fifo :: "byte list"

datatype errno = E_INTR | E_IO | E_AGAIN | E_FAULT | E_NODEV | E_INVAL | E_NOTTY | E_RESTARTSYS

definition no_fault :: vdevlab_fault_config where
  "no_fault = \<lparr>kf_type = VDEVLAB_FAULT_NONE, kf_repeat = 0, kf_delay_ms = 0, kf_partial_read_bytes = 0\<rparr>"

definition vdevlab_clear_fault_locked :: "vdevlab \<Rightarrow> vdevlab" where
  "vdevlab_clear_fault_locked d = d\<lparr>kd_fault := no_fault\<rparr>"

definition vdevlab_fault_interrupts_read :: "vdevlab \<Rightarrow> bool" where
  "vdevlab_fault_interrupts_read d \<longleftrightarrow>
     kf_type (kd_fault d) = VDEVLAB_FAULT_EIO \<or> kf_type (kd_fault d) = VDEVLAB_FAULT_DISCONNECT"

definition vdevlab_is_disconnected :: "vdevlab \<Rightarrow> bool" where
  "vdevlab_is_disconnected d \<longleftrightarrow> kf_type (kd_fault d) = VDEVLAB_FAULT_DISCONNECT"

definition kfifo_is_full :: "vdevlab \<Rightarrow> bool" where
  "kfifo_is_full d \<longleftrightarrow> VDEVLAB_FIFO_SIZE \<le> length (kd_fifo d)"

section \<open>Read\<close>

text \<open>
  \<open>vdevlab_apply_read_fault\<close>: the return code, the two variables it may assign, and the device. The
  argument \<open>signal\<close> says whether a signal ends the sleep of a delay.
\<close>

definition vdevlab_apply_read_fault ::
  "bool \<Rightarrow> bool \<Rightarrow> 32 word \<Rightarrow> vdevlab \<Rightarrow> errno option \<times> bool \<times> 32 word \<times> vdevlab" where
  "vdevlab_apply_read_fault signal delay_applied partial_read_bytes d =
     (let f = kd_fault d in
      if kf_type f = VDEVLAB_FAULT_NONE then (None, delay_applied, partial_read_bytes, d)
      else if kf_type f = VDEVLAB_FAULT_EIO then
        if kf_repeat f = 0
        then (None, delay_applied, partial_read_bytes, vdevlab_clear_fault_locked d)
        else
          let d1 = d\<lparr>kd_fault := f\<lparr>kf_repeat := kf_repeat f - 1\<rparr>\<rparr>
          in (Some E_IO, delay_applied, partial_read_bytes,
              if kf_repeat f - 1 = 0 then vdevlab_clear_fault_locked d1 else d1)
      else if kf_type f = VDEVLAB_FAULT_DELAY then
        if delay_applied then (None, delay_applied, partial_read_bytes, d)
        else (if kf_delay_ms f \<noteq> 0 \<and> signal then Some E_RESTARTSYS else None, True, partial_read_bytes, d)
      else if kf_type f = VDEVLAB_FAULT_PARTIAL_READ then
        (None, delay_applied, kf_partial_read_bytes f, d)
      else if kf_type f = VDEVLAB_FAULT_DISCONNECT then (Some E_NODEV, delay_applied, partial_read_bytes, d)
      else (Some E_INVAL, delay_applied, partial_read_bytes, d))"

text \<open>The copy at the end of \<open>vdevlab_read\<close>, from a FIFO that is not empty\<close>

definition read_copy :: "nat \<Rightarrow> 32 word \<Rightarrow> vdevlab \<Rightarrow> byte list \<times> vdevlab" where
  "read_copy count partial_read_bytes d =
     (let n = min count (length (kd_fifo d));
          to_copy = (if partial_read_bytes \<noteq> 0 then min n (unat partial_read_bytes) else n)
      in (take to_copy (kd_fifo d), d\<lparr>kd_fifo := drop to_copy (kd_fifo d)\<rparr>))"

text \<open>
  What ends a sleep on a wait queue: the other tasks, which leave a device behind, or a signal. A pass
  of the loop over the fault and the FIFO is one step.
\<close>

datatype wake = Others vdevlab | Signal

definition read_wakes :: "vdevlab \<Rightarrow> bool" where
  "read_wakes d \<longleftrightarrow> kd_fifo d \<noteq> [] \<or> vdevlab_fault_interrupts_read d"

text \<open>
  The loop of \<open>vdevlab_read\<close>. It sleeps only when the FIFO is empty and the fault does not interrupt
  reads, that is when the condition of the wait does not hold.
\<close>

fun vdevlab_read_loop ::
  "bool \<Rightarrow> bool \<Rightarrow> nat \<Rightarrow> bool \<Rightarrow> 32 word \<Rightarrow> vdevlab \<Rightarrow> wake list \<Rightarrow> ((errno + byte list) \<times> vdevlab) option"
  and read_sleep ::
  "bool \<Rightarrow> bool \<Rightarrow> nat \<Rightarrow> bool \<Rightarrow> 32 word \<Rightarrow> vdevlab \<Rightarrow> wake list \<Rightarrow> ((errno + byte list) \<times> vdevlab) option" where
  "vdevlab_read_loop nonblock signal count delay_applied partial d ws =
     (case vdevlab_apply_read_fault signal delay_applied partial d of
        (Some err, _, _, d1) \<Rightarrow> Some (Inl err, d1)
      | (None, delay_applied1, partial1, d1) \<Rightarrow>
          if kd_fifo d1 \<noteq> [] then (case read_copy count partial1 d1 of (bs, d2) \<Rightarrow> Some (Inr bs, d2))
          else if nonblock then Some (Inl E_AGAIN, d1)
          else read_sleep nonblock signal count delay_applied1 partial1 d1 ws)"
| "read_sleep nonblock signal count delay_applied partial d [] = None"
| "read_sleep nonblock signal count delay_applied partial d (Signal # ws) = Some (Inl E_RESTARTSYS, d)"
| "read_sleep nonblock signal count delay_applied partial d (Others d' # ws) =
     (if read_wakes d' then vdevlab_read_loop nonblock signal count delay_applied partial d' ws
      else read_sleep nonblock signal count delay_applied partial d' ws)"

definition vdevlab_read ::
  "bool \<Rightarrow> bool \<Rightarrow> nat \<Rightarrow> vdevlab \<Rightarrow> wake list \<Rightarrow> ((errno + byte list) \<times> vdevlab) option" where
  "vdevlab_read nonblock signal count d ws =
     (if count = 0 then Some (Inr [], d) else vdevlab_read_loop nonblock signal count False 0 d ws)"

section \<open>Write\<close>

definition write_copy :: "byte list \<Rightarrow> vdevlab \<Rightarrow> nat \<times> vdevlab" where
  "write_copy buf d =
     (let to_copy = min (length buf) (VDEVLAB_FIFO_SIZE - length (kd_fifo d))
      in (to_copy, d\<lparr>kd_fifo := kd_fifo d @ take to_copy buf\<rparr>))"

fun write_sleep :: "byte list \<Rightarrow> vdevlab \<Rightarrow> wake list \<Rightarrow> ((errno + nat) \<times> vdevlab) option" where
  "write_sleep buf d [] = None"
| "write_sleep buf d (Signal # ws) = Some (Inl E_RESTARTSYS, d)"
| "write_sleep buf d (Others d' # ws) =
     (if vdevlab_is_disconnected d' then Some (Inl E_NODEV, d')
      else if \<not> kfifo_is_full d' then (case write_copy buf d' of (n, d2) \<Rightarrow> Some (Inr n, d2))
      else write_sleep buf d' ws)"

definition vdevlab_write ::
  "bool \<Rightarrow> byte list \<Rightarrow> vdevlab \<Rightarrow> wake list \<Rightarrow> ((errno + nat) \<times> vdevlab) option" where
  "vdevlab_write nonblock buf d ws =
     (if buf = [] then Some (Inr 0, d)
      else if vdevlab_is_disconnected d then Some (Inl E_NODEV, d)
      else if \<not> kfifo_is_full d then (case write_copy buf d of (n, d2) \<Rightarrow> Some (Inr n, d2))
      else if nonblock then Some (Inl E_AGAIN, d)
      else write_sleep buf d ws)"

section \<open>Poll\<close>

definition EPOLLIN :: "32 word" where "EPOLLIN = 0x001"
definition EPOLLOUT :: "32 word" where "EPOLLOUT = 0x004"
definition EPOLLERR :: "32 word" where "EPOLLERR = 0x008"
definition EPOLLHUP :: "32 word" where "EPOLLHUP = 0x010"
definition EPOLLRDNORM :: "32 word" where "EPOLLRDNORM = 0x040"
definition EPOLLWRNORM :: "32 word" where "EPOLLWRNORM = 0x100"

lemmas poll_bits = EPOLLIN_def EPOLLOUT_def EPOLLERR_def EPOLLHUP_def EPOLLRDNORM_def EPOLLWRNORM_def

definition vdevlab_poll :: "vdevlab \<Rightarrow> 32 word" where
  "vdevlab_poll d =
     (if kf_type (kd_fault d) = VDEVLAB_FAULT_DISCONNECT then EPOLLERR OR EPOLLHUP
      else if kf_type (kd_fault d) = VDEVLAB_FAULT_EIO then EPOLLERR
      else (if kd_fifo d \<noteq> [] then EPOLLIN OR EPOLLRDNORM else 0) OR
           (if \<not> kfifo_is_full d then EPOLLOUT OR EPOLLWRNORM else 0))"

section \<open>Ioctl\<close>

definition bytes_u32 :: "byteorder \<Rightarrow> byte list \<Rightarrow> 32 word" where
  "bytes_u32 order bs =
     (let cs = (case order of LittleEndian \<Rightarrow> bs | BigEndian \<Rightarrow> rev bs)
      in ucast (cs ! 0) OR push_bit 8 (ucast (cs ! 1)) OR push_bit 16 (ucast (cs ! 2)) OR push_bit 24 (ucast (cs ! 3)))"

text \<open>\<open>copy_from_user\<close> of the structure; an argument that is not readable memory of its size faults.\<close>

definition config_from_user :: "byteorder \<Rightarrow> byte list option \<Rightarrow> vdevlab_fault_config option" where
  "config_from_user order arg =
     (case arg of
        None \<Rightarrow> None
      | Some bs \<Rightarrow>
          if length bs < 16 then None
          else Some \<lparr>kf_type = bytes_u32 order (take 4 bs),
                     kf_repeat = bytes_u32 order (take 4 (drop 4 bs)),
                     kf_delay_ms = bytes_u32 order (take 4 (drop 8 bs)),
                     kf_partial_read_bytes = bytes_u32 order (take 4 (drop 12 bs))\<rparr>)"

definition config_bytes :: "byteorder \<Rightarrow> vdevlab_fault_config \<Rightarrow> byte list" where
  "config_bytes order c =
     u32_bytes order (kf_type c) @ u32_bytes order (kf_repeat c) @ u32_bytes order (kf_delay_ms c) @
     u32_bytes order (kf_partial_read_bytes c)"

text \<open>The validation of \<open>VDEVLAB_IOC_SET_FAULT\<close>\<close>

definition normalise_config :: "vdevlab_fault_config \<Rightarrow> errno + vdevlab_fault_config" where
  "normalise_config c =
     (if VDEVLAB_FAULT_PARTIAL_READ < kf_type c then Inl E_INVAL
      else if kf_type c = VDEVLAB_FAULT_NONE \<or> kf_type c = VDEVLAB_FAULT_DISCONNECT
      then Inr (c\<lparr>kf_repeat := 0, kf_delay_ms := 0, kf_partial_read_bytes := 0\<rparr>)
      else if kf_type c = VDEVLAB_FAULT_EIO then
        if kf_repeat c = 0 \<or> VDEVLAB_MAX_FAULT_REPEAT < kf_repeat c then Inl E_INVAL
        else Inr (c\<lparr>kf_delay_ms := 0, kf_partial_read_bytes := 0\<rparr>)
      else if kf_type c = VDEVLAB_FAULT_DELAY then
        if kf_delay_ms c = 0 \<or> VDEVLAB_MAX_DELAY_MS < kf_delay_ms c then Inl E_INVAL
        else Inr (c\<lparr>kf_repeat := 0, kf_partial_read_bytes := 0\<rparr>)
      else if kf_type c = VDEVLAB_FAULT_PARTIAL_READ then
        if kf_partial_read_bytes c = 0 \<or> VDEVLAB_MAX_PARTIAL_READ < kf_partial_read_bytes c then Inl E_INVAL
        else Inr (c\<lparr>kf_repeat := 0, kf_delay_ms := 0\<rparr>)
      else Inl E_INVAL)"

text \<open>The result of a successful call is the memory it copies to the user.\<close>

definition vdevlab_ioctl ::
  "byteorder \<Rightarrow> 32 word \<Rightarrow> byte list option \<Rightarrow> vdevlab \<Rightarrow> (errno + byte list) \<times> vdevlab" where
  "vdevlab_ioctl order cmd arg d =
     (if cmd = KERNEL_IOC_SET_FAULT then
        (case config_from_user order arg of
           None \<Rightarrow> (Inl E_FAULT, d)
         | Some config \<Rightarrow>
             (case normalise_config config of
                Inl err \<Rightarrow> (Inl err, d)
              | Inr config' \<Rightarrow> (Inr [], d\<lparr>kd_fault := config'\<rparr>)))
      else if cmd = KERNEL_IOC_GET_FAULT then
        (case arg of None \<Rightarrow> (Inl E_FAULT, d) | Some _ \<Rightarrow> (Inr (config_bytes order (kd_fault d)), d))
      else if cmd = KERNEL_IOC_CLEAR_FAULT then (Inr [], vdevlab_clear_fault_locked d)
      else if cmd = KERNEL_IOC_RESET then (Inr [], (vdevlab_clear_fault_locked d)\<lparr>kd_fifo := []\<rparr>)
      else (Inl E_NOTTY, d))"

text \<open>The device after \<open>vdevlab_init\<close>\<close>

definition vdevlab_init :: vdevlab where
  "vdevlab_init = \<lparr>kd_fault = no_fault, kd_fifo = []\<rparr>"

end
