(* ===== verification/Kernel_Props.thy ===== *)
theory Kernel_Props
  imports Kernel_Device
begin

text \<open>
  The properties of the kernel device: the packed structure and the request numbers agree with the
  Python side, every reachable device is well formed, and reads, writes, faults and \<open>poll\<close> behave as
  documented.
\<close>

section \<open>The wire format\<close>

lemma bytes_u32_u32_bytes: "bytes_u32 order (u32_bytes order w) = w"
proof -
  have "ucast (ucast w :: byte) OR push_bit 8 (ucast (ucast (drop_bit 8 w) :: byte)) OR
      push_bit 16 (ucast (ucast (drop_bit 16 w) :: byte)) OR push_bit 24 (ucast (ucast (drop_bit 24 w) :: byte)) = w"
    for w :: "32 word"
  proof (rule bit_word_eqI)
    fix n
    assume "n < LENGTH(32)"
    then show "bit (ucast (ucast w :: byte) OR push_bit 8 (ucast (ucast (drop_bit 8 w) :: byte)) OR
        push_bit 16 (ucast (ucast (drop_bit 16 w) :: byte)) OR
        push_bit 24 (ucast (ucast (drop_bit 24 w) :: byte)) :: 32 word) n = bit w n"
      by (cases "n < 16"; cases "n < 24") (auto simp: bit_simps less_diff_conv2)
  qed
  then show ?thesis by (cases order) (simp_all add: bytes_u32_def u32_bytes_def Let_def)
qed

lemma length_u32_bytes [simp]: "length (u32_bytes order w) = 4"
  by (cases order) (simp_all add: u32_bytes_def Let_def)

lemma config_roundtrip: "config_from_user order (Some (config_bytes order c)) = Some c"
  by (cases c) (simp add: config_from_user_def config_bytes_def bytes_u32_u32_bytes)

lemma FAULT_STRUCT_pack_Inr_iff:
  "FAULT_STRUCT_pack order a b c d = Inr bs \<longleftrightarrow>
     {a, b, c, d} \<subseteq> {0..<2 ^ 32} \<and>
     bs = config_bytes order \<lparr>kf_type = word_of_int a, kf_repeat = word_of_int b, kf_delay_ms = word_of_int c,
            kf_partial_read_bytes = word_of_int d\<rparr>"
  by (auto simp: FAULT_STRUCT_pack_def pack_u32_def res_iff config_bytes_def split: if_splits)

lemma request_numbers:
  "word_of_int VDEVLAB_IOC_SET_FAULT = KERNEL_IOC_SET_FAULT"
  "word_of_int VDEVLAB_IOC_CLEAR_FAULT = KERNEL_IOC_CLEAR_FAULT"
  "word_of_int VDEVLAB_IOC_RESET = KERNEL_IOC_RESET"
  by (simp_all add: VDEVLAB_IOC_SET_FAULT_def VDEVLAB_IOC_CLEAR_FAULT_def VDEVLAB_IOC_RESET_def kernel_requests
      ioctl_number_def ioc_shifts IOC_NONE_def IOC_WRITE_def FAULT_STRUCT_size_def IOC_def lit_def)

lemma requests_distinct:
  "KERNEL_IOC_SET_FAULT \<noteq> KERNEL_IOC_GET_FAULT" "KERNEL_IOC_SET_FAULT \<noteq> KERNEL_IOC_CLEAR_FAULT"
  "KERNEL_IOC_SET_FAULT \<noteq> KERNEL_IOC_RESET" "KERNEL_IOC_GET_FAULT \<noteq> KERNEL_IOC_CLEAR_FAULT"
  "KERNEL_IOC_GET_FAULT \<noteq> KERNEL_IOC_RESET" "KERNEL_IOC_CLEAR_FAULT \<noteq> KERNEL_IOC_RESET"
  by (simp_all add: kernel_requests IOC_def)

section \<open>Well-formed devices\<close>

definition wf_config :: "vdevlab_fault_config \<Rightarrow> bool" where
  "wf_config c \<longleftrightarrow>
     (if kf_type c = VDEVLAB_FAULT_EIO then kf_repeat c \<noteq> 0 \<and> kf_repeat c \<le> VDEVLAB_MAX_FAULT_REPEAT else kf_repeat c = 0) \<and>
     (if kf_type c = VDEVLAB_FAULT_DELAY then kf_delay_ms c \<noteq> 0 \<and> kf_delay_ms c \<le> VDEVLAB_MAX_DELAY_MS else kf_delay_ms c = 0) \<and>
     (if kf_type c = VDEVLAB_FAULT_PARTIAL_READ
      then kf_partial_read_bytes c \<noteq> 0 \<and> kf_partial_read_bytes c \<le> VDEVLAB_MAX_PARTIAL_READ
      else kf_partial_read_bytes c = 0) \<and>
     kf_type c \<le> VDEVLAB_FAULT_PARTIAL_READ"

definition wf_device :: "vdevlab \<Rightarrow> bool" where
  "wf_device d \<longleftrightarrow> wf_config (kd_fault d) \<and> length (kd_fifo d) \<le> VDEVLAB_FIFO_SIZE"

lemma wf_no_fault [simp]: "wf_config no_fault"
  by (simp add: wf_config_def no_fault_def fault_types)

lemma fault_type_neq:
  "VDEVLAB_FAULT_NONE \<noteq> VDEVLAB_FAULT_EIO" "VDEVLAB_FAULT_NONE \<noteq> VDEVLAB_FAULT_DELAY"
  "VDEVLAB_FAULT_NONE \<noteq> VDEVLAB_FAULT_DISCONNECT" "VDEVLAB_FAULT_NONE \<noteq> VDEVLAB_FAULT_PARTIAL_READ"
  "VDEVLAB_FAULT_EIO \<noteq> VDEVLAB_FAULT_DELAY" "VDEVLAB_FAULT_EIO \<noteq> VDEVLAB_FAULT_DISCONNECT"
  "VDEVLAB_FAULT_EIO \<noteq> VDEVLAB_FAULT_PARTIAL_READ" "VDEVLAB_FAULT_DELAY \<noteq> VDEVLAB_FAULT_DISCONNECT"
  "VDEVLAB_FAULT_DELAY \<noteq> VDEVLAB_FAULT_PARTIAL_READ" "VDEVLAB_FAULT_DISCONNECT \<noteq> VDEVLAB_FAULT_PARTIAL_READ"
  by (simp_all add: fault_types)

declare fault_type_neq [simp] fault_type_neq [symmetric, simp]

lemma normalise_config_wf: "normalise_config c = Inr c' \<Longrightarrow> wf_config c'"
  unfolding normalise_config_def by (auto simp: wf_config_def not_less split: if_splits)

lemma wf_clear [simp]: "wf_device d \<Longrightarrow> wf_device (vdevlab_clear_fault_locked d)"
  by (simp add: wf_device_def vdevlab_clear_fault_locked_def)

lemma wf_ioctl: "wf_device d \<Longrightarrow> wf_device (snd (vdevlab_ioctl order cmd arg d))"
  by (auto simp: vdevlab_ioctl_def wf_device_def vdevlab_clear_fault_locked_def
      split: option.splits sum.splits intro: normalise_config_wf)

lemma word_pred_le: "(w :: 32 word) \<noteq> 0 \<Longrightarrow> w - 1 \<le> w"
  by (simp add: word_le_nat_alt unat_minus_one)

lemma wf_config_eio_decr:
  assumes "wf_config f" "kf_type f = VDEVLAB_FAULT_EIO" "kf_repeat f - 1 \<noteq> 0"
  shows "wf_config (f\<lparr>kf_repeat := kf_repeat f - 1\<rparr>)"
  using assms order_trans [OF word_pred_le] by (auto simp: wf_config_def)

lemma wf_apply_read_fault:
  "wf_device d \<Longrightarrow> vdevlab_apply_read_fault sg da p d = (r, da', p', d') \<Longrightarrow> wf_device d'"
  by (auto simp: vdevlab_apply_read_fault_def Let_def wf_device_def wf_config_eio_decr vdevlab_clear_fault_locked_def
      split: if_splits)

lemma wf_read_copy: "wf_device d \<Longrightarrow> wf_device (snd (read_copy n p d))"
  by (auto simp: read_copy_def Let_def wf_device_def)

lemma wf_write_copy: "wf_device d \<Longrightarrow> wf_device (snd (write_copy buf d))"
  by (auto simp: write_copy_def Let_def wf_device_def)

lemma wf_read_loop:
  assumes "vdevlab_read_loop nb sg count da p d [] = Some (r, d')" "wf_device d"
  shows "wf_device d'"
proof -
  obtain e da1 p1 d1 where app: "vdevlab_apply_read_fault sg da p d = (e, da1, p1, d1)"
    by (metis prod_cases4)
  with assms have "wf_device d1" by (blast intro: wf_apply_read_fault)
  then show ?thesis
    using assms app wf_read_copy [of d1 count p1]
    by (auto simp: vdevlab_read_loop.simps [of _ _ _ _ _ _ "[]"] split: option.splits if_splits prod.splits)
qed

lemma wf_write: "vdevlab_write nb buf d [] = Some (r, d') \<Longrightarrow> wf_device d \<Longrightarrow> wf_device d'"
  using wf_write_copy [of d buf]
  by (auto simp: vdevlab_write_def split: if_splits prod.splits)

section \<open>Reachable devices\<close>

text \<open>
  Any number of tasks act on the device. A task that was asleep resumes its read loop with the
  variables it had, so a resumed pass is a step of its own; so is the copy of a resumed write.
\<close>

inductive device_step :: "vdevlab \<Rightarrow> vdevlab \<Rightarrow> bool" where
  step_ioctl: "vdevlab_ioctl order cmd arg d = (r, d') \<Longrightarrow> device_step d d'"
| step_read: "vdevlab_read_loop nb sg count da p d [] = Some (r, d') \<Longrightarrow> device_step d d'"
| step_write: "vdevlab_write nb buf d [] = Some (r, d') \<Longrightarrow> device_step d d'"

locale state_machine =
  fixes init :: 's and step :: "'s \<Rightarrow> 's \<Rightarrow> bool" and inv :: "'s \<Rightarrow> bool"
  assumes inv_init: "inv init"
    and inv_step: "step s s' \<Longrightarrow> inv s \<Longrightarrow> inv s'"
begin

lemma inv_reachable: "step\<^sup>*\<^sup>* init s \<Longrightarrow> inv s"
  by (induction rule: rtranclp_induct) (auto intro: inv_init inv_step)

end

interpretation device: state_machine vdevlab_init device_step wf_device
proof unfold_locales
  show "wf_device vdevlab_init" by (simp add: vdevlab_init_def wf_device_def)
  show "wf_device d'" if "device_step d d'" "wf_device d" for d d'
    using that
  proof (induction rule: device_step.induct)
    case (step_ioctl order cmd arg d r d')
    then show ?case using wf_ioctl [of d order cmd arg] by simp
  qed (auto intro: wf_read_loop wf_write)
qed

section \<open>Reading\<close>

lemma read_cases:
  assumes "wf_device d" "0 < count"
  shows "vdevlab_read nb False count d ws =
    (if vdevlab_is_disconnected d then Some (Inl E_NODEV, d)
     else if kf_type (kd_fault d) = VDEVLAB_FAULT_EIO then
       Some (Inl E_IO, if kf_repeat (kd_fault d) = 1 then vdevlab_clear_fault_locked d
              else d\<lparr>kd_fault := (kd_fault d)\<lparr>kf_repeat := kf_repeat (kd_fault d) - 1\<rparr>\<rparr>)
     else if kd_fifo d \<noteq> [] then
       (case read_copy count (kf_partial_read_bytes (kd_fault d)) d of (bs, d') \<Rightarrow> Some (Inr bs, d'))
     else if nb then Some (Inl E_AGAIN, d)
     else read_sleep nb False count (kf_type (kd_fault d) = VDEVLAB_FAULT_DELAY)
       (kf_partial_read_bytes (kd_fault d)) d ws)"
proof -
  have "kf_type (kd_fault d) \<le> 4" "wf_config (kd_fault d)"
    using assms by (auto simp: wf_device_def wf_config_def fault_types)
  then have "kf_type (kd_fault d) \<in> {0, 1, 2, 3, 4}"
    by (auto simp: word_le_nat_alt word_unat_eq_iff)
  then consider "kf_type (kd_fault d) = VDEVLAB_FAULT_NONE" | "kf_type (kd_fault d) = VDEVLAB_FAULT_EIO"
    | "kf_type (kd_fault d) = VDEVLAB_FAULT_DELAY" | "kf_type (kd_fault d) = VDEVLAB_FAULT_DISCONNECT"
    | "kf_type (kd_fault d) = VDEVLAB_FAULT_PARTIAL_READ"
    by (auto simp: fault_types)
  then show ?thesis
    using assms \<open>wf_config (kd_fault d)\<close>
    by cases (auto simp: vdevlab_read_def vdevlab_read_loop.simps [of _ _ _ _ _ d]
        vdevlab_apply_read_fault_def Let_def vdevlab_is_disconnected_def wf_config_def
        vdevlab_clear_fault_locked_def)
qed

text \<open>A reader that reads \<open>k\<close> times, whatever the results\<close>

primrec read_times :: "bool \<Rightarrow> nat \<Rightarrow> nat \<Rightarrow> vdevlab \<Rightarrow> (errno + byte list) list \<times> vdevlab" where
  "read_times nb count 0 d = ([], d)"
| "read_times nb count (Suc k) d =
     (case vdevlab_read nb False count d [] of
        None \<Rightarrow> ([], d)
      | Some (r, d1) \<Rightarrow> (case read_times nb count k d1 of (rs, d2) \<Rightarrow> (r # rs, d2)))"

lemma eio_read_times:
  assumes "0 < count"
  shows "wf_device d \<Longrightarrow> kf_type (kd_fault d) = VDEVLAB_FAULT_EIO \<Longrightarrow> k \<le> unat (kf_repeat (kd_fault d)) \<Longrightarrow>
    read_times nb count k d =
      (replicate k (Inl E_IO),
       if k = unat (kf_repeat (kd_fault d)) then d\<lparr>kd_fault := no_fault\<rparr>
       else d\<lparr>kd_fault := (kd_fault d)\<lparr>kf_repeat := kf_repeat (kd_fault d) - of_nat k\<rparr>\<rparr>)"
proof (induction k arbitrary: d)
  case 0
  then show ?case by (auto simp: wf_device_def wf_config_def unat_eq_zero)
next
  case (Suc k)
  let ?r = "kf_repeat (kd_fault d)"
  have r: "?r \<noteq> 0" using Suc.prems by auto
  show ?case
  proof (cases "?r = 1")
    case True
    with Suc.prems assms show ?thesis
      by (simp add: read_cases vdevlab_is_disconnected_def vdevlab_clear_fault_locked_def)
  next
    case False
    let ?d1 = "d\<lparr>kd_fault := (kd_fault d)\<lparr>kf_repeat := ?r - 1\<rparr>\<rparr>"
    have u: "unat (?r - 1) = unat ?r - 1" "?r - 1 \<noteq> 0" using r False by (simp_all add: unat_minus_one)
    have "wf_device ?d1"
      using Suc.prems u by (simp add: wf_device_def wf_config_eio_decr)
    moreover have "vdevlab_read nb False count d [] = Some (Inl E_IO, ?d1)"
      using Suc.prems assms False by (simp add: read_cases vdevlab_is_disconnected_def)
    ultimately show ?thesis
      using Suc.IH [of ?d1] Suc.prems u r by (auto simp: algebra_simps)
  qed
qed

lemma poll_mask:
  "vdevlab_poll d AND (EPOLLIN OR EPOLLERR) \<noteq> 0 \<longleftrightarrow> kd_fifo d \<noteq> [] \<or> vdevlab_fault_interrupts_read d"
  by (simp add: vdevlab_poll_def vdevlab_fault_interrupts_read_def poll_bits)

section \<open>Properties\<close>

text \<open>
  C14. The wire format: the request numbers of the runner are those of the kernel interface, and the
  runner packs four values, in either byte order, into a structure of the size encoded in the request
  number from which the kernel reads back exactly these values, if and only if each fits in 32 bits.
\<close>

theorem fault_struct_agrees:
  "word_of_int VDEVLAB_IOC_SET_FAULT = KERNEL_IOC_SET_FAULT \<and>
   word_of_int VDEVLAB_IOC_CLEAR_FAULT = KERNEL_IOC_CLEAR_FAULT \<and>
   word_of_int VDEVLAB_IOC_RESET = KERNEL_IOC_RESET \<and>
   ((\<exists>bs. FAULT_STRUCT_pack order a b c d = Inr bs \<and> int (length bs) = FAULT_STRUCT_size \<and>
      config_from_user order (Some bs) = Some \<lparr>kf_type = word_of_int a, kf_repeat = word_of_int b,
        kf_delay_ms = word_of_int c, kf_partial_read_bytes = word_of_int d\<rparr>) \<longleftrightarrow>
    {a, b, c, d} \<subseteq> {0..<2 ^ 32})"
  by (simp add: request_numbers FAULT_STRUCT_pack_Inr_iff config_roundtrip)
    (auto simp: config_bytes_def FAULT_STRUCT_size_def)

text \<open>
  C15. Every device that any interleaving of tasks can reach from module initialisation has a valid
  fault configuration, with only the field of its type set and within its limit, and at most 4096
  buffered bytes.
\<close>

theorem device_reachable_wf:
  assumes "device_step\<^sup>*\<^sup>* vdevlab_init d"
  shows "wf_device d"
  using assms by (rule device.inv_reachable)

theorem device_reachable_wf_witness: "wf_device (vdevlab_init\<lparr>kd_fifo := [65]\<rparr>)"
proof (rule device_reachable_wf)
  have "vdevlab_write False [65] vdevlab_init [] = Some (Inr 1, vdevlab_init\<lparr>kd_fifo := [65]\<rparr>)"
    by (simp add: vdevlab_write_def vdevlab_init_def no_fault_def vdevlab_is_disconnected_def kfifo_is_full_def
        VDEVLAB_FIFO_SIZE_def write_copy_def)
  then show "device_step\<^sup>*\<^sup>* vdevlab_init (vdevlab_init\<lparr>kd_fifo := [65]\<rparr>)"
    by (blast intro: step_write)
qed

text \<open>
  An \<open>EIO\<close> fault with repeat count \<open>n\<close> fails exactly the next \<open>n\<close> reads: after \<open>k \<le> n\<close> reads all
  of them have returned \<open>EIO\<close>, nothing has been consumed from the FIFO, the counter has dropped by \<open>k\<close>,
  and after the \<open>n\<close>th the fault is cleared.
\<close>

theorem eio_fault_exact:
  assumes "wf_device d" and "kf_type (kd_fault d) = VDEVLAB_FAULT_EIO"
    and "k \<le> unat (kf_repeat (kd_fault d))" and "0 < count"
  shows "read_times nb count k d =
    (replicate k (Inl E_IO),
     if k = unat (kf_repeat (kd_fault d)) then d\<lparr>kd_fault := no_fault\<rparr>
     else d\<lparr>kd_fault := (kd_fault d)\<lparr>kf_repeat := kf_repeat (kd_fault d) - of_nat k\<rparr>\<rparr>)"
  using assms by (blast intro: eio_read_times)

definition eio_device :: vdevlab where
  "eio_device = vdevlab_init\<lparr>kd_fault := no_fault\<lparr>kf_type := VDEVLAB_FAULT_EIO, kf_repeat := 3\<rparr>\<rparr>"

theorem eio_fault_exact_witness:
  "read_times False 16 3 eio_device = (replicate 3 (Inl E_IO), vdevlab_init)"
proof -
  have "wf_device eio_device"
    by (simp add: eio_device_def vdevlab_init_def no_fault_def wf_device_def wf_config_def fault_limits fault_types)
  then have "read_times False 16 3 eio_device =
      (replicate 3 (Inl E_IO),
       if 3 = unat (kf_repeat (kd_fault eio_device)) then eio_device\<lparr>kd_fault := no_fault\<rparr>
       else eio_device\<lparr>kd_fault := (kd_fault eio_device)\<lparr>kf_repeat := kf_repeat (kd_fault eio_device) - of_nat 3\<rparr>\<rparr>)"
    by (rule eio_fault_exact) (simp_all add: eio_device_def)
  then show ?thesis by (simp add: eio_device_def vdevlab_init_def)
qed

text \<open>
  \<open>poll\<close> and \<open>read\<close> agree: a non-blocking read of a reachable device makes no progress exactly when
  \<open>poll\<close> reports neither readable data nor an error condition.
\<close>

theorem poll_read_agree:
  assumes "wf_device d" and "0 < count"
  shows "vdevlab_read True False count d [] = Some (Inl E_AGAIN, d) \<longleftrightarrow>
    vdevlab_poll d AND (EPOLLIN OR EPOLLERR) = 0"
  using assms poll_mask [of d]
  by (auto simp: read_cases vdevlab_is_disconnected_def vdevlab_fault_interrupts_read_def split: prod.splits)

theorem poll_read_agree_witness:
  "vdevlab_read True False 1 vdevlab_init [] = Some (Inl E_AGAIN, vdevlab_init) \<longleftrightarrow>
    vdevlab_poll vdevlab_init AND (EPOLLIN OR EPOLLERR) = 0"
  by (rule poll_read_agree) (simp_all add: vdevlab_init_def wf_device_def)

end
