(* ===== verification/Scheduler.thy ===== *)
theory Scheduler
  imports Device_Backend Py_Float
begin

text \<open>
  \<open>ScenarioScheduler\<close> of \<open>src/vdevlab/runner.py\<close>: the clock and the sleeper are effects of the world,
  times are binary64 seconds, and the events are the mappings of a scenario definition.
\<close>

section \<open>Built-in conversions\<close>

text \<open>
  \<open>str\<close> of a value that is not a string, \<open>int\<close> of a string and the upper case of a character that is
  not ASCII are the interpreter's; the events of a validated scenario use none of them.
\<close>

record interpreter =
  ip_str :: "pyval \<Rightarrow> pystr"
  ip_int :: "pystr \<Rightarrow> pyexc + int"
  ip_upper :: "nat \<Rightarrow> pystr"

definition py_str :: "interpreter \<Rightarrow> pyval \<Rightarrow> pystr" where
  "py_str ip v = (case v of PStr s \<Rightarrow> s | _ \<Rightarrow> ip_str ip v)"

definition py_int :: "interpreter \<Rightarrow> pyval \<Rightarrow> pyexc + int" where
  "py_int ip v =
     (case v of
        PInt n \<Rightarrow> Inr n
      | PBool b \<Rightarrow> Inr (if b then 1 else 0)
      | PFloat f \<Rightarrow>
          (case f of
             FFin q \<Rightarrow> Inr (fl_int q)
           | FNegZero \<Rightarrow> Inr 0
           | FNaN \<Rightarrow> Inl (ValueError (lit ''cannot convert float NaN to integer''))
           | _ \<Rightarrow> Inl (OverflowError (lit ''cannot convert float infinity to integer'')))
      | PStr s \<Rightarrow> ip_int ip s
      | _ \<Rightarrow> Inl (TypeError (lit ''int() argument must be a string, a bytes-like object or a real number'')))"

definition py_upper :: "interpreter \<Rightarrow> pystr \<Rightarrow> pystr" where
  "py_upper ip s = concat (map (\<lambda>c. if 128 \<le> c then ip_upper ip c else if 97 \<le> c \<and> c \<le> 122 then [c - 32] else [c]) s)"

section \<open>Dispatch\<close>

record DispatchRecord =
  dr_index :: nat
  dr_action :: pystr
  dr_scheduled_ms :: int
  dr_started_ms :: rat
  dr_finished_ms :: rat
  dr_monotonic_started_ms :: rat
  dr_monotonic_finished_ms :: rat

definition scheduled_ms :: "pydict \<Rightarrow> nat \<Rightarrow> pyexc + int" where
  "scheduled_ms event index =
     (case dget event (lit ''at_ms'') of
        PInt n \<Rightarrow>
          if n < 0 then Inl (RunnerError (lit ''event '' @ str_nat index @ lit '' has an invalid at_ms value''))
          else Inr n
      | _ \<Rightarrow> Inl (RunnerError (lit ''event '' @ str_nat index @ lit '' has an invalid at_ms value'')))"

text \<open>\<open>FaultConfiguration(fault_type=...)\<close> with the defaults of its other fields\<close>

definition fault_defaults :: "pystr \<Rightarrow> FaultConfiguration" where
  "fault_defaults t = \<lparr>fc_fault_type = t, fc_repeat = 0, fc_delay_ms = 0, fc_partial_read_bytes = 0\<rparr>"

definition fault_configuration :: "interpreter \<Rightarrow> pydict \<Rightarrow> pyexc + FaultConfiguration" where
  "fault_configuration ip event =
     (let fault_type = dget event (lit ''type'') in
      if fault_type = PStr (lit ''eio'') then
        rbind (dindex event (lit ''repeat'')) (\<lambda>v.
        rbind (py_int ip v) (\<lambda>n. Inr ((fault_defaults (lit ''eio''))\<lparr>fc_repeat := n\<rparr>)))
      else if fault_type = PStr (lit ''delay'') then
        rbind (dindex event (lit ''duration_ms'')) (\<lambda>v.
        rbind (py_int ip v) (\<lambda>n. Inr ((fault_defaults (lit ''delay''))\<lparr>fc_delay_ms := n\<rparr>)))
      else if fault_type = PStr (lit ''partial-read'') then
        rbind (dindex event (lit ''bytes'')) (\<lambda>v.
        rbind (py_int ip v) (\<lambda>n. Inr ((fault_defaults (lit ''partial-read''))\<lparr>fc_partial_read_bytes := n\<rparr>)))
      else if fault_type = PStr (lit ''disconnect'') then Inr (fault_defaults (lit ''disconnect''))
      else Inl (RunnerError (lit ''unsupported fault type: '' @ py_str ip fault_type)))"

definition dispatch :: "interpreter \<Rightarrow> 'w DeviceBackend \<Rightarrow> pydict \<Rightarrow> ('w, unit) io" where
  "dispatch ip backend event =
     (let action = dget event (lit ''action'') in
      if action = PStr (lit ''reset'') then db_reset backend
      else if action = PStr (lit ''clear'') then db_clear_fault backend
      else if action = PStr (lit ''write'') then
        (case dget event (lit ''data'') of
           PStr data \<Rightarrow> io_bind (io_lift (utf8_encode data)) (\<lambda>bs. db_write backend bs)
         | _ \<Rightarrow> io_raise (RunnerError (lit ''write event data must be a string'')))
      else if action = PStr (lit ''fault'') then
        io_bind (io_lift (fault_configuration ip event)) (\<lambda>configuration. db_set_fault backend configuration)
      else io_raise (RunnerError (lit ''unsupported event action: '' @ py_str ip action)))"

section \<open>The loop\<close>

record 'w timing =
  tm_clock :: "('w, rat) io"
  tm_sleeper :: "rat \<Rightarrow> ('w, unit) io"

text \<open>\<open>except Exception as error: raise EventDispatchError(...) from error\<close>\<close>

definition wrap_dispatch :: "nat \<Rightarrow> pystr \<Rightarrow> ('w, unit) io \<Rightarrow> ('w, unit) io" where
  "wrap_dispatch index action m =
     io_catch m (\<lambda>e. if is_Exception e then io_raise (EventDispatchError index action e) else io_raise e)"

definition event_action :: "interpreter \<Rightarrow> pydict \<Rightarrow> pystr" where
  "event_action ip event = py_str ip (dget_default event (lit ''action'') (PStr (lit ''<missing>'')))"

definition dispatch_record :: "rat \<Rightarrow> nat \<Rightarrow> pystr \<Rightarrow> int \<Rightarrow> rat \<Rightarrow> rat \<Rightarrow> DispatchRecord" where
  "dispatch_record origin index action scheduled started finished =
     \<lparr>dr_index = index, dr_action = action, dr_scheduled_ms = scheduled,
      dr_started_ms = fl_mul (fl_sub started origin) 1000,
      dr_finished_ms = fl_mul (fl_sub finished origin) 1000,
      dr_monotonic_started_ms = fl_mul started 1000,
      dr_monotonic_finished_ms = fl_mul finished 1000\<rparr>"

text \<open>One pass of the loop\<close>

definition run_event ::
  "interpreter \<Rightarrow> 'w timing \<Rightarrow> 'w DeviceBackend \<Rightarrow> rat \<Rightarrow> nat \<Rightarrow> pydict \<Rightarrow> ('w, DispatchRecord) io" where
  "run_event ip tm backend origin index event =
     io_bind (io_lift (scheduled_ms event index)) (\<lambda>scheduled.
     io_bind (io_lift (fl_truediv scheduled 1000)) (\<lambda>offset.
     io_bind (tm_clock tm) (\<lambda>now.
     let remaining = fl_sub (fl_add origin offset) now in
     io_bind (if 0 < remaining then tm_sleeper tm remaining else io_return ()) (\<lambda>_.
     io_bind (tm_clock tm) (\<lambda>started.
     let action = event_action ip event in
     io_bind (wrap_dispatch index action (dispatch ip backend event)) (\<lambda>_.
     io_bind (tm_clock tm) (\<lambda>finished.
     io_return (dispatch_record origin index action scheduled started finished))))))))"

fun run_events ::
  "interpreter \<Rightarrow> 'w timing \<Rightarrow> 'w DeviceBackend \<Rightarrow> rat \<Rightarrow> nat \<Rightarrow> pydict list \<Rightarrow> ('w, DispatchRecord list) io" where
  "run_events ip tm backend origin index [] = io_return []"
| "run_events ip tm backend origin index (event # events) =
     io_bind (run_event ip tm backend origin index event) (\<lambda>record.
     io_bind (run_events ip tm backend origin (Suc index) events) (\<lambda>records.
     io_return (record # records)))"

definition scheduler_run ::
  "interpreter \<Rightarrow> 'w timing \<Rightarrow> 'w DeviceBackend \<Rightarrow> pydict list \<Rightarrow> ('w, DispatchRecord list) io" where
  "scheduler_run ip tm backend events =
     io_bind (tm_clock tm) (\<lambda>origin. run_events ip tm backend origin 0 events)"

end
