(* ===== verification/Process.thy ===== *)
theory Process
  imports Py_Text Py_Float
begin

text \<open>
  \<open>ApplicationProcess\<close> of \<open>src/vdevlab/runner.py\<close>: the application under test, its output collector and
  its termination. The child process, the collector thread and the signals are operations of the
  world; the collector thread is either alive or has ended with what \<open>communicate\<close> gave it.
\<close>

section \<open>Data\<close>

record ApplicationResult =
  ar_command :: "pystr list"
  ar_exit_code :: int
  ar_stdout :: pystr
  ar_stderr :: pystr
  ar_timed_out :: bool
  ar_forced :: bool

datatype collector = Alive | Ended "pyexc + byte list \<times> byte list"

definition SIGKILL :: int where "SIGKILL = 9"
definition SIGTERM :: int where "SIGTERM = 15"

record 'o process_os =
  po_nt :: bool
  po_popen :: "pystr list \<Rightarrow> pystr option \<Rightarrow> ('o, int) io"
  po_start :: "('o, unit) io"
  po_poll :: "('o, int option) io"
  po_returncode :: "('o, int option) io"
  po_join :: "rat option \<Rightarrow> ('o, unit) io"
  po_collector :: "('o, collector) io"
  po_killpg :: "int \<Rightarrow> int \<Rightarrow> ('o, unit) io"
  po_kill :: "('o, unit) io"
  po_terminate :: "('o, unit) io"

record ApplicationProcess =
  pr_command :: "pystr list"
  pr_pid :: int

section \<open>Operations\<close>

text \<open>\<open>_timeout_seconds\<close>; \<open>PNone\<close> is no timeout.\<close>

definition timeout_seconds :: "pyval \<Rightarrow> pystr \<Rightarrow> pyexc + rat option" where
  "timeout_seconds value name =
     (case value of
        PNone \<Rightarrow> Inr None
      | PInt n \<Rightarrow>
          if n \<le> 0 then Inl (RunnerError (name @ lit '' must be a positive integer''))
          else rbind (fl_truediv n 1000) (\<lambda>s. Inr (Some s))
      | _ \<Rightarrow> Inl (RunnerError (name @ lit '' must be a positive integer'')))"

text \<open>\<open>__init__\<close>: the process is started in a session of its own and the collector thread with it.\<close>

definition process_init :: "'o process_os \<Rightarrow> pystr list \<Rightarrow> pystr option \<Rightarrow> ('o, ApplicationProcess) io" where
  "process_init os command cwd =
     (if command = [] \<or> [] \<in> set command
      then io_raise (RunnerError (lit ''application command must contain non-empty strings''))
      else
        io_bind (po_popen os command cwd) (\<lambda>pid.
        io_bind (po_start os) (\<lambda>_.
        io_return \<lparr>pr_command = command, pr_pid = pid\<rparr>)))"

definition process_pid :: "ApplicationProcess \<Rightarrow> int" where
  [simp]: "process_pid self = pr_pid self"

text \<open>\<open>_collect_output\<close>: what the thread leaves in \<open>_output\<close> and \<open>_collector_error\<close>\<close>

definition collect_output :: "collector \<Rightarrow> (byte list \<times> byte list) option \<times> pyexc option" where
  "collect_output c =
     (case c of
        Alive \<Rightarrow> (None, None)
      | Ended (Inr out) \<Rightarrow> (Some out, None)
      | Ended (Inl e) \<Rightarrow> (None, Some e))"

definition process_result :: "'o process_os \<Rightarrow> ApplicationProcess \<Rightarrow> ('o, ApplicationResult) io" where
  "process_result os self =
     io_bind (po_collector os) (\<lambda>c.
     io_bind (po_returncode os) (\<lambda>returncode.
     case collect_output c of
       (_, Some _) \<Rightarrow> io_raise (RunnerError (lit ''failed to collect application output''))
     | (output, None) \<Rightarrow>
         (case (output, returncode) of
            (Some (stdout, stderr), Some code) \<Rightarrow>
              io_return \<lparr>ar_command = pr_command self, ar_exit_code = code,
                         ar_stdout = utf8_decode_replace stdout, ar_stderr = utf8_decode_replace stderr,
                         ar_timed_out = False, ar_forced = False\<rparr>
          | _ \<Rightarrow> io_raise (RunnerError (lit ''application output collector ended without a result'')))))"

definition process_is_alive :: "'o process_os \<Rightarrow> ('o, bool) io" where
  "process_is_alive os = io_bind (po_collector os) (\<lambda>c. io_return (c = Alive))"

definition process_collect :: "'o process_os \<Rightarrow> ApplicationProcess \<Rightarrow> pyval \<Rightarrow> ('o, ApplicationResult) io" where
  "process_collect os self timeout_ms =
     io_bind (io_lift (timeout_seconds timeout_ms (lit ''timeout_ms''))) (\<lambda>seconds.
     io_bind (po_join os seconds) (\<lambda>_.
     io_bind (process_is_alive os) (\<lambda>alive.
     if alive then
       (case timeout_ms of
          PInt n \<Rightarrow> io_raise (ApplicationTimeoutError (pr_command self) n)
        | _ \<Rightarrow> io_raise AssertionError)
     else process_result os self)))"

definition signal_group :: "'o process_os \<Rightarrow> ApplicationProcess \<Rightarrow> bool \<Rightarrow> ('o, unit) io" where
  "signal_group os self force =
     io_catch
       (if po_nt os then (if force then po_kill os else po_terminate os)
        else po_killpg os (process_pid self) (if force then SIGKILL else SIGTERM))
       (\<lambda>e. if e = ProcessLookupError then io_return () else io_raise e)"

definition process_terminate :: "'o process_os \<Rightarrow> ApplicationProcess \<Rightarrow> pyval \<Rightarrow> ('o, ApplicationResult) io" where
  "process_terminate os self grace_ms =
     io_bind (io_lift (timeout_seconds grace_ms (lit ''grace_ms''))) (\<lambda>grace_seconds.
     io_bind (po_poll os) (\<lambda>status.
     if status \<noteq> None then process_collect os self PNone
     else
       io_bind (signal_group os self False) (\<lambda>_.
       io_bind (po_join os grace_seconds) (\<lambda>_.
       io_bind (process_is_alive os) (\<lambda>forced.
       io_bind (if forced then signal_group os self True else io_return ()) (\<lambda>_.
       io_bind (process_collect os self PNone) (\<lambda>result.
       io_return (result\<lparr>ar_forced := forced\<rparr>))))))))"

definition is_timeout :: "pyexc \<Rightarrow> bool" where
  "is_timeout e = (case e of ApplicationTimeoutError _ _ \<Rightarrow> True | _ \<Rightarrow> False)"

definition collect_with_timeout ::
  "'o process_os \<Rightarrow> ApplicationProcess \<Rightarrow> pyval \<Rightarrow> pyval \<Rightarrow> ('o, ApplicationResult) io" where
  "collect_with_timeout os self timeout_ms terminate_grace_ms =
     io_catch (process_collect os self timeout_ms)
       (\<lambda>e. if is_timeout e
            then io_bind (process_terminate os self terminate_grace_ms) (\<lambda>result. io_return (result\<lparr>ar_timed_out := True\<rparr>))
            else io_raise e)"

section \<open>The interface to the runner\<close>

record 'w Application =
  ap_poll :: "('w, int option) io"
  ap_terminate :: "pyval \<Rightarrow> ('w, ApplicationResult) io"
  ap_collect_with_timeout :: "pyval \<Rightarrow> pyval \<Rightarrow> ('w, ApplicationResult) io"

definition process_application :: "'o process_os \<Rightarrow> ApplicationProcess \<Rightarrow> 'o Application" where
  "process_application os self =
     \<lparr>ap_poll = po_poll os, ap_terminate = process_terminate os self,
      ap_collect_with_timeout = collect_with_timeout os self\<rparr>"

end
