(* ===== verification/Machine.thy ===== *)
theory Machine
  imports Kernel_Props Scheduler Process
begin

text \<open>
  A machine for the runner: the kernel device behind a file descriptor, a clock, and a child process
  that ends at a given time, on a signal, or never. It is the provider on which the interfaces of the
  backend, the scheduler, the process and the runner are interpreted. Something reads the device: a
  write that sleeps on a full FIFO is woken once the reader has made room. A wait without a timeout
  for a process that never ends does not return; it raises a pseudo exception.
\<close>

section \<open>System calls\<close>

text \<open>
  The child process: when it ends by itself, its output and exit code, and whether \<open>SIGTERM\<close> ends it.
\<close>

record child =
  ch_ends :: "rat option"
  ch_output :: "byte list \<times> byte list"
  ch_code :: int
  ch_obeys :: bool
  ch_status :: "int option"

text \<open>
  The reader, for the \<open>i\<close>-th sleep of a write: how many bytes it takes beyond the one that makes room, and
  the time until the write is woken. The machine records what it has taken.
\<close>

record machine =
  mc_device :: vdevlab
  mc_time :: rat
  mc_child :: child
  mc_reader :: "nat \<Rightarrow> nat \<times> rat"
  mc_sleeps :: nat
  mc_taken :: "byte list"

definition os_error :: "errno \<Rightarrow> pyexc" where
  "os_error e =
     (case e of
        E_IO \<Rightarrow> OSError (lit ''OSError'') (Some (lit ''Input/output error'')) (lit ''[Errno 5] Input/output error'')
      | E_AGAIN \<Rightarrow> OSError (lit ''BlockingIOError'') (Some (lit ''Resource temporarily unavailable''))
          (lit ''[Errno 11] Resource temporarily unavailable'')
      | E_FAULT \<Rightarrow> OSError (lit ''OSError'') (Some (lit ''Bad address'')) (lit ''[Errno 14] Bad address'')
      | E_NODEV \<Rightarrow> OSError (lit ''OSError'') (Some (lit ''No such device'')) (lit ''[Errno 19] No such device'')
      | E_INVAL \<Rightarrow> OSError (lit ''OSError'') (Some (lit ''Invalid argument'')) (lit ''[Errno 22] Invalid argument'')
      | E_NOTTY \<Rightarrow> OSError (lit ''OSError'') (Some (lit ''Inappropriate ioctl for device''))
          (lit ''[Errno 25] Inappropriate ioctl for device'')
      | E_INTR \<Rightarrow> InterruptedError
      | E_RESTARTSYS \<Rightarrow> InterruptedError)"

definition asleep :: pyexc where
  "asleep = OtherError (lit ''Asleep'') []"

text \<open>
  The device after a reader has got past the fault and made room for a write: an injected \<open>EIO\<close> is used up,
  the other faults stay.
\<close>

definition read_past :: "vdevlab_fault_config \<Rightarrow> vdevlab_fault_config" where
  "read_past f = (if kf_type f = VDEVLAB_FAULT_EIO then no_fault else f)"

definition room_bytes :: "nat \<Rightarrow> vdevlab \<Rightarrow> nat" where
  "room_bytes k d = k + (length (kd_fifo d) + 1 - VDEVLAB_FIFO_SIZE)"

definition make_room :: "nat \<Rightarrow> vdevlab \<Rightarrow> vdevlab" where
  "make_room k d = d\<lparr>kd_fifo := drop (room_bytes k d) (kd_fifo d), kd_fault := read_past (kd_fault d)\<rparr>"

definition machine_write :: "int \<Rightarrow> byte list \<Rightarrow> (machine, nat) io" where
  "machine_write fd bs m =
     (let d = mc_device m in
      case vdevlab_write False bs d [] of
        Some (r, d1) \<Rightarrow> (map_sum os_error id r, m\<lparr>mc_device := d1\<rparr>)
      | None \<Rightarrow>
          (case mc_reader m (mc_sleeps m) of
             (k, s) \<Rightarrow>
               case the (vdevlab_write False bs d [Others (make_room k d)]) of
                 (r, d1) \<Rightarrow>
                   (map_sum os_error id r,
                    m\<lparr>mc_device := d1, mc_time := mc_time m + max 0 s, mc_sleeps := Suc (mc_sleeps m),
                      mc_taken := mc_taken m @ take (room_bytes k d) (kd_fifo d)\<rparr>)))"

definition machine_ioctl :: "byteorder \<Rightarrow> int \<Rightarrow> int \<Rightarrow> byte list option \<Rightarrow> (machine, unit) io" where
  "machine_ioctl order fd request arg m =
     (case vdevlab_ioctl order (word_of_int request) arg (mc_device m) of
        (Inl e, d) \<Rightarrow> (Inl (os_error e), m\<lparr>mc_device := d\<rparr>)
      | (Inr _, d) \<Rightarrow> (Inr (), m\<lparr>mc_device := d\<rparr>))"

definition machine_os :: "byteorder \<Rightarrow> machine device_os" where
  "machine_os order =
     \<lparr>do_has_ioctl = True, do_order = order, do_open = (\<lambda>_ _. io_return 3), do_close = (\<lambda>_. io_return ()),
      do_write = machine_write, do_ioctl = machine_ioctl order\<rparr>"

definition machine_timing :: "(LinuxDeviceBackend \<times> machine) timing" where
  "machine_timing =
     \<lparr>tm_clock = io_snd (\<lambda>m. (Inr (mc_time m), m)),
      tm_sleeper = (\<lambda>s. io_snd (\<lambda>m. (Inr (), m\<lparr>mc_time := mc_time m + max 0 s\<rparr>)))\<rparr>"

section \<open>The child process\<close>

definition child_exit :: "int \<Rightarrow> machine \<Rightarrow> machine" where
  "child_exit code m =
     (if ch_status (mc_child m) = None then m\<lparr>mc_child := (mc_child m)\<lparr>ch_status := Some code\<rparr>\<rparr> else m)"

text \<open>Time passes up to \<open>t\<close>; a process that ends by then has ended.\<close>

definition pass_until :: "rat \<Rightarrow> machine \<Rightarrow> machine" where
  "pass_until t m =
     (let m' = m\<lparr>mc_time := max (mc_time m) t\<rparr>
      in case ch_ends (mc_child m) of
           Some e \<Rightarrow> if e \<le> mc_time m' then child_exit (ch_code (mc_child m)) m' else m'
         | None \<Rightarrow> m')"

definition machine_join :: "rat option \<Rightarrow> (machine, unit) io" where
  "machine_join timeout m =
     (if ch_status (mc_child m) \<noteq> None then (Inr (), m)
      else
        case timeout of
          None \<Rightarrow> (case ch_ends (mc_child m) of None \<Rightarrow> (Inl asleep, m) | Some e \<Rightarrow> (Inr (), pass_until e m))
        | Some s \<Rightarrow>
            (case ch_ends (mc_child m) of
               None \<Rightarrow> (Inr (), pass_until (mc_time m + s) m)
             | Some e \<Rightarrow> (Inr (), pass_until (min e (mc_time m + s)) m)))"

definition machine_killpg :: "int \<Rightarrow> int \<Rightarrow> (machine, unit) io" where
  "machine_killpg pid sig m =
     (if ch_status (mc_child m) \<noteq> None then (Inl ProcessLookupError, m)
      else if sig = SIGKILL \<or> sig = SIGTERM \<and> ch_obeys (mc_child m) then (Inr (), child_exit (- sig) m)
      else (Inr (), m))"

definition machine_collector :: "machine \<Rightarrow> collector" where
  "machine_collector m = (if ch_status (mc_child m) = None then Alive else Ended (Inr (ch_output (mc_child m))))"

definition machine_process :: "machine process_os" where
  "machine_process =
     \<lparr>po_nt = False, po_popen = (\<lambda>_ _. io_return 1000), po_start = io_return (),
      po_poll = (\<lambda>m. (Inr (ch_status (mc_child m)), m)),
      po_returncode = (\<lambda>m. (Inr (ch_status (mc_child m)), m)),
      po_join = machine_join, po_collector = (\<lambda>m. (Inr (machine_collector m), m)),
      po_killpg = machine_killpg, po_kill = machine_killpg 1000 SIGKILL, po_terminate = machine_killpg 1000 SIGTERM\<rparr>"

section \<open>The file of the device\<close>

locale device_file =
  fixes os :: "'o device_os" and fd :: int and accepted :: "'o \<Rightarrow> byte list"
  assumes write_ok: "do_write os fd bs s = (Inr n, s') \<Longrightarrow> n \<le> length bs \<and> accepted s' = accepted s @ take n bs"
    and write_err: "do_write os fd bs s = (Inl e, s') \<Longrightarrow> accepted s' = accepted s"
begin

lemma write_once_cases:
  assumes "lb_fd b = Some fd" "write_once os bs (b, s) = (r, w')"
  shows "\<exists>s'. w' = (b, s') \<and>
    ((\<exists>n. r = Inr (Some n) \<and> do_write os fd bs s = (Inr n, s') \<and> n \<le> length bs \<and> accepted s' = accepted s @ take n bs) \<or>
     (\<exists>e. do_write os fd bs s = (Inl e, s') \<and> r = (if e = InterruptedError then Inr None else Inl e) \<and>
        accepted s' = accepted s))"
proof -
  obtain q s' where q: "do_write os fd bs s = (q, s')" by (cases "do_write os fd bs s")
  have fno: "linux_fileno (b, s) = (Inr fd, (b, s))"
    using assms(1) by (simp add: linux_fileno_def io_bind_def io_self_def io_return_def)
  show ?thesis
  proof (cases q)
    case (Inl e)
    with assms(2) q fno write_err [of bs s e s'] show ?thesis
      by (auto simp: write_once_def io_catch_def io_bind_def io_snd_def io_raise_def io_return_def)
  next
    case (Inr n)
    with assms(2) q fno write_ok [of bs s n s'] show ?thesis
      by (auto simp: write_once_def io_catch_def io_bind_def io_snd_def io_return_def)
  qed
qed

lemma write_loop_step:
  assumes "lb_fd b = Some fd"
  shows "linux_write_loop os (Suc fuel) (c # bs) (b, s) =
    (case do_write os fd (c # bs) s of
       (Inl e, s') \<Rightarrow> if e = InterruptedError then linux_write_loop os fuel (c # bs) (b, s') else (Inl e, (b, s'))
     | (Inr n, s') \<Rightarrow> if n = 0 then (Inl no_progress, (b, s')) else linux_write_loop os fuel (drop n (c # bs)) (b, s'))"
proof -
  obtain r w' where r: "write_once os (c # bs) (b, s) = (r, w')" by (cases "write_once os (c # bs) (b, s)")
  from write_once_cases [OF assms r] r show ?thesis
    by (auto simp: io_bind_def io_raise_def)
qed

end

text \<open>
  A file whose writes are interrupted by finitely many signals. It may accept any part of the data, none
  of it, or raise.
\<close>

locale signalled_file = device_file +
  fixes interrupts :: "'a \<Rightarrow> nat"
  assumes interrupted: "do_write os fd bs s = (Inl InterruptedError, s') \<Longrightarrow> interrupts s' < interrupts s"
    and uninterrupted: "do_write os fd bs s = (r, s') \<Longrightarrow> interrupts s' \<le> interrupts s"
begin

text \<open>How the loop ends: with all the data, or with the first call that accepts nothing or raises\<close>

definition ends :: "byte list \<Rightarrow> 'a \<Rightarrow> nat \<Rightarrow> pyexc + unit \<Rightarrow> 'a \<Rightarrow> bool" where
  "ends bs s k r s' \<longleftrightarrow> accepted s' = accepted s @ take k bs \<and>
     (r = Inr () \<and> k = length bs \<or>
      k < length bs \<and> (\<exists>s1. accepted s1 = accepted s' \<and>
        (do_write os fd (drop k bs) s1 = (Inr 0, s') \<and> r = Inl no_progress \<or>
         (\<exists>e. e \<noteq> InterruptedError \<and> do_write os fd (drop k bs) s1 = (Inl e, s') \<and> r = Inl e))))"

lemma ends_after: "ends (drop n bs) s1 k r s' \<Longrightarrow> accepted s1 = accepted s @ take n bs \<Longrightarrow> n \<le> length bs \<Longrightarrow> ends bs s (n + k) r s'"
  using take_add [of n k bs] by (auto simp: ends_def add.commute [of n k])

lemma write_loop_ends:
  "lb_fd b = Some fd \<Longrightarrow> length bs + interrupts s \<le> fuel \<Longrightarrow>
     \<exists>r s' k. linux_write_loop os fuel bs (b, s) = (r, (b, s')) \<and> ends bs s k r s'"
proof (induction fuel arbitrary: bs s)
  case 0
  then show ?case by (auto simp: io_return_def ends_def)
next
  case (Suc fuel)
  show ?case
  proof (cases bs)
    case Nil
    then show ?thesis by (auto simp: io_return_def ends_def)
  next
    case (Cons c cs)
    obtain q s1 where q: "do_write os fd bs s = (q, s1)" by (cases "do_write os fd bs s")
    note step = write_loop_step [OF Suc.prems(1), of fuel c cs s, folded Cons, unfolded q]
    show ?thesis
    proof (cases q)
      case (Inl e)
      then have acc: "accepted s1 = accepted s" using q write_err by blast
      show ?thesis
      proof (cases "e = InterruptedError")
        case True
        with Inl q interrupted Suc.prems(2) have "length bs + interrupts s1 \<le> fuel" by fastforce
        from Suc.IH [OF Suc.prems(1) this] step Inl True acc show ?thesis by (auto simp: ends_def)
      next
        case False
        with step Inl q acc Cons show ?thesis by (fastforce simp: ends_def intro: exI [of _ 0])
      qed
    next
      case (Inr n)
      then have n: "n \<le> length bs" "accepted s1 = accepted s @ take n bs" using q write_ok by blast+
      show ?thesis
      proof (cases "n = 0")
        case True
        with step Inr q n Cons show ?thesis by (fastforce simp: ends_def intro: exI [of _ 0])
      next
        case False
        with Suc.prems(2) uninterrupted [OF q] n Cons have "length (drop n bs) + interrupts s1 \<le> fuel" by simp
        from Suc.IH [OF Suc.prems(1) this] step Inr False n show ?thesis by (auto intro: ends_after)
      qed
    qed
  qed
qed

end

section \<open>The device as a file\<close>

lemma room_full: "kfifo_is_full d \<Longrightarrow> \<not> kfifo_is_full (make_room k d)" "kfifo_is_full d \<Longrightarrow> 0 < room_bytes k d"
  by (auto simp: kfifo_is_full_def make_room_def room_bytes_def VDEVLAB_FIFO_SIZE_def)

lemma room_disconnected [simp]: "vdevlab_is_disconnected (make_room k d) \<longleftrightarrow> vdevlab_is_disconnected d"
  by (auto simp: vdevlab_is_disconnected_def make_room_def read_past_def no_fault_def fault_types)

lemma machine_write_cases:
  assumes "bs \<noteq> []"
  shows "do_write (machine_os order) fd bs m =
    (let d = mc_device m in
     if vdevlab_is_disconnected d then (Inl (os_error E_NODEV), m)
     else if kfifo_is_full d then
       let k = fst (mc_reader m (mc_sleeps m)); n = fst (write_copy bs (make_room k d)) in
       (Inr n, m\<lparr>mc_device := snd (write_copy bs (make_room k d)),
          mc_time := mc_time m + max 0 (snd (mc_reader m (mc_sleeps m))), mc_sleeps := Suc (mc_sleeps m),
          mc_taken := mc_taken m @ take (room_bytes k d) (kd_fifo d)\<rparr>)
     else (Inr (fst (write_copy bs d)), m\<lparr>mc_device := snd (write_copy bs d)\<rparr>))"
  using assms room_full
  by (auto simp: machine_os_def machine_write_def vdevlab_write_def Let_def split: prod.splits)

interpretation machine_file: signalled_file "machine_os order" fd "\<lambda>m. mc_taken m @ kd_fifo (mc_device m)" "\<lambda>_. 0"
proof unfold_locales
  fix bs :: "byte list" and s s' :: machine and n :: nat and e :: pyexc
  have none: "do_write (machine_os order) fd [] s = (Inr 0, s)"
    by (simp add: machine_os_def machine_write_def vdevlab_write_def Let_def)
  show "n \<le> length bs \<and> mc_taken s' @ kd_fifo (mc_device s') = (mc_taken s @ kd_fifo (mc_device s)) @ take n bs"
    if "do_write (machine_os order) fd bs s = (Inr n, s')"
    using that none
    by (cases "bs = []") (auto simp: machine_write_cases write_copy_def make_room_def Let_def split: if_splits)
  show "mc_taken s' @ kd_fifo (mc_device s') = mc_taken s @ kd_fifo (mc_device s)"
    if "do_write (machine_os order) fd bs s = (Inl e, s')"
    using that none by (cases "bs = []") (auto simp: machine_write_cases Let_def split: if_splits)
  show "(0 :: nat) < 0" if "do_write (machine_os order) fd bs s = (Inl InterruptedError, s')"
    using that none by (cases "bs = []") (auto simp: machine_write_cases os_error_def Let_def split: if_splits)
qed simp

section \<open>What the reader does is done by reads\<close>

lemma read_times_append:
  "read_times nb count i d = (rs, d1) \<Longrightarrow> length rs = i \<Longrightarrow> read_times nb count j d1 = (rs', d2) \<Longrightarrow>
     read_times nb count (i + j) d = (rs @ rs', d2)"
  by (induction i arbitrary: d rs) (auto split: option.splits prod.splits)

lemma byte_reads:
  "wf_device d \<Longrightarrow> \<not> vdevlab_is_disconnected d \<Longrightarrow> kf_type (kd_fault d) \<noteq> VDEVLAB_FAULT_EIO \<Longrightarrow> n \<le> length (kd_fifo d) \<Longrightarrow>
     read_times nb 1 n d = (map (\<lambda>b. Inr [b]) (take n (kd_fifo d)), d\<lparr>kd_fifo := drop n (kd_fifo d)\<rparr>)"
proof (induction n arbitrary: d)
  case (Suc n)
  then obtain c cs where fifo: "kd_fifo d = c # cs" by (cases "kd_fifo d") auto
  let ?p = "kf_partial_read_bytes (kd_fault d)"
  have "?p \<noteq> 0 \<Longrightarrow> min 1 (unat ?p) = 1" by (simp add: Suc_le_eq unat_gt_0 min_def)
  then have "read_copy 1 ?p d = ([c], d\<lparr>kd_fifo := cs\<rparr>)" by (simp add: read_copy_def Let_def fifo)
  then have "vdevlab_read nb False 1 d [] = Some (Inr [c], d\<lparr>kd_fifo := cs\<rparr>)"
    using Suc.prems by (simp add: read_cases fifo)
  with Suc.IH [of "d\<lparr>kd_fifo := cs\<rparr>"] Suc.prems show ?case
    by (simp add: fifo wf_device_def vdevlab_is_disconnected_def)
qed simp

text \<open>
  The reader of the machine leaves the device as reads of one byte leave it, enough of them to get past the
  fault and take its bytes.
\<close>

theorem make_room_reads:
  assumes "wf_device d" "\<not> vdevlab_is_disconnected d"
  shows "\<exists>i rs. read_times False 1 i d = (rs, make_room k d) \<and>
    filter (\<lambda>r. r \<noteq> Inl E_IO) rs = map (\<lambda>b. Inr [b]) (take (room_bytes k d) (kd_fifo d))"
proof -
  let ?n = "min (room_bytes k d) (length (kd_fifo d))"
  let ?d = "d\<lparr>kd_fault := read_past (kd_fault d)\<rparr>"
  have len: "take ?n (kd_fifo d) = take (room_bytes k d) (kd_fifo d)" "drop ?n (kd_fifo d) = drop (room_bytes k d) (kd_fifo d)"
    by (simp_all add: min_def)
  have wf: "wf_device ?d" using assms(1) by (simp add: wf_device_def read_past_def)
  have "read_times False 1 ?n ?d = (map (\<lambda>b. Inr [b]) (take ?n (kd_fifo d)), ?d\<lparr>kd_fifo := drop ?n (kd_fifo d)\<rparr>)"
    using byte_reads [of ?d ?n False] assms wf
    by (auto simp: vdevlab_is_disconnected_def read_past_def no_fault_def fault_types)
  then have reads: "read_times False 1 ?n ?d = (map (\<lambda>b. Inr [b]) (take (room_bytes k d) (kd_fifo d)), make_room k d)"
    unfolding len by (simp add: make_room_def)
  show ?thesis
  proof (cases "kf_type (kd_fault d) = VDEVLAB_FAULT_EIO")
    case True
    let ?r = "unat (kf_repeat (kd_fault d))"
    from True assms(1) have "read_times False 1 ?r d = (replicate ?r (Inl E_IO), ?d)"
      by (simp add: eio_read_times read_past_def)
    from read_times_append [OF this _ reads] show ?thesis by fastforce
  next
    case False
    then have "?d = d" by (simp add: read_past_def)
    with reads show ?thesis by fastforce
  qed
qed

text \<open>Without a reader the write does not return: whatever else happens on the device, it sleeps while the FIFO is full.\<close>

theorem full_write_sleeps:
  assumes "bs \<noteq> []" "kfifo_is_full d" "\<not> vdevlab_is_disconnected d"
    and "\<forall>x \<in> set ws. \<exists>d'. x = Others d' \<and> kfifo_is_full d' \<and> \<not> vdevlab_is_disconnected d'"
  shows "vdevlab_write False bs d ws = None"
proof -
  have "write_sleep bs d ws = None" using assms(4) by (induction bs d ws rule: write_sleep.induct) auto
  with assms show ?thesis by (simp add: vdevlab_write_def)
qed

end
