(* ===== verification/Dispatch_Props.thy ===== *)
theory Dispatch_Props
  imports Machine Scenario_Spec
begin

text \<open>
  From the events of a validated scenario to the device: what each event does to the kernel device
  through the backend, and what the scheduler does with a whole list of events.
\<close>

section \<open>The specification of an event\<close>

text \<open>The device after an event, or \<open>None\<close> when it is refused or has to wait for a reader.\<close>

fun spec_action :: "action_spec \<Rightarrow> vdevlab \<Rightarrow> vdevlab option" where
  "spec_action ResetAct d = Some vdevlab_init"
| "spec_action ClearAct d = Some (d\<lparr>kd_fault := no_fault\<rparr>)"
| "spec_action (WriteAct payload) d =
     (case utf8_encode payload of
        Inl _ \<Rightarrow> None
      | Inr bs \<Rightarrow>
          if vdevlab_is_disconnected d \<or> VDEVLAB_FIFO_SIZE < length (kd_fifo d) + length bs then None
          else Some (d\<lparr>kd_fifo := kd_fifo d @ bs\<rparr>))"
| "spec_action (EioAct n) d =
     Some (d\<lparr>kd_fault := no_fault\<lparr>kf_type := VDEVLAB_FAULT_EIO, kf_repeat := word_of_int n\<rparr>\<rparr>)"
| "spec_action (DelayAct ms) d =
     (if 1 \<le> ms \<and> ms \<le> 10000
      then Some (d\<lparr>kd_fault := no_fault\<lparr>kf_type := VDEVLAB_FAULT_DELAY, kf_delay_ms := word_of_int ms\<rparr>\<rparr>)
      else None)"
| "spec_action (PartialReadAct n) d =
     Some (d\<lparr>kd_fault := no_fault\<lparr>kf_type := VDEVLAB_FAULT_PARTIAL_READ, kf_partial_read_bytes := word_of_int n\<rparr>\<rparr>)"
| "spec_action DisconnectAct d = Some (d\<lparr>kd_fault := no_fault\<lparr>kf_type := VDEVLAB_FAULT_DISCONNECT\<rparr>\<rparr>)"

text \<open>A write for which the FIFO has no room: the call sleeps until the device is read.\<close>

fun waits :: "action_spec \<Rightarrow> vdevlab \<Rightarrow> bool" where
  "waits (WriteAct payload) d =
     (case utf8_encode payload of
        Inl _ \<Rightarrow> False
      | Inr bs \<Rightarrow> \<not> vdevlab_is_disconnected d \<and> VDEVLAB_FIFO_SIZE < length (kd_fifo d) + length bs)"
| "waits _ d = False"

text \<open>
  An event on a device that is read: what has been taken from it, and the device, before and after. A write
  that waits ends with its data behind what was in the FIFO, of which the reader has taken a part, and
  the reader has got past the fault.
\<close>

definition acts :: "action_spec \<Rightarrow> byte list \<times> vdevlab \<Rightarrow> byte list \<times> vdevlab \<Rightarrow> bool" where
  "acts a x x' \<longleftrightarrow>
     (case spec_action a (snd x) of
        Some d \<Rightarrow> x' = (fst x, d)
      | None \<Rightarrow> waits a (snd x) \<and>
          (\<exists>payload bs taken. a = WriteAct payload \<and> utf8_encode payload = Inr bs \<and> taken \<noteq> [] \<and>
             fst x' = fst x @ taken \<and> taken @ kd_fifo (snd x') = kd_fifo (snd x) @ bs \<and>
             kd_fault (snd x') = read_past (kd_fault (snd x)) \<and> wf_device (snd x')))"

definition refuses :: "action_spec \<Rightarrow> vdevlab \<Rightarrow> bool" where
  "refuses a d \<longleftrightarrow> spec_action a d = None \<and> \<not> waits a d"

fun action_name :: "action_spec \<Rightarrow> pystr" where
  "action_name (WriteAct _) = lit ''write''"
| "action_name ClearAct = lit ''clear''"
| "action_name ResetAct = lit ''reset''"
| "action_name _ = lit ''fault''"

section \<open>Calls on the machine\<close>

lemma fileno_open: "lb_fd b = Some fd \<Longrightarrow> linux_fileno (b, m) = (Inr fd, (b, m))"
  by (simp add: linux_fileno_def io_bind_def io_self_def io_return_def)

lemma system_ioctl_machine:
  "lb_fd b = Some fd \<Longrightarrow> system_ioctl (machine_os order) request arg (b, m) =
     (case machine_ioctl order fd request arg m of (r, m') \<Rightarrow> (r, (b, m')))"
  by (simp add: system_ioctl_def io_bind_def fileno_open io_snd_def machine_os_def)

lemma reset_machine:
  "lb_fd b = Some fd \<Longrightarrow>
     linux_reset (machine_os order) (b, m) = (Inr (), (b, m\<lparr>mc_device := vdevlab_init\<rparr>))"
  by (simp add: linux_reset_def system_ioctl_machine machine_ioctl_def vdevlab_ioctl_def request_numbers
      requests_distinct [symmetric] vdevlab_clear_fault_locked_def vdevlab_init_def)

lemma clear_machine:
  "lb_fd b = Some fd \<Longrightarrow>
     linux_clear_fault (machine_os order) (b, m) =
       (Inr (), (b, m\<lparr>mc_device := (mc_device m)\<lparr>kd_fault := no_fault\<rparr>\<rparr>))"
  by (simp add: linux_clear_fault_def system_ioctl_machine machine_ioctl_def vdevlab_ioctl_def request_numbers
      requests_distinct [symmetric] vdevlab_clear_fault_locked_def)

lemma set_fault_machine:
  assumes "lb_fd b = Some fd" "map_of FAULT_TYPES t = Some ty"
    "0 \<le> ty" "ty < 2 ^ 32" "0 \<le> r" "r < 2 ^ 32" "0 \<le> dl" "dl < 2 ^ 32" "0 \<le> p" "p < 2 ^ 32"
  shows "linux_set_fault (machine_os order)
      \<lparr>fc_fault_type = t, fc_repeat = r, fc_delay_ms = dl, fc_partial_read_bytes = p\<rparr> (b, m) =
    (case normalise_config \<lparr>kf_type = word_of_int ty, kf_repeat = word_of_int r, kf_delay_ms = word_of_int dl,
            kf_partial_read_bytes = word_of_int p\<rparr> of
       Inl e \<Rightarrow> (Inl (os_error e), (b, m))
     | Inr c \<Rightarrow> (Inr (), (b, m\<lparr>mc_device := (mc_device m)\<lparr>kd_fault := c\<rparr>\<rparr>)))"
proof -
  let ?c = "\<lparr>kf_type = word_of_int ty, kf_repeat = word_of_int r, kf_delay_ms = word_of_int dl,
            kf_partial_read_bytes = word_of_int p\<rparr>"
  have "FAULT_STRUCT_pack order ty r dl p = Inr (config_bytes order ?c)"
    using assms by (simp add: FAULT_STRUCT_pack_Inr_iff)
  then show ?thesis
    using assms
    by (simp add: linux_set_fault_def io_bind_def io_lift_def machine_os_def [of order, THEN arg_cong, of do_order]
        system_ioctl_machine machine_ioctl_def vdevlab_ioctl_def request_numbers config_roundtrip split: sum.splits)
qed

text \<open>The bytes written to the machine, those taken by the reader first, and the time that may have passed\<close>

definition delivered_to :: "machine \<Rightarrow> byte list \<Rightarrow> machine \<Rightarrow> bool" where
  "delivered_to m bs m' \<longleftrightarrow> mc_time m \<le> mc_time m' \<and> wf_device (mc_device m') \<and>
     (\<exists>taken. mc_taken m' = mc_taken m @ taken \<and> taken @ kd_fifo (mc_device m') = kd_fifo (mc_device m) @ bs \<and>
        (if length (kd_fifo (mc_device m)) + length bs \<le> VDEVLAB_FIFO_SIZE
         then taken = [] \<and> kd_fault (mc_device m') = kd_fault (mc_device m) \<and> mc_time m' = mc_time m
         else taken \<noteq> [] \<and> kd_fault (mc_device m') = read_past (kd_fault (mc_device m))))"

lemma read_past_simps [simp]: "read_past (read_past f) = read_past f" "wf_config f \<Longrightarrow> wf_config (read_past f)"
  by (simp_all add: read_past_def)

text \<open>A step of the loop into a FIFO with room, and one that waits for the reader first\<close>

lemma delivered_room:
  assumes "\<not> kfifo_is_full (mc_device m)" "wf_device (mc_device m)" "n = fst (write_copy bs (mc_device m))" "bs \<noteq> []"
    and "delivered_to (m\<lparr>mc_device := snd (write_copy bs (mc_device m))\<rparr>) (drop n bs) m'"
  shows "delivered_to m bs m'"
proof -
  let ?fifo = "kd_fifo (mc_device m)"
  have n: "n = min (length bs) (VDEVLAB_FIFO_SIZE - length ?fifo)" "length ?fifo < VDEVLAB_FIFO_SIZE"
    using assms(1,3) by (auto simp: write_copy_def Let_def kfifo_is_full_def)
  have "length ?fifo + n + length (drop n bs) \<le> VDEVLAB_FIFO_SIZE \<longleftrightarrow> length ?fifo + length bs \<le> VDEVLAB_FIFO_SIZE"
    using n by (auto simp: min_def)
  with assms(3,5) show ?thesis by (auto simp: delivered_to_def write_copy_def Let_def min_def split: if_splits)
qed

lemma delivered_sleep:
  assumes "kfifo_is_full (mc_device m)" "wf_device (mc_device m)" "n = fst (write_copy bs (make_room k (mc_device m)))" "bs \<noteq> []"
    and "delivered_to (m\<lparr>mc_device := snd (write_copy bs (make_room k (mc_device m))), mc_time := mc_time m + max 0 s,
        mc_sleeps := i, mc_taken := mc_taken m @ take (room_bytes k (mc_device m)) (kd_fifo (mc_device m))\<rparr>) (drop n bs) m'"
  shows "delivered_to m bs m'"
proof -
  let ?d = "mc_device m"
  let ?t = "take (room_bytes k ?d) (kd_fifo ?d)"
  have "kd_fifo ?d \<noteq> []" "0 < length bs" using assms(1,4) by (auto simp: kfifo_is_full_def VDEVLAB_FIFO_SIZE_def)
  with room_full(2) [OF assms(1), of k] have t: "?t \<noteq> []" by simp
  have over: "\<not> length (kd_fifo ?d) + length bs \<le> VDEVLAB_FIFO_SIZE"
    using assms(1) \<open>0 < length bs\<close> unfolding kfifo_is_full_def by linarith
  from assms(5) obtain taken where
    "mc_time m \<le> mc_time m'" "wf_device (mc_device m')" "mc_taken m' = mc_taken m @ ?t @ taken"
    "taken @ kd_fifo (mc_device m') = (drop (room_bytes k ?d) (kd_fifo ?d) @ take n bs) @ drop n bs"
    "kd_fault (mc_device m') = read_past (kd_fault ?d)"
    using assms(3) by (auto simp: delivered_to_def write_copy_def Let_def make_room_def split: if_splits)
  moreover have "(?t @ taken) @ kd_fifo (mc_device m') = kd_fifo ?d @ bs" using calculation(4) by simp
  ultimately show ?thesis unfolding delivered_to_def using over t by auto
qed

lemma write_copy_wf: "wf_device d \<Longrightarrow> wf_device (snd (write_copy bs d))" "wf_device d \<Longrightarrow> wf_device (make_room k d)"
  by (auto simp: write_copy_def Let_def wf_device_def make_room_def)

lemma write_copy_disconnected [simp]: "vdevlab_is_disconnected (snd (write_copy bs d)) \<longleftrightarrow> vdevlab_is_disconnected d"
  by (simp add: write_copy_def Let_def vdevlab_is_disconnected_def)

lemma write_copy_progress: "\<not> kfifo_is_full d \<Longrightarrow> bs \<noteq> [] \<Longrightarrow> 0 < fst (write_copy bs d)"
  by (auto simp: write_copy_def Let_def kfifo_is_full_def)

lemma write_loop_machine:
  "lb_fd b = Some fd \<Longrightarrow> length bs \<le> fuel \<Longrightarrow> wf_device (mc_device m) \<Longrightarrow> \<not> vdevlab_is_disconnected (mc_device m) \<Longrightarrow>
     \<exists>m'. linux_write_loop (machine_os order) fuel bs (b, m) = (Inr (), (b, m')) \<and> delivered_to m bs m'"
proof (induction fuel arbitrary: bs m)
  case 0
  then show ?case by (auto simp: io_return_def delivered_to_def wf_device_def)
next
  case (Suc fuel)
  show ?case
  proof (cases bs)
    case Nil
    with Suc.prems show ?thesis by (auto simp: io_return_def delivered_to_def wf_device_def)
  next
    case (Cons c cs)
    then have bs: "bs \<noteq> []" by simp
    let ?d = "mc_device m" and ?k = "fst (mc_reader m (mc_sleeps m))" and ?s = "snd (mc_reader m (mc_sleeps m))"
    note step = machine_file.write_loop_step [OF Suc.prems(1), of order fuel c cs m, folded Cons, unfolded machine_write_cases [OF bs]]
    show ?thesis
    proof (cases "kfifo_is_full ?d")
      case False
      let ?n = "fst (write_copy bs ?d)" and ?m = "m\<lparr>mc_device := snd (write_copy bs ?d)\<rparr>"
      have "0 < ?n" using write_copy_progress [OF False bs] .
      then have "length (drop ?n bs) \<le> fuel" using Suc.prems(2) by simp
      with Suc.IH [of "drop ?n bs" ?m] Suc.prems obtain m' where
        "linux_write_loop (machine_os order) fuel (drop ?n bs) (b, ?m) = (Inr (), (b, m'))" "delivered_to ?m (drop ?n bs) m'"
        by (auto simp: write_copy_wf)
      with step False Suc.prems \<open>0 < ?n\<close> delivered_room [OF False Suc.prems(3) refl bs] show ?thesis by (simp add: Let_def)
    next
      case True
      let ?d1 = "make_room ?k ?d"
      let ?n = "fst (write_copy bs ?d1)"
      let ?m = "m\<lparr>mc_device := snd (write_copy bs ?d1), mc_time := mc_time m + max 0 ?s, mc_sleeps := Suc (mc_sleeps m),
          mc_taken := mc_taken m @ take (room_bytes ?k ?d) (kd_fifo ?d)\<rparr>"
      have "0 < ?n" using write_copy_progress [OF room_full(1) [OF True] bs] .
      then have "length (drop ?n bs) \<le> fuel" using Suc.prems(2) by simp
      with Suc.IH [of "drop ?n bs" ?m] Suc.prems obtain m' where
        "linux_write_loop (machine_os order) fuel (drop ?n bs) (b, ?m) = (Inr (), (b, m'))" "delivered_to ?m (drop ?n bs) m'"
        by (auto simp: write_copy_wf)
      with step True Suc.prems \<open>0 < ?n\<close> delivered_sleep [OF True Suc.prems(3) refl bs] show ?thesis by (simp add: Let_def)
    qed
  qed
qed

lemma write_machine_gone:
  assumes "lb_fd b = Some fd" "bs \<noteq> []" "length bs \<le> fuel" "vdevlab_is_disconnected (mc_device m)"
  shows "linux_write (machine_os order) fuel bs (b, m) = (Inl (os_error E_NODEV), (b, m))"
proof -
  obtain c cs f where bs: "bs = c # cs" and fuel: "fuel = Suc f" using assms by (cases bs; cases fuel) auto
  show ?thesis using assms machine_file.write_loop_step [OF assms(1), of order f c cs m]
    by (simp add: bs fuel linux_write_def machine_write_cases os_error_def)
qed

section \<open>One event\<close>

lemma uint_small: "0 \<le> n \<Longrightarrow> n < 2 ^ 32 \<Longrightarrow> uint (word_of_int n :: 32 word) = n"
  by (simp add: uint_word_of_int)

lemma small_word:
  "0 \<le> n \<Longrightarrow> n < 2 ^ 32 \<Longrightarrow> (word_of_int n :: 32 word) = 0 \<longleftrightarrow> n = 0"
  "0 \<le> n \<Longrightarrow> n < 2 ^ 32 \<Longrightarrow> numeral k < (word_of_int n :: 32 word) \<longleftrightarrow> uint (numeral k :: 32 word) < n"
  using uint_small [of n] by (auto simp: word_less_def word_uint_eq_iff)

definition fault_of :: "action_spec \<Rightarrow> FaultConfiguration option" where
  "fault_of a =
     (case a of
        EioAct n \<Rightarrow> Some ((fault_defaults (lit ''eio''))\<lparr>fc_repeat := n\<rparr>)
      | DelayAct ms \<Rightarrow> Some ((fault_defaults (lit ''delay''))\<lparr>fc_delay_ms := ms\<rparr>)
      | PartialReadAct n \<Rightarrow> Some ((fault_defaults (lit ''partial-read''))\<lparr>fc_partial_read_bytes := n\<rparr>)
      | DisconnectAct \<Rightarrow> Some (fault_defaults (lit ''disconnect''))
      | _ \<Rightarrow> None)"

lemma dispatch_norm_event:
  "dispatch ip backend (norm_event (t, a)) =
     (case a of
        ResetAct \<Rightarrow> db_reset backend
      | ClearAct \<Rightarrow> db_clear_fault backend
      | WriteAct payload \<Rightarrow> io_bind (io_lift (utf8_encode payload)) (db_write backend)
      | _ \<Rightarrow> db_set_fault backend (the (fault_of a)))"
  by (cases a) (simp_all add: dispatch_def norm_event_def fault_configuration_def Let_def lit_def dindex_def dhas_def
      dkeys_def py_int_def fault_of_def io_bind_def io_lift_def fault_defaults_def)

text \<open>The fuel of the write loop that an event needs: one unit for each byte\<close>

fun enough_fuel :: "nat \<Rightarrow> action_spec \<Rightarrow> bool" where
  "enough_fuel fuel (WriteAct payload) = (case utf8_encode payload of Inl _ \<Rightarrow> True | Inr bs \<Rightarrow> length bs \<le> fuel)"
| "enough_fuel fuel _ = True"

lemma utf8_encode_not_empty: "payload \<noteq> [] \<Longrightarrow> utf8_encode payload = Inr bs \<Longrightarrow> bs \<noteq> []"
  by (cases payload) (auto simp: utf8_encode_def utf8_char_def split: if_splits)

lemma fault_machine:
  assumes "lb_fd b = Some fd" "wf_action a" "fault_of a = Some c"
  shows "linux_set_fault (machine_os order) c (b, m) =
    (case spec_action a (mc_device m) of
       None \<Rightarrow> (Inl (os_error E_INVAL), (b, m))
     | Some d \<Rightarrow> (Inr (), (b, m\<lparr>mc_device := d\<rparr>)))"
  using assms
  by (cases a)
    (auto simp: fault_of_def fault_defaults_def set_fault_machine FAULT_TYPES_def lit_def normalise_config_def
      fault_types fault_limits small_word scenario_bounds no_fault_def not_less)

text \<open>What the machine shows of its device, and what an event must do to it\<close>

abbreviation device_view :: "machine \<Rightarrow> byte list \<times> vdevlab" where
  "device_view m \<equiv> (mc_taken m, mc_device m)"

definition dispatched :: "action_spec \<Rightarrow> machine \<Rightarrow> pyexc + unit \<Rightarrow> machine \<Rightarrow> bool" where
  "dispatched a m r m' \<longleftrightarrow>
     (if refuses a (mc_device m) then (\<exists>e. r = Inl e \<and> is_Exception e) \<and> m' = m
      else r = Inr () \<and> acts a (device_view m) (device_view m') \<and> mc_time m \<le> mc_time m' \<and>
        (\<not> waits a (mc_device m) \<longrightarrow> mc_time m' = mc_time m))"

lemma dispatch_write_machine:
  assumes "lb_fd b = Some fd" "payload \<noteq> []" "wf_device (mc_device m)" "enough_fuel fuel (WriteAct payload)"
  shows "\<exists>r m'. dispatch ip (linux_backend (machine_os order) fuel) (norm_event (t, WriteAct payload)) (b, m) = (r, (b, m')) \<and>
    dispatched (WriteAct payload) m r m'"
proof (cases "utf8_encode payload")
  case (Inl e)
  then show ?thesis
    by (auto simp: dispatch_norm_event linux_backend_def io_bind_def io_lift_def dispatched_def refuses_def utf8_encode_def
        split: if_splits)
next
  case (Inr bs)
  with assms have bs: "bs \<noteq> []" "length bs \<le> fuel" using utf8_encode_not_empty by auto
  have call: "dispatch ip (linux_backend (machine_os order) fuel) (norm_event (t, WriteAct payload)) (b, m) =
      linux_write (machine_os order) fuel bs (b, m)"
    by (simp add: dispatch_norm_event linux_backend_def io_bind_def io_lift_def Inr)
  show ?thesis
  proof (cases "vdevlab_is_disconnected (mc_device m)")
    case True
    then show ?thesis
      using write_machine_gone [OF assms(1) bs True] by (auto simp: call Inr dispatched_def refuses_def os_error_def)
  next
    case False
    from write_loop_machine [OF assms(1) bs(2) assms(3) False, of order] obtain m' where
      "linux_write (machine_os order) fuel bs (b, m) = (Inr (), (b, m'))" "delivered_to m bs m'" by (auto simp: linux_write_def)
    then show ?thesis unfolding call using False Inr
      by (cases "mc_device m'") (auto simp: dispatched_def refuses_def acts_def delivered_to_def split: if_splits)
  qed
qed

lemma dispatch_machine:
  assumes "lb_fd b = Some fd" "wf_action a" "wf_device (mc_device m)" "enough_fuel fuel a"
  shows "\<exists>r m'. dispatch ip (linux_backend (machine_os order) fuel) (norm_event (t, a)) (b, m) = (r, (b, m')) \<and>
    dispatched a m r m'"
proof (cases "fault_of a")
  case (Some c)
  then have w: "\<not> waits a (mc_device m)" and
    "dispatch ip (linux_backend (machine_os order) fuel) (norm_event (t, a)) (b, m) = linux_set_fault (machine_os order) c (b, m)"
    by (cases a; simp add: dispatch_norm_event linux_backend_def fault_of_def)+
  with fault_machine [OF assms(1,2) Some, of order m] show ?thesis
    by (cases "spec_action a (mc_device m)") (auto simp: dispatched_def refuses_def acts_def os_error_def)
next
  case None
  consider "a = ResetAct" | "a = ClearAct" | payload where "a = WriteAct payload"
    using None by (cases a) (auto simp: fault_of_def)
  then show ?thesis
  proof cases
    case (3 payload)
    with dispatch_write_machine [OF assms(1) _ assms(3), of payload fuel ip order t] assms(2,4) show ?thesis by simp
  qed (simp_all add: dispatch_norm_event linux_backend_def reset_machine [OF assms(1)] clear_machine [OF assms(1)]
      dispatched_def refuses_def acts_def)
qed

lemma wf_fault_words:
  "1 \<le> n \<Longrightarrow> n \<le> 1000000 \<Longrightarrow> wf_config (no_fault\<lparr>kf_type := VDEVLAB_FAULT_EIO, kf_repeat := word_of_int n\<rparr>)"
  "1 \<le> n \<Longrightarrow> n \<le> 10000 \<Longrightarrow> wf_config (no_fault\<lparr>kf_type := VDEVLAB_FAULT_DELAY, kf_delay_ms := word_of_int n\<rparr>)"
  "1 \<le> n \<Longrightarrow> n \<le> 4096 \<Longrightarrow>
     wf_config (no_fault\<lparr>kf_type := VDEVLAB_FAULT_PARTIAL_READ, kf_partial_read_bytes := word_of_int n\<rparr>)"
  "wf_config (no_fault\<lparr>kf_type := VDEVLAB_FAULT_DISCONNECT\<rparr>)"
  using uint_small [of n]
  by (simp_all add: wf_config_def no_fault_def fault_types fault_limits word_le_def word_uint_eq_iff)

lemma spec_action_wf:
  assumes "wf_action a" "wf_device d" "spec_action a d = Some d'"
  shows "wf_device d'"
proof (cases a)
  case (WriteAct payload)
  with assms show ?thesis by (auto simp: wf_device_def split: sum.splits if_splits)
next
  case ResetAct
  with assms show ?thesis by (auto simp: wf_device_def vdevlab_init_def)
qed (use assms in \<open>auto simp: wf_device_def wf_fault_words scenario_bounds split: if_splits\<close>)

lemma acts_wf: "acts a x x' \<Longrightarrow> wf_action a \<Longrightarrow> wf_device (snd x) \<Longrightarrow> wf_device (snd x')"
  by (auto simp: acts_def intro: spec_action_wf split: option.splits)

section \<open>A list of events\<close>

primrec act_list :: "action_spec list \<Rightarrow> byte list \<times> vdevlab \<Rightarrow> byte list \<times> vdevlab \<Rightarrow> bool" where
  "act_list [] x x' \<longleftrightarrow> x' = x"
| "act_list (a # as) x x' \<longleftrightarrow> (\<exists>y. \<not> refuses a (snd x) \<and> acts a x y \<and> act_list as y x')"

text \<open>
  The end of a list of events: all of them have been carried out and recorded, or those before the first
  that is refused, which is named with its position.
\<close>

definition events_end ::
  "nat \<Rightarrow> (int \<times> action_spec) list \<Rightarrow> byte list \<times> vdevlab \<Rightarrow> pyexc + DispatchRecord list \<Rightarrow> byte list \<times> vdevlab \<Rightarrow> bool" where
  "events_end i evs x r x' \<longleftrightarrow>
     (\<exists>recs. r = Inr recs \<and> map dr_index recs = [i..<i + length evs] \<and> map dr_scheduled_ms recs = map fst evs \<and>
        map dr_action recs = map (action_name \<circ> snd) evs \<and> act_list (map snd evs) x x') \<or>
     (\<exists>n e. n < length evs \<and> r = Inl (EventDispatchError (i + n) (action_name (snd (evs ! n))) e) \<and>
        act_list (map snd (take n evs)) x x' \<and> refuses (snd (evs ! n)) (snd x'))"

lemma events_end_Cons:
  assumes "\<not> refuses a (snd x)" "acts a x y" "events_end (Suc i) evs y r x'"
    and "dr_index rec = i" "dr_scheduled_ms rec = t" "dr_action rec = action_name a"
  shows "events_end i ((t, a) # evs) x (case r of Inl e \<Rightarrow> Inl e | Inr recs \<Rightarrow> Inr (rec # recs)) x'"
proof -
  from assms(3) consider
    (all) recs where "r = Inr recs" "map dr_index recs = [Suc i..<Suc i + length evs]" "map dr_scheduled_ms recs = map fst evs"
      "map dr_action recs = map (action_name \<circ> snd) evs" "act_list (map snd evs) y x'"
    | (stopped) n e where "n < length evs" "r = Inl (EventDispatchError (Suc i + n) (action_name (snd (evs ! n))) e)"
      "act_list (map snd (take n evs)) y x'" "refuses (snd (evs ! n)) (snd x')"
    unfolding events_end_def by blast
  then show ?thesis
  proof cases
    case all
    have "[i..<i + Suc (length evs)] = i # [Suc i..<Suc i + length evs]" by (simp add: upt_conv_Cons del: upt_Suc)
    then show ?thesis unfolding events_end_def
      using all assms by (intro disjI1 exI [of _ "rec # recs"]) (auto simp del: upt_Suc split_paired_Ex)
  next
    case stopped
    then show ?thesis unfolding events_end_def
      using assms by (intro disjI2 exI [of _ "Suc n"] exI [of _ e]) (auto simp del: split_paired_Ex)
  qed
qed

lemma fl_truediv_ms: "0 \<le> t \<Longrightarrow> t \<le> MAX_DURATION_MS \<Longrightarrow> fl_truediv t 1000 = Inr (rnd64 (of_int t / 1000))"
proof -
  assume t: "0 \<le> t" "t \<le> MAX_DURATION_MS"
  then have "of_int t / 1000 \<le> (86400 :: rat)" by (simp add: scenario_bounds)
  also have "\<dots> < pow2 17" by (simp add: pow2_def)
  also have "\<dots> \<le> pow2 1000" by (rule pow2_mono) simp
  finally show ?thesis using t fl_truediv_small [of t 1000] by simp
qed

text \<open>
  The interface between the scheduler and what it drives: every admitted event acts on the abstract
  state as specified or raises an exception, and neither the clock nor a sleep changes that state.
\<close>

locale event_target =
  fixes ip :: interpreter and tm :: "'w timing" and backend :: "'w DeviceBackend"
    and abs :: "'w \<Rightarrow> byte list \<times> vdevlab" and inv :: "'w \<Rightarrow> bool" and admits :: "action_spec \<Rightarrow> bool"
  assumes dispatch_spec: "inv w \<Longrightarrow> admits a \<Longrightarrow> \<exists>r w'. dispatch ip backend (norm_event (t, a)) w = (r, w') \<and>
      (if refuses a (snd (abs w)) then (\<exists>e. r = Inl e \<and> is_Exception e) \<and> abs w' = abs w
       else r = Inr () \<and> acts a (abs w) (abs w')) \<and> inv w'"
    and clock_spec: "inv w \<Longrightarrow> \<exists>t w'. tm_clock tm w = (Inr t, w') \<and> abs w' = abs w \<and> inv w'"
    and sleeper_spec: "inv w \<Longrightarrow> 0 < s \<Longrightarrow> \<exists>w'. tm_sleeper tm s w = (Inr (), w') \<and> abs w' = abs w \<and> inv w'"
begin

lemma run_event_spec:
  assumes "inv w" "admits a" "0 \<le> t" "t \<le> MAX_DURATION_MS"
  shows "\<exists>r w'. run_event ip tm backend origin i (norm_event (t, a)) w = (r, w') \<and> inv w' \<and>
    (if refuses a (snd (abs w)) then (\<exists>e. r = Inl (EventDispatchError i (action_name a) e)) \<and> abs w' = abs w
     else (\<exists>rec. r = Inr rec \<and> dr_index rec = i \<and> dr_action rec = action_name a \<and> dr_scheduled_ms rec = t) \<and>
       acts a (abs w) (abs w'))"
proof -
  have sched: "scheduled_ms (norm_event (t, a)) i = Inr t"
    using assms by (cases a) (simp_all add: scheduled_ms_def norm_event_def lit_def)
  have name: "event_action ip (norm_event (t, a)) = action_name a"
    by (cases a) (simp_all add: event_action_def norm_event_def dget_default_def dhas_def dkeys_def py_str_def lit_def)
  obtain off where off: "fl_truediv t 1000 = Inr off" using fl_truediv_ms [OF assms(3,4)] by blast
  obtain now w1 where w1: "tm_clock tm w = (Inr now, w1)" "abs w1 = abs w" "inv w1" using clock_spec [OF assms(1)] by blast
  let ?rem = "fl_sub (fl_add origin off) now"
  obtain w2 where w2: "(if 0 < ?rem then tm_sleeper tm ?rem else io_return ()) w1 = (Inr (), w2)" "abs w2 = abs w" "inv w2"
    using sleeper_spec [OF w1(3), of ?rem] w1 by (cases "0 < ?rem") (auto simp: io_return_def)
  obtain st w3 where w3: "tm_clock tm w2 = (Inr st, w3)" "abs w3 = abs w" "inv w3" using clock_spec [OF w2(3)] w2 by auto
  obtain r w4 where r: "dispatch ip backend (norm_event (t, a)) w3 = (r, w4)" "inv w4"
    and spec: "if refuses a (snd (abs w)) then (\<exists>e. r = Inl e \<and> is_Exception e) \<and> abs w4 = abs w
       else r = Inr () \<and> acts a (abs w) (abs w4)"
    using dispatch_spec [OF w3(3) assms(2), of t] unfolding w3(2) by blast
  note eval = run_event_def io_lift_def sched off w1(1) w2(1) w3(1) name Let_def wrap_dispatch_def
  show ?thesis
  proof (cases "refuses a (snd (abs w))")
    case True
    then obtain e where "r = Inl e" "is_Exception e" "abs w4 = abs w" using spec by auto
    with True r show ?thesis by (simp add: eval io_bind_def io_catch_def io_raise_def)
  next
    case False
    then have ok: "r = Inr ()" "acts a (abs w) (abs w4)" using spec by auto
    obtain fin w5 where "tm_clock tm w4 = (Inr fin, w5)" "abs w5 = abs w4" "inv w5" using clock_spec [OF r(2)] by blast
    with False r ok show ?thesis by (simp add: eval io_bind_def io_catch_def io_return_def dispatch_record_def)
  qed
qed

lemma run_events_spec:
  assumes "\<forall>(t, a) \<in> set evs. admits a \<and> 0 \<le> t \<and> t \<le> MAX_DURATION_MS" "inv w"
  shows "\<exists>r w'. run_events ip tm backend origin i (map norm_event evs) w = (r, w') \<and> inv w' \<and>
    events_end i evs (abs w) r (abs w')"
  using assms
proof (induction evs arbitrary: w i)
  case Nil
  then show ?case by (simp add: io_return_def events_end_def)
next
  case (Cons ev evs)
  obtain t a where ev: "ev = (t, a)" by (cases ev)
  with Cons.prems have "admits a" "0 \<le> t" "t \<le> MAX_DURATION_MS" by auto
  then obtain r1 w1 where r1: "run_event ip tm backend origin i (norm_event (t, a)) w = (r1, w1)" "inv w1"
    and spec: "if refuses a (snd (abs w)) then (\<exists>e. r1 = Inl (EventDispatchError i (action_name a) e)) \<and> abs w1 = abs w
     else (\<exists>rec. r1 = Inr rec \<and> dr_index rec = i \<and> dr_action rec = action_name a \<and> dr_scheduled_ms rec = t) \<and>
       acts a (abs w) (abs w1)"
    using run_event_spec [OF Cons.prems(2)] by blast
  show ?case
  proof (cases "refuses a (snd (abs w))")
    case True
    with spec r1 show ?thesis by (auto simp: ev io_bind_def events_end_def intro!: exI [of _ 0])
  next
    case False
    with spec obtain rec where rec: "r1 = Inr rec" "dr_index rec = i" "dr_action rec = action_name a"
        "dr_scheduled_ms rec = t" "acts a (abs w) (abs w1)" by auto
    from Cons.IH [OF _ r1(2), of "Suc i"] Cons.prems obtain r2 w2 where
      r2: "run_events ip tm backend origin (Suc i) (map norm_event evs) w1 = (r2, w2)" "inv w2"
        "events_end (Suc i) evs (abs w1) r2 (abs w2)" by auto
    from events_end_Cons [OF False rec(5) r2(3) rec(2,4,3)] r1 r2 rec show ?thesis
      by (auto simp: ev io_bind_def io_return_def split: sum.splits)
  qed
qed

lemma scheduler_run_spec:
  assumes "\<forall>(t, a) \<in> set evs. admits a \<and> 0 \<le> t \<and> t \<le> MAX_DURATION_MS" "inv w"
  shows "\<exists>r w'. scheduler_run ip tm backend (map norm_event evs) w = (r, w') \<and> inv w' \<and> events_end 0 evs (abs w) r (abs w')"
proof -
  obtain t0 w0 where w0: "tm_clock tm w = (Inr t0, w0)" "abs w0 = abs w" "inv w0"
    using clock_spec [OF assms(2)] by blast
  then have eq: "scheduler_run ip tm backend (map norm_event evs) w = run_events ip tm backend t0 0 (map norm_event evs) w0"
    by (simp add: scheduler_run_def io_bind_def)
  from run_events_spec [OF assms(1) w0(3), of t0 0] show ?thesis unfolding eq w0(2) .
qed

end

interpretation machine_target: event_target ip machine_timing "linux_backend (machine_os order) fuel"
  "\<lambda>w. device_view (snd w)" "\<lambda>w. lb_fd (fst w) = Some fd \<and> wf_device (mc_device (snd w))"
  "\<lambda>a. wf_action a \<and> enough_fuel fuel a"
proof unfold_locales
  fix w :: "LinuxDeviceBackend \<times> machine" and a and t :: int and s :: rat
  assume inv: "lb_fd (fst w) = Some fd \<and> wf_device (mc_device (snd w))"
  obtain b m where w: "w = (b, m)" by (cases w)
  show "\<exists>r w'. dispatch ip (linux_backend (machine_os order) fuel) (norm_event (t, a)) w = (r, w') \<and>
      (if refuses a (snd (device_view (snd w))) then (\<exists>e. r = Inl e \<and> is_Exception e) \<and> device_view (snd w') = device_view (snd w)
       else r = Inr () \<and> acts a (device_view (snd w)) (device_view (snd w'))) \<and>
      lb_fd (fst w') = Some fd \<and> wf_device (mc_device (snd w'))"
    if "wf_action a \<and> enough_fuel fuel a"
  proof -
    from that inv w have pre: "lb_fd b = Some fd" "wf_action a" "wf_device (mc_device m)" "enough_fuel fuel a" by auto
    from dispatch_machine [OF pre, of ip order t] obtain r m' where
      "dispatch ip (linux_backend (machine_os order) fuel) (norm_event (t, a)) (b, m) = (r, (b, m'))" "dispatched a m r m'"
      by blast
    then show ?thesis
      using acts_wf [of a "device_view m" "device_view m'"] pre by (auto simp: w dispatched_def split: if_splits)
  qed
  show "\<exists>t w'. tm_clock machine_timing w = (Inr t, w') \<and> device_view (snd w') = device_view (snd w) \<and>
      lb_fd (fst w') = Some fd \<and> wf_device (mc_device (snd w'))"
    using inv by (simp add: w machine_timing_def io_snd_def)
  show "\<exists>w'. tm_sleeper machine_timing s w = (Inr (), w') \<and> device_view (snd w') = device_view (snd w) \<and>
      lb_fd (fst w') = Some fd \<and> wf_device (mc_device (snd w'))" if "0 < s"
    using inv by (simp add: w machine_timing_def io_snd_def)
qed

section \<open>Properties\<close>

text \<open>
  C18. From a validated event to the device: through the Linux backend and the kernel, each event of a
  validated scenario takes the device to exactly the state its specification gives, without time passing.
  A write for which the FIFO has no room waits for the reader of the device, however much the reader takes
  and however long it needs, and then returns: no byte is lost or reordered between what was buffered, what
  is written and what is taken, and the reader has used up an injected \<open>EIO\<close>. (Without a reader the call does
  not return: \<open>full_write_sleeps\<close>.) Only three kinds of event are refused: a write that is not encodable, a
  write to a disconnected device, and a delay the kernel does not accept; each raises an exception and
  changes nothing.
\<close>

theorem dispatch_refines_spec:
  assumes "lb_fd b = Some fd" "wf_action a" "wf_device (mc_device m)" "enough_fuel fuel a"
  shows "\<exists>r m'. dispatch ip (linux_backend (machine_os order) fuel) (norm_event (t, a)) (b, m) = (r, (b, m')) \<and>
    (if refuses a (mc_device m) then (\<exists>e. r = Inl e \<and> is_Exception e) \<and> m' = m
     else r = Inr () \<and> acts a (mc_taken m, mc_device m) (mc_taken m', mc_device m') \<and> mc_time m \<le> mc_time m' \<and>
       (\<not> waits a (mc_device m) \<longrightarrow> mc_time m' = mc_time m))"
  using dispatch_machine [OF assms] by (simp add: dispatched_def)

definition demo_backend :: LinuxDeviceBackend where
  "demo_backend = \<lparr>lb_device_path = lit ''/dev/vdevlab0'', lb_fd = Some 3\<rparr>"

text \<open>The witnesses need none of the interpreter's conversions.\<close>

definition demo_interpreter :: interpreter where
  "demo_interpreter = \<lparr>ip_str = (\<lambda>_. []), ip_int = (\<lambda>_. Inl (ValueError (lit ''invalid literal for int()''))),
      ip_upper = (\<lambda>c. [c])\<rparr>"

definition demo_machine :: machine where
  "demo_machine =
     \<lparr>mc_device = vdevlab_init, mc_time = 100,
      mc_child = \<lparr>ch_ends = Some 102, ch_output = ([], []), ch_code = 0, ch_obeys = True, ch_status = None\<rparr>,
      mc_reader = (\<lambda>i. (i, 1 / 2)), mc_sleeps = 0, mc_taken = []\<rparr>"

lemma demo_open: "lb_fd demo_backend = Some 3" "wf_device (mc_device demo_machine)"
  by (simp_all add: demo_backend_def demo_machine_def wf_device_def vdevlab_init_def)

text \<open>A fault event, and a write of two bytes to a full FIFO\<close>

theorem dispatch_refines_spec_witness:
  "(\<exists>m'. dispatch demo_interpreter (linux_backend (machine_os LittleEndian) 4096) (norm_event (100, EioAct 3)) (demo_backend, demo_machine)
      = (Inr (), (demo_backend, m')) \<and> mc_time m' = mc_time demo_machine \<and>
      mc_device m' = vdevlab_init\<lparr>kd_fault := no_fault\<lparr>kf_type := VDEVLAB_FAULT_EIO, kf_repeat := 3\<rparr>\<rparr>) \<and>
   (\<exists>m' taken. dispatch demo_interpreter (linux_backend (machine_os LittleEndian) 4096) (norm_event (200, WriteAct (lit ''42'')))
        (demo_backend, demo_machine\<lparr>mc_device := vdevlab_init\<lparr>kd_fifo := replicate 4096 7\<rparr>\<rparr>)
      = (Inr (), (demo_backend, m')) \<and> taken \<noteq> [] \<and> mc_taken m' = taken \<and>
      taken @ kd_fifo (mc_device m') = replicate 4096 7 @ [52, 50])"
proof
  let ?full = "demo_machine\<lparr>mc_device := vdevlab_init\<lparr>kd_fifo := replicate 4096 7\<rparr>\<rparr>"
  have eio: "\<not> refuses (EioAct 3) (mc_device demo_machine)" "\<not> waits (EioAct 3) (mc_device demo_machine)"
    by (simp_all add: refuses_def)
  have "wf_action (EioAct 3)" "enough_fuel 4096 (EioAct 3)" by (simp_all add: scenario_bounds)
  from dispatch_refines_spec [OF demo_open(1) this(1) demo_open(2) this(2), of demo_interpreter LittleEndian 100] eio
  show "\<exists>m'. dispatch demo_interpreter (linux_backend (machine_os LittleEndian) 4096) (norm_event (100, EioAct 3)) (demo_backend, demo_machine)
      = (Inr (), (demo_backend, m')) \<and> mc_time m' = mc_time demo_machine \<and>
      mc_device m' = vdevlab_init\<lparr>kd_fault := no_fault\<lparr>kf_type := VDEVLAB_FAULT_EIO, kf_repeat := 3\<rparr>\<rparr>"
    by (auto simp: acts_def demo_machine_def)
  have enc: "utf8_encode (lit ''42'') = Inr [52, 50]" by (simp add: utf8_encode_def is_surrogate_def utf8_char_def lit_def)
  have full: "waits (WriteAct (lit ''42'')) (mc_device ?full)"
    by (simp add: enc VDEVLAB_FIFO_SIZE_def vdevlab_is_disconnected_def vdevlab_init_def no_fault_def fault_types)
  have wf: "wf_device (mc_device ?full)" by (simp add: wf_device_def vdevlab_init_def VDEVLAB_FIFO_SIZE_def)
  from full have "\<not> refuses (WriteAct (lit ''42'')) (mc_device ?full)" "spec_action (WriteAct (lit ''42'')) (mc_device ?full) = None"
    by (simp_all add: refuses_def enc VDEVLAB_FIFO_SIZE_def)
  moreover have "wf_action (WriteAct (lit ''42''))" "enough_fuel 4096 (WriteAct (lit ''42''))" by (simp_all add: enc)
  from dispatch_refines_spec [OF demo_open(1) this(1) wf this(2), of demo_interpreter LittleEndian 200] calculation
  show "\<exists>m' taken. dispatch demo_interpreter (linux_backend (machine_os LittleEndian) 4096) (norm_event (200, WriteAct (lit ''42'')))
        (demo_backend, ?full) = (Inr (), (demo_backend, m')) \<and> taken \<noteq> [] \<and> mc_taken m' = taken \<and>
      taken @ kd_fifo (mc_device m') = replicate 4096 7 @ [52, 50]"
    by (auto simp: acts_def enc demo_machine_def simp del: replicate.simps)
qed

text \<open>
  C19. The scheduler carries out a validated list of events in order and exactly once. Either it returns
  one record per event, with its position, action and scheduled time, and the device has gone through
  the effects of all of them, a write without room having waited for the reader; or it raises an
  \<open>EventDispatchError\<close> with the position and the action of an event that is refused in the state the
  device then has, every earlier event has had its effect, and no later one has been started.
\<close>

theorem scheduler_drives_device:
  assumes "\<forall>(t, a) \<in> set evs. (wf_action a \<and> enough_fuel fuel a) \<and> 0 \<le> t \<and> t \<le> MAX_DURATION_MS"
    and "lb_fd b = Some fd" and "wf_device (mc_device m)"
  shows "\<exists>r b' m'. scheduler_run ip machine_timing (linux_backend (machine_os order) fuel) (map norm_event evs) (b, m)
      = (r, (b', m')) \<and> lb_fd b' = Some fd \<and> wf_device (mc_device m') \<and>
    ((\<exists>recs. r = Inr recs \<and> map dr_index recs = [0..<length evs] \<and> map dr_scheduled_ms recs = map fst evs \<and>
        map dr_action recs = map (action_name \<circ> snd) evs \<and>
        act_list (map snd evs) (mc_taken m, mc_device m) (mc_taken m', mc_device m')) \<or>
     (\<exists>n e. n < length evs \<and> r = Inl (EventDispatchError n (action_name (snd (evs ! n))) e) \<and>
        act_list (map snd (take n evs)) (mc_taken m, mc_device m) (mc_taken m', mc_device m') \<and>
        refuses (snd (evs ! n)) (mc_device m')))"
proof -
  from machine_target.scheduler_run_spec [OF assms(1), where w = "(b, m)" and fd = fd and ip = ip and order = order] assms(2,3)
  obtain r w' where "scheduler_run ip machine_timing (linux_backend (machine_os order) fuel) (map norm_event evs) (b, m) = (r, w')"
    "lb_fd (fst w') = Some fd" "wf_device (mc_device (snd w'))" "events_end 0 evs (device_view m) r (device_view (snd w'))"
    by auto
  then show ?thesis
    by (intro exI [of _ r] exI [of _ "fst w'"] exI [of _ "snd w'"]) (simp add: events_end_def)
qed

theorem scheduler_drives_device_witness:
  "\<exists>b' m' e. scheduler_run demo_interpreter machine_timing (linux_backend (machine_os LittleEndian) 4096)
      (map norm_event [(0, ResetAct), (100, DisconnectAct), (200, WriteAct (lit ''42''))]) (demo_backend, demo_machine) =
        (Inl (EventDispatchError 2 (lit ''write'') e), (b', m')) \<and>
      mc_device m' = vdevlab_init\<lparr>kd_fault := no_fault\<lparr>kf_type := VDEVLAB_FAULT_DISCONNECT\<rparr>\<rparr>"
proof -
  let ?evs = "[(0, ResetAct), (100, DisconnectAct), (200, WriteAct (lit ''42''))]"
  have enc: "utf8_encode (lit ''42'') = Inr [52, 50]" by (simp add: utf8_encode_def is_surrogate_def utf8_char_def lit_def)
  have ok: "\<forall>(t, a) \<in> set ?evs. (wf_action a \<and> enough_fuel 4096 a) \<and> 0 \<le> t \<and> t \<le> MAX_DURATION_MS"
    by (simp add: scenario_bounds enc)
  have refused: "refuses (WriteAct (lit ''42'')) (vdevlab_init\<lparr>kd_fault := no_fault\<lparr>kf_type := VDEVLAB_FAULT_DISCONNECT\<rparr>\<rparr>)"
    by (simp add: refuses_def enc vdevlab_is_disconnected_def)
  have go: "\<not> refuses ResetAct d" "\<not> refuses DisconnectAct d" for d by (simp_all add: refuses_def)
  have three: "n < Suc (Suc (Suc 0)) \<longleftrightarrow> n = 0 \<or> n = 1 \<or> n = 2" for n :: nat by auto
  from scheduler_drives_device [OF ok demo_open, of demo_interpreter LittleEndian] show ?thesis
    using refused by (auto simp: acts_def go three simp del: spec_action.simps(3))
qed

text \<open>
  The validator accepts delays the device rejects: for every duration from \<open>0ms\<close> or above ten
  seconds, up to the 24 hours the scenario format allows, the kernel answers \<open>EINVAL\<close> and leaves the
  device as it is.
\<close>

theorem delay_outside_kernel_range:
  assumes "lb_fd b = Some fd" "wf_action (DelayAct ms)" "ms = 0 \<or> 10000 < ms"
  shows "dispatch ip (linux_backend (machine_os order) fuel) (norm_event (t, DelayAct ms)) (b, m) =
    (Inl (os_error E_INVAL), (b, m))"
  using fault_machine [OF assms(1,2), of _ order m] assms(3)
  by (auto simp: dispatch_norm_event linux_backend_def fault_of_def)

theorem delay_outside_kernel_range_witness:
  "dispatch demo_interpreter (linux_backend (machine_os LittleEndian) 4096) (norm_event (0, DelayAct 0)) (demo_backend, demo_machine) =
    (Inl (os_error E_INVAL), (demo_backend, demo_machine))"
  by (rule delay_outside_kernel_range [OF demo_open(1)]) (simp_all add: scenario_bounds)

text \<open>
  C21. The write loop of the backend: whatever the device file does, no byte is lost, repeated or
  reordered, and the loop ends. The file may accept any part of the data, accept nothing, raise, and be
  interrupted by any finite number of signals, which the loop retries; with one unit of fuel for each byte
  and each signal the loop ends in one of three ways: all the data has been accepted and it returns; a
  call accepted nothing and it raises \<open>no_progress\<close>; or a call raised an exception other than
  \<open>InterruptedError\<close> and it passes that on. In every case the file has accepted exactly a prefix of the
  data, and the last call was on the rest.
\<close>

theorem write_delivers_prefix:
  assumes "signalled_file os fd accepted interrupts" "lb_fd b = Some fd" "length bs + interrupts s \<le> fuel"
    and "linux_write os fuel bs (b, s) = (r, w')"
  shows "\<exists>s' k. w' = (b, s') \<and> accepted s' = accepted s @ take k bs \<and>
    (r = Inr () \<and> k = length bs \<or>
     k < length bs \<and> (\<exists>s1. accepted s1 = accepted s' \<and>
       (do_write os fd (drop k bs) s1 = (Inr 0, s') \<and> r = Inl no_progress \<or>
        (\<exists>e. e \<noteq> InterruptedError \<and> do_write os fd (drop k bs) s1 = (Inl e, s') \<and> r = Inl e))))"
  using signalled_file.write_loop_ends [OF assms(1-3)] assms(4)
  by (auto simp: linux_write_def signalled_file.ends_def [OF assms(1)])

text \<open>A file that follows a script, interrupted, short and refused writes included, and then accepts everything\<close>

datatype reply = Interrupts | Takes nat | Raises pyexc

fun scripted_write :: "int \<Rightarrow> byte list \<Rightarrow> (reply list \<times> byte list, nat) io" where
  "scripted_write fd bs ([], acc) = (Inr (length bs), ([], acc @ bs))"
| "scripted_write fd bs (Interrupts # rs, acc) = (Inl InterruptedError, (rs, acc))"
| "scripted_write fd bs (Takes n # rs, acc) = (Inr (min n (length bs)), (rs, acc @ take n bs))"
| "scripted_write fd bs (Raises e # rs, acc) = (Inl e, (rs, acc))"

definition scripted_os :: "(reply list \<times> byte list) device_os" where
  "scripted_os =
     \<lparr>do_has_ioctl = True, do_order = LittleEndian, do_open = (\<lambda>_ _. io_return 3), do_close = (\<lambda>_. io_return ()),
      do_write = scripted_write, do_ioctl = (\<lambda>_ _ _. io_return ())\<rparr>"

lemma scripted_do_write [simp]: "do_write scripted_os = scripted_write"
  by (simp add: scripted_os_def)

interpretation scripted: signalled_file scripted_os fd snd "\<lambda>s. length (fst s)"
proof unfold_locales
  fix bs :: "byte list" and s s' :: "reply list \<times> byte list" and n :: nat and e :: pyexc and r :: "pyexc + nat"
  show "n \<le> length bs \<and> snd s' = snd s @ take n bs" if "do_write scripted_os fd bs s = (Inr n, s')"
    using that by (cases "(fd, bs, s)" rule: scripted_write.cases) (auto simp: min_def)
  show "snd s' = snd s" if "do_write scripted_os fd bs s = (Inl e, s')"
    using that by (cases "(fd, bs, s)" rule: scripted_write.cases) (auto simp: min_def)
  show "length (fst s') < length (fst s)" if "do_write scripted_os fd bs s = (Inl InterruptedError, s')"
    using that by (cases "(fd, bs, s)" rule: scripted_write.cases) (auto simp: min_def)
  show "length (fst s') \<le> length (fst s)" if "do_write scripted_os fd bs s = (r, s')"
    using that by (cases "(fd, bs, s)" rule: scripted_write.cases) (auto simp: min_def)
qed

text \<open>A signal, then a write of one byte, then one of none: the loop raises with one byte accepted.\<close>

theorem write_delivers_prefix_witness:
  "\<exists>s' k. linux_write scripted_os 5 [52, 50] (demo_backend, ([Interrupts, Takes 1, Takes 0], [])) = (Inl no_progress, (demo_backend, s')) \<and>
    snd s' = take k [52, 50] \<and> k < length [52 :: byte, 50]"
proof -
  have "\<exists>w'. linux_write scripted_os 5 [52, 50] (demo_backend, ([Interrupts, Takes 1, Takes 0], [])) = (Inl no_progress, w')"
    by (simp add: linux_write_def scripted.write_loop_step [OF demo_open(1)] numeral_eq_Suc del: linux_write_loop.simps)
  then obtain w' where w': "linux_write scripted_os 5 [52, 50] (demo_backend, ([Interrupts, Takes 1, Takes 0], [])) = (Inl no_progress, w')"
    by blast
  from write_delivers_prefix [OF scripted.signalled_file_axioms demo_open(1) _ w'] w' show ?thesis by auto
qed

end
