(* ===== verification/Scheduler_Props.thy ===== *)
theory Scheduler_Props
  imports Dispatch_Props
begin

text \<open>
  The times of a scheduler run. The interface is a clock that never goes back, a sleep that takes at
  least the time asked for, and a backend that does not turn the clock back; the machine provides it.
\<close>

section \<open>Never early\<close>

lemma rnd64_lower:
  assumes "x \<le> y" "\<bar>x\<bar> < pow2 k" "- 1021 \<le> k"
  shows "x - pow2 (k - 54) \<le> rnd64 y"
  using rnd64_error [OF assms(2,3)] rnd64_mono [OF assms(1)] by (simp add: abs_le_iff)

lemma pow2_values:
  "pow2 17 = 131072" "pow2 18 = 262144" "pow2 28 = 268435456" "pow2 30 = 1073741824" "pow2 31 = 2147483648"
  "pow2 (- 23) = 1 / 8388608" "pow2 (- 26) = 1 / 67108864" "pow2 (- 36) = 1 / 68719476736" "pow2 (- 37) = 1 / 137438953472"
  by (simp_all add: pow2_def)

text \<open>
  The deadline is rounded three times on the way to the sleep; the sleep then ends no earlier than one
  rounding error of a difference below the deadline.
\<close>

lemma deadline_reached:
  fixes origin s tick started rem :: rat
  assumes origin: "0 \<le> origin" "origin < 2 ^ 30" and s: "0 \<le> s" "s \<le> 86400000"
    and le: "origin \<le> tick" "tick \<le> started"
    and rem: "rem = rnd64 (rnd64 (origin + rnd64 (s / 1000)) - tick)"
    and slept: "0 < rem \<Longrightarrow> tick + rem \<le> started"
  shows "s / 1000 - 1 / 8000000 \<le> started - origin"
proof -
  define off where "off = rnd64 (s / 1000)"
  define dl where "dl = rnd64 (origin + off)"
  have off: "\<bar>off - s / 1000\<bar> \<le> 1 / 137438953472"
    using rnd64_error [of "s / 1000" 17] s unfolding off_def by (simp add: pow2_values)
  then have offb: "s / 1000 - 1 / 137438953472 \<le> off" "off \<le> s / 1000 + 1 / 137438953472" by linarith+
  then have "\<bar>origin + off\<bar> < pow2 31" using origin s unfolding pow2_values abs_less_iff by simp
  then have dl: "\<bar>dl - (origin + off)\<bar> \<le> 1 / 8388608"
    using rnd64_error [of "origin + off" 31] unfolding dl_def by (simp add: pow2_values)
  have "dl - 1 / 68719476736 \<le> started"
  proof (cases "dl \<le> tick")
    case True
    with le show ?thesis by simp
  next
    case False
    then have "\<bar>dl - tick\<bar> < pow2 18" using offb dl le s unfolding pow2_values by linarith
    then have "\<bar>rem - (dl - tick)\<bar> \<le> 1 / 68719476736"
      using rnd64_error [of "dl - tick" 18] unfolding rem off_def [symmetric] dl_def [symmetric]
      by (simp add: pow2_values)
    then show ?thesis using slept le by (cases "0 < rem") linarith+
  qed
  with offb dl show ?thesis by linarith
qed

lemma started_not_early:
  fixes s :: rat
  assumes "s / 1000 - 1 / 8000000 \<le> started - origin" "0 \<le> s" "s \<le> 86400000"
  shows "s - 1 / 1000 \<le> fl_mul (fl_sub started origin) 1000"
proof -
  have 1: "s / 1000 - 1 / 8000000 - pow2 (18 - 54) \<le> rnd64 (started - origin)"
    using assms by (intro rnd64_lower) (simp_all add: pow2_values abs_less_iff)
  then have 2: "s - 1 / 8000 - 1000 / 68719476736 \<le> rnd64 (started - origin) * 1000"
    by (simp add: pow2_values)
  then have "s - 1 / 8000 - 1000 / 68719476736 - pow2 (28 - 54) \<le> rnd64 (rnd64 (started - origin) * 1000)"
    using assms by (intro rnd64_lower) (simp_all add: pow2_values abs_less_iff)
  then show ?thesis by (simp add: fl_mul_def fl_sub_def pow2_values)
qed

section \<open>The interface\<close>

definition record_times :: "DispatchRecord list \<Rightarrow> rat list" where
  "record_times recs = concat (map (\<lambda>r. [dr_started_ms r, dr_finished_ms r]) recs)"

definition monotonic_times :: "DispatchRecord list \<Rightarrow> rat list" where
  "monotonic_times recs = concat (map (\<lambda>r. [dr_monotonic_started_ms r, dr_monotonic_finished_ms r]) recs)"

locale monotonic_time =
  fixes ip :: interpreter and tm :: "'w timing" and backend :: "'w DeviceBackend" and now :: "'w \<Rightarrow> rat"
  assumes clock: "tm_clock tm w = (r, w') \<Longrightarrow> now w \<le> now w' \<and> (\<forall>t. r = Inr t \<longrightarrow> t = now w')"
    and sleeper: "tm_sleeper tm s w = (q, w') \<Longrightarrow> now w \<le> now w' \<and> (q = Inr () \<longrightarrow> now w + s \<le> now w')"
    and dispatched: "dispatch ip backend ev w = (q, w') \<Longrightarrow> now w \<le> now w'"
begin

lemma wrap_dispatched: "wrap_dispatch i a (dispatch ip backend ev) w = (r, w') \<Longrightarrow> now w \<le> now w'"
  using dispatched
  by (auto simp: wrap_dispatch_def io_catch_def io_raise_def split: prod.splits sum.splits if_splits)

lemma slept:
  "(if 0 < s then tm_sleeper tm s else io_return ()) w = (Inr (), w') \<Longrightarrow>
     now w \<le> now w' \<and> (0 < s \<longrightarrow> now w + s \<le> now w')"
  using sleeper [of s w "Inr ()" w'] by (auto simp: io_return_def split: if_splits)

lemma run_event_times:
  assumes "run_event ip tm backend origin i ev w = (Inr rec, w')"
  shows "\<exists>n off started finished. now w \<le> n \<and> n \<le> started \<and> started \<le> finished \<and> finished = now w' \<and>
    fl_truediv (dr_scheduled_ms rec) 1000 = Inr off \<and> scheduled_ms ev i = Inr (dr_scheduled_ms rec) \<and>
    rec = dispatch_record origin i (event_action ip ev) (dr_scheduled_ms rec) started finished \<and>
    (0 < fl_sub (fl_add origin off) n \<longrightarrow> n + fl_sub (fl_add origin off) n \<le> started)"
proof -
  from assms obtain sched off n w1 w2 started w3 w4 finished where
    sched: "scheduled_ms ev i = Inr sched" "fl_truediv sched 1000 = Inr off"
    and steps: "tm_clock tm w = (Inr n, w1)"
      "(if 0 < fl_sub (fl_add origin off) n then tm_sleeper tm (fl_sub (fl_add origin off) n) else io_return ()) w1 = (Inr (), w2)"
      "tm_clock tm w2 = (Inr started, w3)"
      "wrap_dispatch i (event_action ip ev) (dispatch ip backend ev) w3 = (Inr (), w4)"
      "tm_clock tm w4 = (Inr finished, w')"
    and rec: "rec = dispatch_record origin i (event_action ip ev) sched started finished"
    by (auto simp: run_event_def Let_def io_bind_eq_Inr_iff io_basic_iff)
  note times = clock [OF steps(1)] slept [OF steps(2)] clock [OF steps(3)] wrap_dispatched [OF steps(4)] clock [OF steps(5)]
  show ?thesis
    by (rule exI [of _ n], rule exI [of _ off], rule exI [of _ started], rule exI [of _ finished])
      (use times sched rec in \<open>auto simp: dispatch_record_def\<close>)
qed

lemma run_events_now: "run_events ip tm backend origin i evs w = (Inr recs, w') \<Longrightarrow> now w \<le> now w'"
proof (induction evs arbitrary: i w recs)
  case (Cons ev evs)
  then show ?case by (fastforce simp: io_bind_eq_Inr_iff io_basic_iff dest: run_event_times intro: order_trans)
qed (simp add: io_return_def)

lemma run_events_times:
  "run_events ip tm backend origin i evs w = (Inr recs, w') \<Longrightarrow>
     \<exists>ts. sorted ts \<and> set ts \<subseteq> {now w..now w'} \<and>
       record_times recs = map (\<lambda>t. fl_mul (fl_sub t origin) 1000) ts \<and>
       monotonic_times recs = map (\<lambda>t. fl_mul t 1000) ts"
proof (induction evs arbitrary: i w recs)
  case Nil
  then show ?case by (auto simp: io_return_def record_times_def monotonic_times_def)
next
  case (Cons ev evs)
  then obtain rec w1 recs' where rec: "run_event ip tm backend origin i ev w = (Inr rec, w1)"
    "run_events ip tm backend origin (Suc i) evs w1 = (Inr recs', w')" "recs = rec # recs'"
    by (auto simp: io_bind_eq_Inr_iff io_basic_iff)
  from run_event_times [OF rec(1)] obtain started finished where
    t: "now w \<le> started" "started \<le> finished" "finished = now w1"
      "rec = dispatch_record origin i (event_action ip ev) (dr_scheduled_ms rec) started finished"
    by (blast intro: order_trans)
  from Cons.IH [OF rec(2)] obtain ts where
    ts: "sorted ts" "set ts \<subseteq> {now w1..now w'}"
      "record_times recs' = map (\<lambda>t. fl_mul (fl_sub t origin) 1000) ts"
      "monotonic_times recs' = map (\<lambda>t. fl_mul t 1000) ts"
    by blast
  have "dr_started_ms rec = fl_mul (fl_sub started origin) 1000" "dr_finished_ms rec = fl_mul (fl_sub finished origin) 1000"
    "dr_monotonic_started_ms rec = fl_mul started 1000" "dr_monotonic_finished_ms rec = fl_mul finished 1000"
    by (subst t(4), simp add: dispatch_record_def)+
  moreover have "now w1 \<le> now w'" by (rule run_events_now [OF rec(2)])
  ultimately show ?case
    using t(1-3) ts rec(3)
    by (intro exI [of _ "started # finished # ts"])
      (auto simp: record_times_def monotonic_times_def subset_iff intro: order_trans)
qed

lemma run_events_punctual:
  assumes "run_events ip tm backend origin i evs w = (Inr recs, w')" "origin \<le> now w" "0 \<le> origin" "origin < 2 ^ 30"
    "rec \<in> set recs" "dr_scheduled_ms rec \<le> MAX_DURATION_MS"
  shows "of_int (dr_scheduled_ms rec) - 1 / 1000 \<le> dr_started_ms rec"
  using assms
proof (induction evs arbitrary: i w recs)
  case Nil
  then show ?case by (auto simp: io_return_def)
next
  case (Cons ev evs)
  from Cons.prems(1) obtain rec0 w1 recs' where rec0: "run_event ip tm backend origin i ev w = (Inr rec0, w1)"
    "run_events ip tm backend origin (Suc i) evs w1 = (Inr recs', w')" "recs = rec0 # recs'"
    by (auto simp: io_bind_eq_Inr_iff io_basic_iff)
  from run_event_times [OF rec0(1)] obtain n off started finished where
    t: "now w \<le> n" "n \<le> started" "started \<le> finished" "finished = now w1"
      "fl_truediv (dr_scheduled_ms rec0) 1000 = Inr off" "scheduled_ms ev i = Inr (dr_scheduled_ms rec0)"
      "rec0 = dispatch_record origin i (event_action ip ev) (dr_scheduled_ms rec0) started finished"
      "0 < fl_sub (fl_add origin off) n \<longrightarrow> n + fl_sub (fl_add origin off) n \<le> started"
    by blast
  show ?case
  proof (cases "rec = rec0")
    case False
    moreover have "origin \<le> now w1" using t Cons.prems(2) by linarith
    ultimately show ?thesis using Cons.IH [OF rec0(2)] Cons.prems rec0(3) by simp
  next
    case True
    let ?s = "of_int (dr_scheduled_ms rec0) :: rat"
    have nonneg: "0 \<le> dr_scheduled_ms rec0" using t(6) by (auto simp: scheduled_ms_def split: pyval.splits if_splits)
    have max: "dr_scheduled_ms rec0 \<le> MAX_DURATION_MS" using Cons.prems(6) True by simp
    have s: "0 \<le> ?s" "?s \<le> 86400000"
      using nonneg max by (simp_all add: scenario_bounds of_int_le_iff [where 'a = rat, of _ 86400000, simplified])
    have "off = rnd64 (?s / 1000)" using t(5) fl_truediv_ms [OF nonneg max] by simp
    then have "?s / 1000 - 1 / 8000000 \<le> started - origin"
      using t(1-4,8) s Cons.prems
      by (intro deadline_reached [where tick = n and rem = "fl_sub (fl_add origin off) n"])
        (simp_all add: fl_sub_def fl_add_def)
    from started_not_early [OF this s] show ?thesis
      using t(7) True by (metis dispatch_record_def DispatchRecord.select_convs(4))
  qed
qed

end

text \<open>No call of the backend on the machine turns its clock back.\<close>

lemma machine_calls_time:
  "mc_time m \<le> mc_time (snd (do_write (machine_os order) fd bs m))"
  "mc_time (snd (machine_ioctl order fd request arg m)) = mc_time m"
  by (auto simp: machine_os_def machine_write_def machine_ioctl_def Let_def split: option.splits sum.splits prod.splits)

lemma system_ioctl_time: "mc_time (snd (snd (system_ioctl (machine_os order) request arg w))) = mc_time (snd w)"
proof -
  obtain b m where w: "w = (b, m)" by (cases w)
  show ?thesis
  proof (cases "lb_fd b")
    case None
    then show ?thesis
      by (simp add: w system_ioctl_def machine_os_def linux_fileno_def io_bind_def io_self_def io_raise_def)
  next
    case (Some fd)
    then show ?thesis
      using machine_calls_time(2) [of order fd request arg m] by (auto simp: w system_ioctl_machine split: prod.splits)
  qed
qed

lemma write_loop_time: "mc_time (snd w) \<le> mc_time (snd (snd (linux_write_loop (machine_os order) fuel bs w)))"
proof (induction fuel arbitrary: bs w)
  case 0
  then show ?case by (cases bs) (simp_all add: io_return_def io_raise_def)
next
  case (Suc fuel)
  obtain b m where w: "w = (b, m)" by (cases w)
  show ?case
  proof (cases bs)
    case Nil
    then show ?thesis by (simp add: io_return_def)
  next
    case (Cons c cs)
    show ?thesis
    proof (cases "lb_fd b")
      case None
      then show ?thesis
        by (simp add: w Cons write_once_def io_bind_def io_catch_def linux_fileno_def io_self_def io_raise_def)
    next
      case (Some fd)
      obtain q m1 where q: "do_write (machine_os order) fd bs m = (q, m1)" by fastforce
      with machine_calls_time(1) [of m order fd bs] have "mc_time m \<le> mc_time m1" by simp
      moreover note Suc.IH [of "(b, m1)"]
      ultimately show ?thesis
        unfolding w Cons machine_file.write_loop_step [OF Some] using order_trans q [unfolded Cons]
        by (auto split: sum.splits)
    qed
  qed
qed

lemma dispatch_time:
  assumes "dispatch ip (linux_backend (machine_os order) fuel) ev w = (q, w')"
  shows "mc_time (snd w) \<le> mc_time (snd w')"
  using assms system_ioctl_time [of order _ _ w] write_loop_time [of w order fuel]
  by (auto simp: dispatch_def Let_def linux_backend_def linux_reset_def linux_clear_fault_def linux_write_def
      linux_set_fault_def io_bind_def io_lift_def io_raise_def
      split: if_splits pyval.splits sum.splits option.splits dest!: arg_cong [where f = "\<lambda>p. mc_time (snd (snd p))"]) metis

interpretation machine_time: monotonic_time ip machine_timing "linux_backend (machine_os order) fuel" "\<lambda>(b, m). mc_time m"
proof unfold_locales
  fix w w' :: "LinuxDeviceBackend \<times> machine" and ev s and r :: "pyexc + rat" and q :: "pyexc + unit"
  show "(case w of (b, m) \<Rightarrow> mc_time m) \<le> (case w' of (b, m) \<Rightarrow> mc_time m) \<and>
      (\<forall>t. r = Inr t \<longrightarrow> t = (case w' of (b, m) \<Rightarrow> mc_time m))" if "tm_clock machine_timing w = (r, w')"
    using that by (cases w) (auto simp: machine_timing_def io_snd_def)
  show "(case w of (b, m) \<Rightarrow> mc_time m) \<le> (case w' of (b, m) \<Rightarrow> mc_time m) \<and>
      (q = Inr () \<longrightarrow> (case w of (b, m) \<Rightarrow> mc_time m) + s \<le> (case w' of (b, m) \<Rightarrow> mc_time m))"
    if "tm_sleeper machine_timing s w = (q, w')"
    using that by (cases w) (auto simp: machine_timing_def io_snd_def)
  show "(case w of (b, m) \<Rightarrow> mc_time m) \<le> (case w' of (b, m) \<Rightarrow> mc_time m)"
    if "dispatch ip (linux_backend (machine_os order) fuel) ev w = (q, w')"
    using dispatch_time [OF that] by (simp add: case_prod_unfold)
qed

lemma demo_run:
  obtains recs w' where "scheduler_run demo_interpreter machine_timing (linux_backend (machine_os LittleEndian) 4096)
      (map norm_event [(0, ResetAct), (100, EioAct 3)]) (demo_backend, demo_machine) = (Inr recs, w')"
    "\<forall>rec \<in> set recs. dr_scheduled_ms rec \<le> MAX_DURATION_MS" "mc_time (snd w') < 2 ^ 30"
proof -
  let ?backend = "linux_backend (machine_os LittleEndian) 4096"
  let ?d = "vdevlab_init\<lparr>kd_fault := no_fault\<lparr>kf_type := VDEVLAB_FAULT_EIO, kf_repeat := 3\<rparr>\<rparr>"
  have rounded: "rnd64 100 = 100" "rnd64 (1 / 10) = 3602879701896397 / 36028797018963968"
    "rnd64 (3606482581598293197 / 36028797018963968) = 3521955646092083 / 35184372088832"
    "rnd64 (3518437208883 / 35184372088832) = 3518437208883 / 35184372088832"
    by code_simp+
  have div: "fl_truediv 0 1000 = Inr 0" "fl_truediv 100 1000 = Inr (3602879701896397 / 36028797018963968)"
    using fl_truediv_ms [of 0] fl_truediv_ms [of 100] rounded(2) by (simp_all add: scenario_bounds)
  have reset: "dispatch demo_interpreter ?backend (norm_event (0, ResetAct)) (demo_backend, m) =
      (Inr (), (demo_backend, m\<lparr>mc_device := vdevlab_init\<rparr>))" for m
    using reset_machine [OF demo_open(1)] by (simp add: dispatch_norm_event linux_backend_def)
  have eio: "dispatch demo_interpreter ?backend (norm_event (100, EioAct 3)) (demo_backend, m) =
      (Inr (), (demo_backend, m\<lparr>mc_device := (mc_device m)\<lparr>kd_fault :=
         no_fault\<lparr>kf_type := VDEVLAB_FAULT_EIO, kf_repeat := 3\<rparr>\<rparr>\<rparr>))" for m
    using fault_machine [OF demo_open(1), of "EioAct 3" _ LittleEndian m]
    by (simp add: dispatch_norm_event linux_backend_def fault_of_def scenario_bounds)
  have sched: "scheduled_ms (norm_event (0, ResetAct)) i = Inr 0" "scheduled_ms (norm_event (100, EioAct 3)) i = Inr 100" for i
    by (simp_all add: scheduled_ms_def norm_event_def lit_def)
  have "\<exists>recs w'. scheduler_run demo_interpreter machine_timing ?backend
      (map norm_event [(0, ResetAct), (100, EioAct 3)]) (demo_backend, demo_machine) = (Inr recs, w') \<and>
    (\<forall>rec \<in> set recs. dr_scheduled_ms rec \<le> MAX_DURATION_MS) \<and> mc_time (snd w') < 2 ^ 30"
    by (simp add: scheduler_run_def run_event_def io_bind_def io_lift_def io_return_def wrap_dispatch_def io_catch_def
        machine_timing_def io_snd_def Let_def sched div reset eio fl_sub_def fl_add_def rounded demo_machine_def
        dispatch_record_def scenario_bounds)
  then show thesis using that by blast
qed

section \<open>Properties\<close>

text \<open>
  C22. Dispatch times are in order: with a clock that never goes back, the reported start and finish
  times of a run, relative and monotonic, rounded as the code rounds them, are non-decreasing from the
  first event to the last, and the relative ones are never negative.
\<close>

theorem dispatch_times_ordered:
  assumes "monotonic_time ip tm backend now" and "scheduler_run ip tm backend evs w = (Inr recs, w')"
  shows "sorted (record_times recs) \<and> sorted (monotonic_times recs) \<and> (\<forall>t \<in> set (record_times recs). 0 \<le> t)"
proof -
  from assms(2) obtain origin w0 where
    o: "tm_clock tm w = (Inr origin, w0)" "run_events ip tm backend origin 0 evs w0 = (Inr recs, w')"
    by (auto simp: scheduler_run_def io_bind_eq_Inr_iff)
  then have origin: "origin = now w0" using monotonic_time.clock [OF assms(1)] by blast
  from monotonic_time.run_events_times [OF assms(1) o(2)] obtain ts where
    ts: "sorted ts" "set ts \<subseteq> {now w0..now w'}"
      "record_times recs = map (\<lambda>t. fl_mul (fl_sub t origin) 1000) ts"
      "monotonic_times recs = map (\<lambda>t. fl_mul t 1000) ts"
    by blast
  have "sorted (map (\<lambda>t. fl_mul (fl_sub t origin) 1000) ts)"
    using ts(1) by (auto simp: sorted_map fl_mul_def fl_sub_def intro!: binary64.scaled_diff_mono
        elim!: sorted_wrt_mono_rel [rotated])
  moreover have "sorted (map (\<lambda>t. fl_mul t 1000) ts)"
    using ts(1) by (auto simp: sorted_map fl_mul_def intro!: binary64.scaled_mono elim!: sorted_wrt_mono_rel [rotated])
  moreover have "0 \<le> fl_mul (fl_sub t origin) 1000" if "t \<in> set ts" for t
    using that ts(2) origin by (auto simp: fl_mul_def fl_sub_def intro!: binary64.scaled_diff_nonneg)
  ultimately show ?thesis by (auto simp: ts(3,4))
qed

theorem dispatch_times_ordered_witness:
  "\<exists>recs w'. scheduler_run demo_interpreter machine_timing (linux_backend (machine_os LittleEndian) 4096)
      (map norm_event [(0, ResetAct), (100, EioAct 3)]) (demo_backend, demo_machine) = (Inr recs, w') \<and>
    sorted (record_times recs)"
proof -
  obtain recs w' where "scheduler_run demo_interpreter machine_timing (linux_backend (machine_os LittleEndian) 4096)
      (map norm_event [(0, ResetAct), (100, EioAct 3)]) (demo_backend, demo_machine) = (Inr recs, w')"
    by (rule demo_run)
  with dispatch_times_ordered [OF machine_time.monotonic_time_axioms this] show ?thesis by blast
qed

text \<open>
  C23. Events are never dispatched early: with such a clock, and a sleep that lasts at least the time
  asked for, the start time reported for an event is at most a microsecond before its scheduled time.
  The slack is the rounding of the deadline, of the remaining time and of the reported value; it needs
  a clock below \<open>2 ^ 30\<close> seconds, about 34 years.
\<close>

theorem dispatch_never_early:
  assumes "monotonic_time ip tm backend now" and "scheduler_run ip tm backend evs w = (Inr recs, w')"
    and "0 \<le> now w" and "now w' < 2 ^ 30"
    and "rec \<in> set recs" and "dr_scheduled_ms rec \<le> MAX_DURATION_MS"
  shows "of_int (dr_scheduled_ms rec) - 1 / 1000 \<le> dr_started_ms rec"
proof -
  from assms(2) obtain origin w0 where
    o: "tm_clock tm w = (Inr origin, w0)" "run_events ip tm backend origin 0 evs w0 = (Inr recs, w')"
    by (auto simp: scheduler_run_def io_bind_eq_Inr_iff)
  then have "origin = now w0" "now w \<le> now w0" using monotonic_time.clock [OF assms(1)] by blast+
  moreover have "now w0 \<le> now w'" by (rule monotonic_time.run_events_now [OF assms(1) o(2)])
  ultimately show ?thesis
    using assms(3-6) by (intro monotonic_time.run_events_punctual [OF assms(1) o(2)]) simp_all
qed

theorem dispatch_never_early_witness:
  "\<exists>recs w'. scheduler_run demo_interpreter machine_timing (linux_backend (machine_os LittleEndian) 4096)
      (map norm_event [(0, ResetAct), (100, EioAct 3)]) (demo_backend, demo_machine) = (Inr recs, w') \<and>
    (\<forall>rec \<in> set recs. of_int (dr_scheduled_ms rec) - 1 / 1000 \<le> dr_started_ms rec)"
proof -
  obtain recs w' where run: "scheduler_run demo_interpreter machine_timing (linux_backend (machine_os LittleEndian) 4096)
      (map norm_event [(0, ResetAct), (100, EioAct 3)]) (demo_backend, demo_machine) = (Inr recs, w')"
    and recs: "\<forall>rec \<in> set recs. dr_scheduled_ms rec \<le> MAX_DURATION_MS" and late: "mc_time (snd w') < 2 ^ 30"
    by (rule demo_run)
  have "of_int (dr_scheduled_ms rec) - 1 / 1000 \<le> dr_started_ms rec" if "rec \<in> set recs" for rec
    using dispatch_never_early [OF machine_time.monotonic_time_axioms run _ _ that] recs that late
    by (simp add: demo_machine_def case_prod_unfold)
  with run show ?thesis by blast
qed

end
