(* ===== verification/Process_Props.thy ===== *)
theory Process_Props
  imports Machine
begin

text \<open>
  The contract of a child process and its collector thread, as \<open>subprocess\<close> and \<open>threading\<close> document
  it, what \<open>ApplicationProcess\<close> guarantees on top of it, and the machine's process as an instance.
\<close>

text \<open>A result that carries what the ended collector has read\<close>

definition delivered :: "collector \<Rightarrow> int option \<Rightarrow> ApplicationProcess \<Rightarrow> ApplicationResult \<Rightarrow> bool" where
  "delivered c status self res \<longleftrightarrow>
     (\<exists>out err. c = Ended (Inr (out, err)) \<and> status = Some (ar_exit_code res) \<and> ar_command res = pr_command self \<and>
        ar_stdout res = utf8_decode_replace out \<and> ar_stderr res = utf8_decode_replace err)"

locale child_process =
  fixes os :: "'o process_os" and coll :: "'o \<Rightarrow> collector" and status :: "'o \<Rightarrow> int option"
  assumes collector_reads: "po_collector os s = (Inr (coll s), s)"
    and returncode_reads: "po_returncode os s = (Inr (status s), s)"
    and poll_reads: "po_poll os s = (p, s') \<Longrightarrow> p = Inr (status s') \<and> (coll s = Ended x \<longrightarrow> coll s' = Ended x)"
    and join_waits: "po_join os t s = (q, s') \<Longrightarrow> (coll s = Ended x \<longrightarrow> coll s' = Ended x) \<and>
      (q = Inr () \<and> t = None \<longrightarrow> coll s' \<noteq> Alive) \<and> (\<forall>e. q = Inl e \<longrightarrow> \<not> is_timeout e)"
    and ended_reaped: "coll s = Ended (Inr out) \<Longrightarrow> status s \<noteq> None"
begin

lemma is_alive_reads: "process_is_alive os s = (Inr (coll s = Alive), s)"
  by (simp add: process_is_alive_def io_bind_def collector_reads io_return_def)

text \<open>The result is what the ended collector read, decoded, with the exit code of the process.\<close>

lemma result_iff:
  "process_result os self s = (Inr res, s') \<longleftrightarrow>
     s' = s \<and> (\<exists>out err code. coll s = Ended (Inr (out, err)) \<and> status s = Some code \<and>
       res = \<lparr>ar_command = pr_command self, ar_exit_code = code, ar_stdout = utf8_decode_replace out,
              ar_stderr = utf8_decode_replace err, ar_timed_out = False, ar_forced = False\<rparr>)"
  by (auto simp: process_result_def io_bind_def collector_reads returncode_reads collect_output_def io_return_def io_raise_def
      split: collector.splits sum.splits option.splits)

lemma result_delivered:
  "process_result os self s = (Inr res, s') \<Longrightarrow>
     s' = s \<and> delivered (coll s) (status s) self res \<and> \<not> ar_timed_out res \<and> \<not> ar_forced res"
  by (auto simp: result_iff delivered_def)

lemma collect_delivers:
  assumes "process_collect os self timeout s = (Inr res, s')"
  shows "\<exists>seconds. timeout_seconds timeout (lit ''timeout_ms'') = Inr seconds \<and> po_join os seconds s = (Inr (), s') \<and>
    coll s' \<noteq> Alive \<and> delivered (coll s') (status s') self res \<and> \<not> ar_timed_out res \<and> \<not> ar_forced res"
proof -
  from assms obtain seconds s1 where
    *: "timeout_seconds timeout (lit ''timeout_ms'') = Inr seconds" "po_join os seconds s = (Inr (), s1)"
    and **: "(if coll s1 = Alive then (case timeout of PInt n \<Rightarrow> io_raise (ApplicationTimeoutError (pr_command self) n)
        | _ \<Rightarrow> io_raise AssertionError) else process_result os self) s1 = (Inr res, s')"
    by (auto simp: process_collect_def io_bind_eq_Inr_iff io_basic_iff is_alive_reads)
  then have "coll s1 \<noteq> Alive" by (auto simp: io_raise_def split: pyval.splits)
  with * ** result_delivered [of self s1 res s'] show ?thesis by auto
qed

lemma collect_timeout:
  assumes "process_collect os self timeout s = (Inl e, s')" "is_timeout e"
  shows "\<exists>seconds. timeout_seconds timeout (lit ''timeout_ms'') = Inr seconds \<and> po_join os seconds s = (Inr (), s') \<and>
    coll s' = Alive"
proof -
  have "timeout_seconds timeout (lit ''timeout_ms'') \<noteq> Inl e" "process_result os self s1 \<noteq> (Inl e, s')" for s1
    using assms(2)
    by (auto simp: timeout_seconds_def is_timeout_def fl_truediv_def fl_of_rat_def res_iff process_result_def io_bind_def
        collector_reads returncode_reads collect_output_def io_return_def io_raise_def
        split: pyval.splits if_splits collector.splits sum.splits option.splits)
  moreover have "po_join os t s \<noteq> (Inl e, s')" for t using join_waits assms(2) by blast
  ultimately show ?thesis
    using assms(1)
    by (cases timeout)
      (auto simp: process_collect_def io_bind_eq_Inl_iff io_basic_iff is_alive_reads split: if_splits)
qed

lemma terminate_delivers:
  assumes "process_terminate os self grace s = (Inr res, s')"
  shows "delivered (coll s') (status s') self res \<and> \<not> ar_timed_out res"
proof -
  have "\<exists>s1 res0. process_collect os self PNone s1 = (Inr res0, s') \<and> (\<exists>f. res = res0\<lparr>ar_forced := f\<rparr>)"
    using assms
    by (auto simp: process_terminate_def io_bind_eq_Inr_iff io_basic_iff split: if_splits) 
      (metis ApplicationResult.surjective ApplicationResult.update_convs(6))+
  then show ?thesis using collect_delivers by (fastforce simp: delivered_def)
qed

lemma collect_with_timeout_flags:
  assumes "collect_with_timeout os self (PInt n) grace s = (Inr res, s')"
  shows "\<exists>seconds s1. timeout_seconds (PInt n) (lit ''timeout_ms'') = Inr (Some seconds) \<and>
    po_join os (Some seconds) s = (Inr (), s1) \<and> ar_timed_out res = (coll s1 = Alive) \<and>
    delivered (coll s') (status s') self res \<and> (\<not> ar_timed_out res \<longrightarrow> s' = s1 \<and> \<not> ar_forced res)"
proof -
  have secs: "\<exists>x. seconds = Some x" if "timeout_seconds (PInt n) (lit ''timeout_ms'') = Inr seconds" for seconds
    using that by (auto simp: timeout_seconds_def res_iff split: if_splits)
  consider (ok) "process_collect os self (PInt n) s = (Inr res, s')"
    | (late) e s1 where "process_collect os self (PInt n) s = (Inl e, s1)" "is_timeout e"
        "io_bind (process_terminate os self grace) (\<lambda>result. io_return (result\<lparr>ar_timed_out := True\<rparr>)) s1 = (Inr res, s')"
    using assms by (auto simp: collect_with_timeout_def io_catch_eq_iff io_basic_iff split: if_splits)
  then show ?thesis
  proof cases
    case ok
    from collect_delivers [OF this] secs show ?thesis by blast
  next
    case late
    from collect_timeout [OF late(1,2)] obtain seconds where
      "timeout_seconds (PInt n) (lit ''timeout_ms'') = Inr seconds" "po_join os seconds s = (Inr (), s1)" "coll s1 = Alive"
      by blast
    moreover from late(3) obtain res0 where "process_terminate os self grace s1 = (Inr res0, s')" "res = res0\<lparr>ar_timed_out := True\<rparr>"
      by (auto simp: io_bind_eq_Inr_iff io_basic_iff)
    ultimately show ?thesis using secs terminate_delivers [of self grace s1 res0 s'] by (fastforce simp: delivered_def)
  qed
qed

end

interpretation machine_child: child_process machine_process machine_collector "\<lambda>m. ch_status (mc_child m)"
proof unfold_locales
  fix s s' :: machine and p q t x
  show "(machine_collector s = Ended x \<longrightarrow> machine_collector s' = Ended x) \<and>
      (q = Inr () \<and> t = None \<longrightarrow> machine_collector s' \<noteq> Alive) \<and> (\<forall>e. q = Inl e \<longrightarrow> \<not> is_timeout e)" if "po_join machine_process t s = (q, s')"
    using that by (auto simp: machine_process_def machine_join_def machine_collector_def pass_until_def child_exit_def Let_def
        asleep_def is_timeout_def split: option.splits if_splits)
qed (auto simp: machine_process_def machine_collector_def split: if_splits)

section \<open>Properties\<close>

text \<open>
  C25. Collecting with a timeout: when it returns, the collector thread has ended and the result carries
  its whole output and the exit code. The result is marked as timed out exactly when the thread was
  still alive after the time limit; otherwise nothing was signalled and it is not marked as forced.
\<close>

theorem collect_with_timeout_complete:
  assumes "child_process os coll status" and "collect_with_timeout os self (PInt n) grace s = (Inr res, s')"
  shows "\<exists>seconds s1. timeout_seconds (PInt n) (lit ''timeout_ms'') = Inr (Some seconds) \<and>
    po_join os (Some seconds) s = (Inr (), s1) \<and> ar_timed_out res = (coll s1 = Alive) \<and>
    delivered (coll s') (status s') self res \<and> (\<not> ar_timed_out res \<longrightarrow> s' = s1 \<and> \<not> ar_forced res)"
  using assms by (rule child_process.collect_with_timeout_flags)

definition stubborn_machine :: machine where
  "stubborn_machine =
     \<lparr>mc_device = vdevlab_init, mc_time = 0,
      mc_child = \<lparr>ch_ends = None, ch_output = ([111, 107], []), ch_code = 0, ch_obeys = False, ch_status = None\<rparr>,
      mc_reader = (\<lambda>_. (0, 0)), mc_sleeps = 0, mc_taken = []\<rparr>"

theorem collect_with_timeout_complete_witness:
  "\<exists>res s'. collect_with_timeout machine_process \<lparr>pr_command = [lit ''app''], pr_pid = 1000\<rparr> (PInt 1000) (PInt 1000)
      stubborn_machine = (Inr res, s') \<and> ar_timed_out res \<and> ar_forced res \<and> ar_exit_code res = - 9 \<and>
    delivered (machine_collector s') (ch_status (mc_child s')) \<lparr>pr_command = [lit ''app''], pr_pid = 1000\<rparr> res"
proof -
  have "\<exists>res s'. collect_with_timeout machine_process \<lparr>pr_command = [lit ''app''], pr_pid = 1000\<rparr> (PInt 1000) (PInt 1000)
      stubborn_machine = (Inr res, s') \<and> ar_timed_out res \<and> ar_forced res \<and> ar_exit_code res = - 9"
    by (simp add: collect_with_timeout_def process_collect_def process_terminate_def timeout_seconds_def fl_truediv_1000 io_bind_def
        io_lift_def io_catch_def io_raise_def io_return_def process_is_alive_def machine_process_def stubborn_machine_def
        machine_join_def machine_collector_def pass_until_def child_exit_def Let_def is_timeout_def signal_group_def
        machine_killpg_def SIGKILL_def SIGTERM_def process_result_def collect_output_def)
  then show ?thesis using collect_with_timeout_complete [OF machine_child.child_process_axioms] by blast
qed

end
