(* ===== verification/Kernel_Log.thy ===== *)
theory Kernel_Log
  imports Py_Text
begin

text \<open>
  \<open>DmesgKernelLogCollector\<close> of \<open>src/vdevlab/runner.py\<close>: two readings of the kernel's warning log and
  the lines that are new in the second. Running \<open>dmesg\<close> is an effect of the world.
\<close>

record KernelLogSnapshot =
  ks_lines :: "pystr list"
  ks_error :: "pystr option"

record KernelLogObservation =
  ko_available :: bool
  ko_warnings :: "pystr list"
  ko_error :: "pystr option"

record CompletedProcess =
  cp_returncode :: int
  cp_stdout :: pystr
  cp_stderr :: pystr

definition str_strip :: "pystr \<Rightarrow> pystr" where
  "str_strip s = rev (dropWhile is_space (rev (dropWhile is_space s)))"

definition dmesg_command :: "pystr list" where
  "dmesg_command = [lit ''dmesg'', lit ''--level=warn,err,crit,alert,emerg'', lit ''--notime'']"

type_synonym 'w command_runner = "pystr list \<Rightarrow> ('w, CompletedProcess) io"

definition snapshot_of :: "CompletedProcess \<Rightarrow> KernelLogSnapshot" where
  "snapshot_of completed =
     (if cp_returncode completed \<noteq> 0 then
        \<lparr>ks_lines = [],
         ks_error = Some (if str_strip (cp_stderr completed) \<noteq> [] then str_strip (cp_stderr completed)
                          else lit ''dmesg exited with '' @ str_int (cp_returncode completed))\<rparr>
      else \<lparr>ks_lines = splitlines (cp_stdout completed), ks_error = None\<rparr>)"

definition dmesg_read :: "'w command_runner \<Rightarrow> ('w, KernelLogSnapshot) io" where
  "dmesg_read run =
     io_catch (io_bind (run dmesg_command) (\<lambda>completed. io_return (snapshot_of completed)))
       (\<lambda>e. if is_OSError e then io_return \<lparr>ks_lines = [], ks_error = Some (exc_str e)\<rparr> else io_raise e)"

text \<open>
  The loop of \<open>observe\<close>, and its slices: \<open>before[-overlap:]\<close> for a positive \<open>overlap\<close> of at most the
  length is the last \<open>overlap\<close> lines.
\<close>

fun find_overlap :: "pystr list \<Rightarrow> pystr list \<Rightarrow> nat \<Rightarrow> nat" where
  "find_overlap before after 0 = 0"
| "find_overlap before after (Suc overlap) =
     (if drop (length before - Suc overlap) before \<noteq> take (Suc overlap) after
      then find_overlap before after overlap else Suc overlap)"

definition new_lines :: "pystr list \<Rightarrow> pystr list \<Rightarrow> pystr list" where
  "new_lines before after = drop (find_overlap before after (min (length before) (length after))) after"

definition dmesg_observe :: "'w command_runner \<Rightarrow> KernelLogSnapshot \<Rightarrow> ('w, KernelLogObservation) io" where
  "dmesg_observe run before =
     (case ks_error before of
        Some e \<Rightarrow> io_return \<lparr>ko_available = False, ko_warnings = [], ko_error = Some e\<rparr>
      | None \<Rightarrow>
          io_bind (dmesg_read run) (\<lambda>after.
          case ks_error after of
            Some e \<Rightarrow> io_return \<lparr>ko_available = False, ko_warnings = [], ko_error = Some e\<rparr>
          | None \<Rightarrow> io_return \<lparr>ko_available = True, ko_warnings = new_lines (ks_lines before) (ks_lines after),
                               ko_error = None\<rparr>))"

record 'w KernelLogCollector =
  kl_snapshot :: "('w, KernelLogSnapshot) io"
  kl_observe :: "KernelLogSnapshot \<Rightarrow> ('w, KernelLogObservation) io"

definition dmesg_snapshot :: "'w command_runner \<Rightarrow> ('w, KernelLogSnapshot) io" where
  "dmesg_snapshot run = dmesg_read run"

text \<open>\<open>DmesgKernelLogCollector(command_runner)\<close> with its two methods\<close>

definition dmesg_collector :: "'w command_runner \<Rightarrow> 'w KernelLogCollector" where
  "dmesg_collector run = \<lparr>kl_snapshot = dmesg_snapshot run, kl_observe = dmesg_observe run\<rparr>"

section \<open>The overlap\<close>

lemma find_overlap_le: "find_overlap before after n \<le> n"
  by (induction n) auto

lemma find_overlap_matches:
  "k = find_overlap before after n \<Longrightarrow> 0 < k \<Longrightarrow> drop (length before - k) before = take k after"
  by (induction n) (auto split: if_splits)

lemma find_overlap_maximal:
  "0 < k \<Longrightarrow> k \<le> n \<Longrightarrow> drop (length before - k) before = take k after \<Longrightarrow> k \<le> find_overlap before after n"
  by (induction n) (auto simp: le_Suc_eq)

lemma new_lines_append: "new_lines before (before @ new) = new"
proof (cases before)
  case Nil
  then show ?thesis by (simp add: new_lines_def)
next
  case (Cons l ls)
  have "find_overlap before (before @ new) (length before) = length before"
    using find_overlap_maximal [of "length before" "length before" before "before @ new"]
      find_overlap_le [of before "before @ new" "length before"] Cons by simp
  then show ?thesis by (simp add: new_lines_def)
qed

lemma new_lines_rotated: "suffix (new_lines before (drop j before @ new)) new"
proof (cases "j < length before")
  case True
  let ?after = "drop j before @ new" and ?k = "length before - j"
  have "?k \<le> find_overlap before ?after (min (length before) (length ?after))"
    using True by (intro find_overlap_maximal) auto
  then have "suffix (new_lines before ?after) (drop ?k ?after)"
    unfolding new_lines_def by (metis suffix_drop drop_drop le_add_diff_inverse2)
  then show ?thesis using True by simp
next
  case False
  then show ?thesis by (simp add: new_lines_def suffix_drop)
qed

section \<open>Properties\<close>

text \<open>
  C24. The kernel-log observation never reports old lines: if the log still contains everything read
  before, the warnings are exactly the lines added since; if the kernel has dropped any number of its
  oldest lines, the warnings are a suffix of the lines added since.
\<close>

theorem observe_new_warnings:
  assumes "run dmesg_command w = (Inr \<lparr>cp_returncode = 0, cp_stdout = out, cp_stderr = err\<rparr>, w')"
    and "splitlines out = drop j (ks_lines before) @ new" and "ks_error before = None"
  shows "\<exists>ws. dmesg_observe run before w = (Inr \<lparr>ko_available = True, ko_warnings = ws, ko_error = None\<rparr>, w') \<and>
    suffix ws new \<and> (j = 0 \<longrightarrow> ws = new)"
  using assms new_lines_rotated [of "ks_lines before" j new] new_lines_append [of "ks_lines before" new]
  by (auto simp: dmesg_observe_def dmesg_read_def snapshot_of_def io_bind_def io_catch_def io_return_def)

theorem observe_new_warnings_witness:
  "\<exists>ws. dmesg_observe (\<lambda>_ w. (Inr \<lparr>cp_returncode = 0, cp_stdout = lit ''b'' @ [10] @ lit ''c'', cp_stderr = []\<rparr>, w))
      \<lparr>ks_lines = [lit ''a'', lit ''b''], ks_error = None\<rparr> () =
        (Inr \<lparr>ko_available = True, ko_warnings = ws, ko_error = None\<rparr>, ()) \<and> suffix ws [lit ''c'']"
  using observe_new_warnings [of "\<lambda>_ w. (Inr \<lparr>cp_returncode = 0, cp_stdout = lit ''b'' @ [10] @ lit ''c'', cp_stderr = []\<rparr>, w)"
      "()" "lit ''b'' @ [10] @ lit ''c''" "[]" "()" 1 "\<lparr>ks_lines = [lit ''a'', lit ''b''], ks_error = None\<rparr>" "[lit ''c'']"]
  by (auto simp: splitlines_def is_linebreak_def lit_def)

end
