(* ===== verification/Runner.thy ===== *)
theory Runner
  imports Scenario Scheduler Process Kernel_Log
begin

text \<open>
  \<open>ScenarioRunner\<close> of \<open>src/vdevlab/runner.py\<close>: one run of a scenario from the kernel-log snapshot to
  the observation, with the cleanup of the device on the way out. The factories, the clock and the
  collector are what the constructor receives.
\<close>

record ScenarioRunResult =
  sr_scenario_name :: pystr
  sr_dispatches :: "DispatchRecord list"
  sr_application :: ApplicationResult
  sr_kernel_warnings :: "pystr list"
  sr_kernel_log_available :: bool
  sr_kernel_log_error :: "pystr option"

text \<open>The attributes of a runner; the scheduler is a \<open>ScenarioScheduler\<close> on a clock and a sleeper.\<close>

record 'w ScenarioRunner =
  rn_backend_factory :: "pystr \<Rightarrow> ('w, 'w DeviceBackend) io"
  rn_application_factory :: "pystr list \<Rightarrow> pystr option \<Rightarrow> ('w, 'w Application) io"
  rn_timing :: "'w timing"
  rn_clock :: "('w, rat) io"
  rn_terminate_grace_ms :: pyval
  rn_kernel_log_collector :: "'w KernelLogCollector"

text \<open>\<open>__init__\<close> checks the grace period; \<open>None\<close> passes that check.\<close>

definition runner_init :: "'w ScenarioRunner \<Rightarrow> pyexc + 'w ScenarioRunner" where
  "runner_init runner =
     rbind (timeout_seconds (rn_terminate_grace_ms runner) (lit ''terminate_grace_ms'')) (\<lambda>_. Inr runner)"

text \<open>\<open>try\<close> with the outcome as a value\<close>

definition io_try :: "('w, 'a) io \<Rightarrow> ('w, pyexc + 'a) io" where
  "io_try m = (\<lambda>w. case m w of (r, w') \<Rightarrow> (Inr r, w'))"

lemma io_try_iff [res_iff]: "io_try m w = (r, w') \<longleftrightarrow> (\<exists>q. m w = (q, w') \<and> r = Inr q)"
  by (auto simp: io_try_def split: prod.splits)

definition cleanup_backend :: "'w DeviceBackend \<Rightarrow> bool \<Rightarrow> ('w, unit) io" where
  "cleanup_backend backend suppress_errors =
     io_bind (io_try (db_reset backend)) (\<lambda>r1.
     io_bind (io_try (case db_close backend of None \<Rightarrow> io_return () | Some close \<Rightarrow> close)) (\<lambda>r2.
     if (\<not> isl r1 \<and> \<not> isl r2) \<or> suppress_errors then io_return ()
     else io_raise (RunnerError (lit ''failed to reset and close device backend''))))"

definition kernel_log_required :: "ScenarioDefinition \<Rightarrow> bool" where
  "kernel_log_required scenario \<longleftrightarrow>
     list_ex (\<lambda>assertion. dget assertion (lit ''type'') = PStr (lit ''kernel_warnings'')) (sd_assertions scenario)"

text \<open>The body of the \<open>try\<close> after the application has been started\<close>

definition run_body ::
  "interpreter \<Rightarrow> 'w ScenarioRunner \<Rightarrow> ScenarioDefinition \<Rightarrow> 'w DeviceBackend \<Rightarrow> rat \<Rightarrow> 'w Application \<Rightarrow>
     ('w, ScenarioRunResult) io" where
  "run_body ip runner scenario backend started application =
     io_bind (scheduler_run ip (rn_timing runner) backend (sd_events scenario)) (\<lambda>dispatches.
     io_bind (rn_clock runner) (\<lambda>now.
     let remaining_ms = sd_timeout_ms scenario - fl_int (fl_mul (fl_sub now started) 1000) in
     io_bind
       (if remaining_ms \<le> 0 then
          io_bind (ap_terminate application (rn_terminate_grace_ms runner)) (\<lambda>result.
          io_return (result\<lparr>ar_timed_out := True\<rparr>))
        else ap_collect_with_timeout application (PInt remaining_ms) (rn_terminate_grace_ms runner))
       (\<lambda>application_result.
     io_return \<lparr>sr_scenario_name = sd_name scenario, sr_dispatches = dispatches, sr_application = application_result,
                sr_kernel_warnings = [], sr_kernel_log_available = False, sr_kernel_log_error = None\<rparr>)))"

text \<open>The handler \<open>except BaseException\<close>, which ends with \<open>raise\<close>\<close>

definition run_handler ::
  "'w ScenarioRunner \<Rightarrow> 'w DeviceBackend \<Rightarrow> 'w Application option \<Rightarrow> pyexc \<Rightarrow> ('w, ScenarioRunResult) io" where
  "run_handler runner backend application error =
     io_bind
       (case application of
          None \<Rightarrow> io_return ()
        | Some app \<Rightarrow>
            io_bind (ap_poll app) (\<lambda>status.
            if status = None
            then io_bind (ap_terminate app (rn_terminate_grace_ms runner)) (\<lambda>_. io_return ())
            else io_return ()))
       (\<lambda>_.
     io_bind (cleanup_backend backend True) (\<lambda>_. io_raise error))"

definition run_guarded ::
  "interpreter \<Rightarrow> 'w ScenarioRunner \<Rightarrow> ScenarioDefinition \<Rightarrow> pystr option \<Rightarrow> 'w DeviceBackend \<Rightarrow> rat \<Rightarrow>
     ('w, ScenarioRunResult) io" where
  "run_guarded ip runner scenario cwd backend started =
     io_bind (io_try (rn_application_factory runner (sd_command scenario) cwd)) (\<lambda>started_app.
     case started_app of
       Inl e \<Rightarrow> run_handler runner backend None e
     | Inr app \<Rightarrow>
         io_bind (io_try (run_body ip runner scenario backend started app)) (\<lambda>outcome.
         case outcome of
           Inl e \<Rightarrow> run_handler runner backend (Some app) e
         | Inr result \<Rightarrow> io_return result))"

definition observe_warnings ::
  "'w ScenarioRunner \<Rightarrow> KernelLogSnapshot option \<Rightarrow> ScenarioRunResult \<Rightarrow> ('w, ScenarioRunResult) io" where
  "observe_warnings runner snapshot result =
     (case snapshot of
        None \<Rightarrow> io_return result
      | Some before \<Rightarrow>
          io_bind (kl_observe (rn_kernel_log_collector runner) before) (\<lambda>observation.
          io_return (result\<lparr>sr_kernel_warnings := ko_warnings observation,
                            sr_kernel_log_available := ko_available observation,
                            sr_kernel_log_error := ko_error observation\<rparr>)))"

definition runner_run ::
  "interpreter \<Rightarrow> 'w ScenarioRunner \<Rightarrow> ScenarioDefinition \<Rightarrow> pystr option \<Rightarrow> ('w, ScenarioRunResult) io" where
  "runner_run ip runner scenario cwd =
     io_bind
       (if kernel_log_required scenario
        then io_bind (kl_snapshot (rn_kernel_log_collector runner)) (\<lambda>s. io_return (Some s))
        else io_return None)
       (\<lambda>kernel_snapshot.
     io_bind (rn_backend_factory runner (sd_device_path scenario)) (\<lambda>backend.
     io_bind (rn_clock runner) (\<lambda>started.
     io_bind (run_guarded ip runner scenario cwd backend started) (\<lambda>result.
     io_bind (cleanup_backend backend False) (\<lambda>_.
     observe_warnings runner kernel_snapshot result)))))"

end
