(* ===== verification/Runner_Props.thy ===== *)
theory Runner_Props
  imports Runner Scheduler_Props Process_Props Scenario_Props
begin

text \<open>
  The cleanup contract of the runner: once the backend is open, the device is reset and closed on every
  way out, as long as polling and terminating the application do not raise; when they do, it is left
  open. The contracts of its environment, with and without that proviso, are locales; the machine
  provides them.
\<close>

section \<open>The interface\<close>

lemma keeps_try [io_keeps]: "keeps P m \<Longrightarrow> keeps P (io_try m)"
  by (fastforce simp: keeps_def io_try_def split: prod.splits)

text \<open>The scheduler keeps what its clock, its sleeper and the backend keep.\<close>

lemma scheduler_run_keeps:
  assumes clock: "keeps P (tm_clock tm)" and sleeper: "\<And>s. keeps P (tm_sleeper tm s)"
    and dispatch: "\<And>ev. keeps P (dispatch ip backend ev)"
  shows "keeps P (scheduler_run ip tm backend evs)"
proof -
  have event: "keeps P (run_event ip tm backend origin i ev)" for origin i ev
    unfolding run_event_def wrap_dispatch_def Let_def by (intro io_keeps clock sleeper dispatch)
  have "keeps P (run_events ip tm backend origin i evs)" for origin i
    by (induction evs arbitrary: i) (auto intro!: io_keeps event)
  then show ?thesis unfolding scheduler_run_def by (intro io_keeps clock)
qed

text \<open>The handler of a failed run does not get past the application: polling it raises, or terminating it does.\<close>

definition stop_fails :: "'w ScenarioRunner \<Rightarrow> 'w Application \<Rightarrow> 'w \<Rightarrow> pyexc \<Rightarrow> 'w \<Rightarrow> bool" where
  "stop_fails runner app w e w' \<longleftrightarrow>
     ap_poll app w = (Inl e, w') \<or>
     (\<exists>w1. ap_poll app w = (Inr None, w1) \<and> ap_terminate app (rn_terminate_grace_ms runner) w1 = (Inl e, w'))"

text \<open>The steps of a run up to the application\<close>

definition run_start ::
  "'w ScenarioRunner \<Rightarrow> ScenarioDefinition \<Rightarrow> pystr option \<Rightarrow> ('w, 'w DeviceBackend \<times> rat \<times> 'w Application) io" where
  "run_start runner scenario cwd =
     io_bind
       (if kernel_log_required scenario
        then io_bind (kl_snapshot (rn_kernel_log_collector runner)) (\<lambda>s. io_return (Some s))
        else io_return None) (\<lambda>_.
     io_bind (rn_backend_factory runner (sd_device_path scenario)) (\<lambda>backend.
     io_bind (rn_clock runner) (\<lambda>started.
     io_bind (rn_application_factory runner (sd_command scenario) cwd) (\<lambda>app. io_return (backend, started, app)))))"

lemma io_bind_Inr_iff: "io_bind m f w = (Inr y, w') \<longleftrightarrow> (\<exists>x w1. m w = (Inr x, w1) \<and> f x w1 = (Inr y, w'))"
  by (auto simp: io_bind_def split: prod.splits sum.splits)



locale open_session =
  fixes ip :: interpreter and runner :: "'w ScenarioRunner"
    and provided :: "'w DeviceBackend \<Rightarrow> bool" and started :: "'w Application \<Rightarrow> bool"
    and opened released :: "'w \<Rightarrow> bool"
  assumes backend_factory: "rn_backend_factory runner path w = (Inr backend, w') \<Longrightarrow> opened w' \<and> provided backend"
    and dispatch_keeps: "provided backend \<Longrightarrow> keeps opened (dispatch ip backend ev)"
    and timing_keeps: "keeps opened (tm_clock (rn_timing runner))" "keeps opened (tm_sleeper (rn_timing runner) s)"
    and clock_keeps: "keeps opened (rn_clock runner)"
    and application_factory: "opened w \<Longrightarrow> rn_application_factory runner cmd cwd w = (r, w') \<Longrightarrow>
      opened w' \<and> (\<forall>app. r = Inr app \<longrightarrow> started app)"
    and poll_keeps: "started app \<Longrightarrow> keeps opened (ap_poll app)"
    and terminate_keeps: "started app \<Longrightarrow> keeps opened (ap_terminate app (rn_terminate_grace_ms runner))"
    and collect_keeps: "started app \<Longrightarrow> keeps opened (ap_collect_with_timeout app n (rn_terminate_grace_ms runner))"
    and cleanup_releases: "provided backend \<Longrightarrow> opened w \<Longrightarrow> released (snd (cleanup_backend backend suppress w))"
    and observe_keeps: "keeps released (kl_observe (rn_kernel_log_collector runner) snap)"
begin

lemma run_body_keeps:
  assumes "provided backend" "started app"
  shows "keeps opened (run_body ip runner scenario backend time app)"
proof -
  have "keeps opened (scheduler_run ip (rn_timing runner) backend (sd_events scenario))"
    by (intro scheduler_run_keeps timing_keeps dispatch_keeps assms)
  then show ?thesis
    unfolding run_body_def Let_def by (intro io_keeps clock_keeps terminate_keeps collect_keeps assms)
qed

lemma stop_fails_opened: "started app \<Longrightarrow> opened w \<Longrightarrow> stop_fails runner app w e w' \<Longrightarrow> opened w'"
  using keepsD [OF poll_keeps] keepsD [OF terminate_keeps] unfolding stop_fails_def by blast

text \<open>The handler cleans up and raises the exception it caught, or does not get past the application.\<close>

lemma run_handler_cases:
  assumes "provided backend" "opened w" "\<forall>app. application = Some app \<longrightarrow> started app"
    "run_handler runner backend application e w = (r, w')"
  obtains "released w'" "r = Inl e" | app e' where "application = Some app" "r = Inl e'" "stop_fails runner app w e' w'"
proof -
  have clean: "released w' \<and> r = Inl e"
    if "io_bind (cleanup_backend backend True) (\<lambda>_. io_raise e) w1 = (r, w')" "opened w1" for w1
  proof -
    obtain q w2 where q: "cleanup_backend backend True w1 = (q, w2)" by fastforce
    then have "q = Inr ()" by (auto simp: cleanup_backend_def io_bind_def io_try_def io_return_def split: prod.splits)
    with that q cleanup_releases [OF assms(1) that(2), of True] show ?thesis by (simp add: io_bind_def io_raise_def)
  qed
  show thesis
  proof (cases application)
    case None
    with assms(4) clean [of w] assms(2) that(1) show ?thesis by (simp add: run_handler_def io_bind_def io_return_def)
  next
    case (Some app)
    with assms(3) have app: "started app" by simp
    obtain p w1 where p: "ap_poll app w = (p, w1)" by fastforce
    then have w1: "opened w1" using keepsD [OF poll_keeps [OF app] assms(2)] by blast
    obtain q w2 where q: "ap_terminate app (rn_terminate_grace_ms runner) w1 = (q, w2)" by fastforce
    then have w2: "opened w2" using keepsD [OF terminate_keeps [OF app] w1] by blast
    consider e' where "p = Inl e'" | st where "p = Inr (Some st)" | e' where "p = Inr None" "q = Inl e'"
      | res where "p = Inr None" "q = Inr res"
      by (cases p; cases "projr p"; cases q) auto
    then show ?thesis
    proof cases
      case 1
      with p Some assms(4) show ?thesis by (intro that(2)) (auto simp: run_handler_def io_bind_def stop_fails_def)
    next
      case 2
      with p Some assms(4) have "io_bind (cleanup_backend backend True) (\<lambda>_. io_raise e) w1 = (r, w')"
        by (simp add: run_handler_def io_bind_def io_return_def)
      from clean [OF this w1] show ?thesis by (intro that(1)) simp_all
    next
      case 3
      with p q Some assms(4) show ?thesis by (intro that(2)) (auto simp: run_handler_def io_bind_def stop_fails_def)
    next
      case 4
      with p q Some assms(4) have "io_bind (cleanup_backend backend True) (\<lambda>_. io_raise e) w2 = (r, w')"
        by (simp add: run_handler_def io_bind_def io_return_def)
      from clean [OF this w2] show ?thesis by (intro that(1)) simp_all
    qed
  qed
qed

lemma run_guarded_cases:
  assumes "provided backend" "opened w" "run_guarded ip runner scenario cwd backend time w = (r, w')"
  obtains e where "r = Inl e" "released w'" | result where "r = Inr result" "opened w'"
    | e app w1 where "r = Inl e" "started app" "opened w1" "stop_fails runner app w1 e w'"
proof -
  obtain a w1 where a: "rn_application_factory runner (sd_command scenario) cwd w = (a, w1)" by fastforce
  note fac = application_factory [OF assms(2) a]
  show thesis
  proof (cases a)
    case (Inl e)
    then have "run_handler runner backend None e w1 = (r, w')"
      using assms(3) a by (simp add: run_guarded_def io_bind_def io_try_def)
    then show ?thesis using fac by (elim run_handler_cases [OF assms(1), rotated 2]) (simp_all add: that(1))
  next
    case (Inr app)
    obtain b w2 where b: "run_body ip runner scenario backend time app w1 = (b, w2)" by fastforce
    with fac Inr have op: "opened w2" "started app" using keepsD [OF run_body_keeps [OF assms(1)] _ b] by auto
    show ?thesis
    proof (cases b)
      case (Inl e)
      then have "run_handler runner backend (Some app) e w2 = (r, w')"
        using assms(3) a b Inr by (simp add: run_guarded_def io_bind_def io_try_def)
      then show ?thesis
        by (rule run_handler_cases [OF assms(1) op(1), rotated]) (use op that in auto)
    next
      case (Inr result)
      then show ?thesis
        using assms(3) a b \<open>a = Inr app\<close> op by (intro that(2)) (auto simp: run_guarded_def io_bind_def io_try_def io_return_def)
    qed
  qed
qed

text \<open>The device after a run whose backend was open: released, or left open with an exception of the clock or the application\<close>

definition left_open :: "pyexc + ScenarioRunResult \<Rightarrow> 'w \<Rightarrow> bool" where
  "left_open r w' \<longleftrightarrow> (\<exists>e. r = Inl e \<and> opened w' \<and>
     ((\<exists>w1. opened w1 \<and> rn_clock runner w1 = (Inl e, w')) \<or>
      (\<exists>app w1. started app \<and> opened w1 \<and> stop_fails runner app w1 e w')))"

lemma run_ends:
  assumes "provided backend" "opened w3"
    "io_bind (run_guarded ip runner scenario cwd backend time) (\<lambda>result.
       io_bind (cleanup_backend backend False) (\<lambda>_. observe_warnings runner snap result)) w3 = (r, w')"
  shows "released w' \<or> left_open r w'"
proof -
  obtain g w4 where g: "run_guarded ip runner scenario cwd backend time w3 = (g, w4)" by fastforce
  have keep: "keeps released (observe_warnings runner snap result)" for result
    unfolding observe_warnings_def by (cases snap) (auto intro!: io_keeps observe_keeps)
  from assms(1,2) g show ?thesis
  proof (cases rule: run_guarded_cases)
    case (1 e)
    then show ?thesis using assms(3) g by (simp add: io_bind_def)
  next
    case (2 result)
    obtain c w5 where c: "cleanup_backend backend False w4 = (c, w5)" by fastforce
    then have "released w5" using cleanup_releases [OF assms(1) 2(2), of False] by simp
    then show ?thesis using assms(3) g 2 c keepsD [OF keep [of result], of w5] by (cases c) (auto simp: io_bind_def)
  next
    case (3 e app w1)
    then have "r = Inl e" "w' = w4" using assms(3) g by (simp_all add: io_bind_def)
    with 3 stop_fails_opened [OF 3(2,3,4)] show ?thesis unfolding left_open_def by blast
  qed
qed

lemma runner_run_cases:
  assumes "runner_run ip runner scenario cwd w = (r, w')"
  shows "released w' \<or> (\<exists>e. r = Inl e \<and> (\<exists>w1. rn_backend_factory runner (sd_device_path scenario) w1 = (Inl e, w')))
    \<or> (\<exists>e. r = Inl e \<and> kernel_log_required scenario \<and> kl_snapshot (rn_kernel_log_collector runner) w = (Inl e, w'))
    \<or> left_open r w'"
proof -
  let ?snap = "if kernel_log_required scenario
        then io_bind (kl_snapshot (rn_kernel_log_collector runner)) (\<lambda>s. io_return (Some s)) else io_return None"
  obtain s w1 where s: "?snap w = (s, w1)" by fastforce
  show ?thesis
  proof (cases s)
    case (Inl e)
    then show ?thesis
      using assms s by (auto simp: runner_run_def io_bind_def io_return_def split: if_splits prod.splits sum.splits)
  next
    case (Inr snap)
    obtain b w2 where b: "rn_backend_factory runner (sd_device_path scenario) w1 = (b, w2)" by fastforce
    show ?thesis
    proof (cases b)
      case (Inl e)
      then show ?thesis using assms s b Inr by (auto simp: runner_run_def io_bind_def)
    next
      case (Inr backend)
      with b backend_factory have op: "opened w2" "provided backend" by blast+
      obtain t w3 where t: "rn_clock runner w2 = (t, w3)" by fastforce
      then have w3: "opened w3" using keepsD [OF clock_keeps op(1)] by blast
      have run: "runner_run ip runner scenario cwd w =
          (case t of Inl e \<Rightarrow> (Inl e, w3) | Inr time \<Rightarrow> io_bind (run_guarded ip runner scenario cwd backend time) (\<lambda>result.
             io_bind (cleanup_backend backend False) (\<lambda>_. observe_warnings runner snap result)) w3)"
        using s b t \<open>s = Inr snap\<close> \<open>b = Inr backend\<close> by (cases t) (simp_all add: runner_run_def io_bind_def)
      show ?thesis
      proof (cases t)
        case (Inl e)
        with run assms t op w3 have "left_open r w'" unfolding left_open_def by auto
        then show ?thesis by blast
      next
        case (Inr time)
        with run assms run_ends [OF op(2) w3, of scenario cwd time snap r w'] show ?thesis by auto
      qed
    qed
  qed
qed

lemma run_start_opened:
  assumes "run_start runner scenario cwd w = (Inr (backend, time, app), w3)"
  shows "provided backend \<and> started app \<and> opened w3"
proof -
  let ?snap = "if kernel_log_required scenario
        then io_bind (kl_snapshot (rn_kernel_log_collector runner)) (\<lambda>s. io_return (Some s)) else io_return None"
  from assms obtain w0 w1 w2 where
    b: "rn_backend_factory runner (sd_device_path scenario) w0 = (Inr backend, w1)"
    and c: "rn_clock runner w1 = (Inr time, w2)" and a: "rn_application_factory runner (sd_command scenario) cwd w2 = (Inr app, w3)"
    unfolding run_start_def io_bind_Inr_iff [of ?snap] io_bind_Inr_iff by (auto simp: io_return_def)
  from backend_factory [OF b] have "opened w2" using keepsD [OF clock_keeps _ c] by blast
  with backend_factory [OF b] application_factory [OF _ a] show ?thesis by blast
qed

lemma failed_run_left_open:
  assumes "run_start runner scenario cwd w = (Inr (backend, time, app), w3)"
    "run_body ip runner scenario backend time app w3 = (Inl e, w4)" "stop_fails runner app w4 e' w5"
  shows "opened w5"
  using run_start_opened [OF assms(1)] keepsD [OF run_body_keeps _ assms(2)] stop_fails_opened [OF _ _ assms(3)] by blast

end

text \<open>Where the clock reads, and polling and terminating the application do not raise, the device is released.\<close>

locale device_session =
  fixes ip :: interpreter and runner :: "'w ScenarioRunner"
    and provided :: "'w DeviceBackend \<Rightarrow> bool" and calm :: "'w Application \<Rightarrow> bool"
    and opened released :: "'w \<Rightarrow> bool"
  assumes backend_factory: "rn_backend_factory runner path w = (Inr backend, w') \<Longrightarrow> opened w' \<and> provided backend"
    and dispatch_keeps: "provided backend \<Longrightarrow> keeps opened (dispatch ip backend ev)"
    and timing_keeps: "keeps opened (tm_clock (rn_timing runner))" "keeps opened (tm_sleeper (rn_timing runner) s)"
    and clock_reads: "opened w \<Longrightarrow> \<exists>t w'. rn_clock runner w = (Inr t, w') \<and> opened w'"
    and application_factory: "opened w \<Longrightarrow> rn_application_factory runner cmd cwd w = (r, w') \<Longrightarrow>
      opened w' \<and> (\<forall>app. r = Inr app \<longrightarrow> calm app)"
    and poll_calm: "calm app \<Longrightarrow> opened w \<Longrightarrow> \<exists>st w'. ap_poll app w = (Inr st, w') \<and> opened w'"
    and terminate_calm: "calm app \<Longrightarrow> opened w \<Longrightarrow>
      \<exists>res w'. ap_terminate app (rn_terminate_grace_ms runner) w = (Inr res, w') \<and> opened w'"
    and collect_keeps: "calm app \<Longrightarrow> keeps opened (ap_collect_with_timeout app n (rn_terminate_grace_ms runner))"
    and cleanup_releases: "provided backend \<Longrightarrow> opened w \<Longrightarrow> released (snd (cleanup_backend backend suppress w))"
    and observe_keeps: "keeps released (kl_observe (rn_kernel_log_collector runner) snap)"

sublocale device_session \<subseteq> session: open_session ip runner provided calm opened released
proof unfold_locales
  show "keeps opened (rn_clock runner)" using clock_reads by (fastforce simp: keeps_def)
  show "keeps opened (ap_poll app)" if "calm app" for app
    using poll_calm [OF that] by (fastforce simp: keeps_def)
  show "keeps opened (ap_terminate app (rn_terminate_grace_ms runner))" if "calm app" for app
    using terminate_calm [OF that] by (fastforce simp: keeps_def)
qed (fact backend_factory dispatch_keeps timing_keeps application_factory collect_keeps cleanup_releases observe_keeps)+

context device_session
begin

lemma calm_stops: "calm app \<Longrightarrow> opened w \<Longrightarrow> \<not> stop_fails runner app w e w'"
proof
  assume "calm app" "opened w" "stop_fails runner app w e w'"
  moreover from this obtain st w1 where "ap_poll app w = (Inr st, w1)" "opened w1" using poll_calm by blast
  moreover from this \<open>calm app\<close> obtain res w2 where "ap_terminate app (rn_terminate_grace_ms runner) w1 = (Inr res, w2)"
    using terminate_calm by blast
  ultimately show False by (auto simp: stop_fails_def)
qed

lemma runner_run_releases:
  assumes "runner_run ip runner scenario cwd w = (r, w')"
  shows "released w' \<or> (\<exists>e. r = Inl e \<and> (\<exists>w1. rn_backend_factory runner (sd_device_path scenario) w1 = (Inl e, w')))
    \<or> (\<exists>e. r = Inl e \<and> kernel_log_required scenario \<and> kl_snapshot (rn_kernel_log_collector runner) w = (Inl e, w'))"
proof -
  have "\<not> session.left_open r w'"
    unfolding session.left_open_def using clock_reads calm_stops by (metis Inl_Inr_False prod.inject)
  with session.runner_run_cases [OF assms] show ?thesis by blast
qed

end

section \<open>The runner on the machine\<close>

definition lift_application :: "'o Application \<Rightarrow> ('x \<times> 'o) Application" where
  "lift_application app =
     \<lparr>ap_poll = io_snd (ap_poll app), ap_terminate = (\<lambda>g. io_snd (ap_terminate app g)),
      ap_collect_with_timeout = (\<lambda>t g. io_snd (ap_collect_with_timeout app t g))\<rparr>"

text \<open>\<open>LinuxDeviceBackend(path)\<close> replaces the object of the world.\<close>

definition open_backend ::
  "byteorder \<Rightarrow> nat \<Rightarrow> pystr \<Rightarrow> (LinuxDeviceBackend \<times> machine, (LinuxDeviceBackend \<times> machine) DeviceBackend) io" where
  "open_backend order fuel path =
     io_bind (io_snd (linux_init (machine_os order) path)) (\<lambda>self.
     io_bind (io_set self) (\<lambda>_.
     io_return (linux_backend (machine_os order) fuel)))"

definition start_application ::
  "pystr list \<Rightarrow> pystr option \<Rightarrow> (LinuxDeviceBackend \<times> machine, (LinuxDeviceBackend \<times> machine) Application) io" where
  "start_application command cwd =
     io_bind (io_snd (process_init machine_process command cwd)) (\<lambda>self.
     io_return (lift_application (process_application machine_process self)))"

definition machine_runner :: "byteorder \<Rightarrow> nat \<Rightarrow> (LinuxDeviceBackend \<times> machine) ScenarioRunner" where
  "machine_runner order fuel =
     \<lparr>rn_backend_factory = open_backend order fuel, rn_application_factory = start_application,
      rn_timing = machine_timing, rn_clock = tm_clock machine_timing, rn_terminate_grace_ms = PInt 1000,
      rn_kernel_log_collector =
        dmesg_collector (\<lambda>_. io_return \<lparr>cp_returncode = 0, cp_stdout = [], cp_stderr = []\<rparr>)\<rparr>"

definition is_open :: "LinuxDeviceBackend \<times> machine \<Rightarrow> bool" where
  "is_open w \<longleftrightarrow> lb_fd (fst w) \<noteq> None"

definition is_released :: "LinuxDeviceBackend \<times> machine \<Rightarrow> bool" where
  "is_released w \<longleftrightarrow> lb_fd (fst w) = None \<and> mc_device (snd w) = vdevlab_init"

lemma keeps_open_snd [io_keeps]: "keeps is_open (io_snd m)"
  by (auto simp: keeps_def is_open_def io_snd_def split: prod.splits)

lemma keeps_open_self [io_keeps]: "keeps is_open io_self"
  by (auto simp: keeps_def is_open_def io_self_def)

lemma keeps_open_fileno [io_keeps]: "keeps is_open linux_fileno"
proof -
  have "keeps is_open (case lb_fd self of None \<Rightarrow> io_raise e | Some fd \<Rightarrow> io_return fd)" for self e
    by (cases "lb_fd self") (auto intro: io_keeps)
  then show ?thesis unfolding linux_fileno_def by (intro io_keeps)
qed

lemma keeps_open_ioctl [io_keeps]: "keeps is_open (system_ioctl os request arg)"
  unfolding system_ioctl_def by (intro io_keeps)

lemma keeps_open_write_loop [io_keeps]: "keeps is_open (linux_write_loop os fuel bs)"
proof (induction os fuel bs rule: linux_write_loop.induct)
  case (3 os fuel b bs)
  have "keeps is_open (write_once os (b # bs))" unfolding write_once_def by (intro io_keeps)
  moreover have "keeps is_open (case r of None \<Rightarrow> linux_write_loop os fuel (b # bs)
      | Some n \<Rightarrow> if n = 0 then io_raise no_progress else linux_write_loop os fuel (drop n (b # bs)))" for r
    using 3 by (cases r) (auto intro: io_keeps)
  ultimately show ?case by (simp only: linux_write_loop.simps) (intro io_keeps)
qed (auto intro: io_keeps)

lemma keeps_open_dispatch: "keeps is_open (dispatch ip (linux_backend os fuel) ev)"
proof -
  have "keeps is_open (linux_set_fault os c)" for c
    unfolding linux_set_fault_def by (cases "map_of FAULT_TYPES (fc_fault_type c)") (auto intro!: io_keeps)
  then show ?thesis
    by (cases "dget ev (lit ''data'')")
      (auto simp: dispatch_def Let_def linux_backend_def linux_reset_def linux_clear_fault_def linux_write_def intro!: io_keeps)
qed

text \<open>After \<open>SIGKILL\<close> the process has ended, so termination always returns a result.\<close>

lemma machine_process_simps:
  "po_nt machine_process = False"
  "po_poll machine_process m = (Inr (ch_status (mc_child m)), m)"
  "po_returncode machine_process m = (Inr (ch_status (mc_child m)), m)"
  "po_join machine_process = machine_join"
  "po_killpg machine_process = machine_killpg"
  "process_is_alive machine_process m = (Inr (ch_status (mc_child m) = None), m)"
  by (simp_all add: machine_process_def process_is_alive_def io_bind_def io_return_def machine_collector_def)

lemma machine_collect_ended:
  assumes "ch_status (mc_child m) \<noteq> None"
  shows "\<exists>res. process_collect machine_process self PNone m = (Inr res, m)"
proof -
  obtain out err where out: "ch_output (mc_child m) = (out, err)" by (cases "ch_output (mc_child m)")
  with assms have "machine_collector m = Ended (Inr (out, err))" by (auto simp: machine_collector_def)
  then have "\<exists>res. process_result machine_process self m = (Inr res, m)"
    using assms machine_child.result_iff [of self m _ m] by auto
  then show ?thesis
    using assms by (auto simp: process_collect_def timeout_seconds_def io_bind_def io_lift_def machine_process_simps machine_join_def)
qed

lemma machine_join_limited: "\<exists>m'. machine_join (Some s) m = (Inr (), m')"
  by (simp add: machine_join_def split: option.splits)

lemma machine_terminate_returns:
  "\<exists>res m'. process_terminate machine_process self (PInt 1000) m = (Inr res, m')"
proof -
  have grace: "timeout_seconds (PInt 1000) name = Inr (Some 1)" for name
    by (simp add: timeout_seconds_def fl_truediv_1000)
  show ?thesis
  proof (cases "ch_status (mc_child m) = None")
    case False
    with machine_collect_ended [of m self] show ?thesis
      by (auto simp: process_terminate_def grace io_bind_def io_lift_def machine_process_simps)
  next
    case True
    then obtain m1 where m1: "signal_group machine_process self False m = (Inr (), m1)"
      by (cases "ch_obeys (mc_child m)")
        (simp_all add: signal_group_def machine_process_simps io_catch_def machine_killpg_def SIGTERM_def SIGKILL_def)
    obtain m2 where m2: "machine_join (Some 1) m1 = (Inr (), m2)" using machine_join_limited by blast
    let ?kill = "if ch_status (mc_child m2) = None then signal_group machine_process self True else io_return ()"
    obtain m3 where m3: "?kill m2 = (Inr (), m3)" "ch_status (mc_child m3) \<noteq> None"
      by (cases "ch_status (mc_child m2) = None")
        (auto simp: signal_group_def machine_process_simps io_catch_def machine_killpg_def child_exit_def io_return_def)
    obtain res where res: "process_collect machine_process self PNone m3 = (Inr res, m3)"
      using machine_collect_ended [OF m3(2)] by blast
    show ?thesis
      using True m1 m2 m3 res
      by (simp add: process_terminate_def grace io_bind_def io_lift_def machine_process_simps io_return_def)
  qed
qed

lemma machine_cleanup_releases:
  assumes "is_open w"
  shows "is_released (snd (cleanup_backend (linux_backend (machine_os order) fuel) suppress w))"
proof -
  obtain b m where w: "w = (b, m)" by (cases w)
  with assms obtain fd where fd: "lb_fd b = Some fd" by (auto simp: is_open_def)
  let ?m = "m\<lparr>mc_device := vdevlab_init\<rparr>"
  have "linux_close (machine_os order) (b, ?m) = (Inr (), (b\<lparr>lb_fd := None\<rparr>, ?m))"
    by (simp add: linux_close_def io_bind_def io_self_def io_set_def fd io_snd_def machine_os_def io_return_def)
  then show ?thesis
    by (simp add: w cleanup_backend_def linux_backend_def io_bind_def io_try_def reset_machine [OF fd] io_return_def
        is_released_def)
qed

interpretation machine_session: device_session ip "machine_runner order fuel"
  "\<lambda>backend. backend = linux_backend (machine_os order) fuel"
  "\<lambda>app. \<exists>self. app = lift_application (process_application machine_process self)" is_open is_released
proof unfold_locales
  fix w w' :: "LinuxDeviceBackend \<times> machine" and path backend app cmd cwd r suppress snap ev s n
  show "is_open w' \<and> backend = linux_backend (machine_os order) fuel"
    if "rn_backend_factory (machine_runner order fuel) path w = (Inr backend, w')"
    using that
    by (cases w) (auto simp: machine_runner_def open_backend_def linux_init_def machine_os_def io_bind_def io_snd_def
        io_set_def io_return_def is_open_def)
  show "keeps is_open (dispatch ip backend ev)" if "backend = linux_backend (machine_os order) fuel"
    using that keeps_open_dispatch by simp
  show "keeps is_open (tm_clock (rn_timing (machine_runner order fuel)))"
    "keeps is_open (tm_sleeper (rn_timing (machine_runner order fuel)) s)"
    by (simp_all add: machine_runner_def machine_timing_def keeps_open_snd)
  show "\<exists>t w'. rn_clock (machine_runner order fuel) w = (Inr t, w') \<and> is_open w'" if "is_open w"
    using that by (cases w) (simp add: machine_runner_def machine_timing_def io_snd_def)
  show "is_open w' \<and> (\<forall>app. r = Inr app \<longrightarrow> (\<exists>self. app = lift_application (process_application machine_process self)))"
    if "is_open w" "rn_application_factory (machine_runner order fuel) cmd cwd w = (r, w')"
    using that
    by (cases w) (auto simp: machine_runner_def start_application_def process_init_def machine_process_def io_bind_def
        io_snd_def io_return_def io_raise_def is_open_def split: if_splits)
  show "\<exists>st w'. ap_poll app w = (Inr st, w') \<and> is_open w'"
    if "\<exists>self. app = lift_application (process_application machine_process self)" "is_open w"
    using that by (cases w) (auto simp: lift_application_def process_application_def machine_process_simps io_snd_def)
  show "\<exists>res w'. ap_terminate app (rn_terminate_grace_ms (machine_runner order fuel)) w = (Inr res, w') \<and> is_open w'"
    if "\<exists>self. app = lift_application (process_application machine_process self)" "is_open w"
  proof -
    from that obtain self where self: "app = lift_application (process_application machine_process self)" by blast
    obtain b m where w: "w = (b, m)" by (cases w)
    obtain res m' where "process_terminate machine_process self (PInt 1000) m = (Inr res, m')"
      using machine_terminate_returns by blast
    with self w that show ?thesis
      by (simp add: lift_application_def process_application_def machine_runner_def io_snd_def is_open_def)
  qed
  show "keeps is_open (ap_collect_with_timeout app n (rn_terminate_grace_ms (machine_runner order fuel)))"
    if "\<exists>self. app = lift_application (process_application machine_process self)"
    using that by (auto simp: lift_application_def keeps_open_snd)
  show "is_released (snd (cleanup_backend backend suppress w))"
    if "backend = linux_backend (machine_os order) fuel" "is_open w"
    using that machine_cleanup_releases by simp
  show "keeps is_released (kl_observe (rn_kernel_log_collector (machine_runner order fuel)) snap)"
    by (cases "ks_error snap")
      (auto simp: keeps_def machine_runner_def dmesg_collector_def dmesg_snapshot_def dmesg_observe_def dmesg_read_def snapshot_of_def io_bind_def
        io_catch_def io_return_def)
qed

section \<open>Properties\<close>

text \<open>
  C26. The device is released on every way out of a run: whatever the scenario, and whichever event,
  process or deadline fails, the run ends with the device reset and closed, unless the run raised
  before the backend was open. This needs an application whose \<open>poll\<close> and \<open>terminate\<close> do not raise.
\<close>

theorem runner_releases_device:
  assumes "device_session ip runner provided calm opened released"
    and "runner_run ip runner scenario cwd w = (r, w')"
  shows "released w' \<or> (\<exists>e. r = Inl e \<and> (\<exists>w1. rn_backend_factory runner (sd_device_path scenario) w1 = (Inl e, w')))
    \<or> (\<exists>e. r = Inl e \<and> kernel_log_required scenario \<and> kl_snapshot (rn_kernel_log_collector runner) w = (Inl e, w'))"
  using assms by (rule device_session.runner_run_releases)

theorem runner_releases_device_witness:
  "\<exists>r w'. runner_run demo_interpreter (machine_runner LittleEndian 4096) (normal_form (lit ''recovery.yaml'') recovery_spec) None
      (demo_backend, demo_machine) = (r, w') \<and> lb_fd (fst w') = None \<and> mc_device (snd w') = vdevlab_init"
proof -
  let ?sc = "normal_form (lit ''recovery.yaml'') recovery_spec"
  let ?runner = "machine_runner LittleEndian 4096"
  obtain r w' where run: "runner_run demo_interpreter ?runner ?sc None (demo_backend, demo_machine) = (r, w')"
    by (cases "runner_run demo_interpreter ?runner ?sc None (demo_backend, demo_machine)")
  moreover have "rn_backend_factory ?runner path w1 \<noteq> (Inl e, w')" for path w1 e
    by (cases w1) (auto simp: machine_runner_def open_backend_def linux_init_def machine_os_def io_bind_def io_snd_def
        io_set_def io_return_def)
  moreover have "kl_snapshot (rn_kernel_log_collector ?runner) w1 \<noteq> (Inl e, w')" for w1 e
    by (simp add: machine_runner_def dmesg_collector_def dmesg_snapshot_def dmesg_read_def io_bind_def io_catch_def io_return_def)
  ultimately show ?thesis
    using runner_releases_device [OF machine_session.device_session_axioms run] by (auto simp: is_released_def)
qed








end
