(* ===== verification/Py_Repr.thy ===== *)
theory Py_Repr
  imports Py_Json
begin

text \<open>
  \<open>float.__repr__\<close>: the shortest decimal digits that read back as the float, the closest of them, in
  positional notation for exponents from \<open>-4\<close> to \<open>15\<close> and in scientific notation otherwise. It is what
  \<open>json.dumps\<close> writes for a float; reading it gives the float back.
\<close>

section \<open>Floats are fixed by rounding\<close>

definition binary64 :: "rat \<Rightarrow> bool" where
  "binary64 q \<longleftrightarrow> rnd64 q = q \<and> \<bar>q\<bar> < pow2 1024"

lemma binary64_minus [simp]: "binary64 (- q) \<longleftrightarrow> binary64 q"
  by (auto simp: binary64_def rnd64_minus)

lemma binary64_0 [simp]: "binary64 0"
  by (simp add: binary64_def)

lemma ilog2_ge: "0 < c \<Longrightarrow> pow2 k \<le> c \<Longrightarrow> k \<le> ilog2 c"
proof (rule ccontr)
  assume c: "0 < c" "pow2 k \<le> c" "\<not> k \<le> ilog2 c"
  then have "pow2 (ilog2 c + 1) \<le> pow2 k" by (intro pow2_mono) simp
  with c ilog2_bounds(2) [of c] show False by simp
qed

lemma ilog2_less: "0 < c \<Longrightarrow> c < pow2 k \<Longrightarrow> ilog2 c < k"
proof (rule ccontr)
  assume c: "0 < c" "c < pow2 k" "\<not> ilog2 c < k"
  then have "pow2 k \<le> pow2 (ilog2 c)" by (intro pow2_mono) simp
  with c ilog2_bounds(1) [of c] show False by simp
qed

lemma rne_unique: "of_int m - 1/2 < q \<Longrightarrow> q < of_int m + 1/2 \<Longrightarrow> rne q = m"
proof -
  assume "of_int m - 1/2 < q" "q < of_int m + 1/2"
  then have "\<lfloor>q\<rfloor> = m \<and> q - of_int m < 1/2 \<or> \<lfloor>q\<rfloor> = m - 1 \<and> q - of_int (m - 1) > 1/2"
    by (auto simp: floor_eq_iff)
  then show ?thesis by (auto simp: rne_def Let_def)
qed

lemma scaled_near:
  fixes u :: rat
  assumes "0 < u"
  shows "x - c < u / 2 \<Longrightarrow> x / u - 1/2 < c / u" "c - x < u / 2 \<Longrightarrow> c / u < x / u + 1/2"
proof -
  assume "x - c < u / 2"
  then have "(x - u / 2) / u < c / u" using assms by (intro divide_strict_right_mono) simp_all
  then show "x / u - 1/2 < c / u" using assms by (simp add: diff_divide_distrib)
next
  assume "c - x < u / 2"
  then have "c / u < (x + u / 2) / u" using assms by (intro divide_strict_right_mono) simp_all
  then show "c / u < x / u + 1/2" using assms by (simp add: add_divide_distrib)
qed

lemma rnd64_posI:
  assumes "exp64 c = e" "of_int m - 1/2 < c / pow2 e" "c / pow2 e < of_int m + 1/2"
  shows "rnd64_pos c = of_int m * pow2 e"
  using rne_unique [OF assms(2,3)] assms(1) by (simp add: rnd64_pos_def)

lemma float_significand:
  assumes x: "0 < x" "rnd64_pos x = x"
  obtains m where "x = of_int m * pow2 (exp64 x)" "m + 1 \<le> 2 ^ 53" "- 1074 < exp64 x \<longrightarrow> 2 ^ 52 \<le> m"
proof -
  define m where "m = rne (x / pow2 (exp64 x))"
  have xm: "x = of_int m * pow2 (exp64 x)" using x(2) by (simp add: rnd64_pos_def m_def)
  then have mx: "of_int m = x / pow2 (exp64 x)" by (simp add: field_simps)
  have "(of_int m :: rat) < of_int (2 ^ 53)" using significand_less [OF x(1)] by (simp add: mx)
  then have "m + 1 \<le> 2 ^ 53" unfolding of_int_less_iff by simp
  moreover have "2 ^ 52 \<le> m" if "- 1074 < exp64 x"
  proof -
    have "(of_int (2 ^ 52) :: rat) \<le> of_int m" using significand_ge [OF x(1) that] by (simp add: mx)
    then show ?thesis unfolding of_int_le_iff .
  qed
  ultimately show ?thesis using that xm by blast
qed

lemma float_near_half:
  assumes "0 < x"
  shows "x / 2 ^ 54 < pow2 (exp64 x) / 2"
proof -
  have "x < 2 ^ 53 * pow2 (exp64 x)" using significand_less [OF assms] by (simp add: field_simps)
  then show ?thesis by simp
qed

lemma float_near_above:
  assumes x: "0 < x" "rnd64_pos x = x" and c: "x \<le> c" "c - x < x / 2 ^ 54"
  shows "exp64 c = exp64 x"
proof -
  from x obtain m where xm: "x = of_int m * pow2 (exp64 x)" and m: "m + 1 \<le> 2 ^ 53"
    by (rule float_significand)
  have "(of_int (m + 1) :: rat) \<le> of_int (2 ^ 53)" using m unfolding of_int_le_iff .
  then have m': "of_int m + 1 \<le> (2 ^ 53 :: rat)" by simp
  have "c < x + pow2 (exp64 x)" using c(2) float_near_half [OF x(1)] pow2_pos [of "exp64 x"] by linarith
  also have "\<dots> = (of_int m + 1) * pow2 (exp64 x)" by (subst (1) xm) (simp add: distrib_right)
  also have "\<dots> \<le> 2 ^ 53 * pow2 (exp64 x)" using m' by (intro mult_right_mono) (simp_all add: less_imp_le)
  also have "\<dots> = pow2 (exp64 x + 53)" using pow2_add_nat [of "exp64 x" 53] by simp
  finally have "ilog2 c < exp64 x + 53" using ilog2_less x(1) c(1) by simp
  moreover have "- 1074 \<le> exp64 x" by (simp add: exp64_def)
  ultimately have "exp64 c \<le> exp64 x" by (simp add: exp64_def [of c])
  with exp64_mono [OF x(1) c(1)] show ?thesis by simp
qed

text \<open>Below a power of two the gap to the next float is half as large.\<close>

lemma float_near_binade:
  assumes x: "0 < x" "rnd64_pos x = x" and c: "0 < c" "x - c < x / 2 ^ 54" and e: "exp64 c < exp64 x"
  shows "x = 2 ^ 53 * pow2 (exp64 x - 1)" "c < x" "exp64 c = exp64 x - 1"
proof -
  let ?e = "exp64 x"
  from e have normal: "- 1074 < ?e" by (simp add: exp64_def)
  from x obtain m where xm: "x = of_int m * pow2 ?e" and "- 1074 < ?e \<longrightarrow> 2 ^ 52 \<le> m"
    by (rule float_significand)
  with normal have m52: "2 ^ 52 \<le> m" by blast
  have c52: "c < 2 ^ 52 * pow2 ?e"
  proof (rule ccontr)
    assume "\<not> c < 2 ^ 52 * pow2 ?e"
    then have "pow2 (?e + 52) \<le> c" using pow2_add_nat [of ?e 52] by simp
    then have "?e + 52 \<le> ilog2 c" using c(1) ilog2_ge by simp
    then have "?e \<le> exp64 c" by (simp add: exp64_def [of c])
    with e show False by simp
  qed
  have "\<not> 2 ^ 52 + 1 \<le> m"
  proof
    assume "2 ^ 52 + 1 \<le> m"
    then have "(of_int (2 ^ 52 + 1) :: rat) \<le> of_int m" unfolding of_int_le_iff .
    then have "of_int (2 ^ 52 + 1) * pow2 ?e \<le> x" by (subst xm) (intro mult_right_mono, simp_all add: less_imp_le)
    then have "pow2 ?e < x - c" using c52 by simp
    with c(2) float_near_half [OF x(1)] pow2_pos [of ?e] show False by linarith
  qed
  with m52 have "m = 2 ^ 52" by simp
  moreover have "pow2 ?e = 2 * pow2 (?e - 1)" using pow2_Suc [of "?e - 1"] by simp
  ultimately show x': "x = 2 ^ 53 * pow2 (?e - 1)" using xm by simp
  with c52 \<open>pow2 ?e = 2 * pow2 (?e - 1)\<close> show "c < x" by simp
  have "pow2 (?e + 51) = 2 ^ 52 * pow2 (?e - 1)" using pow2_add_nat [of "?e - 1" 52] by (simp add: add.commute)
  moreover have "x - c < pow2 (?e - 1)" using c(2) float_near_half [OF x(1)] \<open>pow2 ?e = 2 * pow2 (?e - 1)\<close> by simp
  moreover have "2 ^ 52 * pow2 (?e - 1) + pow2 (?e - 1) \<le> x" by (subst x') (simp add: less_imp_le)
  ultimately have "pow2 (?e + 51) \<le> c" by linarith
  then have "?e + 51 \<le> ilog2 c" using c(1) ilog2_ge by blast
  with e normal show "exp64 c = ?e - 1" by (simp add: exp64_def [of c])
qed

text \<open>A decimal close enough to a float rounds to it.\<close>

lemma rnd64_pos_near:
  assumes x: "0 < x" "rnd64_pos x = x" and c: "0 < c" "\<bar>c - x\<bar> < x / 2 ^ 54"
  shows "rnd64_pos c = x"
proof (cases "exp64 c = exp64 x")
  case True
  from x obtain m where xm: "x = of_int m * pow2 (exp64 x)" by (rule float_significand)
  then have m: "of_int m = x / pow2 (exp64 x)" by (simp add: field_simps)
  have "c - x < pow2 (exp64 x) / 2" "x - c < pow2 (exp64 x) / 2"
    using c(2) float_near_half [OF x(1)] by linarith+
  then have "of_int m - 1/2 < c / pow2 (exp64 x)" "c / pow2 (exp64 x) < of_int m + 1/2"
    unfolding m by (simp_all add: scaled_near)
  with True have "rnd64_pos c = of_int m * pow2 (exp64 x)" by (rule rnd64_posI)
  then show ?thesis using xm by simp
next
  case False
  have "exp64 c < exp64 x"
  proof (cases "x \<le> c")
    case True
    with x c False float_near_above [of x c] show ?thesis by simp
  next
    case F: False
    with exp64_mono [of c x] c(1) False show ?thesis by simp
  qed
  moreover have "x - c < x / 2 ^ 54" using c(2) by linarith
  ultimately have x': "x = 2 ^ 53 * pow2 (exp64 x - 1)" and "c < x" and e: "exp64 c = exp64 x - 1"
    using float_near_binade [OF x c(1)] by auto
  have "x / 2 ^ 54 = pow2 (exp64 x - 1) / 2" by (subst x') simp
  then have "x - pow2 (exp64 x - 1) / 2 < c" using c(2) by linarith
  then have "of_int (2 ^ 53) - 1/2 < c / pow2 (exp64 x - 1)" "c / pow2 (exp64 x - 1) < of_int (2 ^ 53) + 1/2"
    using \<open>c < x\<close> x' pow2_pos [of "exp64 x - 1"] by (simp_all add: field_simps)
  with e have "rnd64_pos c = of_int (2 ^ 53) * pow2 (exp64 x - 1)" by (rule rnd64_posI)
  also have "\<dots> = x" by (subst (2) x') simp
  finally show ?thesis .
qed

lemma rnd64_near:
  assumes "0 < x" "rnd64 x = x" "0 < c" "\<bar>c - x\<bar> < x / 2 ^ 54"
  shows "rnd64 c = x"
  using rnd64_pos_near [of x c] assms by (simp add: rnd64_def)

text \<open>What rounding returns is a float.\<close>

lemma rnd64_pos_fixed_aux:
  assumes "0 < n" "n < 2 ^ 53" "- 1074 \<le> e"
  shows "rnd64_pos (of_int n * pow2 e) = of_int n * pow2 e"
proof -
  let ?r = "of_int n * pow2 e"
  have r: "0 < ?r" using assms(1) by simp
  have "(of_int n :: rat) < of_int (2 ^ 53)" using assms(2) unfolding of_int_less_iff .
  then have "?r < 2 ^ 53 * pow2 e" by simp
  also have "\<dots> = pow2 (e + 53)" using pow2_add_nat [of e 53] by simp
  finally have "ilog2 ?r < e + 53" using r ilog2_less by blast
  then have le: "exp64 ?r \<le> e" using assms(3) by (simp add: exp64_def)
  define f where "f = exp64 ?r"
  have "pow2 e = 2 ^ nat (e - f) * pow2 f"
    using pow2_add_nat [of f "nat (e - f)"] le by (simp add: f_def)
  then have "?r / pow2 f = of_int (n * 2 ^ nat (e - f))" by (simp add: field_simps)
  then have "rne (?r / pow2 f) = n * 2 ^ nat (e - f)" "?r = of_int (n * 2 ^ nat (e - f)) * pow2 f"
    by (metis rne_of_int, simp add: field_simps)
  then show ?thesis unfolding rnd64_pos_def f_def [symmetric] by metis
qed

lemma rnd64_pos_fixed:
  assumes "0 \<le> n" "n \<le> 2 ^ 53" "- 1074 \<le> e"
  shows "rnd64 (of_int n * pow2 e) = of_int n * pow2 e"
proof -
  consider "n = 0" | "0 < n" "n < 2 ^ 53" | "n = 2 ^ 53" using assms by linarith
  then show ?thesis
  proof cases
    case 1
    then show ?thesis by simp
  next
    case 2
    with rnd64_pos_fixed_aux [of n e] assms show ?thesis by (simp add: rnd64_def)
  next
    case 3
    then have eq: "of_int n * pow2 e = of_int (2 ^ 52) * pow2 (e + 1)" by (simp add: pow2_Suc)
    have "rnd64_pos (of_int (2 ^ 52) * pow2 (e + 1)) = of_int (2 ^ 52) * pow2 (e + 1)"
      using assms(3) by (intro rnd64_pos_fixed_aux) simp_all
    moreover have "0 < (of_int (2 ^ 52) * pow2 (e + 1))" by simp
    ultimately show ?thesis unfolding eq by (simp add: rnd64_def)
  qed
qed

lemma rnd64_pos_idem: "0 < q \<Longrightarrow> rnd64 (rnd64_pos q) = rnd64_pos q"
proof -
  assume q: "0 < q"
  let ?s = "q / pow2 (exp64 q)"
  have "of_int 0 \<le> ?s" using q by (simp add: less_imp_le)
  then have "0 \<le> rne ?s" by (rule rne_ge_int)
  moreover have "?s \<le> of_int (2 ^ 53)" using significand_less [OF q] by simp
  then have "rne ?s \<le> 2 ^ 53" by (rule rne_le_int)
  moreover have "- 1074 \<le> exp64 q" by (simp add: exp64_def)
  ultimately show ?thesis unfolding rnd64_pos_def by (rule rnd64_pos_fixed)
qed

lemma rnd64_idem [simp]: "rnd64 (rnd64 q) = rnd64 q"
proof -
  consider "q = 0" | "0 < q" | "q < 0" by linarith
  then show ?thesis
    using rnd64_pos_idem [of q] rnd64_pos_idem [of "- q"]
    by cases (simp_all add: rnd64_def [of q] rnd64_minus)
qed

section \<open>Powers of ten\<close>

lemma pow10_powi: "pow10 k = 10 powi k"
  by (simp add: pow10_def power_int_def field_simps)

lemma pow10_pos [simp]: "0 < pow10 k"
  by (simp add: pow10_powi)

lemma pow10_add: "pow10 (j + k) = pow10 j * pow10 k"
  by (simp add: pow10_powi power_int_add)

lemma pow10_nat: "pow10 (int n) = 10 ^ n"
  by (simp add: pow10_def)

lemma pow10_diff_nat: "pow10 (k - int n) * 10 ^ n = pow10 k"
  using pow10_add [of "k - int n" "int n"] by (simp add: pow10_nat)

lemma pow10_mono: "j \<le> k \<Longrightarrow> pow10 j \<le> pow10 k"
  by (simp add: pow10_powi power_int_increasing)

section \<open>Digits\<close>

lemma length_str_nat_upper: "n < 10 ^ length (str_nat n)"
proof (induction n rule: str_nat.induct)
  case (1 n)
  show ?case
  proof (cases "n < 10")
    case True
    then show ?thesis by (simp add: str_nat.simps [of n])
  next
    case False
    then have "n div 10 < 10 ^ length (str_nat (n div 10))" using 1 by simp
    then have "n < 10 * 10 ^ length (str_nat (n div 10))" by (simp add: div_less_iff_less_mult mult.commute)
    with False show ?thesis by (simp add: str_nat.simps [of n])
  qed
qed

lemma length_str_nat_lower: "0 < n \<Longrightarrow> 10 ^ (length (str_nat n) - 1) \<le> n"
proof (induction n rule: str_nat.induct)
  case (1 n)
  show ?case
  proof (cases "n < 10")
    case True
    with 1 show ?thesis by (simp add: str_nat.simps [of n])
  next
    case False
    then have "10 ^ (length (str_nat (n div 10)) - 1) \<le> n div 10" using 1 by simp
    then have "10 * 10 ^ (length (str_nat (n div 10)) - 1) \<le> n" by linarith
    moreover have "0 < length (str_nat (n div 10))" by simp
    then have "10 * 10 ^ (length (str_nat (n div 10)) - 1) = (10 :: nat) ^ length (str_nat (n div 10))"
      by (metis Suc_diff_1 power_Suc)
    ultimately show ?thesis using False by (simp add: str_nat.simps [of n])
  qed
qed

lemma digits_value_append: "digits_value (xs @ ys) = digits_value xs * 10 ^ length ys + digits_value ys"
proof (induction ys rule: rev_induct)
  case Nil
  then show ?case by (simp add: digits_value_def)
next
  case (snoc y ys)
  then have "digits_value ((xs @ ys) @ [y]) = (digits_value xs * 10 ^ length ys + digits_value ys) * 10 + (y - 48)"
    unfolding digits_value_snoc by simp
  then show ?case by (simp add: algebra_simps)
qed

lemma digits_value_zeros [simp]: "digits_value (replicate n 48) = 0"
  by (induction n) (simp_all add: replicate_append_same [symmetric] digits_value_def)

text \<open>The position of the decimal point: the \<open>decpt\<close> with \<open>10 ^ (decpt - 1) \<le> q < 10 ^ decpt\<close>\<close>

definition decpt :: "rat \<Rightarrow> int" where
  "decpt q =
     (let (a, b) = quotient_of q; k = int (length (str_nat (nat a))) - int (length (str_nat (nat b)))
      in if q < pow10 k then k else k + 1)"

lemma digits_bound:
  assumes "0 < n"
  shows "(10 :: rat) ^ (length (str_nat (nat n)) - 1) \<le> of_int n" "(of_int n :: rat) < 10 ^ length (str_nat (nat n))"
proof -
  have "10 ^ (length (str_nat (nat n)) - 1) \<le> nat n" "nat n < 10 ^ length (str_nat (nat n))"
    using assms length_str_nat_lower [of "nat n"] length_str_nat_upper [of "nat n"] by auto
  then have "(of_nat (10 ^ (length (str_nat (nat n)) - 1)) :: rat) \<le> of_nat (nat n)"
    "(of_nat (nat n) :: rat) < of_nat (10 ^ length (str_nat (nat n)))" unfolding of_nat_le_iff of_nat_less_iff .
  with assms show "(10 :: rat) ^ (length (str_nat (nat n)) - 1) \<le> of_int n"
    "(of_int n :: rat) < 10 ^ length (str_nat (nat n))" by simp_all
qed

lemma decpt_bounds:
  assumes "0 < q"
  shows "pow10 (decpt q - 1) \<le> q" "q < pow10 (decpt q)"
proof -
  obtain a b where ab: "quotient_of q = (a, b)" by (cases "quotient_of q")
  then have b: "0 < b" and q: "q = of_int a / of_int b"
    by (auto dest: quotient_of_denom_pos quotient_of_div)
  with assms have a: "0 < a" by (auto simp: zero_less_divide_iff)
  define la lb where "la = length (str_nat (nat a))" and "lb = length (str_nat (nat b))"
  note bnd = digits_bound
  have "0 < la" "0 < lb" by (simp_all add: la_def lb_def)
  then have p: "pow10 (int la - 1) = 10 ^ (la - 1)" "pow10 (int lb - 1) = 10 ^ (lb - 1)"
    by (simp_all add: pow10_def nat_diff_distrib)
  let ?k = "int la - int lb"
  have qb: "q * of_int b = of_int a" using q b by simp
  have up: "q < pow10 (?k + 1)"
  proof -
    have "q * 10 ^ (lb - 1) \<le> of_int a" unfolding qb [symmetric]
      using bnd(1) [OF b] assms by (intro mult_left_mono) (simp_all add: lb_def)
    also have "\<dots> < pow10 (int la)" using bnd(2) [OF a] by (simp add: la_def pow10_nat)
    also have "\<dots> = pow10 (?k + 1) * pow10 (int lb - 1)" unfolding pow10_add [symmetric] by simp
    finally show ?thesis unfolding p(2) by (simp add: mult_less_cancel_right)
  qed
  have low: "pow10 (?k - 1) \<le> q"
  proof -
    have "pow10 (?k - 1) * of_int b \<le> pow10 (?k - 1) * pow10 (int lb)"
      using bnd(2) [OF b] by (intro mult_left_mono) (simp_all add: lb_def pow10_nat less_imp_le)
    also have "\<dots> = pow10 (int la - 1)" unfolding pow10_add [symmetric] by simp
    also have "\<dots> \<le> q * of_int b" unfolding qb p(1) using bnd(1) [OF a] by (simp add: la_def)
    finally show ?thesis using b by (simp add: mult_le_cancel_right)
  qed
  show "pow10 (decpt q - 1) \<le> q" "q < pow10 (decpt q)"
    using up low by (auto simp: decpt_def ab Let_def la_def lb_def)
qed

section \<open>The shortest digits that read back\<close>

text \<open>
  With \<open>n\<close> digits the candidates are the two neighbours of \<open>q\<close>; the closer one, a tie to even, is tried
  first. The interpreter never needs more than 17 digits.
\<close>

definition scaled :: "rat \<Rightarrow> nat \<Rightarrow> rat" where
  "scaled q n = q * pow10 (int n - decpt q)"

definition decimal :: "rat \<Rightarrow> nat \<Rightarrow> int \<Rightarrow> rat" where
  "decimal q n c = of_int c * pow10 (decpt q - int n)"

definition repr_candidate :: "rat \<Rightarrow> nat \<Rightarrow> int option" where
  "repr_candidate q n =
     (let s = scaled q n; c = rne s; c' = (if of_int c < s then c + 1 else c - 1)
      in if rnd64 (decimal q n c) = q then Some c
         else if rnd64 (decimal q n c') = q then Some c' else None)"

fun repr_search :: "rat \<Rightarrow> nat \<Rightarrow> nat \<Rightarrow> int \<times> nat" where
  "repr_search q 0 n = (rne (scaled q n), n)"
| "repr_search q (Suc k) n =
     (case repr_candidate q n of Some c \<Rightarrow> (c, n) | None \<Rightarrow> repr_search q k (Suc n))"

lemma decimal_scaled: "scaled q n * pow10 (decpt q - int n) = q"
proof -
  have "scaled q n * pow10 (decpt q - int n) = q * pow10 ((int n - decpt q) + (decpt q - int n))"
    unfolding scaled_def pow10_add by simp
  also have "(int n - decpt q) + (decpt q - int n) = 0" by simp
  finally show ?thesis by (simp add: pow10_def)
qed

lemma seventeen_digits:
  assumes q: "0 < q" "rnd64 q = q"
  shows "rnd64 (decimal q 17 (rne (scaled q 17))) = q"
proof -
  let ?p = "pow10 (decpt q - int 17)" and ?s = "scaled q 17" and ?c = "rne (scaled q 17)"
  have "10 ^ 16 * ?p = pow10 (decpt q - 1)" using pow10_diff_nat [of "decpt q - 1" 16] by (simp add: mult.commute)
  then have low: "10 ^ 16 * ?p \<le> q" using decpt_bounds(1) [OF q(1)] by simp
  have d: "decimal q 17 ?c - q = (of_int ?c - ?s) * ?p"
    unfolding decimal_def left_diff_distrib decimal_scaled ..
  have "\<bar>of_int ?c - ?s\<bar> \<le> 1/2" using rne_bounds [of ?s] by linarith
  then have err: "\<bar>decimal q 17 ?c - q\<bar> \<le> 1/2 * ?p"
    unfolding d abs_mult using pow10_pos [of "decpt q - int 17"] by (intro mult_mono) (simp_all add: less_imp_le)
  have "(2 ^ 53 :: rat) * ?p < 10 ^ 16 * ?p" using pow10_pos [of "decpt q - int 17"] by (intro mult_strict_right_mono) simp_all
  then have "2 ^ 53 * ?p < q" using low by (rule less_le_trans)
  then have "1/2 * ?p < q / 2 ^ 54" by simp
  with err have near: "\<bar>decimal q 17 ?c - q\<bar> < q / 2 ^ 54" by linarith
  moreover have "q / 2 ^ 54 < q" using q(1) by simp
  ultimately have pos: "0 < decimal q 17 ?c" by linarith
  show ?thesis by (rule rnd64_near [OF q pos near])
qed

lemma repr_search_reads:
  assumes "0 < q" "rnd64 q = q"
  shows "n + k = 17 \<Longrightarrow> repr_search q k n = (c, n') \<Longrightarrow> rnd64 (decimal q n' c) = q"
proof (induction k arbitrary: n)
  case 0
  with seventeen_digits [OF assms] show ?case by auto
next
  case (Suc k)
  show ?case
  proof (cases "repr_candidate q n")
    case None
    with Suc.prems Suc.IH [of "Suc n"] show ?thesis by simp
  next
    case (Some c')
    then have "rnd64 (decimal q n c') = q" by (auto simp: repr_candidate_def Let_def split: if_splits)
    with Suc.prems Some show ?thesis by simp
  qed
qed

lemma rnd64_positive: "0 < rnd64 x \<Longrightarrow> 0 < x"
  using rnd64_mono [of x 0] by (force simp: not_less)

lemma repr_search_positive:
  assumes "0 < q" "rnd64 (decimal q n c) = q"
  shows "0 < c"
  using assms rnd64_positive [of "decimal q n c"] pow10_pos [of "decpt q - int n"]
  by (simp add: decimal_def zero_less_mult_iff)

text \<open>The digits, without the zeros at the end, and the position of their decimal point\<close>

definition strip_zeros :: "pystr \<Rightarrow> pystr" where
  "strip_zeros ds = rev (dropWhile (\<lambda>c. c = 48) (rev ds))"

definition repr_digits :: "rat \<Rightarrow> pystr \<times> int" where
  "repr_digits q =
     (let (c, n) = repr_search q 16 1; ds = str_nat (nat c)
      in (strip_zeros ds, decpt q + int (length ds) - int n))"

lemma strip_zeros_append: "\<exists>k. ds = strip_zeros ds @ replicate k 48"
proof -
  have "rev ds = takeWhile (\<lambda>c. c = 48) (rev ds) @ dropWhile (\<lambda>c. c = 48) (rev ds)" by simp
  moreover have "takeWhile (\<lambda>c. c = 48) (rev ds) = replicate (length (takeWhile (\<lambda>c. c = 48) (rev ds))) 48"
    by (metis (mono_tags, lifting) replicate_length_same set_takeWhileD)
  ultimately have "rev (rev ds) = strip_zeros ds @ rev (replicate (length (takeWhile (\<lambda>c. c = 48) (rev ds))) 48)"
    unfolding strip_zeros_def by (metis rev_append)
  then show ?thesis by (intro exI) simp
qed

lemma repr_digits_reads:
  assumes "0 < q" "rnd64 q = q" and "repr_digits q = (ds, pt)"
  shows "rnd64 (of_nat (digits_value ds) * pow10 (pt - int (length ds))) = q"
    "ds \<noteq> []" "\<forall>c \<in> set ds. is_digit c" "hd ds \<noteq> 48"
proof -
  obtain c n where cn: "repr_search q 16 1 = (c, n)" by (cases "repr_search q 16 1")
  have reads: "rnd64 (decimal q n c) = q" using repr_search_reads [OF assms(1,2) _ cn] by simp
  then have c: "0 < c" using assms(1) repr_search_positive by blast
  define es where "es = str_nat (nat c)"
  have ds: "ds = strip_zeros es" and pt: "pt = decpt q + int (length es) - int n"
    using assms(3) cn by (auto simp: repr_digits_def es_def Let_def)
  obtain k where k: "es = ds @ replicate k 48" using strip_zeros_append [of es] ds by auto
  have "nat c = digits_value ds * 10 ^ k"
    using digits_value_append [of ds "replicate k 48"] digits_value_str_nat [of "nat c"]
    unfolding es_def [symmetric] k by simp
  then have "of_int c = (of_nat (digits_value ds * 10 ^ k) :: rat)" using c by (metis nat_0_le of_int_of_nat_eq order_less_imp_le)
  moreover have "pow10 (pt - int (length ds)) = 10 ^ k * pow10 (decpt q - int n)"
    unfolding pt k using pow10_add [of "int k" "decpt q - int n"] by (simp add: pow10_nat algebra_simps)
  ultimately have "decimal q n c = of_nat (digits_value ds) * pow10 (pt - int (length ds))"
    by (simp add: decimal_def)
  with reads show "rnd64 (of_nat (digits_value ds) * pow10 (pt - int (length ds))) = q" by simp
  show ne: "ds \<noteq> []"
  proof
    assume "ds = []"
    with \<open>nat c = _\<close> c show False by (simp add: digits_value_def)
  qed
  show "\<forall>c \<in> set ds. is_digit c" using str_nat_digits [of "nat c"] k by (auto simp: es_def)
  show "hd ds \<noteq> 48" using str_nat_hd [of "nat c"] c k ne by (simp add: es_def)
qed

section \<open>Notation\<close>

definition two_digits :: "nat \<Rightarrow> pystr" where
  "two_digits n = (if n < 10 then 48 # str_nat n else str_nat n)"

definition repr_format :: "pystr \<Rightarrow> int \<Rightarrow> pystr" where
  "repr_format ds pt =
     (if pt \<le> - 4 \<or> 16 < pt then
        [hd ds] @ (if tl ds = [] then [] else 46 # tl ds) @
        101 # (if pt - 1 < 0 then 45 else 43) # two_digits (nat \<bar>pt - 1\<bar>)
      else if pt \<le> 0 then [48] @ 46 # replicate (nat (- pt)) 48 @ ds
      else if int (length ds) \<le> pt then (ds @ replicate (nat pt - length ds) 48) @ 46 # [48]
      else take (nat pt) ds @ 46 # drop (nat pt) ds)"

text \<open>\<open>json.encoder.floatstr\<close>\<close>

definition float_repr :: "pyfloat \<Rightarrow> pystr" where
  "float_repr f =
     (case f of
        FFin q \<Rightarrow>
          if q = 0 then lit ''0.0''
          else if q < 0 then 45 # (case repr_digits (- q) of (ds, pt) \<Rightarrow> repr_format ds pt)
          else (case repr_digits q of (ds, pt) \<Rightarrow> repr_format ds pt)
      | FNegZero \<Rightarrow> lit ''-0.0''
      | FInf \<Rightarrow> lit ''Infinity''
      | FNegInf \<Rightarrow> lit ''-Infinity''
      | FNaN \<Rightarrow> lit ''NaN'')"

section \<open>Reading it back\<close>

text \<open>What ends a number: the end of the text, or a character that does not continue it\<close>

definition ends_number :: "pystr \<Rightarrow> bool" where
  "ends_number r \<longleftrightarrow> r = [] \<or> \<not> is_digit (hd r) \<and> hd r \<notin> {46, 101, 69}"

lemma takeWhile_digits:
  assumes "\<forall>c \<in> set ds. is_digit c" "r = [] \<or> \<not> is_digit (hd r)"
  shows "takeWhile is_digit (ds @ r) = ds" "dropWhile is_digit (ds @ r) = r"
proof -
  have "takeWhile is_digit r = []" "dropWhile is_digit r = r" using assms(2) by (cases r; simp)+
  with assms(1) show "takeWhile is_digit (ds @ r) = ds" "dropWhile is_digit (ds @ r) = r"
    by (simp_all add: takeWhile_append2 dropWhile_append2)
qed

lemma scan_fraction_digits:
  assumes "ds \<noteq> []" "\<forall>c \<in> set ds. is_digit c" "r = [] \<or> \<not> is_digit (hd r)"
  shows "scan_fraction (46 # ds @ r) = (ds, r)"
  using assms takeWhile_digits [of ds r] by (simp add: scan_fraction_def)

lemma scan_fraction_none: "r = [] \<or> hd r \<noteq> 46 \<Longrightarrow> scan_fraction r = ([], r)"
  by (auto simp: scan_fraction_def split: list.splits)

lemma scan_exponent_none: "r = [] \<or> hd r \<noteq> 101 \<and> hd r \<noteq> 69 \<Longrightarrow> scan_exponent r = (None, r)"
  by (auto simp: scan_exponent_def split: list.splits)

lemma two_digits:
  "two_digits n \<noteq> []" "\<forall>c \<in> set (two_digits n). is_digit c" "digits_value (two_digits n) = n"
proof -
  have "digits_value [48] = 0" by (simp add: digits_value_def)
  then show "digits_value (two_digits n) = n"
    using digits_value_append [of "[48]" "str_nat n"] by (simp add: two_digits_def)
qed (use str_nat_digits [of n] in \<open>auto simp: two_digits_def is_digit_def\<close>)

lemma scan_exponent_digits:
  assumes "ends_number r"
  shows "scan_exponent (101 # (if k < 0 then 45 else 43) # two_digits (nat \<bar>k\<bar>) @ r) = (Some k, r)"
proof -
  have "r = [] \<or> \<not> is_digit (hd r)" using assms by (auto simp: ends_number_def)
  then show ?thesis
    using two_digits [of "nat \<bar>k\<bar>"] takeWhile_digits [of "two_digits (nat \<bar>k\<bar>)" r]
    by (simp add: scan_exponent_def Let_def)
qed

lemma scan_number_parts:
  assumes w: "canonical_digits w" and "rest = [] \<or> \<not> is_digit (hd rest)"
    and f: "scan_fraction rest = (fr, r1)" and e: "scan_exponent r1 = (ex, r2)" and "fr \<noteq> [] \<or> ex \<noteq> None"
  shows "scan_number neg (w @ rest) =
    Inr (json_float neg (of_nat (digits_value (w @ fr)) *
           pow10 ((case ex of None \<Rightarrow> 0 | Some k \<Rightarrow> k) - int (length fr))), r2)"
proof -
  have "w \<noteq> []" "is_digit (hd w)" and d: "\<forall>c \<in> set w. is_digit c" using w by (auto simp: canonical_digits_def)
  moreover have "(if hd (w @ rest) = 48 then ([48], tl (w @ rest)) else
      (takeWhile is_digit (w @ rest), dropWhile is_digit (w @ rest))) = (w, rest)"
    using w takeWhile_digits [OF d assms(2)] by (cases w) (auto simp: canonical_digits_def)
  ultimately show ?thesis using f e assms(5) by (auto simp: scan_number_def)
qed

text \<open>The four notations\<close>

lemma scan_repr_scientific:
  assumes ds: "ds \<noteq> []" "\<forall>c \<in> set ds. is_digit c" "hd ds \<noteq> 48" and r: "ends_number r"
    and "pt \<le> - 4 \<or> 16 < pt"
  shows "scan_number neg (repr_format ds pt @ r) =
    Inr (json_float neg (of_nat (digits_value ds) * pow10 (pt - int (length ds))), r)"
proof -
  define x where "x = 101 # (if pt - 1 < 0 then 45 else 43) # two_digits (nat \<bar>pt - 1\<bar>) @ r"
  define y where "y = (if tl ds = [] then [] else 46 # tl ds) @ x"
  have x: "hd x = 101" "x \<noteq> []" by (simp_all add: x_def)
  have w: "canonical_digits [hd ds]" using ds by (simp add: canonical_digits_def)
  have "\<forall>c \<in> set (tl ds). is_digit c" using ds by (cases ds) simp_all
  then have f: "scan_fraction y = (tl ds, x)"
    using x scan_fraction_none [of x] scan_fraction_digits [of "tl ds" x] by (auto simp: y_def is_digit_def)
  have e: "scan_exponent x = (Some (pt - 1), r)" unfolding x_def by (rule scan_exponent_digits [OF r])
  have nd: "y = [] \<or> \<not> is_digit (hd y)" using x by (auto simp: y_def is_digit_def)
  have eq: "repr_format ds pt @ r = [hd ds] @ y"
    using assms(5) by (auto simp: repr_format_def y_def x_def)
  have len: "pt - 1 - int (length (tl ds)) = pt - int (length ds)" using ds(1) by (cases ds) simp_all
  show ?thesis
    unfolding eq using scan_number_parts [OF w nd f e] ds(1) len by simp
qed

lemma scan_repr_fraction:
  assumes ds: "ds \<noteq> []" "\<forall>c \<in> set ds. is_digit c" and r: "ends_number r" and pt: "- 4 < pt" "pt \<le> 0"
  shows "scan_number neg (repr_format ds pt @ r) =
    Inr (json_float neg (of_nat (digits_value ds) * pow10 (pt - int (length ds))), r)"
proof -
  define f where "f = replicate (nat (- pt)) 48 @ ds"
  have "f \<noteq> []" "\<forall>c \<in> set f. is_digit c" using ds by (auto simp: f_def is_digit_def)
  then have "scan_fraction (46 # f @ r) = (f, r)" using r by (intro scan_fraction_digits) (auto simp: ends_number_def)
  moreover have "canonical_digits [48]" by (simp add: canonical_digits_def is_digit_def)
  moreover have "digits_value ([48] @ f) = digits_value ds"
    using digits_value_append [of "replicate (Suc (nat (- pt))) 48" ds] digits_value_zeros [of "Suc (nat (- pt))"]
    by (simp add: f_def)
  moreover have "scan_exponent r = (None, r)" using r by (intro scan_exponent_none) (auto simp: ends_number_def)
  moreover have "repr_format ds pt @ r = [48] @ 46 # f @ r" "- int (length f) = pt - int (length ds)"
    using pt by (simp_all add: repr_format_def f_def)
  ultimately show ?thesis
    using scan_number_parts [of "[48]" "46 # f @ r" f r None r neg] \<open>f \<noteq> []\<close> by (simp add: is_digit_def)
qed

lemma scan_repr_integral:
  assumes ds: "ds \<noteq> []" "\<forall>c \<in> set ds. is_digit c" "hd ds \<noteq> 48" and r: "ends_number r"
    and pt: "0 < pt" "pt \<le> 16" "int (length ds) \<le> pt"
  shows "scan_number neg (repr_format ds pt @ r) =
    Inr (json_float neg (of_nat (digits_value ds) * pow10 (pt - int (length ds))), r)"
proof -
  define k where "k = nat pt - length ds"
  have w: "canonical_digits (ds @ replicate k 48)" using ds by (auto simp: canonical_digits_def is_digit_def)
  have f: "scan_fraction (46 # [48] @ r) = ([48], r)"
    using r by (intro scan_fraction_digits) (auto simp: is_digit_def ends_number_def)
  have e: "scan_exponent r = (None, r)" using r by (intro scan_exponent_none) (auto simp: ends_number_def)
  have "digits_value ((ds @ replicate k 48) @ [48]) = digits_value ds * 10 ^ k * 10"
    unfolding digits_value_snoc unfolding digits_value_append by simp
  then have "of_nat (digits_value ((ds @ replicate k 48) @ [48])) * pow10 (- 1) = (of_nat (digits_value ds) :: rat) * 10 ^ k"
    by (simp add: pow10_def)
  moreover have "(10 :: rat) ^ k = pow10 (pt - int (length ds))" using pt by (simp add: pow10_def k_def nat_diff_distrib)
  moreover have "repr_format ds pt @ r = (ds @ replicate k 48) @ 46 # [48] @ r" using pt by (simp add: repr_format_def k_def)
  ultimately show ?thesis using scan_number_parts [OF w _ f e, of neg] by (simp add: is_digit_def)
qed

lemma scan_repr_mixed:
  assumes ds: "ds \<noteq> []" "\<forall>c \<in> set ds. is_digit c" "hd ds \<noteq> 48" and r: "ends_number r"
    and pt: "0 < pt" "pt \<le> 16" "pt < int (length ds)"
  shows "scan_number neg (repr_format ds pt @ r) =
    Inr (json_float neg (of_nat (digits_value ds) * pow10 (pt - int (length ds))), r)"
proof -
  let ?w = "take (nat pt) ds" and ?f = "drop (nat pt) ds"
  have w: "canonical_digits ?w"
    using ds pt by (cases ds) (auto simp: canonical_digits_def take_Cons' dest: in_set_takeD)
  have f: "scan_fraction (46 # ?f @ r) = (?f, r)"
    using ds r pt by (intro scan_fraction_digits) (auto simp: ends_number_def dest: in_set_dropD)
  have e: "scan_exponent r = (None, r)" using r by (intro scan_exponent_none) (auto simp: ends_number_def)
  have len: "- int (length ?f) = pt - int (length ds)" "?f \<noteq> []" using pt by auto
  have eq: "repr_format ds pt @ r = ?w @ 46 # ?f @ r" using pt by (simp add: repr_format_def)
  show ?thesis
    unfolding eq using scan_number_parts [OF w _ f e, of neg] len by (simp add: is_digit_def)
qed

lemma scan_repr_format:
  assumes "ds \<noteq> []" "\<forall>c \<in> set ds. is_digit c" "hd ds \<noteq> 48" "ends_number r"
  shows "scan_number neg (repr_format ds pt @ r) =
    Inr (json_float neg (of_nat (digits_value ds) * pow10 (pt - int (length ds))), r)"
proof -
  consider "pt \<le> - 4 \<or> 16 < pt" | "- 4 < pt" "pt \<le> 0" | "0 < pt" "pt \<le> 16" "int (length ds) \<le> pt"
    | "0 < pt" "pt \<le> 16" "pt < int (length ds)" by linarith
  then show ?thesis
    using scan_repr_scientific scan_repr_fraction scan_repr_integral scan_repr_mixed assms by cases simp_all
qed

lemma scan_repr_digits:
  assumes q: "0 < q" "binary64 q" and "repr_digits q = (ds, pt)" and "ends_number r"
  shows "scan_number neg (repr_format ds pt @ r) = Inr (PFloat (FFin (if neg then - q else q)), r)"
    and "\<exists>c cs. repr_format ds pt = c # cs \<and> is_digit c"
proof -
  have q': "rnd64 q = q" "q < pow2 1024" using q by (auto simp: binary64_def)
  note ds = repr_digits_reads [OF q(1) q'(1) assms(3)]
  show "scan_number neg (repr_format ds pt @ r) = Inr (PFloat (FFin (if neg then - q else q)), r)"
    using scan_repr_format [OF ds(2-4) assms(4)] ds(1) q q' by (simp add: json_float_def Let_def)
  show "\<exists>c cs. repr_format ds pt = c # cs \<and> is_digit c"
    using ds by (cases ds) (auto simp: repr_format_def is_digit_def take_Cons')
qed

text \<open>The floats of the interpreter\<close>

fun wf_float :: "pyfloat \<Rightarrow> bool" where
  "wf_float (FFin q) = binary64 q"
| "wf_float _ = True"

lemma json_scalar_digit: "is_digit c \<Longrightarrow> json_scalar (c # cs) = scan_number False (c # cs)"
  by (auto simp: json_scalar_def is_digit_def)

lemma json_scalar_minus: "is_digit c \<Longrightarrow> json_scalar (45 # c # cs) = scan_number True (c # cs)"
  by (auto simp: json_scalar_def is_digit_def)

lemma json_scalar_zero:
  assumes "ends_number r"
  shows "json_scalar (lit ''0.0'' @ r) = Inr (PFloat (FFin 0), r)"
    and "json_scalar (lit ''-0.0'' @ r) = Inr (PFloat FNegZero, r)"
proof -
  have l: "lit ''0.0'' @ r = 48 # 46 # [48] @ r" "lit ''-0.0'' @ r = 45 # 48 # 46 # [48] @ r" by (simp_all add: lit_def)
  have w: "canonical_digits [48]" by (simp add: canonical_digits_def is_digit_def)
  have f: "scan_fraction (46 # [48] @ r) = ([48], r)"
    using assms by (intro scan_fraction_digits) (auto simp: is_digit_def ends_number_def)
  have e: "scan_exponent r = (None, r)" using assms by (intro scan_exponent_none) (auto simp: ends_number_def)
  have z: "scan_number neg (48 # 46 # [48] @ r) = Inr (PFloat (if neg then FNegZero else FFin 0), r)" for neg
    using scan_number_parts [OF w _ f e, of neg]
    by (simp add: is_digit_def json_float_def digits_value_def pow2_pos [THEN not_le [THEN iffD2]])
  show "json_scalar (lit ''0.0'' @ r) = Inr (PFloat (FFin 0), r)"
    unfolding l using json_scalar_digit [of 48] z [of False] by (simp add: is_digit_def)
  show "json_scalar (lit ''-0.0'' @ r) = Inr (PFloat FNegZero, r)"
    unfolding l using json_scalar_minus [of 48] z [of True] by (simp add: is_digit_def)
qed

lemma json_scalar_float_repr:
  assumes "wf_float f" "ends_number r"
  shows "json_scalar (float_repr f @ r) = Inr (PFloat f, r)"
proof (cases f)
  case (FFin q)
  with assms(1) have b: "binary64 q" "binary64 (- q)" by simp_all
  obtain ds pt where d: "repr_digits q = (ds, pt)" by (cases "repr_digits q")
  obtain es qt where e: "repr_digits (- q) = (es, qt)" by (cases "repr_digits (- q)")
  consider "q = 0" | "0 < q" | "q < 0" by linarith
  then show ?thesis
  proof cases
    case 1
    with FFin json_scalar_zero(1) [OF assms(2)] show ?thesis by (simp add: float_repr_def)
  next
    case 2
    with FFin d scan_repr_digits [OF 2 b(1) d assms(2)] show ?thesis
      by (auto simp: float_repr_def json_scalar_digit)
  next
    case 3
    then have "0 < - q" by simp
    from FFin 3 e scan_repr_digits [OF this b(2) e assms(2)] show ?thesis
      by (auto simp: float_repr_def json_scalar_minus)
  qed
next
  case FNegZero
  with json_scalar_zero(2) [OF assms(2)] show ?thesis by (simp add: float_repr_def)
qed (simp_all add: float_repr_def lit_def json_scalar_def json_keyword_def strip_prefix_def)

end
