(* ===== verification/Py_Json_Dump.thy ===== *)
theory Py_Json_Dump
  imports Py_Repr
begin

text \<open>
  \<open>json.dumps(value, ensure_ascii=False, indent=2, sort_keys=True)\<close>: one member or element per line,
  indented by two blanks per level, the members of every object in the order of their keys, strings
  with only the quote, the backslash and control characters escaped. Every value \<open>json.loads\<close> can
  return is written, and read back as the value with its members sorted.
\<close>

section \<open>Scalars\<close>

definition hex_digit :: "nat \<Rightarrow> nat" where
  "hex_digit n = (if n < 10 then 48 + n else 87 + n)"

definition escape_char :: "nat \<Rightarrow> pystr" where
  "escape_char c =
     (if c = 34 then [92, 34]
      else if c = 92 then [92, 92]
      else if c = 10 then [92, 110]
      else if c = 13 then [92, 114]
      else if c = 9 then [92, 116]
      else if c = 12 then [92, 102]
      else if c = 8 then [92, 98]
      else if c < 32 then [92, 117, 48, 48, hex_digit (c div 16), hex_digit (c mod 16)]
      else [c])"

definition json_string :: "pystr \<Rightarrow> pystr" where
  "json_string s = 34 # concat (map escape_char s) @ [34]"

text \<open>\<open>int.__repr__\<close> has the digit limit too.\<close>

definition short_int :: "int \<Rightarrow> bool" where
  "short_int n \<longleftrightarrow> length (str_nat (nat \<bar>n\<bar>)) \<le> 4300"

definition int_repr :: "int \<Rightarrow> pyexc + pystr" where
  "int_repr n =
     (if \<not> short_int n
      then Inl digit_limit_error
      else Inr (str_int n))"

section \<open>Documents\<close>

text \<open>\<open>sort_keys\<close>; the keys of a dictionary are distinct.\<close>

fun sort_val :: "pyval \<Rightarrow> pyval" where
  "sort_val (PList vs) = PList (map sort_val vs)"
| "sort_val (PDict kvs) = PDict (sort_key (\<lambda>kv. the_str (fst kv)) (map (\<lambda>kv. (fst kv, sort_val (snd kv))) kvs))"
| "sort_val v = v"

definition newline_indent :: "nat \<Rightarrow> pystr" where
  "newline_indent level = 10 # replicate (2 * level) 32"

text \<open>
  Keys that are not strings do not occur in the documents of this program; values of another type are
  not serializable.
\<close>

fun dump_value :: "nat \<Rightarrow> pyval \<Rightarrow> pyexc + pystr"
  and dump_items :: "nat \<Rightarrow> pyval list \<Rightarrow> pyexc + pystr list"
  and dump_members :: "nat \<Rightarrow> (pyval \<times> pyval) list \<Rightarrow> pyexc + pystr list" where
  "dump_value level PNone = Inr (lit ''null'')"
| "dump_value level (PBool b) = Inr (if b then lit ''true'' else lit ''false'')"
| "dump_value level (PInt n) = int_repr n"
| "dump_value level (PFloat f) = Inr (float_repr f)"
| "dump_value level (PStr s) = Inr (json_string s)"
| "dump_value level (PList vs) =
     (if vs = [] then Inr [91, 93]
      else rbind (dump_items (Suc level) vs) (\<lambda>ts.
        Inr (91 # newline_indent (Suc level) @ str_join (44 # newline_indent (Suc level)) ts @
             newline_indent level @ [93])))"
| "dump_value level (PDict kvs) =
     (if kvs = [] then Inr [123, 125]
      else rbind (dump_members (Suc level) kvs) (\<lambda>ts.
        Inr (123 # newline_indent (Suc level) @ str_join (44 # newline_indent (Suc level)) ts @
             newline_indent level @ [125])))"
| "dump_value level (POther cls) = Inl (TypeError (lit ''Object of type '' @ cls @ lit '' is not JSON serializable''))"
| "dump_items level [] = Inr []"
| "dump_items level (v # vs) =
     rbind (dump_value level v) (\<lambda>t. rbind (dump_items level vs) (\<lambda>ts. Inr (t # ts)))"
| "dump_members level [] = Inr []"
| "dump_members level ((k, v) # kvs) =
     (if \<not> is_str k then Inl (TypeError (lit ''keys must be str, int, float, bool or None''))
      else
        rbind (dump_value level v) (\<lambda>t.
        rbind (dump_members level kvs) (\<lambda>ts. Inr ((json_string (the_str k) @ 58 # 32 # t) # ts))))"

definition json_dumps :: "pyval \<Rightarrow> pyexc + pystr" where
  "json_dumps v = dump_value 0 (sort_val v)"

section \<open>Serializable values\<close>

fun wf_json :: "pyval \<Rightarrow> bool" where
  "wf_json (PInt n) \<longleftrightarrow> short_int n"
| "wf_json (PFloat f) \<longleftrightarrow> wf_float f"
| "wf_json (PList vs) \<longleftrightarrow> (\<forall>v \<in> set vs. wf_json v)"
| "wf_json (PDict kvs) \<longleftrightarrow>
     (\<forall>kv \<in> set kvs. is_str (fst kv) \<and> wf_json (snd kv)) \<and> distinct (map fst kvs)"
| "wf_json (POther cls) \<longleftrightarrow> False"
| "wf_json v \<longleftrightarrow> True"

definition wf_dict :: "pydict \<Rightarrow> bool" where
  "wf_dict d \<longleftrightarrow> (\<forall>kv \<in> set d. wf_json (snd kv)) \<and> distinct (map fst d)"

lemma wf_json_pydict_val [simp]: "wf_json (pydict_val d) \<longleftrightarrow> wf_dict d"
proof -
  have "map fst (map (\<lambda>(k, v). (PStr k, v)) d) = map PStr (map fst d)" by auto
  then have "distinct (map fst (map (\<lambda>(k, v). (PStr k, v)) d)) \<longleftrightarrow> distinct (map fst d)"
    by (simp only: distinct_map inj_on_def) simp
  then show ?thesis by (auto simp: pydict_val_def wf_dict_def)
qed

lemma wf_json_sort_val: "wf_json v \<Longrightarrow> wf_json (sort_val v)"
proof (induction v rule: sort_val.induct)
  case (2 kvs)
  let ?m = "map (\<lambda>kv. (fst kv, sort_val (snd kv))) kvs"
  have "distinct (map fst ?m)" using 2 by (simp add: comp_def)
  then have "distinct (map fst (sort_key (\<lambda>kv. the_str (fst kv)) ?m))"
    unfolding distinct_map [of fst] by simp
  with 2 show ?case by auto
qed auto

section \<open>More fuel does not change what is read\<close>

lemma json_fuel_mono_all:
  "(\<forall>s. json_value n s \<noteq> Inl out_of_fuel \<longrightarrow> json_value (Suc n) s = json_value n s) \<and>
   (\<forall>acc s. json_elements n acc s \<noteq> Inl out_of_fuel \<longrightarrow> json_elements (Suc n) acc s = json_elements n acc s) \<and>
   (\<forall>d s. json_members n d s \<noteq> Inl out_of_fuel \<longrightarrow> json_members (Suc n) d s = json_members n d s)"
proof (induction n)
  case 0
  then show ?case by (simp add: json_value.simps json_elements.simps json_members.simps)
next
  case (Suc n)
  then have v: "json_value n s \<noteq> Inl out_of_fuel \<Longrightarrow> json_value (Suc n) s = json_value n s"
    and e: "json_elements n acc s \<noteq> Inl out_of_fuel \<Longrightarrow> json_elements (Suc n) acc s = json_elements n acc s"
    and m: "json_members n d s \<noteq> Inl out_of_fuel \<Longrightarrow> json_members (Suc n) d s = json_members n d s" for s acc d
    by blast+
  have "json_value (Suc (Suc n)) s = json_value (Suc n) s" if "json_value (Suc n) s \<noteq> Inl out_of_fuel" for s
    using that unfolding json_value.simps(2) [of "Suc n" s] json_value.simps(2) [of n s]
    by (auto intro!: rbind_cong simp: rbind_Inl_iff e m split: if_splits)
  moreover have "json_elements (Suc (Suc n)) acc s = json_elements (Suc n) acc s"
    if "json_elements (Suc n) acc s \<noteq> Inl out_of_fuel" for acc s
    using that unfolding json_elements.simps(2) [of "Suc n" acc s] json_elements.simps(2) [of n acc s]
    by (auto intro!: rbind_cong simp: rbind_Inl_iff v e split: if_splits)
  moreover have "json_members (Suc (Suc n)) d s = json_members (Suc n) d s"
    if "json_members (Suc n) d s \<noteq> Inl out_of_fuel" for d s
    using that unfolding json_members.simps(2) [of "Suc n" d s] json_members.simps(2) [of n d s]
    by (auto intro!: rbind_cong simp: rbind_Inl_iff v m split: if_splits)
  ultimately show ?case by blast
qed

lemma fuel_stable:
  assumes "\<And>n. f n \<noteq> e \<Longrightarrow> f (Suc n) = f n" and "n \<le> m" and "f n \<noteq> e"
  shows "f m = f n"
  using assms(2,3) by (induction m rule: dec_induct) (auto simp: assms(1))

lemma json_fuel_mono:
  "json_value n s = Inr v \<Longrightarrow> n \<le> m \<Longrightarrow> json_value m s = Inr v"
  "json_elements n acc s = Inr vs \<Longrightarrow> n \<le> m \<Longrightarrow> json_elements m acc s = Inr vs"
  "json_members n d s = Inr d' \<Longrightarrow> n \<le> m \<Longrightarrow> json_members m d s = Inr d'"
  using fuel_stable [of "\<lambda>n. json_value n s" "Inl out_of_fuel" n m]
    fuel_stable [of "\<lambda>n. json_elements n acc s" "Inl out_of_fuel" n m]
    fuel_stable [of "\<lambda>n. json_members n d s" "Inl out_of_fuel" n m] json_fuel_mono_all
  by auto

lemma json_value_unique:
  assumes "json_value n s = Inr x" "json_value m s \<noteq> Inl out_of_fuel"
  shows "json_value m s = Inr x"
proof (cases "n \<le> m")
  case True
  with assms(1) show ?thesis by (rule json_fuel_mono)
next
  case False
  then have "json_value n s = json_value m s"
    using fuel_stable [of "\<lambda>n. json_value n s" "Inl out_of_fuel" m n] assms(2) json_fuel_mono_all by simp
  with assms(1) show ?thesis by simp
qed

section \<open>What is written is read back\<close>

text \<open>A text that a value is written as, and the text that may follow\<close>

definition starts :: "pystr \<Rightarrow> bool" where
  "starts t \<longleftrightarrow> t \<noteq> [] \<and> hd t \<notin> {32, 9, 10, 13, 93, 65279}"

definition reads :: "pyval \<Rightarrow> pystr \<Rightarrow> bool" where
  "reads v t \<longleftrightarrow> starts t \<and> (\<forall>r. ends_number r \<longrightarrow> (\<exists>n. json_value n (t @ r) = Inr (v, r)))"

lemma json_ws_starts [simp]: "starts t \<Longrightarrow> json_ws (t @ r) = t @ r"
  by (cases t) (simp_all add: starts_def json_ws_def)

lemma json_ws_blank [simp]: "json_ws (32 # s) = json_ws s" "json_ws (10 # s) = json_ws s"
  by (simp_all add: json_ws_def)

lemma json_ws_indent [simp]: "json_ws (newline_indent l @ s) = json_ws s"
proof -
  have "json_ws (replicate k 32 @ s) = json_ws s" for k by (induction k) simp_all
  then show ?thesis by (simp add: newline_indent_def)
qed

lemma next_token_simps [simp]:
  "next_token (newline_indent l @ s) = next_token s"
  "c \<notin> {32, 9, 10, 13} \<Longrightarrow> next_token (c # s) = Inr (c, s)"
  by (simp_all add: next_token_def) (simp add: json_ws_def)

lemma next_token_starts: "starts t \<Longrightarrow> next_token (t @ r) = Inr (hd t, tl t @ r)"
  by (cases t) (auto simp: starts_def)

lemma ends_number_indent [simp]: "ends_number (newline_indent l @ s)" "ends_number (44 # s)"
  by (simp_all add: ends_number_def newline_indent_def is_digit_def)

text \<open>White space that a writer may put between tokens\<close>

definition blank :: "pystr \<Rightarrow> bool" where
  "blank w \<longleftrightarrow> set w \<subseteq> {32, 9, 10, 13}"

lemma json_ws_space [simp]: "blank w \<Longrightarrow> json_ws (w @ s) = json_ws s"
  by (induction w) (auto simp: blank_def json_ws_def)

lemma next_token_space [simp]: "blank w \<Longrightarrow> next_token (w @ s) = next_token s"
  by (simp add: next_token_def)

lemma blank_simps [simp]: "blank []" "blank [32]" "blank (newline_indent l)"
  by (auto simp: blank_def newline_indent_def)

lemma ends_number_space [simp]: "blank w \<Longrightarrow> ends_number (w @ s) \<longleftrightarrow> w \<noteq> [] \<or> ends_number s"
  by (cases w) (auto simp: ends_number_def blank_def is_digit_def)

lemma reads_scalar:
  assumes "starts t" "hd t \<noteq> 123" "hd t \<noteq> 91"
    and "\<And>r. ends_number r \<Longrightarrow> json_scalar (t @ r) = Inr (v, r)"
  shows "reads v t"
proof -
  from assms(1-3) have "\<not> prefix [123] (t @ r)" "\<not> prefix [91] (t @ r)" for r
    by (cases t; simp add: starts_def)+
  then have "json_value (Suc 0) (t @ r) = json_scalar (t @ r)" for r by (simp add: json_value.simps)
  with assms show ?thesis unfolding reads_def by metis
qed

subsection \<open>Strings\<close>

lemma hex_digit_value: "n < 16 \<Longrightarrow> hex_value (hex_digit n) = Some n"
  by (auto simp: hex_value_def hex_digit_def)

lemma scan_escape_char: "scan_string acc (escape_char c @ s) = scan_string (c # acc) s"
proof (cases "c < 32 \<and> c \<notin> {10, 13, 9, 12, 8}")
  case True
  then have h: "hex_value (hex_digit (c div 16)) = Some (c div 16)" "hex_value (hex_digit (c mod 16)) = Some (c mod 16)"
    by (intro hex_digit_value; linarith)+
  have z: "hex_value 48 = Some 0" by (simp add: hex_value_def)
  have "hex4 48 48 (hex_digit (c div 16)) (hex_digit (c mod 16)) = Some c"
    unfolding hex4_def h z by simp
  moreover have "escape_char c = [92, 117, 48, 48, hex_digit (c div 16), hex_digit (c mod 16)]"
    using True by (simp add: escape_char_def)
  ultimately show ?thesis
    using True by (simp add: scan_escape_def scan_unicode_def scan_hex4_def is_high_surrogate_def)
next
  case False
  then show ?thesis by (auto simp: escape_char_def scan_escape_def escape_value_def)
qed

lemma scan_string_escaped: "scan_string acc (concat (map escape_char s) @ 34 # r) = Inr (rev acc @ s, r)"
  by (induction s arbitrary: acc) (simp_all add: scan_escape_char)

lemma json_string_eq: "json_string s @ r = 34 # concat (map escape_char s) @ 34 # r"
  by (simp add: json_string_def)

lemma reads_string: "reads (PStr s) (json_string s)"
proof (rule reads_scalar)
  show "json_scalar (json_string s @ r) = Inr (PStr s, r)" for r
    unfolding json_string_eq by (simp add: json_scalar_def scan_string_escaped)
qed (simp_all add: starts_def json_string_def)

subsection \<open>Numbers and keywords\<close>

lemma scan_number_int:
  assumes "length (str_nat n) \<le> 4300" "ends_number r"
  shows "scan_number neg (str_nat n @ r) = Inr (PInt (if neg then - int n else int n), r)"
proof -
  have w: "canonical_digits (str_nat n)" by (rule canonical_str_nat)
  have r: "r = [] \<or> \<not> is_digit (hd r)" "scan_fraction r = ([], r)" "scan_exponent r = (None, r)"
    using assms(2) by (auto simp: ends_number_def intro: scan_fraction_none scan_exponent_none)
  have d: "\<forall>c \<in> set (str_nat n). is_digit c" "is_digit (hd (str_nat n))" using w by (auto simp: canonical_digits_def)
  have "(if hd (str_nat n @ r) = 48 then ([48], tl (str_nat n @ r)) else
      (takeWhile is_digit (str_nat n @ r), dropWhile is_digit (str_nat n @ r))) = (str_nat n, r)"
    using w takeWhile_digits [OF d(1) r(1)] by (cases "str_nat n") (auto simp: canonical_digits_def)
  then show ?thesis using assms(1) d r(2,3) by (simp add: scan_number_def json_int_def)
qed

lemma reads_int:
  assumes "short_int n"
  shows "reads (PInt n) (str_int n)"
proof -
  obtain c cs where c: "str_nat (nat \<bar>n\<bar>) = c # cs" "is_digit c"
    using str_nat_digits [of "nat \<bar>n\<bar>"] by (cases "str_nat (nat \<bar>n\<bar>)") auto
  have i: "str_int n = (if n < 0 then 45 # c # cs else c # cs)" using c(1) by (simp add: str_int_def abs_if split: if_splits)
  have l: "length (str_nat (nat \<bar>n\<bar>)) \<le> 4300" using assms by (simp add: short_int_def)
  show ?thesis
  proof (rule reads_scalar)
    show "json_scalar (str_int n @ r) = Inr (PInt n, r)" if "ends_number r" for r
      using scan_number_int [OF l that, of True] scan_number_int [OF l that, of False] c
      by (simp add: i json_scalar_digit json_scalar_minus)
  qed (use c(2) in \<open>auto simp: starts_def i is_digit_def\<close>)
qed

lemma reads_keyword:
  "reads PNone (lit ''null'')" "reads (PBool True) (lit ''true'')" "reads (PBool False) (lit ''false'')"
  by (rule reads_scalar; simp add: starts_def lit_def json_scalar_def json_keyword_def strip_prefix_def)+

lemma float_repr_starts: "wf_float f \<Longrightarrow> starts (float_repr f) \<and> hd (float_repr f) \<notin> {123, 91}"
proof (cases f)
  case (FFin q)
  assume "wf_float f"
  with FFin have b: "binary64 q" "binary64 (- q)" by simp_all
  have "\<exists>c cs. (case repr_digits x of (ds, pt) \<Rightarrow> repr_format ds pt) = c # cs \<and> is_digit c"
    if "0 < x" "binary64 x" for x
    using scan_repr_digits(2) [OF that, of "fst (repr_digits x)" "snd (repr_digits x)" "[]"]
    by (simp add: ends_number_def case_prod_unfold)
  note digits = this [OF _ b(1)] this [OF _ b(2)]
  consider "q = 0" | "0 < q" | "q < 0" by linarith
  then show ?thesis
  proof cases
    case 1
    with FFin show ?thesis by (simp add: float_repr_def starts_def lit_def)
  next
    case 2
    with FFin digits(1) show ?thesis by (auto simp: float_repr_def starts_def is_digit_def)
  next
    case 3
    with FFin digits(2) show ?thesis by (auto simp: float_repr_def starts_def is_digit_def)
  qed
qed (simp_all add: float_repr_def starts_def lit_def)

lemma reads_float: "wf_float f \<Longrightarrow> reads (PFloat f) (float_repr f)"
  using float_repr_starts [of f] by (intro reads_scalar) (auto intro: json_scalar_float_repr)

subsection \<open>Arrays and objects\<close>

lemma str_join_Cons: "ts \<noteq> [] \<Longrightarrow> str_join sep (t # ts) = t @ sep @ str_join sep ts"
  by (cases ts) simp_all

lemma str_join_starts: "ts \<noteq> [] \<Longrightarrow> starts (hd ts) \<Longrightarrow> starts (str_join sep ts) \<and> hd (str_join sep ts) = hd (hd ts)"
  by (cases ts; cases "tl ts") (auto simp: starts_def)

lemma json_elements_read:
  assumes "vs \<noteq> []" "list_all2 reads vs ts"
  shows "\<exists>n. json_elements n acc (str_join (44 # newline_indent l) ts @ newline_indent k @ 93 # r) = Inr (rev acc @ vs, r)"
  using assms
proof (induction vs arbitrary: ts acc rule: list_nonempty_induct)
  case (single v)
  then obtain t where t: "ts = [t]" "reads v t" by (auto simp: list_all2_Cons1)
  then obtain n where "json_value n (t @ newline_indent k @ 93 # r) = Inr (v, newline_indent k @ 93 # r)"
    unfolding reads_def by (metis ends_number_indent(1))
  then have "json_elements (Suc n) acc (t @ newline_indent k @ 93 # r) = Inr (rev acc @ [v], r)"
    by (simp add: json_elements.simps)
  with t show ?case by auto
next
  case (cons v vs)
  then obtain t ts' where t: "ts = t # ts'" "reads v t" and ts': "list_all2 reads vs ts'" by (auto simp: list_all2_Cons1)
  define s where "s = str_join (44 # newline_indent l) ts' @ newline_indent k @ 93 # r"
  have ne: "ts' \<noteq> []" using ts' cons.hyps by auto
  then have st: "starts (str_join (44 # newline_indent l) ts')"
    using ts' cons.hyps by (intro str_join_starts [THEN conjunct1]) (auto simp: list_all2_conv_all_nth hd_conv_nth reads_def)
  obtain n1 where n1: "json_value n1 (t @ 44 # newline_indent l @ s) = Inr (v, 44 # newline_indent l @ s)"
    using t(2) unfolding reads_def by (metis ends_number_indent(2))
  obtain n2 where n2: "json_elements n2 (v # acc) s = Inr (rev (v # acc) @ vs, r)"
    using cons.IH [OF ts', of "v # acc"] by (auto simp: s_def)
  have "json_elements (Suc (max n1 n2)) acc (t @ 44 # newline_indent l @ s) = Inr (rev acc @ v # vs, r)"
    using json_fuel_mono(1) [OF n1, of "max n1 n2"] json_fuel_mono(2) [OF n2, of "max n1 n2"] st
    by (simp add: json_elements.simps s_def)
  then show ?case using t(1) ne by (auto simp: str_join_Cons s_def)
qed

definition member_text :: "pystr \<times> pyval \<Rightarrow> pystr \<Rightarrow> bool" where
  "member_text kv m \<longleftrightarrow> (\<exists>w t. m = json_string (fst kv) @ 58 # w @ t \<and> blank w \<and> reads (snd kv) t)"

lemma member_text_quote: "member_text kv m \<Longrightarrow> starts m \<and> hd m = 34"
  by (auto simp: member_text_def json_string_def starts_def)

lemma json_member_read:
  assumes "member_text (k, v) m" "ends_number r"
  obtains s r' n where "m @ r = 34 # s" "scan_string [] s = Inr (k, 58 # r')" "json_value n (json_ws r') = Inr (v, r)"
proof -
  from assms(1) obtain w t where m: "m = json_string k @ 58 # w @ t" "blank w" and t: "reads v t" by (auto simp: member_text_def)
  from t assms(2) obtain n where "json_value n (t @ r) = Inr (v, r)" by (auto simp: reads_def)
  moreover have "m @ r = 34 # concat (map escape_char k) @ 34 # 58 # w @ t @ r" by (simp add: m json_string_def)
  moreover have "json_ws (w @ t @ r) = t @ r" using t m(2) by (simp add: reads_def)
  ultimately show ?thesis using that [OF _ _ ] scan_string_escaped [of "[]" k "58 # w @ t @ r"] by auto
qed

lemma ends_number_brace [simp]: "ends_number (125 # r)"
  by (simp add: ends_number_def is_digit_def)

lemma json_members_read:
  assumes "d \<noteq> []" "list_all2 member_text d ms" "distinct (map fst acc @ map fst d)" and ws: "blank a" "blank b"
  shows "\<exists>n. json_members n acc (tl (str_join (44 # a) ms @ b @ 125 # r)) = Inr (acc @ d, r)"
  using assms(1-3)
proof (induction d arbitrary: ms acc rule: list_nonempty_induct)
  case (single kv)
  then obtain m where m: "ms = [m]" "member_text (fst kv, snd kv) m" by (auto simp: list_all2_Cons1)
  have "ends_number (b @ 125 # r)" using ws(2) by simp
  then obtain s r' n where s: "m @ b @ 125 # r = 34 # s" "scan_string [] s = Inr (fst kv, 58 # r')"
    "json_value n (json_ws r') = Inr (snd kv, b @ 125 # r)"
    by (rule json_member_read [OF m(2)])
  have "\<not> dhas acc (fst kv)" using single.prems(2) by (auto simp: dhas_def dkeys_def)
  then have "json_members (Suc n) acc s = Inr (acc @ [kv], r)"
    using s(2,3) ws by (simp add: json_members.simps dset_fresh)
  with m s(1) show ?case by auto
next
  case (cons kv d)
  then obtain m ms' where m: "ms = m # ms'" "member_text (fst kv, snd kv) m" and ms': "list_all2 member_text d ms'"
    by (auto simp: list_all2_Cons1)
  define z where "z = str_join (44 # a) ms' @ b @ 125 # r"
  have ne: "ms' \<noteq> []" using ms' cons.hyps by auto
  then have "starts (hd ms') \<and> hd (hd ms') = 34"
    using ms' cons.hyps by (intro member_text_quote [of "hd d"]) (auto simp: list_all2_conv_all_nth hd_conv_nth)
  then have st: "starts (str_join (44 # a) ms')" "hd (str_join (44 # a) ms') = 34"
    using str_join_starts [OF ne] by auto
  then have z: "next_token z = Inr (34, tl z)"
    using next_token_starts [OF st(1)] by (simp add: z_def starts_def)
  obtain s r' n1 where s: "m @ 44 # a @ z = 34 # s" "scan_string [] s = Inr (fst kv, 58 # r')"
    "json_value n1 (json_ws r') = Inr (snd kv, 44 # a @ z)"
    by (rule json_member_read [OF m(2) ends_number_indent(2)])
  have f: "\<not> dhas acc (fst kv)" using cons.prems(2) by (auto simp: dhas_def dkeys_def)
  obtain n2 where n2: "json_members n2 (acc @ [kv]) (tl z) = Inr ((acc @ [kv]) @ d, r)"
    using cons.IH [OF ms', of "acc @ [kv]"] cons.prems(2) by (auto simp: z_def)
  have "json_members (Suc (max n1 n2)) acc s = Inr (acc @ kv # d, r)"
    using json_fuel_mono(1) [OF s(3), of "max n1 n2"] json_fuel_mono(3) [OF n2, of "max n1 n2"] s(2) z f ws
    by (simp add: json_members.simps dset_fresh)
  moreover have "tl (str_join (44 # a) ms @ b @ 125 # r) = s"
    using m(1) ne s(1) by (simp add: str_join_Cons z_def)
  ultimately show ?case by auto
qed

lemma reads_list:
  assumes "vs \<noteq> []" "list_all2 reads vs ts"
  shows "reads (PList vs) (91 # newline_indent m @ str_join (44 # newline_indent l) ts @ newline_indent k @ [93])"
    (is "reads _ ?t")
proof -
  let ?j = "str_join (44 # newline_indent l) ts"
  have ne: "ts \<noteq> []" using assms by auto
  then have st: "starts ?j"
    using assms by (intro str_join_starts [THEN conjunct1]) (auto simp: list_all2_conv_all_nth hd_conv_nth reads_def)
  have "\<exists>n. json_value n (?t @ r) = Inr (PList vs, r)" for r
  proof -
    obtain n where "json_elements n [] (?j @ newline_indent k @ 93 # r) = Inr (vs, r)"
      using json_elements_read [OF assms, of "[]" l k r] by auto
    then have "json_value (Suc n) (?t @ r) = Inr (PList vs, r)"
      using next_token_starts [OF st, of "newline_indent k @ 93 # r"] st
      by (cases ?j) (simp_all add: json_value.simps starts_def)
    then show ?thesis ..
  qed
  then show ?thesis by (simp add: reads_def starts_def)
qed

lemma reads_dict:
  assumes "d \<noteq> []" "list_all2 member_text d ms" "distinct (map fst d)" and ws: "blank a" "blank b" "blank c"
  shows "reads (pydict_val d) (123 # a @ str_join (44 # b) ms @ c @ [125])"
    (is "reads _ ?t")
proof -
  let ?j = "str_join (44 # b) ms"
  have ne: "ms \<noteq> []" using assms by auto
  then have "starts (hd ms) \<and> hd (hd ms) = 34"
    using assms by (intro member_text_quote [of "hd d"]) (auto simp: list_all2_conv_all_nth hd_conv_nth)
  then have st: "starts ?j" "hd ?j = 34" using str_join_starts [OF ne] by auto
  have "\<exists>n. json_value n (?t @ r) = Inr (pydict_val d, r)" for r
  proof -
    obtain n where "json_members n [] (tl (?j @ c @ 125 # r)) = Inr (d, r)"
      using json_members_read [OF assms(1,2) _ ws(2,3), of "[]" r] assms(3) by auto
    then have "json_value (Suc n) (?t @ r) = Inr (pydict_val d, r)"
      using next_token_starts [OF st(1), of "c @ 125 # r"] st ws
      by (cases ?j) (simp_all add: json_value.simps starts_def)
    then show ?thesis ..
  qed
  then show ?thesis by (simp add: reads_def starts_def)
qed

lemma reads_empty: "reads (PList []) [91, 93]" "reads (PDict []) [123, 125]"
proof -
  have "json_value (Suc 0) ([91, 93] @ r) = Inr (PList [], r)" "json_value (Suc 0) ([123, 125] @ r) = Inr (PDict [], r)" for r
    by (simp_all add: json_value.simps)
  then show "reads (PList []) [91, 93]" "reads (PDict []) [123, 125]"
    unfolding reads_def starts_def by (force, force)
qed

lemma pydict_val_strs: "\<forall>kv \<in> set kvs. is_str (fst kv) \<Longrightarrow> pydict_val (map (\<lambda>(k, v). (the_str k, v)) kvs) = PDict kvs"
  by (induction kvs) (auto simp: pydict_val_def is_str_iff)

lemma distinct_strs:
  assumes "\<forall>kv \<in> set kvs. is_str (fst kv)"
  shows "distinct (map fst (map (\<lambda>(k, v). (the_str k, v)) kvs)) \<longleftrightarrow> distinct (map fst kvs)"
proof -
  have "k = PStr (the_str k)" if "k \<in> set (map fst kvs)" for k using assms that by (auto simp: is_str_iff)
  then have "inj_on the_str (set (map fst kvs))" by (metis inj_onI)
  then have "distinct (map the_str (map fst kvs)) \<longleftrightarrow> distinct (map fst kvs)" by (simp only: distinct_map) simp
  moreover have "map fst (map (\<lambda>(k, v). (the_str k, v)) kvs) = map the_str (map fst kvs)" by auto
  ultimately show ?thesis by (simp only:)
qed

lemma dump_reads:
  "wf_json v \<Longrightarrow> \<exists>t. dump_value l v = Inr t \<and> reads v t"
  "\<forall>v \<in> set vs. wf_json v \<Longrightarrow> \<exists>ts. dump_items l vs = Inr ts \<and> list_all2 reads vs ts"
  "\<forall>kv \<in> set kvs. is_str (fst kv) \<and> wf_json (snd kv) \<Longrightarrow>
     \<exists>ts. dump_members l kvs = Inr ts \<and> list_all2 member_text (map (\<lambda>(k, v). (the_str k, v)) kvs) ts"
proof (induction l v and l vs and l kvs rule: dump_value_dump_items_dump_members.induct)
  case (6 level vs)
  then show ?case using reads_list reads_empty(1) by (cases "vs = []") fastforce+
next
  case (7 level kvs)
  then have strs: "\<forall>kv \<in> set kvs. is_str (fst kv)" by simp
  show ?case
  proof (cases "kvs = []")
    case True
    with reads_empty(2) show ?thesis by simp
  next
    case False
    with 7 obtain ts where ts: "dump_members (Suc level) kvs = Inr ts"
      "list_all2 member_text (map (\<lambda>(k, v). (the_str k, v)) kvs) ts" by auto
    have "distinct (map fst (map (\<lambda>(k, v). (the_str k, v)) kvs))"
      unfolding distinct_strs [OF strs] using 7(2) by simp
    then have "reads (PDict kvs) (123 # newline_indent (Suc level) @ str_join (44 # newline_indent (Suc level)) ts @
        newline_indent level @ [125])"
      using reads_dict [OF _ ts(2), where a = "newline_indent (Suc level)"] False unfolding pydict_val_strs [OF strs] by simp
    with False ts(1) show ?thesis by simp
  qed
next
  case (12 level k v kvs)
  then have k: "is_str k" by simp
  with 12 obtain t ts where t: "dump_value level v = Inr t" "reads v t" and ts: "dump_members level kvs = Inr ts"
    "list_all2 member_text (map (\<lambda>(k, v). (the_str k, v)) kvs) ts" by auto
  have "member_text (the_str k, v) (json_string (the_str k) @ 58 # 32 # t)"
    using t(2) by (auto simp: member_text_def intro: exI [of _ "[32]"])
  with k t(1) ts show ?case by simp
qed (auto simp: int_repr_def intro: reads_keyword reads_int reads_float reads_string)

text \<open>What follows the document may be white space.\<close>

lemma json_loads_reads:
  assumes "reads v t" "ends_number r" "json_ws r = []"
  shows "json_loads (t @ r) = Inr v"
proof -
  obtain n where n: "json_value n (t @ r) = Inr (v, r)" using assms by (auto simp: reads_def)
  have st: "starts t" using assms(1) by (simp add: reads_def)
  have "json_value (2 * length (t @ r) + 2) (t @ r) \<noteq> Inl out_of_fuel" using json_fuel_all by auto
  with n have "json_value (2 * length (t @ r) + 2) (t @ r) = Inr (v, r)" by (rule json_value_unique)
  moreover have "\<not> prefix [65279] (t @ r)" using st by (cases t) (simp_all add: starts_def)
  ultimately show ?thesis using st assms(3) by (simp add: json_loads_def)
qed

lemma json_dumps_loads:
  assumes "wf_json v" "ends_number r" "json_ws r = []"
  shows "\<exists>t. json_dumps v = Inr t \<and> json_loads (t @ r) = Inr (sort_val v)"
  using dump_reads(1) [OF wf_json_sort_val [OF assms(1)], of 0] json_loads_reads assms(2,3)
  by (auto simp: json_dumps_def)

section \<open>What is read can be written\<close>

lemma digits_value_bound: "\<forall>c \<in> set ds. is_digit c \<Longrightarrow> digits_value ds < 10 ^ length ds"
proof (induction ds rule: rev_induct)
  case Nil
  then show ?case by (simp add: digits_value_def)
next
  case (snoc c ds)
  then have "digits_value ds + 1 \<le> 10 ^ length ds" "c - 48 < 10" by (auto simp: is_digit_def)
  then have "digits_value ds * 10 + (c - 48) < 10 ^ length ds * 10" by linarith
  then show ?case by (simp add: mult.commute)
qed

lemma wf_json_int:
  assumes "ds \<noteq> []" "\<forall>c \<in> set ds. is_digit c" "json_int neg ds = Inr v"
  shows "wf_json v"
proof -
  have l: "length ds \<le> 4300" using assms(3) by (auto simp: json_int_def split: if_splits)
  have "digits_value ds < 10 ^ Suc (length ds - 1)" using digits_value_bound [OF assms(2)] assms(1) by (cases ds) simp_all
  then have "length (str_nat (digits_value ds)) \<le> Suc (length ds - 1)" by (rule length_str_nat)
  then have "length (str_nat (digits_value ds)) \<le> length ds" using assms(1) by (cases ds) simp_all
  with l have "length (str_nat (digits_value ds)) \<le> 4300" by (rule le_trans [rotated])
  with assms(3) show ?thesis by (auto simp: json_int_def short_int_def split: if_splits)
qed

lemma wf_json_float: "0 \<le> q \<Longrightarrow> wf_json (json_float neg q)"
proof -
  assume "0 \<le> q"
  then have "0 \<le> rnd64 q" by (rule binary64.nonneg)
  then show ?thesis by (auto simp: json_float_def Let_def binary64_def rnd64_minus abs_if not_le)
qed

lemma scan_number_wf:
  assumes "scan_number neg s = Inr (v, r)"
  shows "wf_json v"
proof -
  let ?w = "if hd s = 48 then ([48], tl s) else (takeWhile is_digit s, dropWhile is_digit s)"
  have s: "s \<noteq> []" "is_digit (hd s)" using assms by (auto simp: scan_number_def split: if_splits)
  then have w: "fst ?w \<noteq> []" "\<forall>c \<in> set (fst ?w). is_digit c"
    by (cases s; auto simp: is_digit_def dest: set_takeWhileD)+
  have "(\<exists>u. json_int neg (fst ?w) = Inr v \<and> u = v) \<or> (\<exists>n k. v = json_float neg (of_nat n * pow10 k))"
    using assms by (auto simp: scan_number_def Let_def rbind_Inr_iff split: prod.splits if_splits)
  then show ?thesis
    using wf_json_int [OF w] by (auto intro!: wf_json_float mult_nonneg_nonneg simp: less_imp_le)
qed

lemma json_scalar_wf: "json_scalar s = Inr (v, r) \<Longrightarrow> wf_json v"
  by (auto simp: json_scalar_def json_keyword_def rbind_Inr_iff
      split: list.splits if_splits option.splits dest: scan_number_wf)

lemma wf_dict_Nil [simp]: "wf_dict []"
  by (simp add: wf_dict_def)

lemma wf_dict_Cons [simp]: "wf_dict ((k, v) # d) \<longleftrightarrow> wf_json v \<and> \<not> dhas d k \<and> wf_dict d"
  by (auto simp: wf_dict_def dhas_def dkeys_def)

lemma dhas_dset: "dhas (dset d k v) k' \<longleftrightarrow> k' = k \<or> dhas d k'"
  by (auto simp: dhas_def dkeys_dset)

lemma wf_dict_dset: "wf_dict d \<Longrightarrow> wf_json v \<Longrightarrow> wf_dict (dset d k v)"
  by (induction d k v rule: dset.induct) (auto simp: dhas_dset)

lemma json_wf_all:
  "(\<forall>s v r. json_value n s = Inr (v, r) \<longrightarrow> wf_json v) \<and>
   (\<forall>acc s vs r. (\<forall>v \<in> set acc. wf_json v) \<longrightarrow> json_elements n acc s = Inr (vs, r) \<longrightarrow> (\<forall>v \<in> set vs. wf_json v)) \<and>
   (\<forall>d s d' r. wf_dict d \<longrightarrow> json_members n d s = Inr (d', r) \<longrightarrow> wf_dict d')"
proof (induction n)
  case 0
  then show ?case by (simp add: json_value.simps json_elements.simps json_members.simps)
next
  case (Suc n)
  then have v: "json_value n s = Inr (v, r) \<Longrightarrow> wf_json v"
    and e: "\<forall>v \<in> set acc. wf_json v \<Longrightarrow> json_elements n acc s = Inr (vs, r) \<Longrightarrow> \<forall>v \<in> set vs. wf_json v"
    and m: "wf_dict d \<Longrightarrow> json_members n d s = Inr (d', r) \<Longrightarrow> wf_dict d'" for s v r acc vs d d'
    by blast+
  have "wf_json v" if "json_value (Suc n) s = Inr (v, r)" for s v r
    using that e [of "[]"] m [of "[]"] json_scalar_wf
    by (auto simp: json_value.simps rbind_Inr_iff split: if_splits)
  moreover have "\<forall>v \<in> set vs. wf_json v"
    if "\<forall>v \<in> set acc. wf_json v" "json_elements (Suc n) acc s = Inr (vs, r)" for acc s vs r
  proof -
    from that(2) obtain x q where x: "json_value n s = Inr (x, q)"
      and "vs = rev (x # acc) \<or> (\<exists>t. json_elements n (x # acc) t = Inr (vs, r))"
      by (auto simp: json_elements.simps rbind_Inr_iff split: if_splits)
    moreover have "\<forall>y \<in> set (x # acc). wf_json y" using that(1) v [OF x] by simp
    ultimately show ?thesis using e [of "x # acc"] by (metis set_rev)
  qed
  moreover have "wf_dict d'" if "wf_dict d" "json_members (Suc n) d s = Inr (d', r)" for d s d' r
  proof -
    from that(2) obtain k z x q where x: "json_value n z = Inr (x, q)"
      and "d' = dset d k x \<or> (\<exists>t. json_members n (dset d k x) t = Inr (d', r))"
      by (auto simp: json_members.simps rbind_Inr_iff split: if_splits) blast
    moreover have "wf_dict (dset d k x)" using that(1) v [OF x] by (rule wf_dict_dset)
    ultimately show ?thesis using m [of "dset d k x"] by metis
  qed
  ultimately show ?case by blast
qed

lemma json_loads_wf: "json_loads s = Inr v \<Longrightarrow> wf_json v"
  using json_wf_all [of "2 * length s + 2", THEN conjunct1]
  by (auto simp: json_loads_def rbind_Inr_iff split: if_splits)

end
