(* ===== verification/Report.thy ===== *)
theory Report
  imports Analysis Runner Py_Json_Dump "HOL-Library.Product_Lexorder"
begin

text \<open>
  The scenario report of \<open>src/vdevlab/report.py\<close>: the documents of the application, of the dispatches
  and of the assertions, the causal timeline, and the status. Documents are dictionaries in insertion
  order.
\<close>

section \<open>Data\<close>

definition REPORT_SCHEMA_VERSION :: int where "REPORT_SCHEMA_VERSION = 1"

datatype ReportStatus = PASS | FAIL | ERROR | TIMEOUT

fun status_value :: "ReportStatus \<Rightarrow> pystr" where
  "status_value PASS = lit ''PASS''"
| "status_value FAIL = lit ''FAIL''"
| "status_value ERROR = lit ''ERROR''"
| "status_value TIMEOUT = lit ''TIMEOUT''"

record ScenarioReport =
  rp_status :: ReportStatus
  rp_scenario_name :: pystr
  rp_application :: "pydict option"
  rp_observations :: pydict
  rp_assertions :: "pydict list"
  rp_timeline :: "pydict list"
  rp_error :: "pydict option"
  rp_schema_version :: int

definition opt_val :: "('a \<Rightarrow> pyval) \<Rightarrow> 'a option \<Rightarrow> pyval" where
  "opt_val f x = (case x of None \<Rightarrow> PNone | Some y \<Rightarrow> f y)"

definition report_to_dict :: "ScenarioReport \<Rightarrow> pydict" where
  "report_to_dict report =
     [(lit ''schema_version'', PInt (rp_schema_version report)),
      (lit ''status'', PStr (status_value (rp_status report))),
      (lit ''scenario'', pydict_val [(lit ''name'', PStr (rp_scenario_name report))]),
      (lit ''application'', opt_val pydict_val (rp_application report)),
      (lit ''observations'', pydict_val (rp_observations report)),
      (lit ''assertions'', PList (map pydict_val (rp_assertions report))),
      (lit ''timeline'', PList (map pydict_val (rp_timeline report))),
      (lit ''error'', opt_val pydict_val (rp_error report))]"

definition report_to_json :: "ScenarioReport \<Rightarrow> pyexc + pystr" where
  "report_to_json report =
     rbind (json_dumps (pydict_val (report_to_dict report))) (\<lambda>text. Inr (text @ lit [CHR 0x0A]))"

section \<open>Documents\<close>

definition application_document :: "ApplicationResult \<Rightarrow> pydict" where
  "application_document application =
     [(lit ''command'', PList (map PStr (ar_command application))),
      (lit ''exit_code'', PInt (ar_exit_code application)),
      (lit ''timed_out'', PBool (ar_timed_out application)),
      (lit ''forced'', PBool (ar_forced application)),
      (lit ''stdout'', PStr (ar_stdout application)),
      (lit ''stderr'', PStr (ar_stderr application))]"

text \<open>\<open>scenario.events[index]\<close>\<close>

definition event_at :: "ScenarioDefinition \<Rightarrow> nat \<Rightarrow> pyexc + pydict" where
  "event_at scenario index =
     (if index < length (sd_events scenario) then Inr (sd_events scenario ! index)
      else Inl (IndexError (lit ''tuple index out of range'')))"

definition dispatch_entry :: "interpreter \<Rightarrow> DispatchRecord \<Rightarrow> pydict \<Rightarrow> pydict" where
  "dispatch_entry ip dsp definition =
     [(lit ''source'', PStr (lit ''scenario'')),
      (lit ''event'', PStr (if dr_action dsp = lit ''fault'' then lit ''FAULT_INJECTED''
                            else py_upper ip (dr_action dsp) @ lit ''_DISPATCHED'')),
      (lit ''timestamp_ms'', PInt (fl_int (dr_monotonic_started_ms dsp))),
      (lit ''event_index'', PInt (int (dr_index dsp))),
      (lit ''scheduled_ms'', PInt (dr_scheduled_ms dsp)),
      (lit ''duration_ms'', PFloat (FFin (fl_sub (dr_finished_ms dsp) (dr_started_ms dsp)))),
      (lit ''details'', pydict_val (filter (\<lambda>kv. fst kv \<noteq> lit ''action'' \<and> fst kv \<noteq> lit ''at_ms'') definition))]"

definition dispatch_timeline ::
  "interpreter \<Rightarrow> ScenarioDefinition \<Rightarrow> DispatchRecord list \<Rightarrow> pyexc + pydict list" where
  "dispatch_timeline ip scenario dispatches =
     traverse_from 0 (\<lambda>_ dsp.
       rbind (event_at scenario (dr_index dsp)) (\<lambda>definition.
       Inr (dispatch_entry ip dsp definition))) dispatches"

definition application_entry :: "ApplicationLogEvent \<Rightarrow> pydict" where
  "application_entry event =
     [(lit ''source'', PStr (lit ''application'')),
      (lit ''event'', PStr (le_event event)),
      (lit ''timestamp_ms'', PInt (le_timestamp_ms event)),
      (lit ''line'', PInt (le_line event)),
      (lit ''details'', pydict_val (le_fields event))]"

definition application_timeline :: "ApplicationLogEvent list \<Rightarrow> pydict list" where
  "application_timeline events = map application_entry events"

text \<open>The sort key: \<open>float(item["timestamp_ms"])\<close>, then scenario entries before application entries.\<close>

definition timeline_key :: "pydict \<Rightarrow> pyexc + (rat \<times> nat)" where
  "timeline_key item =
     rbind (dindex item (lit ''timestamp_ms'')) (\<lambda>v.
     rbind (case v of PInt n \<Rightarrow> fl_of_int n
              | _ \<Rightarrow> Inl (TypeError (lit ''float() argument must be a string or a real number''))) (\<lambda>t.
     rbind (dindex item (lit ''source'')) (\<lambda>source.
     Inr (t, if source = PStr (lit ''scenario'') then 0 else 1))))"

definition sorted_timeline :: "pydict list \<Rightarrow> pyexc + pydict list" where
  "sorted_timeline events =
     rbind (traverse_from 0 (\<lambda>_ item. rbind (timeline_key item) (\<lambda>k. Inr (k, item))) events) (\<lambda>keyed.
     Inr (map snd (sort_key fst keyed)))"

fun first_fault_timestamp :: "ScenarioDefinition \<Rightarrow> DispatchRecord list \<Rightarrow> pyexc + int option" where
  "first_fault_timestamp scenario [] = Inr None"
| "first_fault_timestamp scenario (dsp # dispatches) =
     rbind (event_at scenario (dr_index dsp)) (\<lambda>definition.
     if dget definition (lit ''action'') = PStr (lit ''fault'')
     then Inr (Some (fl_int (dr_monotonic_started_ms dsp)))
     else first_fault_timestamp scenario dispatches)"

definition causal_duration :: "int option \<Rightarrow> int option \<Rightarrow> int option" where
  "causal_duration end_ms start_ms =
     (case (end_ms, start_ms) of (Some e, Some s) \<Rightarrow> Some (e - s) | _ \<Rightarrow> None)"

section \<open>Assertion documents\<close>

definition event_count_document :: "EventCountAssertion \<Rightarrow> pydict" where
  "event_count_document a =
     [(lit ''type'', PStr (lit ''event_count'')), (lit ''event'', PStr (ec_event a)), (lit ''expected'', PInt (ec_expected a)),
      (lit ''observed'', PInt (ec_observed a)), (lit ''within_ms'', opt_val PInt (ec_within_ms a)),
      (lit ''passed'', PBool (ec_passed a))]"

definition stdout_document :: "StdoutAssertion \<Rightarrow> pydict" where
  "stdout_document a =
     [(lit ''type'', PStr (lit ''stdout'')), (lit ''operator'', PStr (so_operator a)), (lit ''text'', PStr (so_text a)),
      (lit ''passed'', PBool (so_passed a))]"

definition disconnect_document :: "DisconnectAssertion \<Rightarrow> pydict" where
  "disconnect_document a =
     [(lit ''type'', PStr (lit ''disconnect'')), (lit ''expected'', PBool (da_expected a)),
      (lit ''observed'', PBool (da_observed a)), (lit ''passed'', PBool (da_passed a))]"

definition kernel_warning_document :: "KernelWarningAssertion \<Rightarrow> pydict" where
  "kernel_warning_document a =
     [(lit ''type'', PStr (lit ''kernel_warnings'')), (lit ''expected'', PInt (kw_expected a)),
      (lit ''observed'', opt_val PInt (kw_observed a)), (lit ''available'', PBool (kw_available a)),
      (lit ''passed'', PBool (kw_passed a))]"

definition exit_code_document :: "int \<Rightarrow> pydict" where
  "exit_code_document code =
     [(lit ''type'', PStr (lit ''process_exit_code'')), (lit ''expected'', PInt 0), (lit ''observed'', PInt code),
      (lit ''passed'', PBool (code = 0))]"

definition latency_document :: "RecoveryLatencyAssertion \<Rightarrow> pydict" where
  "latency_document a =
     [(lit ''type'', PStr (lit ''recovery_latency'')), (lit ''maximum_ms'', PInt (rl_maximum_ms a)),
      (lit ''observed_ms'', opt_val PInt (rl_observed_ms a)), (lit ''passed'', PBool (rl_passed a))]"

definition window_document :: "RecoveryWindow \<Rightarrow> pydict" where
  "window_document w =
     [(lit ''first_error_timestamp_ms'', PInt (rw_first_error_timestamp_ms w)),
      (lit ''recovery_timestamp_ms'', PInt (rw_recovery_timestamp_ms w)),
      (lit ''recovery_latency_ms'', PInt (rw_recovery_latency_ms w)),
      (lit ''observed_retries'', PInt (rw_observed_retries w)),
      (lit ''reported_retries'', PInt (rw_reported_retries w))]"

text \<open>The documents of one definition in the loop over \<open>stdout\<close>, \<open>disconnect\<close> and \<open>kernel_warnings\<close>\<close>

definition other_documents ::
  "ScenarioRunResult \<Rightarrow> ApplicationLogEvent list \<Rightarrow> pydict \<Rightarrow> pyexc + pydict list" where
  "other_documents result events definition =
     (let assertion_type = dget definition (lit ''type'') in
      if assertion_type = PStr (lit ''stdout'') then
        rbind (evaluate_stdout_assertion (ar_stdout (sr_application result)) definition) (\<lambda>as. Inr (map stdout_document as))
      else if assertion_type = PStr (lit ''disconnect'') then
        rbind (dindex definition (lit ''expected'')) (\<lambda>expected.
        rbind (evaluate_disconnect events expected) (\<lambda>a. Inr [disconnect_document a]))
      else if assertion_type = PStr (lit ''kernel_warnings'') then
        rbind (dindex definition (lit ''count'')) (\<lambda>n.
        rbind (evaluate_kernel_warnings (sr_kernel_warnings result) n (sr_kernel_log_available result)) (\<lambda>a.
        Inr [kernel_warning_document a]))
      else Inr [])"

definition latency_documents :: "RecoveryMetrics \<Rightarrow> pydict \<Rightarrow> pyexc + pydict list" where
  "latency_documents metrics definition =
     (case dget definition (lit ''max_latency_ms'') of
        PInt n \<Rightarrow> rbind (evaluate_recovery_latency metrics (PInt n)) (\<lambda>a. Inr [latency_document a])
      | _ \<Rightarrow> Inr [])"

definition is_event_count :: "pydict \<Rightarrow> bool" where
  "is_event_count definition \<longleftrightarrow>
     dget_default definition (lit ''type'') (PStr (lit ''event_count'')) = PStr (lit ''event_count'')"

definition assertion_documents ::
  "ScenarioDefinition \<Rightarrow> ScenarioRunResult \<Rightarrow> ApplicationLogEvent list \<Rightarrow> RecoveryMetrics \<Rightarrow> pyexc + pydict list" where
  "assertion_documents scenario result events metrics =
     rbind (evaluate_event_assertions events (filter is_event_count (sd_assertions scenario))) (\<lambda>counted.
     rbind (traverse_from 0 (\<lambda>_. other_documents result events) (sd_assertions scenario)) (\<lambda>others.
     rbind (traverse_from 0 (\<lambda>_. latency_documents metrics) (sd_assertions scenario)) (\<lambda>latencies.
     Inr (map event_count_document counted @ concat others @
          [exit_code_document (ar_exit_code (sr_application result))] @ concat latencies))))"

section \<open>The report\<close>

definition observations_document ::
  "ScenarioRunResult \<Rightarrow> ApplicationLogEvent list \<Rightarrow> RecoveryMetrics \<Rightarrow> int option \<Rightarrow> pydict" where
  "observations_document result events metrics fault_timestamp_ms =
     [(lit ''observed_eio_count'', PInt (rm_observed_eio_count metrics)),
      (lit ''application_retry_count'', PInt (rm_application_retry_count metrics)),
      (lit ''fault_injection_timestamp_ms'', opt_val PInt fault_timestamp_ms),
      (lit ''first_error_timestamp_ms'', opt_val PInt (rm_first_error_timestamp_ms metrics)),
      (lit ''recovery_timestamp_ms'', opt_val PInt (rm_recovery_timestamp_ms metrics)),
      (lit ''recovery_latency_ms'', opt_val PInt (rm_recovery_latency_ms metrics)),
      (lit ''fault_to_first_error_ms'',
         opt_val PInt (causal_duration (rm_first_error_timestamp_ms metrics) fault_timestamp_ms)),
      (lit ''fault_to_recovery_ms'',
         opt_val PInt (causal_duration (rm_recovery_timestamp_ms metrics) fault_timestamp_ms)),
      (lit ''recoveries'', PList (map (\<lambda>w. pydict_val (window_document w)) (rm_recoveries metrics))),
      (lit ''disconnected'', PBool (list_ex is_disconnect events)),
      (lit ''kernel_log'', pydict_val
         [(lit ''available'', PBool (sr_kernel_log_available result)),
          (lit ''warning_count'',
             if sr_kernel_log_available result then PInt (int (length (sr_kernel_warnings result))) else PNone),
          (lit ''warnings'', PList (map PStr (sr_kernel_warnings result))),
          (lit ''error'', opt_val PStr (sr_kernel_log_error result))])]"

text \<open>\<open>bool(assertion["passed"])\<close>; the documents carry a boolean there.\<close>

definition document_passed :: "pydict \<Rightarrow> bool" where
  "document_passed d \<longleftrightarrow> dget d (lit ''passed'') = PBool True"

definition unavailable_error :: "pystr option \<Rightarrow> pydict" where
  "unavailable_error e =
     [(lit ''type'', PStr (lit ''KernelLogUnavailable'')),
      (lit ''message'', PStr (case e of Some m \<Rightarrow> if m \<noteq> [] then m else lit ''kernel log is unavailable''
                             | None \<Rightarrow> lit ''kernel log is unavailable''))]"

definition decide_status :: "ScenarioDefinition \<Rightarrow> ScenarioRunResult \<Rightarrow> pydict list \<Rightarrow> ReportStatus \<times> pydict option" where
  "decide_status scenario result documents =
     (if kernel_log_required scenario \<and> \<not> sr_kernel_log_available result
      then (ERROR, Some (unavailable_error (sr_kernel_log_error result)))
      else if ar_timed_out (sr_application result) then (TIMEOUT, None)
      else if \<not> list_all document_passed documents then (FAIL, None)
      else (PASS, None))"

definition error_document :: "pyexc \<Rightarrow> pydict" where
  "error_document e = [(lit ''type'', PStr (exc_name e)), (lit ''message'', PStr (exc_str e))]"

definition analyse_log :: "pystr \<Rightarrow> pyexc + (ApplicationLogEvent list \<times> RecoveryMetrics)" where
  "analyse_log stdout =
     rbind (parse_application_log stdout) (\<lambda>events.
     rbind (calculate_recovery_metrics events) (\<lambda>metrics. Inr (events, metrics)))"

definition log_error_report ::
  "ScenarioDefinition \<Rightarrow> ScenarioRunResult \<Rightarrow> pydict list \<Rightarrow> pyexc \<Rightarrow> pyexc + ScenarioReport" where
  "log_error_report scenario result dispatched e =
     rbind (sorted_timeline dispatched) (\<lambda>timeline.
     Inr \<lparr>rp_status = ERROR, rp_scenario_name = sd_name scenario,
          rp_application = Some (application_document (sr_application result)), rp_observations = [],
          rp_assertions = [], rp_timeline = timeline, rp_error = Some (error_document e),
          rp_schema_version = REPORT_SCHEMA_VERSION\<rparr>)"

definition analysed_report ::
  "ScenarioDefinition \<Rightarrow> ScenarioRunResult \<Rightarrow> pydict list \<Rightarrow> ApplicationLogEvent list \<Rightarrow> RecoveryMetrics \<Rightarrow>
     pyexc + ScenarioReport" where
  "analysed_report scenario result dispatched events metrics =
     rbind (assertion_documents scenario result events metrics) (\<lambda>documents.
     rbind (first_fault_timestamp scenario (sr_dispatches result)) (\<lambda>fault_timestamp_ms.
     rbind (sorted_timeline (dispatched @ application_timeline events)) (\<lambda>timeline.
     Inr \<lparr>rp_status = fst (decide_status scenario result documents), rp_scenario_name = sd_name scenario,
          rp_application = Some (application_document (sr_application result)),
          rp_observations = observations_document result events metrics fault_timestamp_ms,
          rp_assertions = documents, rp_timeline = timeline,
          rp_error = snd (decide_status scenario result documents),
          rp_schema_version = REPORT_SCHEMA_VERSION\<rparr>)))"

definition is_log_error :: "pyexc \<Rightarrow> bool" where
  "is_log_error e = (case e of ApplicationLogError _ _ \<Rightarrow> True | _ \<Rightarrow> False)"

definition build_scenario_report ::
  "interpreter \<Rightarrow> ScenarioDefinition \<Rightarrow> ScenarioRunResult \<Rightarrow> pyexc + ScenarioReport" where
  "build_scenario_report ip scenario result =
     rbind (dispatch_timeline ip scenario (sr_dispatches result)) (\<lambda>dispatched.
     case analyse_log (ar_stdout (sr_application result)) of
       Inl e \<Rightarrow> if is_log_error e then log_error_report scenario result dispatched e else Inl e
     | Inr (events, metrics) \<Rightarrow> analysed_report scenario result dispatched events metrics)"

definition build_error_report :: "pystr \<Rightarrow> pyexc \<Rightarrow> ScenarioReport" where
  "build_error_report scenario_name e =
     \<lparr>rp_status = ERROR, rp_scenario_name = scenario_name, rp_application = None, rp_observations = [],
      rp_assertions = [], rp_timeline = [], rp_error = Some (error_document e),
      rp_schema_version = REPORT_SCHEMA_VERSION\<rparr>"

end
