(* ===== verification/Report_Props.thy ===== *)
theory Report_Props
  imports Report Analysis_Props Scenario_Props "HOL-Library.Multiset"
begin

text \<open>
  The report of a validated scenario: what its verdict means, that it is always produced, and that the
  timeline is a stable sort of everything that happened.
\<close>

section \<open>The meaning of the assertions\<close>

definition count_holds :: "ApplicationLogEvent list \<Rightarrow> pystr \<Rightarrow> int \<Rightarrow> int option \<Rightarrow> bool" where
  "count_holds events name n wms \<longleftrightarrow>
     int (length (filter (\<lambda>e. le_event e = name \<and>
       (case wms of None \<Rightarrow> True | Some ms \<Rightarrow> le_timestamp_ms e - le_timestamp_ms (hd events) \<le> ms)) events)) = n"

definition latency_holds :: "RecoveryMetrics \<Rightarrow> int option \<Rightarrow> bool" where
  "latency_holds metrics latency \<longleftrightarrow>
     (case latency of
        None \<Rightarrow> True
      | Some ms \<Rightarrow> rm_recoveries metrics \<noteq> [] \<and> list_all (\<lambda>w. rw_recovery_latency_ms w \<le> ms) (rm_recoveries metrics))"

fun assertion_holds :: "ScenarioRunResult \<Rightarrow> ApplicationLogEvent list \<Rightarrow> RecoveryMetrics \<Rightarrow> assertion_spec \<Rightarrow> bool" where
  "assertion_holds result events metrics (EventCountA name n wms latency) \<longleftrightarrow>
     count_holds events name n wms \<and> latency_holds metrics latency"
| "assertion_holds result events metrics (StdoutA contains excludes) \<longleftrightarrow>
     (\<forall>s. contains = Some s \<longrightarrow> sublist s (ar_stdout (sr_application result))) \<and>
     (\<forall>s. excludes = Some s \<longrightarrow> \<not> sublist s (ar_stdout (sr_application result)))"
| "assertion_holds result events metrics (DisconnectA b) \<longleftrightarrow>
     b = (\<exists>e \<in> set events. le_event e = lit ''DEVICE_DISCONNECTED'')"
| "assertion_holds result events metrics (KernelWarningsA n) \<longleftrightarrow>
     sr_kernel_log_available result \<and> int (length (sr_kernel_warnings result)) = n"

section \<open>The evaluators on validated assertions\<close>

lemma counts_event_filter:
  "filter (counts_event (origin_timestamp events) name wms) events =
     filter (\<lambda>e. le_event e = name \<and>
       (case wms of None \<Rightarrow> True | Some ms \<Rightarrow> le_timestamp_ms e - le_timestamp_ms (hd events) \<le> ms)) events"
  by (cases events) (auto simp: counts_event_def origin_timestamp_def split: option.splits intro!: filter_cong)

lemma opt_field_get [simp]:
  "dget (opt_field k f x) k' = (if k' = k then opt_val f x else PNone)"
  by (cases x) (auto simp: opt_val_def)

lemma norm_assertion_fields:
  "dget (norm_assertion (EventCountA name n wms latency)) (lit ''event'') = PStr name"
  "dget (norm_assertion (EventCountA name n wms latency)) (lit ''count'') = PInt n"
  "dget (norm_assertion (EventCountA name n wms latency)) (lit ''within_ms'') = opt_val PInt wms"
  "dget (norm_assertion (EventCountA name n wms latency)) (lit ''max_latency_ms'') = opt_val PInt latency"
  "dget (norm_assertion (StdoutA c x)) (lit ''contains'') = opt_val PStr c"
  "dget (norm_assertion (StdoutA c x)) (lit ''not_contains'') = opt_val PStr x"
  "dget (norm_assertion (StdoutA c x)) (lit ''max_latency_ms'') = PNone"
  "dget (norm_assertion (DisconnectA b)) (lit ''max_latency_ms'') = PNone"
  "dget (norm_assertion (KernelWarningsA k)) (lit ''max_latency_ms'') = PNone"
  by (cases wms; cases latency; cases c; cases x; simp add: lit_def opt_val_def)+

lemma norm_assertion_type:
  "is_event_count (norm_assertion (EventCountA name n wms latency))"
  "\<not> is_event_count (norm_assertion (StdoutA c x))"
  "\<not> is_event_count (norm_assertion (DisconnectA b))"
  "\<not> is_event_count (norm_assertion (KernelWarningsA k))"
  by (simp_all add: is_event_count_def dget_default_def dhas_def dkeys_def lit_def)

lemma passed_documents [simp]:
  "document_passed (event_count_document ec) = ec_passed ec"
  "document_passed (stdout_document so) = so_passed so"
  "document_passed (disconnect_document da) = da_passed da"
  "document_passed (kernel_warning_document kw) = kw_passed kw"
  "document_passed (exit_code_document code) = (code = 0)"
  "document_passed (latency_document rl) = rl_passed rl"
  by (simp_all add: document_passed_def event_count_document_def stdout_document_def disconnect_document_def
      kernel_warning_document_def exit_code_document_def latency_document_def lit_def)

lemma LOG_EVENTS_not_empty: "name \<in> set LOG_EVENTS \<Longrightarrow> name \<noteq> []"
  by (auto simp: LOG_EVENTS_def lit_def)

lemma evaluate_event_norm:
  assumes "wf_assertion timeout (EventCountA name n wms latency)"
  shows "\<exists>r. evaluate_event_assertion events (origin_timestamp events) (norm_assertion (EventCountA name n wms latency)) = Inr r \<and>
    ec_passed r = count_holds events name n wms"
  using assms LOG_EVENTS_not_empty [of name]
  by (cases wms)
    (auto simp: evaluate_event_assertion_def norm_assertion_fields assertion_event_def assertion_count_def assertion_within_def
      opt_val_def Let_def counts_event_filter count_holds_def wf_bound_def)

lemma other_documents_norm:
  assumes "wf_assertion timeout x"
  shows "\<exists>ds. other_documents result events (norm_assertion x) = Inr ds \<and>
    (list_all document_passed ds \<longleftrightarrow> (case x of EventCountA _ _ _ _ \<Rightarrow> True | _ \<Rightarrow> assertion_holds result events metrics x))"
proof (cases x)
  case (StdoutA c x')
  with assms show ?thesis
    by (cases c; cases x')
      (auto simp: other_documents_def Let_def evaluate_stdout_assertion_def opt_val_def lit_def)
next
  case (DisconnectA b)
  then show ?thesis
    by (auto simp: other_documents_def Let_def dindex_def dhas_def dkeys_def evaluate_disconnect_def list_ex_iff
        is_disconnect_def lit_def)
next
  case (KernelWarningsA n)
  with assms show ?thesis
    by (auto simp: other_documents_def Let_def dindex_def dhas_def dkeys_def evaluate_kernel_warnings_def lit_def)
next
  case (EventCountA name n wms latency)
  then show ?thesis by (simp add: other_documents_def lit_def)
qed

lemma latency_documents_norm:
  assumes "wf_assertion timeout x"
  shows "\<exists>ds. latency_documents metrics (norm_assertion x) = Inr ds \<and>
    (list_all document_passed ds \<longleftrightarrow> (case x of EventCountA _ _ _ latency \<Rightarrow> latency_holds metrics latency | _ \<Rightarrow> True))"
proof (cases x)
  case (EventCountA name n wms latency)
  with assms show ?thesis
    by (cases latency; cases "rm_recoveries metrics = []")
      (auto simp: latency_documents_def norm_assertion_fields opt_val_def latency_holds_def wf_bound_def
        evaluate_recovery_latency_def Let_def max_default_eq list_all_iff simp del: norm_assertion.simps)
qed (simp_all add: latency_documents_def norm_assertion_fields del: norm_assertion.simps)

lemma traverse_total:
  assumes "\<forall>x \<in> set xs. \<exists>ds. f (g x) = Inr ds \<and> (Q ds \<longleftrightarrow> P x)"
  shows "\<exists>dss. traverse_from n (\<lambda>_. f) (map g xs) = Inr dss \<and> (list_all Q dss \<longleftrightarrow> (\<forall>x \<in> set xs. P x))"
  using assms
proof (induction xs arbitrary: n)
  case (Cons x xs)
  then obtain ds where "f (g x) = Inr ds" "Q ds \<longleftrightarrow> P x" by auto
  moreover obtain dss where "traverse_from (Suc n) (\<lambda>_. f) (map g xs) = Inr dss" "list_all Q dss \<longleftrightarrow> (\<forall>x \<in> set xs. P x)"
    using Cons.IH [of "Suc n"] Cons.prems by auto
  ultimately show ?case by auto
qed simp

lemma list_all_concat: "list_all P (concat xss) \<longleftrightarrow> list_all (list_all P) xss"
  by (induction xss) auto

lemma filter_event_count:
  "filter is_event_count (map norm_assertion xs) =
     map norm_assertion (filter (\<lambda>x. case x of EventCountA _ _ _ _ \<Rightarrow> True | _ \<Rightarrow> False) xs)"
  by (induction xs) (auto simp: norm_assertion_type split: assertion_spec.splits simp del: norm_assertion.simps)

text \<open>Every validated scenario has its assertion documents, and they all pass when everything holds.\<close>

lemma assertion_documents_norm:
  assumes "\<forall>x \<in> set (ss_assertions a). wf_assertion (ss_timeout a) x"
  shows "\<exists>ds. assertion_documents (normal_form src a) result events metrics = Inr ds \<and>
    (list_all document_passed ds \<longleftrightarrow>
       ar_exit_code (sr_application result) = 0 \<and> (\<forall>x \<in> set (ss_assertions a). assertion_holds result events metrics x))"
proof -
  let ?xs = "ss_assertions a"
  let ?ec = "filter (\<lambda>x. case x of EventCountA _ _ _ _ \<Rightarrow> True | _ \<Rightarrow> False) ?xs"
  let ?P1 = "\<lambda>x. case x of EventCountA name n wms _ \<Rightarrow> count_holds events name n wms | _ \<Rightarrow> True"
  let ?P2 = "\<lambda>x. case x of EventCountA _ _ _ _ \<Rightarrow> True | _ \<Rightarrow> assertion_holds result events metrics x"
  let ?P3 = "\<lambda>x. case x of EventCountA _ _ _ latency \<Rightarrow> latency_holds metrics latency | _ \<Rightarrow> True"
  have "\<forall>x \<in> set ?ec. \<exists>r. evaluate_event_assertion events (origin_timestamp events) (norm_assertion x) = Inr r \<and>
      (ec_passed r \<longleftrightarrow> ?P1 x)"
    using assms evaluate_event_norm by (fastforce split: assertion_spec.splits simp del: norm_assertion.simps)
  from traverse_total [where g = norm_assertion and f = "evaluate_event_assertion events (origin_timestamp events)" and
      Q = ec_passed and n = 0, OF this] obtain ecs where
    1: "evaluate_event_assertions events (filter is_event_count (map norm_assertion ?xs)) = Inr ecs"
      "list_all ec_passed ecs \<longleftrightarrow> (\<forall>x \<in> set ?ec. ?P1 x)"
    by (auto simp: evaluate_event_assertions_def filter_event_count)
  have "\<forall>x \<in> set ?xs. \<exists>ds. other_documents result events (norm_assertion x) = Inr ds \<and> (list_all document_passed ds \<longleftrightarrow> ?P2 x)"
    using assms other_documents_norm by blast
  from traverse_total [where g = norm_assertion and f = "other_documents result events" and
      Q = "list_all document_passed" and n = 0, OF this] obtain oss where
    2: "traverse_from 0 (\<lambda>_. other_documents result events) (map norm_assertion ?xs) = Inr oss"
      "list_all (list_all document_passed) oss \<longleftrightarrow> (\<forall>x \<in> set ?xs. ?P2 x)"
    by auto
  have "\<forall>x \<in> set ?xs. \<exists>ds. latency_documents metrics (norm_assertion x) = Inr ds \<and> (list_all document_passed ds \<longleftrightarrow> ?P3 x)"
    using assms latency_documents_norm by blast
  from traverse_total [where g = norm_assertion and f = "latency_documents metrics" and
      Q = "list_all document_passed" and n = 0, OF this] obtain lss where
    3: "traverse_from 0 (\<lambda>_. latency_documents metrics) (map norm_assertion ?xs) = Inr lss"
      "list_all (list_all document_passed) lss \<longleftrightarrow> (\<forall>x \<in> set ?xs. ?P3 x)"
    by auto
  have "(\<forall>x \<in> set ?ec. ?P1 x) \<and> (\<forall>x \<in> set ?xs. ?P2 x) \<and> (\<forall>x \<in> set ?xs. ?P3 x) \<longleftrightarrow>
      (\<forall>x \<in> set ?xs. assertion_holds result events metrics x)"
    by (fastforce split: assertion_spec.splits)
  moreover have "list_all document_passed (map event_count_document ecs) \<longleftrightarrow> list_all ec_passed ecs"
    by (simp add: list_all_iff)
  ultimately show ?thesis
    using 1 2 3 by (auto simp: assertion_documents_def normal_form_def list_all_concat)
qed

lemma kernel_log_required_norm:
  "kernel_log_required (normal_form src a) \<longleftrightarrow> (\<exists>n. KernelWarningsA n \<in> set (ss_assertions a))"
proof -
  have "dget (norm_assertion x) (lit ''type'') = PStr (lit ''kernel_warnings'') \<longleftrightarrow> (\<exists>n. x = KernelWarningsA n)" for x
    by (cases x) (simp_all add: lit_def)
  then show ?thesis by (auto simp: kernel_log_required_def normal_form_def list_ex_iff)
qed

section \<open>Exceptions of the report\<close>

lemma metrics_step_err: "metrics_step st e = Inl err \<Longrightarrow> is_log_error err"
  by (auto simp: metrics_step_def retry_step_def recovery_step_def rbind_Inl_iff is_log_error_def
      split: if_splits option.splits dest!: require_nonnegative_integer_err)

lemma metrics_loop_err: "metrics_loop st es = Inl err \<Longrightarrow> is_log_error err"
  by (induction es arbitrary: st) (auto simp: rbind_Inl_iff dest: metrics_step_err)

lemma parse_log_err:
  assumes "parse_application_log t = Inl e"
  shows "is_log_error e \<or> e = digit_limit_error \<and> (\<exists>l \<in> set (splitlines t). json_loads l = Inl e \<and> long_number l)"
  using parse_log_lines_err [OF assms [unfolded parse_application_log_def]] by (auto simp: is_log_error_def)

lemma analyse_log_err:
  assumes "analyse_log t = Inl e"
  shows "is_log_error e \<or> e = digit_limit_error \<and> (\<exists>l \<in> set (splitlines t). json_loads l = Inl e \<and> long_number l)"
proof (cases "parse_application_log t")
  case (Inl err)
  with assms parse_log_err [OF Inl] show ?thesis by (simp add: analyse_log_def)
next
  case (Inr es)
  with assms show ?thesis by (auto simp: analyse_log_def rbind_Inl_iff calculate_recovery_metrics_def dest: metrics_loop_err)
qed

definition float_range_error :: pyexc where
  "float_range_error = OverflowError (lit ''int too large to convert to float'')"

lemma entry_keys:
  "timeline_key (dispatch_entry ip r d) = rbind (fl_of_int (fl_int (dr_monotonic_started_ms r))) (\<lambda>t. Inr (t, 0))"
  "timeline_key (application_entry ev) = rbind (fl_of_int (le_timestamp_ms ev)) (\<lambda>t. Inr (t, 1))"
  by (simp_all add: timeline_key_def dispatch_entry_def application_entry_def dindex_def dhas_def dkeys_def lit_def)

definition is_entry :: "interpreter \<Rightarrow> pydict \<Rightarrow> bool" where
  "is_entry ip d \<longleftrightarrow> (\<exists>r def. d = dispatch_entry ip r def) \<or> (\<exists>ev. d = application_entry ev)"

lemma fl_of_int_err:
  assumes "fl_of_int n = Inl e"
  shows "e = float_range_error \<and> 2 ^ 1000 \<le> \<bar>n\<bar>"
proof -
  have "2 ^ 1000 \<le> \<bar>n\<bar>"
  proof (rule ccontr)
    assume "\<not> 2 ^ 1000 \<le> \<bar>n\<bar>"
    then have "\<bar>of_int n :: rat\<bar> < of_int (2 ^ 1000)" unfolding not_le by (metis of_int_abs of_int_less_iff)
    also have "\<dots> = pow2 1000" by (simp add: pow2_def del: power_numeral)
    finally show False using rnd64_small assms by (simp add: fl_of_int_def fl_of_rat_def not_le [symmetric] split: if_splits)
  qed
  then show ?thesis using assms by (auto simp: fl_of_int_def fl_of_rat_def float_range_error_def split: if_splits)
qed

text \<open>The time of an entry, and the times in a timeline\<close>

definition entry_time :: "pydict \<Rightarrow> int" where
  "entry_time d = (case dget d (lit ''timestamp_ms'') of PInt n \<Rightarrow> n | _ \<Rightarrow> 0)"

lemma entry_time_simps [simp]:
  "entry_time (dispatch_entry ip r d) = fl_int (dr_monotonic_started_ms r)" "entry_time (application_entry ev) = le_timestamp_ms ev"
  by (simp_all add: entry_time_def dispatch_entry_def application_entry_def lit_def)

definition report_times :: "ScenarioRunResult \<Rightarrow> int list" where
  "report_times result =
     map (\<lambda>r. fl_int (dr_monotonic_started_ms r)) (sr_dispatches result) @
     (case analyse_log (ar_stdout (sr_application result)) of Inl _ \<Rightarrow> [] | Inr (events, _) \<Rightarrow> map le_timestamp_ms events)"

lemma sorted_timeline_err:
  assumes "\<forall>d \<in> set ds. is_entry ip d" "sorted_timeline ds = Inl e"
  shows "e = float_range_error \<and> (\<exists>d \<in> set ds. fl_of_int (entry_time d) = Inl e \<and> 2 ^ 1000 \<le> \<bar>entry_time d\<bar>)"
proof -
  from assms(2) have "traverse_from 0 (\<lambda>_ item. rbind (timeline_key item) (\<lambda>k. Inr (k, item))) ds = Inl e"
    by (auto simp: sorted_timeline_def rbind_Inl_iff)
  from traverse_from_Inl [OF this] obtain i where i: "i < length ds" "timeline_key (ds ! i) = Inl e"
    by (auto simp: rbind_Inl_iff)
  moreover have "is_entry ip (ds ! i)" using assms(1) \<open>i < length ds\<close> by simp
  ultimately have "fl_of_int (entry_time (ds ! i)) = Inl e" by (auto simp: is_entry_def entry_keys rbind_Inl_iff)
  with fl_of_int_err [OF this] i(1) show ?thesis by auto
qed

lemma dispatch_timeline_norm:
  assumes "\<forall>r \<in> set rs. dr_index r < length (sd_events sc)"
  shows "dispatch_timeline ip sc rs = Inr (map (\<lambda>r. dispatch_entry ip r (sd_events sc ! dr_index r)) rs)"
  unfolding dispatch_timeline_def using assms by (intro traverse_from_map) (simp add: event_at_def)

lemma first_fault_total:
  "\<forall>r \<in> set rs. dr_index r < length (sd_events sc) \<Longrightarrow> \<exists>t. first_fault_timestamp sc rs = Inr t"
  by (induction rs) (auto simp: event_at_def)

lemma build_report_cases:
  assumes "wf_spec a" "\<forall>r \<in> set (sr_dispatches result). dr_index r < length (ss_events a)"
  shows "(\<exists>rep. build_scenario_report ip (normal_form src a) result = Inr rep) \<or>
    build_scenario_report ip (normal_form src a) result = Inl digit_limit_error \<and>
      (\<exists>l \<in> set (splitlines (ar_stdout (sr_application result))). json_loads l = Inl digit_limit_error \<and> long_number l) \<or>
    build_scenario_report ip (normal_form src a) result = Inl float_range_error \<and>
      (\<exists>t \<in> set (report_times result). fl_of_int t = Inl float_range_error \<and> 2 ^ 1000 \<le> \<bar>t\<bar>)"
proof -
  let ?sc = "normal_form src a"
  have idx: "\<forall>r \<in> set (sr_dispatches result). dr_index r < length (sd_events ?sc)"
    using assms(2) by (simp add: normal_form_def)
  define ds where "ds = map (\<lambda>r. dispatch_entry ip r (sd_events ?sc ! dr_index r)) (sr_dispatches result)"
  have ds: "dispatch_timeline ip ?sc (sr_dispatches result) = Inr ds" "\<forall>d \<in> set ds. is_entry ip d"
    "entry_time ` set ds \<subseteq> set (report_times result)"
    using dispatch_timeline_norm [OF idx] by (auto simp: ds_def is_entry_def report_times_def)
  have sorted_cases: "(\<exists>ts. sorted_timeline xs = Inr ts) \<or> sorted_timeline xs = Inl float_range_error \<and>
      (\<exists>t \<in> set (report_times result). fl_of_int t = Inl float_range_error \<and> 2 ^ 1000 \<le> \<bar>t\<bar>)"
    if "\<forall>d \<in> set xs. is_entry ip d" "entry_time ` set xs \<subseteq> set (report_times result)" for xs
    using sorted_timeline_err [OF that(1)] that(2) by (cases "sorted_timeline xs") auto
  show ?thesis
  proof (cases "analyse_log (ar_stdout (sr_application result))")
    case (Inl e)
    with analyse_log_err [OF this] sorted_cases [OF ds(2,3)] ds(1) show ?thesis
      by (auto simp: build_scenario_report_def log_error_report_def is_log_error_def)
  next
    case (Inr em)
    obtain events metrics where em: "em = (events, metrics)" by (cases em)
    obtain docs where "assertion_documents ?sc result events metrics = Inr docs"
      using assertion_documents_norm [of a src result events metrics] assms(1) by (auto simp: wf_spec_def)
    moreover obtain t where "first_fault_timestamp ?sc (sr_dispatches result) = Inr t" using first_fault_total [OF idx] by blast
    moreover have "\<forall>d \<in> set (ds @ application_timeline events). is_entry ip d"
      "entry_time ` set (ds @ application_timeline events) \<subseteq> set (report_times result)"
      using ds(2,3) Inr em by (auto simp: application_timeline_def is_entry_def report_times_def)
    ultimately show ?thesis
      using Inr em ds(1) sorted_cases [of "ds @ application_timeline events"]
      by (auto simp: build_scenario_report_def analysed_report_def)
  qed
qed

lemma build_report_status:
  assumes "wf_spec a" "build_scenario_report ip (normal_form src a) result = Inr rep"
  shows "rp_status rep =
    (case analyse_log (ar_stdout (sr_application result)) of
       Inl _ \<Rightarrow> ERROR
     | Inr (events, metrics) \<Rightarrow>
         if (\<exists>n. KernelWarningsA n \<in> set (ss_assertions a)) \<and> \<not> sr_kernel_log_available result then ERROR
         else if ar_timed_out (sr_application result) then TIMEOUT
         else if ar_exit_code (sr_application result) = 0 \<and>
           (\<forall>x \<in> set (ss_assertions a). assertion_holds result events metrics x) then PASS
         else FAIL)"
proof (cases "analyse_log (ar_stdout (sr_application result))")
  case (Inl e)
  with assms show ?thesis
    by (auto simp: build_scenario_report_def log_error_report_def rbind_Inr_iff split: if_splits)
next
  case (Inr em)
  obtain events metrics where em: "em = (events, metrics)" by (cases em)
  obtain docs where docs: "assertion_documents (normal_form src a) result events metrics = Inr docs"
    "list_all document_passed docs \<longleftrightarrow>
       ar_exit_code (sr_application result) = 0 \<and> (\<forall>x \<in> set (ss_assertions a). assertion_holds result events metrics x)"
    using assertion_documents_norm [of a src result events metrics] assms(1) by (auto simp: wf_spec_def)
  have "rp_status rep = fst (decide_status (normal_form src a) result docs)"
    using assms(2) Inr em docs(1) by (auto simp: build_scenario_report_def analysed_report_def rbind_Inr_iff)
  then show ?thesis
    unfolding decide_status_def kernel_log_required_norm docs(2) using Inr em by simp
qed

section \<open>The timeline\<close>

lemma keyed_traverse:
  "traverse_from n (\<lambda>_ item. rbind (timeline_key item) (\<lambda>k. Inr (k, item))) ds = Inr keyed \<Longrightarrow>
     map snd keyed = ds \<and> (\<forall>(k, d) \<in> set keyed. timeline_key d = Inr k)"
  by (induction ds arbitrary: n keyed) (fastforce simp: rbind_Inr_iff)+

lemma sorted_timeline_facts:
  assumes "sorted_timeline ds = Inr ts"
  shows "mset ts = mset ds" "sorted_wrt (\<lambda>x y. projr (timeline_key x) \<le> projr (timeline_key y)) ts"
    "filter (\<lambda>d. timeline_key d = Inr k) ts = filter (\<lambda>d. timeline_key d = Inr k) ds"
proof -
  from assms obtain keyed where
    keyed: "map snd keyed = ds" "\<forall>(k, d) \<in> set keyed. timeline_key d = Inr k" "ts = map snd (sort_key fst keyed)"
    by (auto simp: sorted_timeline_def rbind_Inr_iff dest: keyed_traverse)
  then have ds: "ds = map snd keyed" by simp
  have key: "timeline_key (snd x) = Inr (fst x)" if "x \<in> set keyed" for x
    using keyed(2) that by (cases x) auto
  show "mset ts = mset ds" by (simp add: keyed(3) ds)
  have "sorted_wrt (\<lambda>x y. fst x \<le> fst y) (sort_key fst keyed)"
    using sorted_sort_key [of fst keyed] by (simp add: sorted_map)
  then show "sorted_wrt (\<lambda>x y. projr (timeline_key x) \<le> projr (timeline_key y)) ts"
    unfolding keyed(3) sorted_wrt_map
    by (rule sorted_wrt_mono_rel [rotated]) (simp add: key)
  have eq: "filter ((\<lambda>d. timeline_key d = Inr k) \<circ> snd) xs = filter (\<lambda>y. fst y = k) xs" if "set xs \<subseteq> set keyed" for xs
    using that key by (intro filter_cong) auto
  show "filter (\<lambda>d. timeline_key d = Inr k) ts = filter (\<lambda>d. timeline_key d = Inr k) ds"
    unfolding keyed(3) ds filter_map by (simp add: eq sort_key_stable)
qed

lemma sorted_timeline_total:
  assumes "\<forall>d \<in> set ds. \<exists>k. timeline_key d = Inr k"
  shows "\<exists>ts. sorted_timeline ds = Inr ts"
proof -
  have "traverse_from n (\<lambda>_ item. rbind (timeline_key item) (\<lambda>k. Inr (k, item))) ds =
      Inr (map (\<lambda>d. (projr (timeline_key d), d)) ds)" for n
    using assms by (intro traverse_from_map) (force simp: in_set_conv_nth)
  then show ?thesis by (simp add: sorted_timeline_def)
qed

section \<open>A sample report\<close>

definition sample_spec :: scenario_spec where
  "sample_spec = recovery_spec\<lparr>ss_assertions :=
     [EventCountA (lit ''READ_RETRY'') 1 None None,
      EventCountA (lit ''RECOVERY_SUCCESS'') 1 (Some 2000) (Some 1000),
      StdoutA (Some (lit ''RECOVERY_SUCCESS'')) None, DisconnectA False, KernelWarningsA 0]\<rparr>"

definition sample_result :: ScenarioRunResult where
  "sample_result =
     \<lparr>sr_scenario_name = lit ''three-eio-recovery'', sr_dispatches = [],
      sr_application = \<lparr>ar_command = [lit ''app''], ar_exit_code = 0, ar_stdout = sample_log, ar_stderr = [],
        ar_timed_out = False, ar_forced = False\<rparr>,
      sr_kernel_warnings = [], sr_kernel_log_available = True, sr_kernel_log_error = None\<rparr>"

definition sample_interpreter :: interpreter where
  "sample_interpreter = \<lparr>ip_str = (\<lambda>_. []), ip_int = (\<lambda>_. Inr 0), ip_upper = (\<lambda>c. [c])\<rparr>"

lemma wf_sample_spec: "wf_spec sample_spec"
  using wf_recovery_spec by (simp add: sample_spec_def wf_spec_def wf_bound_def LOG_EVENTS_def lit_def recovery_spec_def)

lemma sample_analysis: "\<exists>m. analyse_log sample_log = Inr (sample_events, m) \<and> latency_holds m (Some 1000)"
  using sample_metrics parse_sample_log by (auto simp: analyse_log_def latency_holds_def)

lemma sample_sublist: "sublist (lit ''RECOVERY_SUCCESS'') sample_log"
proof -
  have "sample_log = (json_line 1000 ''READ_RETRY'' [(''errno'', 5), (''retry'', 1)] @ [10, 10] @
      [123, 34] @ lit ''timestamp_ms'' @ [34, 58] @ str_nat 1250 @ [44, 34] @ lit ''event'' @ [34, 58, 34]) @
      lit ''RECOVERY_SUCCESS'' @ ([34] @ concat (map (\<lambda>(k, n). [44, 34] @ lit k @ [34, 58] @ str_nat n) [(''retries'', 1)]) @
      [125] @ [10])"
    by (simp add: sample_log_def json_line_def)
  then show ?thesis by (metis sublist_appendI)
qed

lemma sample_holds:
  assumes "latency_holds m (Some 1000)"
  shows "\<forall>x \<in> set (ss_assertions sample_spec). assertion_holds sample_result sample_events m x"
  using assms sample_sublist
  by (simp add: sample_spec_def count_holds_def sample_events_def sample_result_def latency_holds_def lit_def)

lemma sample_timeline: "set es \<subseteq> set sample_events \<Longrightarrow> \<exists>ts. sorted_timeline (application_timeline es) = Inr ts"
proof -
  have "\<forall>e \<in> set sample_events. \<exists>k. timeline_key (application_entry e) = Inr k"
    by (simp add: sample_events_def entry_keys fl_of_int_small)
  then show "set es \<subseteq> set sample_events \<Longrightarrow> \<exists>ts. sorted_timeline (application_timeline es) = Inr ts"
    by (intro sorted_timeline_total) (auto simp: application_timeline_def)
qed

lemma sample_report: "\<exists>rep. build_scenario_report sample_interpreter (normal_form [] sample_spec) sample_result = Inr rep"
proof -
  obtain m where m: "analyse_log sample_log = Inr (sample_events, m)" using sample_analysis by blast
  obtain docs where docs: "assertion_documents (normal_form [] sample_spec) sample_result sample_events m = Inr docs"
    using assertion_documents_norm [of sample_spec "[]" sample_result sample_events m] wf_sample_spec
    by (auto simp: wf_spec_def)
  have "\<exists>ts. sorted_timeline (application_timeline sample_events) = Inr ts" by (rule sample_timeline) simp
  with m docs show ?thesis
    by (auto simp: build_scenario_report_def analysed_report_def dispatch_timeline_def sample_result_def)
qed

section \<open>Properties\<close>

text \<open>
  C28. The verdict of a report is the decision table of the documentation: for a validated scenario the
  status is \<open>ERROR\<close> when the log cannot be analysed or a required kernel log is missing, otherwise
  \<open>TIMEOUT\<close> when the application timed out, otherwise \<open>PASS\<close> exactly when the application exited with
  0 and every assertion of the scenario holds of the log, the output and the kernel log, and \<open>FAIL\<close> if
  not.
\<close>

theorem report_verdict:
  assumes "wf_spec a" and "build_scenario_report ip (normal_form src a) result = Inr rep"
  shows "rp_status rep =
    (case analyse_log (ar_stdout (sr_application result)) of
       Inl _ \<Rightarrow> ERROR
     | Inr (events, metrics) \<Rightarrow>
         if (\<exists>n. KernelWarningsA n \<in> set (ss_assertions a)) \<and> \<not> sr_kernel_log_available result then ERROR
         else if ar_timed_out (sr_application result) then TIMEOUT
         else if ar_exit_code (sr_application result) = 0 \<and>
           (\<forall>x \<in> set (ss_assertions a). assertion_holds result events metrics x) then PASS
         else FAIL)"
  using assms by (rule build_report_status)

theorem report_verdict_witness:
  "\<exists>rep. build_scenario_report sample_interpreter (normal_form [] sample_spec) sample_result = Inr rep \<and> rp_status rep = PASS"
proof -
  obtain rep where rep: "build_scenario_report sample_interpreter (normal_form [] sample_spec) sample_result = Inr rep"
    using sample_report by blast
  obtain m where "analyse_log (ar_stdout (sr_application sample_result)) = Inr (sample_events, m)" "latency_holds m (Some 1000)"
    using sample_analysis by (auto simp: sample_result_def)
  with report_verdict [OF wf_sample_spec rep] sample_holds [of m] have "rp_status rep = PASS"
    by (simp add: sample_result_def)
  with rep show ?thesis by blast
qed

text \<open>
  C29. A report is always produced: for a validated scenario and the records of its own dispatches, building the
  report returns one, with two exceptions. The \<open>ValueError\<close> of the interpreter's digit limit is raised when a line of
  the log has a number of more than 4300 digits, and the \<open>OverflowError\<close> of \<open>float\<close> when the time of a dispatch or of
  an event of the log is beyond the range of a float. No assertion evaluator raises and no index is out of range.
\<close>

theorem report_produced:
  assumes "wf_spec a" and "\<forall>r \<in> set (sr_dispatches result). dr_index r < length (ss_events a)"
  shows "(\<exists>rep. build_scenario_report ip (normal_form src a) result = Inr rep) \<or>
    build_scenario_report ip (normal_form src a) result = Inl digit_limit_error \<and>
      (\<exists>l \<in> set (splitlines (ar_stdout (sr_application result))). json_loads l = Inl digit_limit_error \<and> long_number l) \<or>
    build_scenario_report ip (normal_form src a) result = Inl float_range_error \<and>
      (\<exists>t \<in> set (report_times result). fl_of_int t = Inl float_range_error \<and> 2 ^ 1000 \<le> \<bar>t\<bar>)"
  using assms by (rule build_report_cases)

theorem report_produced_witness:
  "\<exists>rep. build_scenario_report sample_interpreter (normal_form [] sample_spec) sample_result = Inr rep"
proof -
  have out: "ar_stdout (sr_application sample_result) = sample_log" by (simp add: sample_result_def)
  have "\<not> long_number l" if "l \<in> set (splitlines sample_log)" for l
  proof
    assume "long_number l"
    then have "4300 < length l" by (auto simp: long_number_def dest: sublist_length_le)
    with that show False by (auto simp: sample_log_lines json_line_def lit_def str_nat.simps)
  qed
  moreover have "\<forall>t \<in> set (report_times sample_result). \<not> 2 ^ 1000 \<le> \<bar>t\<bar>"
    using sample_analysis by (auto simp: report_times_def sample_result_def sample_events_def)
  ultimately show ?thesis
    using report_produced [OF wf_sample_spec, of sample_result sample_interpreter "[]"] unfolding out
    by (fastforce simp: sample_result_def)
qed

text \<open>
  The timeline is a stable sort: it has exactly the given entries, ordered by time, with scenario
  entries before application entries of the same time, and entries of equal key keep their order.
\<close>

theorem sorted_timeline_stable:
  assumes "sorted_timeline ds = Inr ts"
  shows "mset ts = mset ds \<and> sorted_wrt (\<lambda>x y. projr (timeline_key x) \<le> projr (timeline_key y)) ts \<and>
    (\<forall>k. filter (\<lambda>d. timeline_key d = Inr k) ts = filter (\<lambda>d. timeline_key d = Inr k) ds)"
  using sorted_timeline_facts [OF assms] by blast

theorem sorted_timeline_stable_witness:
  "\<exists>ts. sorted_timeline (application_timeline (rev sample_events)) = Inr ts \<and>
    mset ts = mset (application_timeline (rev sample_events))"
proof -
  have "\<exists>ts. sorted_timeline (application_timeline (rev sample_events)) = Inr ts" by (rule sample_timeline) simp
  then show ?thesis using sorted_timeline_stable by blast
qed

end
