(* ===== verification/Report_Json.thy ===== *)
theory Report_Json
  imports Report_Props
begin

text \<open>
  The JSON text of a report. Every report of a validated scenario is serializable, whatever the
  application logged, and the text reads back as the report's document.
\<close>

section \<open>Integers within the digit limit\<close>

definition int_limit :: int where "int_limit = 10 ^ 4300"

lemma length_str_nat_le: "0 < k \<Longrightarrow> n < 10 ^ k \<Longrightarrow> length (str_nat n) \<le> k"
  by (cases k) (auto dest: length_str_nat simp del: power_Suc)

lemma length_str_nat_iff:
  assumes "0 < k"
  shows "length (str_nat (nat \<bar>n\<bar>)) \<le> k \<longleftrightarrow> \<bar>n\<bar> < 10 ^ k"
proof -
  have "length (str_nat (nat \<bar>n\<bar>)) \<le> k \<longleftrightarrow> nat \<bar>n\<bar> < 10 ^ k"
  proof
    assume "length (str_nat (nat \<bar>n\<bar>)) \<le> k"
    then have "(10 :: nat) ^ length (str_nat (nat \<bar>n\<bar>)) \<le> 10 ^ k" by (intro power_increasing) simp_all
    with length_str_nat_upper [of "nat \<bar>n\<bar>"] show "nat \<bar>n\<bar> < 10 ^ k" by (rule less_le_trans)
  qed (rule length_str_nat_le [OF assms])
  also have "\<dots> \<longleftrightarrow> int (nat \<bar>n\<bar>) < int (10 ^ k)" by (rule of_nat_less_iff [symmetric])
  finally show ?thesis by simp
qed

lemma short_int_iff: "short_int n \<longleftrightarrow> \<bar>n\<bar> < int_limit"
  unfolding short_int_def int_limit_def by (rule length_str_nat_iff) simp

lemma int_limit_word: "2 ^ 65 \<le> int_limit"
proof -
  have "(10 :: int) ^ 20 \<le> 10 ^ 4300" by (rule power_increasing) simp_all
  moreover have "(2 :: int) ^ 65 \<le> 10 ^ 20" by simp
  ultimately show ?thesis unfolding int_limit_def by (rule order_trans [rotated])
qed

lemma short_int_word: "\<bar>n\<bar> \<le> 2 ^ 64 \<Longrightarrow> short_int n"
  using int_limit_word by (simp add: short_int_iff)

definition short_nonneg :: "int \<Rightarrow> bool" where
  "short_nonneg n \<longleftrightarrow> 0 \<le> n \<and> short_int n"

lemma short_nonneg_word: "0 \<le> n \<Longrightarrow> n \<le> 2 ^ 64 \<Longrightarrow> short_nonneg n"
  by (simp add: short_nonneg_def short_int_word)

lemma short_nonneg_diff: "short_nonneg m \<Longrightarrow> short_nonneg n \<Longrightarrow> short_int (m - n)"
  unfolding short_nonneg_def short_int_iff by linarith

section \<open>Dictionaries\<close>

lemma wf_dict_filter: "wf_dict d \<Longrightarrow> wf_dict (filter P d)"
  by (auto simp: wf_dict_def intro: distinct_map_filter)

lemma wf_dict_get: "wf_dict d \<Longrightarrow> wf_json (dget d k)"
  by (auto simp: wf_dict_def dget_def split: option.splits dest: map_of_SomeD)

lemma wf_json_opt [simp]: "wf_json (opt_val f x) \<longleftrightarrow> (\<forall>y. x = Some y \<longrightarrow> wf_json (f y))"
  by (simp add: opt_val_def split: option.splits)

section \<open>Events and metrics of a log\<close>

definition wf_event :: "int \<Rightarrow> ApplicationLogEvent \<Rightarrow> bool" where
  "wf_event k e \<longleftrightarrow> short_nonneg (le_timestamp_ms e) \<and> wf_dict (le_fields e) \<and> 0 \<le> le_line e \<and> le_line e \<le> k"

lemma line_object_wf: "line_object raw d \<Longrightarrow> wf_dict d"
proof -
  assume "line_object raw d"
  then obtain kvs where "json_loads raw = Inr (PDict kvs)" and d: "d = map (\<lambda>(k, v). (the_str k, v)) kvs"
    by (auto simp: line_object_def)
  then have wf: "wf_json (PDict kvs)" by (intro json_loads_wf)
  then have "pydict_val d = PDict kvs" unfolding d by (intro pydict_val_strs) auto
  with wf show "wf_dict d" by (metis wf_json_pydict_val)
qed

lemma event_of_line_wf:
  assumes "event_of_line raw e" "0 \<le> le_line e" "le_line e \<le> k"
  shows "wf_event k e"
proof -
  from assms(1) obtain d where d: "line_object raw d" "dget d (lit ''timestamp_ms'') = PInt (le_timestamp_ms e)"
    "0 \<le> le_timestamp_ms e" "le_fields e = filter (\<lambda>kv. fst kv \<noteq> lit ''timestamp_ms'' \<and> fst kv \<noteq> lit ''event'') d"
    by (auto simp: event_of_line_def)
  have wf: "wf_dict d" by (rule line_object_wf [OF d(1)])
  have "wf_json (PInt (le_timestamp_ms e))" unfolding d(2) [symmetric] by (rule wf_dict_get [OF wf])
  with wf d assms show ?thesis by (auto simp: wf_event_def short_nonneg_def wf_dict_filter)
qed

lemma length_splitlines: "length (splitlines s) \<le> length s"
proof -
  have "length (splitlines_acc acc t) \<le> length t + (if acc = [] then 0 else 1)" for acc t
  proof (induction acc t rule: splitlines_acc.induct)
    case (2 acc c cs)
    then show ?case by (cases cs) (auto split: if_splits)
  qed simp
  from this [of "[]" s] show ?thesis by (simp add: splitlines_def)
qed

lemma parsed_events_wf:
  assumes "parse_application_log t = Inr es"
  shows "\<forall>e \<in> set es. wf_event (int (length t)) e" "length es \<le> length t"
proof -
  have all: "list_all2 (\<lambda>(i, l) e. le_line e = i \<and> event_of_line l e) (numbered 1 (splitlines t)) es"
    using assms by (simp add: parse_application_log_iff)
  show "\<forall>e \<in> set es. wf_event (int (length t)) e"
  proof
    fix e assume "e \<in> set es"
    with all obtain p where p: "p \<in> set (numbered 1 (splitlines t))" "le_line e = fst p" "event_of_line (snd p) e"
      by (force simp: list_all2_conv_all_nth in_set_conv_nth case_prod_unfold)
    with numbered_bounds [OF p(1)] length_splitlines [of t] show "wf_event (int (length t)) e"
      by (intro event_of_line_wf) auto
  qed
  have "length es = length (numbered 1 (splitlines t))" using all by (auto dest: list_all2_lengthD)
  also have "\<dots> \<le> length (splitlines t)" unfolding numbered_def by (rule le_trans [OF length_filter_le]) simp
  also have "\<dots> \<le> length t" by (rule length_splitlines)
  finally show "length es \<le> length t" .
qed

definition wf_window :: "int \<Rightarrow> RecoveryWindow \<Rightarrow> bool" where
  "wf_window k w \<longleftrightarrow>
     short_nonneg (rw_first_error_timestamp_ms w) \<and> short_nonneg (rw_recovery_timestamp_ms w) \<and>
     short_int (rw_recovery_latency_ms w) \<and> 0 \<le> rw_observed_retries w \<and> rw_observed_retries w \<le> k \<and>
     short_nonneg (rw_reported_retries w)"

definition wf_state :: "int \<Rightarrow> metrics_state \<Rightarrow> bool" where
  "wf_state k st \<longleftrightarrow>
     0 \<le> ms_observed_eio_count st \<and> ms_observed_eio_count st \<le> k \<and>
     0 \<le> ms_application_retry_count st \<and> ms_application_retry_count st \<le> k \<and>
     0 \<le> ms_active_retry_count st \<and> ms_active_retry_count st \<le> k \<and>
     (\<forall>t. ms_first_observed_error st = Some t \<longrightarrow> short_nonneg t) \<and>
     (\<forall>t. ms_first_error st = Some t \<longrightarrow> short_nonneg t) \<and> (\<forall>w \<in> set (ms_recoveries st). wf_window k w)"

lemma wf_window_mono: "wf_window k w \<Longrightarrow> k \<le> k' \<Longrightarrow> wf_window k' w"
  by (auto simp: wf_window_def)

lemma wf_event_field:
  "wf_event k e \<Longrightarrow> require_nonnegative_integer (dget (le_fields e) f) line name = Inr n \<Longrightarrow> short_nonneg n"
  using wf_dict_get [of "le_fields e" f] by (auto simp: wf_event_def short_nonneg_def require_nonnegative_integer_iff)

lemma metrics_step_wf:
  assumes "wf_event j e" "wf_state k st" "metrics_step st e = Inr st'"
  shows "wf_state (k + 1) st'"
proof -
  have t: "short_nonneg (le_timestamp_ms e)" using assms(1) by (simp add: wf_event_def)
  have w: "\<forall>w \<in> set (ms_recoveries st). wf_window (k + 1) w" using assms(2) wf_window_mono by (force simp: wf_state_def)
  have "retry_step st e = Inr st' \<or> recovery_step st e = Inr st' \<or> st' = st"
    using assms(3) unfolding metrics_step_def by (simp split: if_splits)
  then consider "retry_step st e = Inr st'" | "recovery_step st e = Inr st'" | "st' = st" by blast
  then show ?thesis
  proof cases
    case 1
    with assms(2) t w show ?thesis
      by (auto simp: retry_step_def rbind_Inr_iff wf_state_def or_else_def split: option.splits)
  next
    case 2
    then obtain n f where n: "require_nonnegative_integer (dget (le_fields e) (lit ''retries'')) (le_line e) (lit ''retries'') = Inr n"
      and f: "ms_first_error st = Some f"
      and st': "st' = st\<lparr>ms_recoveries := ms_recoveries st @
                   [\<lparr>rw_first_error_timestamp_ms = f, rw_recovery_timestamp_ms = le_timestamp_ms e,
                     rw_recovery_latency_ms = le_timestamp_ms e - f, rw_observed_retries = ms_active_retry_count st,
                     rw_reported_retries = n\<rparr>], ms_first_error := None, ms_active_retry_count := 0\<rparr>"
      by (auto simp: recovery_step_def rbind_Inr_iff split: option.splits)
    have "short_nonneg f" "short_nonneg n" using f assms(1,2) wf_event_field [OF _ n] by (auto simp: wf_state_def)
    with assms(2) t w show ?thesis by (auto simp: st' wf_state_def wf_window_def short_nonneg_diff)
  next
    case 3
    with assms(2) w show ?thesis by (auto simp: wf_state_def)
  qed
qed

lemma metrics_loop_wf:
  "\<forall>e \<in> set es. wf_event j e \<Longrightarrow> wf_state k st \<Longrightarrow> metrics_loop st es = Inr st' \<Longrightarrow> wf_state (k + int (length es)) st'"
proof (induction es arbitrary: k st)
  case (Cons e es)
  then obtain st1 where "metrics_step st e = Inr st1" "metrics_loop st1 es = Inr st'" by (auto simp: rbind_Inr_iff)
  with Cons.IH [of "k + 1" st1] Cons.prems metrics_step_wf [of j e k st st1] show ?case by (simp add: algebra_simps)
qed simp

definition wf_metrics :: "RecoveryMetrics \<Rightarrow> bool" where
  "wf_metrics m \<longleftrightarrow>
     short_int (rm_observed_eio_count m) \<and> short_int (rm_application_retry_count m) \<and>
     (\<forall>t. rm_first_error_timestamp_ms m = Some t \<longrightarrow> short_nonneg t) \<and>
     (\<forall>t. rm_recovery_timestamp_ms m = Some t \<longrightarrow> short_nonneg t) \<and>
     (\<forall>t. rm_recovery_latency_ms m = Some t \<longrightarrow> short_int t) \<and> (\<forall>w \<in> set (rm_recoveries m). wf_window (2 ^ 64) w)"

lemma recovery_metrics_wf:
  assumes "\<forall>e \<in> set es. wf_event j e" "length es \<le> 2 ^ 64" "calculate_recovery_metrics es = Inr m"
  shows "wf_metrics m"
proof -
  from assms(3) obtain st where st: "metrics_loop metrics_init es = Inr st" and m: "m = metrics_result st"
    by (auto simp: calculate_recovery_metrics_def rbind_Inr_iff)
  have "wf_state 0 metrics_init" by (simp add: wf_state_def metrics_init_def)
  from metrics_loop_wf [OF assms(1) this st] have wf: "wf_state (int (length es)) st" by simp
  have le: "int (length es) \<le> 2 ^ 64" using assms(2) by (metis of_nat_le_iff of_nat_numeral of_nat_power)
  have "\<forall>w \<in> set (ms_recoveries st). wf_window (2 ^ 64) w" using wf le wf_window_mono by (auto simp: wf_state_def)
  moreover have "\<bar>ms_observed_eio_count st\<bar> \<le> 2 ^ 64" "\<bar>ms_application_retry_count st\<bar> \<le> 2 ^ 64"
    using wf le by (auto simp: wf_state_def)
  ultimately show ?thesis
    using wf by (cases "ms_recoveries st") (auto simp: m wf_metrics_def metrics_result_def wf_state_def wf_window_def short_int_word)
qed

section \<open>Documents\<close>

text \<open>A run whose numbers are of machine size: clock readings, exit code, and lengths of output and logs\<close>

definition sane_record :: "DispatchRecord \<Rightarrow> bool" where
  "sane_record r \<longleftrightarrow>
     dr_index r \<le> 2 ^ 64 \<and> \<bar>dr_scheduled_ms r\<bar> \<le> 2 ^ 64 \<and>
     0 \<le> dr_monotonic_started_ms r \<and> dr_monotonic_started_ms r \<le> 2 ^ 64 \<and>
     \<bar>dr_finished_ms r - dr_started_ms r\<bar> \<le> 2 ^ 64"

definition sane_result :: "ScenarioRunResult \<Rightarrow> bool" where
  "sane_result result \<longleftrightarrow>
     (\<forall>r \<in> set (sr_dispatches result). sane_record r) \<and> \<bar>ar_exit_code (sr_application result)\<bar> \<le> 2 ^ 64 \<and>
     length (ar_stdout (sr_application result)) \<le> 2 ^ 64 \<and> length (sr_kernel_warnings result) \<le> 2 ^ 64"

lemma short_int_simps [simp]: "short_int 0" "short_int 1"
  by (simp_all add: short_int_word)

lemma int_le_word: "n \<le> 2 ^ 64 \<Longrightarrow> \<bar>int n\<bar> \<le> 2 ^ 64"
  by (metis abs_of_nat of_nat_le_iff of_nat_numeral of_nat_power)

lemma wf_application_document: "short_int (ar_exit_code app) \<Longrightarrow> wf_dict (application_document app)"
  by (simp add: application_document_def)

lemma fl_int_word: "0 \<le> x \<Longrightarrow> x \<le> 2 ^ 64 \<Longrightarrow> short_nonneg (fl_int x)"
proof -
  assume x: "0 \<le> x" "x \<le> 2 ^ 64"
  then have "\<lfloor>x\<rfloor> \<le> \<lfloor>of_int (2 ^ 64) :: rat\<rfloor>" by (intro floor_mono) simp
  then have "\<lfloor>x\<rfloor> \<le> 2 ^ 64" unfolding floor_of_int .
  with x show ?thesis by (simp add: fl_int_def short_nonneg_word)
qed

lemma fl_sub_wf: "\<bar>x - y\<bar> \<le> 2 ^ 64 \<Longrightarrow> binary64 (fl_sub x y)"
proof -
  assume "\<bar>x - y\<bar> \<le> 2 ^ 64"
  also have "(2 :: rat) ^ 64 < pow2 65" by (simp add: pow2_def)
  also have "pow2 65 \<le> pow2 1000" by (rule pow2_mono) simp
  finally show ?thesis by (simp add: binary64_def fl_sub_def rnd64_small)
qed

lemma wf_dispatch_entry: "sane_record r \<Longrightarrow> wf_dict d \<Longrightarrow> wf_dict (dispatch_entry ip r d)"
  using fl_int_word [of "dr_monotonic_started_ms r"] fl_sub_wf [of "dr_finished_ms r" "dr_started_ms r"]
    short_int_word [OF int_le_word [of "dr_index r"]]
  by (simp add: dispatch_entry_def sane_record_def short_int_word short_nonneg_def wf_dict_filter)

lemma wf_application_entry: "wf_event k e \<Longrightarrow> k \<le> 2 ^ 64 \<Longrightarrow> wf_dict (application_entry e)"
  by (simp add: application_entry_def wf_event_def short_nonneg_def short_int_word)

lemma wf_event_count_document:
  assumes "wf_dict d" "length events \<le> 2 ^ 64" "evaluate_event_assertion events origin d = Inr r"
  shows "wf_dict (event_count_document r)"
proof -
  have "length (filter P events) \<le> 2 ^ 64" for P using assms(2) length_filter_le le_trans by blast
  then have "short_int (int (length (filter P events)))" for P by (intro short_int_word int_le_word)
  then show ?thesis
    using assms(3) wf_dict_get [OF assms(1), of "lit ''count''"] wf_dict_get [OF assms(1), of "lit ''within_ms''"]
    by (auto simp: evaluate_event_assertion_def assertion_event_def assertion_count_def assertion_within_def rbind_Inr_iff
        event_count_document_def Let_def split: pyval.splits if_splits)
qed

lemma wf_stdout_document: "wf_dict (stdout_document a)"
  by (simp add: stdout_document_def)

lemma wf_disconnect_document: "wf_dict (disconnect_document a)"
  by (simp add: disconnect_document_def)

lemma wf_exit_code_document: "short_int n \<Longrightarrow> wf_dict (exit_code_document n)"
  by (simp add: exit_code_document_def)

lemma wf_kernel_warning_document:
  assumes "wf_dict d" "length ws \<le> 2 ^ 64" "dindex d k = Inr v" "evaluate_kernel_warnings ws v avail = Inr r"
  shows "wf_dict (kernel_warning_document r)"
proof -
  have "wf_json v" using wf_dict_get [OF assms(1), of k] assms(3) by (auto simp: dindex_def split: if_splits)
  moreover have "short_int (int (length ws))" using assms(2) by (intro short_int_word int_le_word)
  ultimately show ?thesis
    using assms(4) by (auto simp: evaluate_kernel_warnings_def kernel_warning_document_def Let_def split: pyval.splits if_splits)
qed

lemma wf_other_documents:
  assumes "wf_dict d" "length (sr_kernel_warnings result) \<le> 2 ^ 64" "other_documents result events d = Inr ds"
  shows "\<forall>x \<in> set ds. wf_dict x"
  using assms(3) wf_kernel_warning_document [OF assms(1,2)]
  by (auto simp: other_documents_def Let_def rbind_Inr_iff wf_stdout_document wf_disconnect_document split: if_splits)

lemma wf_latency_documents:
  assumes "wf_dict d" "wf_metrics m" "latency_documents m d = Inr ds"
  shows "\<forall>x \<in> set ds. wf_dict x"
proof -
  let ?ls = "map rw_recovery_latency_ms (rm_recoveries m)"
  have "\<forall>n \<in> set ?ls. short_int n" using assms(2) by (auto simp: wf_metrics_def wf_window_def)
  moreover have "max_default ?ls = Some n \<Longrightarrow> n \<in> set ?ls" for n
    using Max_in [of "set ?ls"] by (auto simp: max_default_eq simp del: set_map split: if_splits)
  ultimately have "\<forall>n. max_default ?ls = Some n \<longrightarrow> short_int n" by blast
  moreover have "\<forall>n. dget d (lit ''max_latency_ms'') = PInt n \<longrightarrow> short_int n"
    using wf_dict_get [OF assms(1), of "lit ''max_latency_ms''"] by auto
  ultimately show ?thesis
    using assms(3)
    by (auto simp: latency_documents_def evaluate_recovery_latency_def latency_document_def rbind_Inr_iff Let_def
        require_nonnegative_integer_iff split: pyval.splits)
qed

lemma traverse_set:
  "traverse_from n (\<lambda>_. f) xs = Inr ys \<Longrightarrow> y \<in> set ys \<Longrightarrow> \<exists>x \<in> set xs. f x = Inr y"
  by (force simp: traverse_from_Inr_iff in_set_conv_nth)

text \<open>Every assertion document is one of six kinds.\<close>

lemma assertion_documents_all:
  assumes "assertion_documents sc result events m = Inr docs"
    and "\<And>c. P (event_count_document c)" "\<And>s. P (stdout_document s)" "\<And>d. P (disconnect_document d)"
      "\<And>k. P (kernel_warning_document k)" "\<And>n. P (exit_code_document n)" "\<And>l. P (latency_document l)"
  shows "\<forall>d \<in> set docs. P d"
proof -
  from assms(1) obtain cs os ls where
    o: "traverse_from 0 (\<lambda>_. other_documents result events) (sd_assertions sc) = Inr os"
    and l: "traverse_from 0 (\<lambda>_. latency_documents m) (sd_assertions sc) = Inr ls"
    and docs: "docs = map event_count_document cs @ concat os @
       [exit_code_document (ar_exit_code (sr_application result))] @ concat ls"
    by (auto simp: assertion_documents_def rbind_Inr_iff)
  have "P x" if "ds \<in> set os" "x \<in> set ds" for ds x
    using traverse_set [OF o that(1)] that(2)
    by (auto simp: other_documents_def Let_def rbind_Inr_iff assms(2-) split: if_splits)
  moreover have "P x" if ds: "ds \<in> set ls" and x: "x \<in> set ds" for ds x
  proof -
    obtain d where d: "latency_documents m d = Inr ds" using traverse_set [OF l ds] by blast
    from d x show ?thesis
      by (cases "dget d (lit ''max_latency_ms'')") (auto simp: latency_documents_def rbind_Inr_iff assms(7))
  qed
  ultimately show ?thesis unfolding docs by (auto simp: assms(2,6))
qed

definition wf_scenario :: "ScenarioDefinition \<Rightarrow> bool" where
  "wf_scenario sc \<longleftrightarrow> (\<forall>d \<in> set (sd_events sc). wf_dict d) \<and> (\<forall>d \<in> set (sd_assertions sc). wf_dict d)"

lemma wf_assertion_documents:
  assumes "wf_scenario sc" "sane_result result" "length events \<le> 2 ^ 64" "wf_metrics m"
    and "assertion_documents sc result events m = Inr docs"
  shows "\<forall>d \<in> set docs. wf_dict d"
proof -
  from assms(5) obtain cs os ls where
    c: "evaluate_event_assertions events (filter is_event_count (sd_assertions sc)) = Inr cs"
    and o: "traverse_from 0 (\<lambda>_. other_documents result events) (sd_assertions sc) = Inr os"
    and l: "traverse_from 0 (\<lambda>_. latency_documents m) (sd_assertions sc) = Inr ls"
    and docs: "docs = map event_count_document cs @ concat os @
       [exit_code_document (ar_exit_code (sr_application result))] @ concat ls"
    by (auto simp: assertion_documents_def rbind_Inr_iff)
  have sc: "\<forall>d \<in> set (sd_assertions sc). wf_dict d" using assms(1) by (simp add: wf_scenario_def)
  have ws: "length (sr_kernel_warnings result) \<le> 2 ^ 64" using assms(2) by (simp add: sane_result_def)
  have "wf_dict (event_count_document r)" if r: "r \<in> set cs" for r
  proof -
    obtain d where "d \<in> set (sd_assertions sc)" "evaluate_event_assertion events (origin_timestamp events) d = Inr r"
      using traverse_set [OF c [unfolded evaluate_event_assertions_def] r] by auto
    with sc assms(3) wf_event_count_document show ?thesis by blast
  qed
  moreover have "wf_dict x" if "ds \<in> set os" "x \<in> set ds" for ds x
    using traverse_set [OF o that(1)] that(2) sc wf_other_documents [OF _ ws] by blast
  moreover have "wf_dict x" if "ds \<in> set ls" "x \<in> set ds" for ds x
    using traverse_set [OF l that(1)] that(2) sc wf_latency_documents [OF _ assms(4)] by blast
  moreover have "wf_dict (exit_code_document (ar_exit_code (sr_application result)))"
    using assms(2) by (intro wf_exit_code_document short_int_word) (simp add: sane_result_def)
  ultimately show ?thesis unfolding docs by auto
qed

lemma wf_window_document: "wf_window (2 ^ 64) w \<Longrightarrow> wf_dict (window_document w)"
  by (simp add: window_document_def wf_window_def short_nonneg_def short_int_word)

lemma causal_duration_short:
  assumes "\<forall>t. x = Some t \<longrightarrow> short_nonneg t" "\<forall>t. y = Some t \<longrightarrow> short_nonneg t" "causal_duration x y = Some d"
  shows "short_int d"
  using assms short_nonneg_diff by (auto simp: causal_duration_def split: option.splits)

lemma wf_observations_document:
  assumes "sane_result result" "wf_metrics m" "\<forall>t. fault = Some t \<longrightarrow> short_nonneg t"
  shows "wf_dict (observations_document result events m fault)"
proof -
  have "short_int (int (length (sr_kernel_warnings result)))"
    using assms(1) by (intro short_int_word int_le_word) (simp add: sane_result_def)
  moreover have "\<forall>d. causal_duration (rm_first_error_timestamp_ms m) fault = Some d \<longrightarrow> short_int d"
    "\<forall>d. causal_duration (rm_recovery_timestamp_ms m) fault = Some d \<longrightarrow> short_int d"
    using assms(2,3) by (auto simp: wf_metrics_def intro: causal_duration_short)
  ultimately show ?thesis
    using assms(2,3) wf_window_document by (simp add: observations_document_def wf_metrics_def short_nonneg_def)
qed

lemma first_fault_short:
  "\<forall>r \<in> set rs. sane_record r \<Longrightarrow> first_fault_timestamp sc rs = Inr (Some t) \<Longrightarrow> short_nonneg t"
  by (induction sc rs rule: first_fault_timestamp.induct)
    (auto simp: rbind_Inr_iff sane_record_def intro: fl_int_word split: if_splits)

section \<open>Reports\<close>

lemma wf_dispatch_timeline:
  assumes "wf_scenario sc" "\<forall>r \<in> set rs. sane_record r" "dispatch_timeline ip sc rs = Inr ds"
  shows "\<forall>d \<in> set ds. wf_dict d"
proof
  fix d assume "d \<in> set ds"
  from traverse_set [OF assms(3) [unfolded dispatch_timeline_def] this] obtain r e where
    "r \<in> set rs" "event_at sc (dr_index r) = Inr e" "d = dispatch_entry ip r e" by (auto simp: rbind_Inr_iff)
  moreover from this have "e \<in> set (sd_events sc)" by (auto simp: event_at_def split: if_splits)
  ultimately show "wf_dict d" using assms(1,2) by (auto simp: wf_scenario_def intro: wf_dispatch_entry)
qed

lemma sorted_timeline_set: "sorted_timeline ds = Inr ts \<Longrightarrow> set ts = set ds"
  using sorted_timeline_facts(1) mset_eq_setD by blast

lemma wf_error_document: "wf_dict (error_document e)"
  by (simp add: error_document_def)

definition wf_report :: "ScenarioReport \<Rightarrow> bool" where
  "wf_report rep \<longleftrightarrow>
     short_int (rp_schema_version rep) \<and> (\<forall>d. rp_application rep = Some d \<longrightarrow> wf_dict d) \<and> wf_dict (rp_observations rep) \<and>
     (\<forall>d \<in> set (rp_assertions rep). wf_dict d) \<and> (\<forall>d \<in> set (rp_timeline rep). wf_dict d) \<and>
     (\<forall>d. rp_error rep = Some d \<longrightarrow> wf_dict d)"

lemma wf_report_to_dict: "wf_report rep \<Longrightarrow> wf_dict (report_to_dict rep)"
  by (simp add: report_to_dict_def wf_report_def)

lemma wf_error_report: "wf_report (build_error_report name e)"
  by (simp add: build_error_report_def wf_report_def wf_error_document REPORT_SCHEMA_VERSION_def)

lemma wf_decide_status: "snd (decide_status sc result docs) = Some d \<Longrightarrow> wf_dict d"
  by (auto simp: decide_status_def unavailable_error_def split: if_splits)

lemma wf_analysed_report:
  assumes "wf_scenario sc" "sane_result result" "\<forall>d \<in> set ds. wf_dict d"
    and es: "parse_application_log (ar_stdout (sr_application result)) = Inr es" and m: "calculate_recovery_metrics es = Inr m"
    and rep: "analysed_report sc result ds es m = Inr rep"
  shows "wf_report rep"
proof -
  from rep obtain docs fault ts where docs: "assertion_documents sc result es m = Inr docs"
    and fault: "first_fault_timestamp sc (sr_dispatches result) = Inr fault"
    and ts: "sorted_timeline (ds @ application_timeline es) = Inr ts"
    and r: "rp_observations rep = observations_document result es m fault" "rp_assertions rep = docs" "rp_timeline rep = ts"
      "rp_application rep = Some (application_document (sr_application result))"
      "rp_error rep = snd (decide_status sc result docs)" "rp_schema_version rep = 1"
    by (auto simp: analysed_report_def rbind_Inr_iff REPORT_SCHEMA_VERSION_def)
  let ?n = "length (ar_stdout (sr_application result))"
  have n: "?n \<le> 2 ^ 64" and sane: "\<forall>r \<in> set (sr_dispatches result). sane_record r"
    and code: "\<bar>ar_exit_code (sr_application result)\<bar> \<le> 2 ^ 64" using assms(2) by (simp_all add: sane_result_def)
  have len: "length es \<le> 2 ^ 64" using parsed_events_wf(2) [OF es] n by simp
  have wm: "wf_metrics m" by (rule recovery_metrics_wf [OF parsed_events_wf(1) [OF es] len m])
  have "int ?n \<le> 2 ^ 64" using int_le_word [OF n] by simp
  then have "\<forall>d \<in> set (application_timeline es). wf_dict d"
    using parsed_events_wf(1) [OF es] by (auto simp: application_timeline_def intro: wf_application_entry)
  then have "\<forall>d \<in> set ts. wf_dict d" using assms(3) sorted_timeline_set [OF ts] by auto
  moreover have "\<forall>d \<in> set docs. wf_dict d" by (rule wf_assertion_documents [OF assms(1,2) len wm docs])
  moreover have "wf_dict (observations_document result es m fault)"
    using first_fault_short [OF sane] fault by (intro wf_observations_document [OF assms(2) wm]) auto
  moreover have "wf_dict (application_document (sr_application result))"
    by (intro wf_application_document short_int_word code)
  ultimately show ?thesis using wf_decide_status by (auto simp: wf_report_def r)
qed

lemma wf_built_report:
  assumes "wf_scenario sc" "sane_result result" "build_scenario_report ip sc result = Inr rep"
  shows "wf_report rep"
proof -
  obtain ds where ds: "dispatch_timeline ip sc (sr_dispatches result) = Inr ds"
    using assms(3) by (auto simp: build_scenario_report_def rbind_Inr_iff)
  have wd: "\<forall>d \<in> set ds. wf_dict d"
    using assms(2) by (intro wf_dispatch_timeline [OF assms(1) _ ds]) (simp add: sane_result_def)
  show ?thesis
  proof (cases "analyse_log (ar_stdout (sr_application result))")
    case (Inl e)
    have "wf_dict (application_document (sr_application result))"
      using assms(2) by (intro wf_application_document short_int_word) (simp add: sane_result_def)
    moreover have "log_error_report sc result ds e = Inr rep"
      using assms(3) ds Inl by (auto simp: build_scenario_report_def split: if_splits)
    ultimately show ?thesis
      using wd by (auto simp: log_error_report_def rbind_Inr_iff wf_report_def wf_error_document REPORT_SCHEMA_VERSION_def
          dest: sorted_timeline_set)
  next
    case (Inr em)
    obtain es m where "em = (es, m)" by (cases em)
    with Inr have "parse_application_log (ar_stdout (sr_application result)) = Inr es"
      "calculate_recovery_metrics es = Inr m" "analysed_report sc result ds es m = Inr rep"
      using assms(3) ds by (auto simp: analyse_log_def rbind_Inr_iff build_scenario_report_def)
    then show ?thesis by (rule wf_analysed_report [OF assms(1,2) wd])
  qed
qed

text \<open>The scenarios the parser accepts\<close>

lemma wf_norm_event: "wf_action a \<Longrightarrow> 0 \<le> t \<Longrightarrow> t \<le> MAX_DURATION_MS \<Longrightarrow> wf_dict (norm_event (t, a))"
  by (cases a) (auto simp: norm_event_def MAX_DURATION_MS_def MAX_EIO_REPEAT_def MAX_PARTIAL_READ_BYTES_def intro!: short_int_word)

lemma wf_norm_assertion: "wf_assertion timeout x \<Longrightarrow> timeout \<le> MAX_DURATION_MS \<Longrightarrow> wf_dict (norm_assertion x)"
proof (cases x)
  case (EventCountA name n wms latency)
  assume "wf_assertion timeout x" "timeout \<le> MAX_DURATION_MS"
  with EventCountA show ?thesis
    by (cases wms; cases latency) (auto simp: wf_bound_def MAX_DURATION_MS_def intro!: short_int_word)
next
  case (StdoutA c n)
  then show ?thesis by (cases c; cases n) auto
qed (auto intro!: short_int_word)

lemma wf_normal_form: "wf_spec a \<Longrightarrow> wf_scenario (normal_form src a)"
  by (auto simp: wf_scenario_def normal_form_def wf_spec_def intro!: wf_norm_assertion) (auto intro!: wf_norm_event)

lemma report_to_json_reads:
  assumes "wf_report rep"
  shows "\<exists>t. report_to_json rep = Inr t \<and> json_loads t = Inr (sort_val (pydict_val (report_to_dict rep)))"
proof -
  have "ends_number [10]" "json_ws [10] = []" by (simp_all add: ends_number_def is_digit_def) (simp add: json_ws_def)
  moreover have "wf_json (pydict_val (report_to_dict rep))" using wf_report_to_dict [OF assms] by simp
  ultimately show ?thesis using json_dumps_loads by (fastforce simp: report_to_json_def lit_def)
qed

lemma sane_sample_result: "sane_result sample_result"
  by (simp add: sane_result_def sample_result_def sample_log_def json_line_def str_nat.simps)

section \<open>Properties\<close>

text \<open>
  C31. The JSON report is complete and readable: for a validated scenario and a run whose numbers are of
  machine size, the report is always serialized, whatever the application logged, and reading the text
  with \<open>json.loads\<close> gives the document of the report, every object with its keys in order.
\<close>

theorem report_json_roundtrip:
  assumes "wf_spec a" and "sane_result result" and "build_scenario_report ip (normal_form src a) result = Inr rep"
  shows "\<exists>t. report_to_json rep = Inr t \<and> json_loads t = Inr (sort_val (pydict_val (report_to_dict rep)))"
  by (rule report_to_json_reads [OF wf_built_report [OF wf_normal_form [OF assms(1)] assms(2,3)]])

theorem report_json_roundtrip_witness:
  "\<exists>rep t. build_scenario_report sample_interpreter (normal_form [] sample_spec) sample_result = Inr rep \<and>
     report_to_json rep = Inr t \<and> json_loads t = Inr (sort_val (pydict_val (report_to_dict rep)))"
proof -
  obtain rep where rep: "build_scenario_report sample_interpreter (normal_form [] sample_spec) sample_result = Inr rep"
    using sample_report by blast
  with report_json_roundtrip [OF wf_sample_spec sane_sample_result rep] show ?thesis by blast
qed

end
