(* ===== verification/Report_Schema.thy ===== *)
theory Report_Schema
  imports Report_Json
begin

text \<open>
  The shape of a report document: the keys of every object, the types of its members, and which
  statuses come with an error. The schema is the one of the reports under \<open>examples/reports\<close>.
\<close>

section \<open>Shapes\<close>

type_synonym shape = "pyval \<Rightarrow> bool"

definition str_shape :: shape where "str_shape v = (case v of PStr _ \<Rightarrow> True | _ \<Rightarrow> False)"
definition int_shape :: shape where "int_shape v = (case v of PInt _ \<Rightarrow> True | _ \<Rightarrow> False)"
definition float_shape :: shape where "float_shape v = (case v of PFloat _ \<Rightarrow> True | _ \<Rightarrow> False)"
definition bool_shape :: shape where "bool_shape v = (case v of PBool _ \<Rightarrow> True | _ \<Rightarrow> False)"
definition const_shape :: "string \<Rightarrow> shape" where "const_shape s v \<longleftrightarrow> v = PStr (lit s)"
definition nullable :: "shape \<Rightarrow> shape" where "nullable P v \<longleftrightarrow> v = PNone \<or> P v"
definition list_shape :: "shape \<Rightarrow> shape" where "list_shape P v = (case v of PList vs \<Rightarrow> list_all P vs | _ \<Rightarrow> False)"
definition one_of :: "shape list \<Rightarrow> shape" where "one_of Ps v \<longleftrightarrow> list_ex (\<lambda>P. P v) Ps"

text \<open>An object with any members, and one with exactly the given members\<close>

definition any_object :: shape where
  "any_object v = (case v of PDict kvs \<Rightarrow> list_all (\<lambda>kv. is_str (fst kv)) kvs | _ \<Rightarrow> False)"

definition object_shape :: "(string \<times> shape) list \<Rightarrow> shape" where
  "object_shape spec v =
     (case v of PDict kvs \<Rightarrow> list_all2 (\<lambda>kv s. fst kv = PStr (lit (fst s)) \<and> snd s (snd kv)) kvs spec | _ \<Rightarrow> False)"

section \<open>The schema\<close>

definition application_shape :: shape where
  "application_shape = object_shape
     [(''command'', list_shape str_shape), (''exit_code'', int_shape), (''timed_out'', bool_shape), (''forced'', bool_shape),
      (''stdout'', str_shape), (''stderr'', str_shape)]"

definition assertion_shape :: shape where
  "assertion_shape = one_of
     [object_shape [(''type'', const_shape ''event_count''), (''event'', str_shape), (''expected'', int_shape), (''observed'', int_shape),
        (''within_ms'', nullable int_shape), (''passed'', bool_shape)],
      object_shape [(''type'', const_shape ''stdout''), (''operator'', str_shape), (''text'', str_shape), (''passed'', bool_shape)],
      object_shape [(''type'', const_shape ''disconnect''), (''expected'', bool_shape), (''observed'', bool_shape), (''passed'', bool_shape)],
      object_shape [(''type'', const_shape ''kernel_warnings''), (''expected'', int_shape), (''observed'', nullable int_shape),
        (''available'', bool_shape), (''passed'', bool_shape)],
      object_shape [(''type'', const_shape ''process_exit_code''), (''expected'', int_shape), (''observed'', int_shape), (''passed'', bool_shape)],
      object_shape [(''type'', const_shape ''recovery_latency''), (''maximum_ms'', int_shape), (''observed_ms'', nullable int_shape),
        (''passed'', bool_shape)]]"

definition entry_shape :: shape where
  "entry_shape = one_of
     [object_shape [(''source'', const_shape ''scenario''), (''event'', str_shape), (''timestamp_ms'', int_shape), (''event_index'', int_shape),
        (''scheduled_ms'', int_shape), (''duration_ms'', float_shape), (''details'', any_object)],
      object_shape [(''source'', const_shape ''application''), (''event'', str_shape), (''timestamp_ms'', int_shape), (''line'', int_shape),
        (''details'', any_object)]]"

definition window_shape :: shape where
  "window_shape = object_shape
     [(''first_error_timestamp_ms'', int_shape), (''recovery_timestamp_ms'', int_shape), (''recovery_latency_ms'', int_shape),
      (''observed_retries'', int_shape), (''reported_retries'', int_shape)]"

definition observations_shape :: shape where
  "observations_shape = one_of
     [object_shape [],
      object_shape
        [(''observed_eio_count'', int_shape), (''application_retry_count'', int_shape),
         (''fault_injection_timestamp_ms'', nullable int_shape), (''first_error_timestamp_ms'', nullable int_shape),
         (''recovery_timestamp_ms'', nullable int_shape), (''recovery_latency_ms'', nullable int_shape),
         (''fault_to_first_error_ms'', nullable int_shape), (''fault_to_recovery_ms'', nullable int_shape),
         (''recoveries'', list_shape window_shape), (''disconnected'', bool_shape),
         (''kernel_log'', object_shape [(''available'', bool_shape), (''warning_count'', nullable int_shape),
            (''warnings'', list_shape str_shape), (''error'', nullable str_shape)])]]"

definition report_shape :: shape where
  "report_shape = object_shape
     [(''schema_version'', \<lambda>v. v = PInt 1),
      (''status'', one_of [const_shape ''PASS'', const_shape ''FAIL'', const_shape ''ERROR'', const_shape ''TIMEOUT'']),
      (''scenario'', object_shape [(''name'', str_shape)]),
      (''application'', nullable application_shape), (''observations'', observations_shape),
      (''assertions'', list_shape assertion_shape), (''timeline'', list_shape entry_shape),
      (''error'', nullable (object_shape [(''type'', str_shape), (''message'', str_shape)]))]"

section \<open>Every document has its shape\<close>

lemmas shape_defs = str_shape_def int_shape_def float_shape_def bool_shape_def const_shape_def nullable_def one_of_def

lemma object_shape_dict [simp]:
  "object_shape spec (pydict_val d) \<longleftrightarrow> list_all2 (\<lambda>kv s. fst kv = lit (fst s) \<and> snd s (snd kv)) d spec"
  by (simp add: object_shape_def pydict_val_def list_all2_map1 case_prod_unfold)

lemma any_object_dict [simp]: "any_object (pydict_val d)"
  by (auto simp: any_object_def pydict_val_def list_all_iff)

lemma list_shape_map [simp]: "list_shape P (PList (map f xs)) \<longleftrightarrow> (\<forall>x \<in> set xs. P (f x))"
  by (simp add: list_shape_def list_all_iff)

lemma nullable_opt: "(\<And>x. P (f x)) \<Longrightarrow> nullable P (opt_val f v)"
  by (cases v) (simp_all add: nullable_def opt_val_def)

lemma opt_int_shape [simp]: "nullable int_shape (opt_val PInt v)" "nullable str_shape (opt_val PStr w)"
  by (rule nullable_opt; simp add: int_shape_def str_shape_def)+

lemma document_shapes:
  "application_shape (pydict_val (application_document app))" "window_shape (pydict_val (window_document w))"
  by (simp_all add: application_shape_def application_document_def window_shape_def window_document_def shape_defs)

lemma assertion_shapes:
  "assertion_shape (pydict_val (event_count_document c))" "assertion_shape (pydict_val (stdout_document s))"
  "assertion_shape (pydict_val (disconnect_document d))" "assertion_shape (pydict_val (kernel_warning_document k))"
  "assertion_shape (pydict_val (exit_code_document n))" "assertion_shape (pydict_val (latency_document l))"
  by (simp_all add: assertion_shape_def one_of_def event_count_document_def stdout_document_def disconnect_document_def
      kernel_warning_document_def exit_code_document_def latency_document_def)
    (simp_all add: const_shape_def str_shape_def int_shape_def bool_shape_def)

lemma entry_shapes:
  "entry_shape (pydict_val (dispatch_entry ip r def))" "entry_shape (pydict_val (application_entry ev))"
  by (simp_all add: entry_shape_def one_of_def dispatch_entry_def application_entry_def)
    (simp_all add: const_shape_def str_shape_def int_shape_def float_shape_def)

lemma observations_shapes:
  "observations_shape (pydict_val [])" "observations_shape (pydict_val (observations_document result events m fault))"
  by (simp_all add: observations_shape_def one_of_def observations_document_def document_shapes)
    (simp_all add: int_shape_def bool_shape_def nullable_def str_shape_def list_shape_def list_all_iff)

section \<open>Reports\<close>

lemma assertion_documents_shape:
  "assertion_documents sc result events m = Inr docs \<Longrightarrow> \<forall>d \<in> set docs. assertion_shape (pydict_val d)"
  by (erule assertion_documents_all) (rule assertion_shapes)+

lemma dispatch_timeline_shape:
  assumes "dispatch_timeline ip sc rs = Inr ds"
  shows "\<forall>d \<in> set ds. entry_shape (pydict_val d)"
  using traverse_set [OF assms [unfolded dispatch_timeline_def]] by (fastforce simp: rbind_Inr_iff entry_shapes)

text \<open>The parts of a report that has the shape\<close>

definition shaped :: "ScenarioReport \<Rightarrow> bool" where
  "shaped rep \<longleftrightarrow>
     rp_schema_version rep = 1 \<and> (\<forall>d. rp_application rep = Some d \<longrightarrow> application_shape (pydict_val d)) \<and>
     observations_shape (pydict_val (rp_observations rep)) \<and> (\<forall>d \<in> set (rp_assertions rep). assertion_shape (pydict_val d)) \<and>
     (\<forall>d \<in> set (rp_timeline rep). entry_shape (pydict_val d)) \<and>
     (\<forall>d. rp_error rep = Some d \<longrightarrow> object_shape [(''type'', str_shape), (''message'', str_shape)] (pydict_val d)) \<and>
     (rp_error rep \<noteq> None \<longleftrightarrow> rp_status rep = ERROR)"

lemma error_shapes:
  "object_shape [(''type'', str_shape), (''message'', str_shape)] (pydict_val (error_document e))"
  "object_shape [(''type'', str_shape), (''message'', str_shape)] (pydict_val (unavailable_error m))"
  by (simp_all add: error_document_def unavailable_error_def str_shape_def)

lemma shaped_report_shape: "shaped rep \<Longrightarrow> report_shape (pydict_val (report_to_dict rep))"
  by (cases "rp_application rep"; cases "rp_error rep"; cases "rp_status rep")
    (auto simp: shaped_def report_shape_def report_to_dict_def opt_val_def nullable_def one_of_def const_shape_def str_shape_def)

lemma shaped_error_report: "shaped (build_error_report name e)"
  by (simp add: shaped_def build_error_report_def observations_shapes error_shapes REPORT_SCHEMA_VERSION_def del: object_shape_dict)

lemma shaped_log_error:
  assumes "log_error_report sc result ds e = Inr rep" "\<forall>d \<in> set ds. entry_shape (pydict_val d)"
  shows "shaped rep"
  using assms sorted_timeline_set
  by (auto simp: log_error_report_def rbind_Inr_iff shaped_def observations_shapes error_shapes document_shapes REPORT_SCHEMA_VERSION_def
      simp del: object_shape_dict)

lemma shaped_analysed:
  assumes "analysed_report sc result ds events m = Inr rep" "\<forall>d \<in> set ds. entry_shape (pydict_val d)"
  shows "shaped rep"
proof -
  from assms(1) obtain docs fault ts where docs: "assertion_documents sc result events m = Inr docs"
    and ts: "sorted_timeline (ds @ application_timeline events) = Inr ts"
    and r: "rp_observations rep = observations_document result events m fault" "rp_assertions rep = docs" "rp_timeline rep = ts"
      "rp_application rep = Some (application_document (sr_application result))"
      "rp_error rep = snd (decide_status sc result docs)" "rp_status rep = fst (decide_status sc result docs)"
      "rp_schema_version rep = 1"
    by (auto simp: analysed_report_def rbind_Inr_iff REPORT_SCHEMA_VERSION_def)
  have "\<forall>d \<in> set ts. entry_shape (pydict_val d)"
    using sorted_timeline_set [OF ts] assms(2) by (auto simp: application_timeline_def entry_shapes)
  with assertion_documents_shape [OF docs] show ?thesis
    by (auto simp: shaped_def r observations_shapes document_shapes decide_status_def error_shapes simp del: object_shape_dict)
qed

lemma shaped_built:
  assumes "build_scenario_report ip sc result = Inr rep"
  shows "shaped rep"
proof -
  obtain ds where ds: "dispatch_timeline ip sc (sr_dispatches result) = Inr ds"
    using assms by (auto simp: build_scenario_report_def rbind_Inr_iff)
  from assms ds shaped_log_error [OF _ dispatch_timeline_shape [OF ds]] shaped_analysed [OF _ dispatch_timeline_shape [OF ds]]
  show ?thesis
    by (cases "analyse_log (ar_stdout (sr_application result))") (auto simp: build_scenario_report_def split: if_splits)
qed

section \<open>Properties\<close>

text \<open>
  C40. The report document is well-typed: whatever the scenario, the run and the log, the document of a
  built report has exactly the keys of schema version 1 with members of their types, every assertion
  and timeline entry included, and it carries an error exactly when its status is \<open>ERROR\<close>. The error
  report of any exception has the same shape.
\<close>

theorem report_document_typed:
  assumes "build_scenario_report ip sc result = Inr rep \<or> rep = build_error_report name e"
  shows "report_shape (pydict_val (report_to_dict rep)) \<and> (rp_error rep \<noteq> None \<longleftrightarrow> rp_status rep = ERROR)"
proof -
  have "shaped rep" using assms shaped_built shaped_error_report by blast
  then show ?thesis using shaped_report_shape by (simp add: shaped_def)
qed

theorem report_document_typed_witness:
  "\<exists>rep. build_scenario_report sample_interpreter (normal_form [] sample_spec) sample_result = Inr rep \<and>
     report_shape (pydict_val (report_to_dict rep))"
proof -
  obtain rep where rep: "build_scenario_report sample_interpreter (normal_form [] sample_spec) sample_result = Inr rep"
    using sample_report by blast
  with report_document_typed [OF disjI1 [OF rep]] show ?thesis by blast
qed

end
