(* ===== verification/Py_Xml.thy ===== *)
theory Py_Xml
  imports Py_Text
begin

text \<open>
  \<open>xml.etree.ElementTree\<close>: element trees, \<open>indent\<close> and \<open>tostring(..., encoding="utf-8",
  xml_declaration=True)\<close>. A text or tail that is absent is empty. A reader of the XML these functions
  write, which accepts only what an XML processor hands on unchanged, shows that nothing is lost.
\<close>

section \<open>Trees\<close>

datatype element =
  Element (el_tag: pystr) (el_attrib: "(pystr \<times> pystr) list") (el_text: pystr) (el_tail: pystr)
    (el_children: "element list")

definition new_element :: "pystr \<Rightarrow> (pystr \<times> pystr) list \<Rightarrow> element" where
  "new_element tag attrib = Element tag attrib [] [] []"

text \<open>\<open>ElementTree.indent(tree, space="  ")\<close>: only blank texts and tails are replaced.\<close>

definition indentation :: "nat \<Rightarrow> pystr" where
  "indentation level = 10 # replicate (2 * level) 32"

definition or_blank :: "pystr \<Rightarrow> pystr \<Rightarrow> pystr" where
  "or_blank s t = (if is_blank s then t else s)"

definition set_tail :: "pystr \<Rightarrow> element \<Rightarrow> element" where
  "set_tail t e = Element (el_tag e) (el_attrib e) (el_text e) (or_blank (el_tail e) t) (el_children e)"

fun indent_element :: "nat \<Rightarrow> element \<Rightarrow> element"
  and indent_children :: "nat \<Rightarrow> element list \<Rightarrow> element list" where
  "indent_element level (Element tag attrib txt tl' cs) =
     (if cs = [] then Element tag attrib txt tl' cs
      else Element tag attrib (or_blank txt (indentation (Suc level))) tl' (indent_children level cs))"
| "indent_children level [] = []"
| "indent_children level (c # cs) =
     set_tail (indentation (if cs = [] then level else Suc level)) (indent_element (Suc level) c) #
     indent_children level cs"

definition xml_indent :: "element \<Rightarrow> element" where
  "xml_indent e = indent_element 0 e"

section \<open>Serialization\<close>

definition escape_cdata :: "nat \<Rightarrow> pystr" where
  "escape_cdata c =
     (if c = 38 then lit ''&amp;'' else if c = 60 then lit ''&lt;'' else if c = 62 then lit ''&gt;'' else [c])"

definition escape_attrib :: "nat \<Rightarrow> pystr" where
  "escape_attrib c =
     (if c = 34 then lit ''&quot;'' else if c = 13 then lit ''&#13;'' else if c = 10 then lit ''&#10;''
      else if c = 9 then lit ''&#09;'' else escape_cdata c)"

definition write_attrib :: "pystr \<times> pystr \<Rightarrow> pystr" where
  "write_attrib kv = 32 # fst kv @ [61, 34] @ concat (map escape_attrib (snd kv)) @ [34]"

fun serialize :: "element \<Rightarrow> pystr" where
  "serialize (Element tag attrib txt tl' cs) =
     60 # tag @ concat (map write_attrib attrib) @
     (if txt \<noteq> [] \<or> cs \<noteq> []
      then 62 # concat (map escape_cdata txt) @ concat (map serialize cs) @ [60, 47] @ tag @ [62]
      else lit '' />'') @
     concat (map escape_cdata tl')"

definition xml_declaration :: pystr where
  "xml_declaration = lit ''<?xml version='1.0' encoding='utf-8'?>'' @ [10]"

text \<open>The writer encodes with \<open>errors="xmlcharrefreplace"\<close>; only surrogates cannot be encoded.\<close>

definition charref :: "nat \<Rightarrow> pystr" where
  "charref c = (if is_surrogate c then lit ''&#'' @ str_nat c @ lit '';'' else [c])"

definition encode_charref :: "pystr \<Rightarrow> byte list" where
  "encode_charref s = map of_nat (concat (map utf8_char (concat (map charref s))))"

definition tostring :: "element \<Rightarrow> byte list" where
  "tostring e = encode_charref (xml_declaration @ serialize e)"

text \<open>\<open>bytes.decode("utf-8")\<close>: bytes that are not the encoding of a text raise.\<close>

definition utf8_decode :: "byte list \<Rightarrow> pyexc + pystr" where
  "utf8_decode bs =
     (if utf8_encode (utf8_decode_replace bs) = Inr bs then Inr (utf8_decode_replace bs) else Inl UnicodeDecodeError)"

section \<open>Reading\<close>

definition xml_char :: "nat \<Rightarrow> bool" where
  "xml_char c \<longleftrightarrow> c = 9 \<or> c = 10 \<or> c = 13 \<or> 32 \<le> c \<and> c \<le> 55295 \<or> 57344 \<le> c \<and> c \<le> 65533 \<or> 65536 \<le> c \<and> c \<le> 1114111"

definition entity :: "pystr \<Rightarrow> nat option" where
  "entity s =
     (if s = lit ''amp'' then Some 38 else if s = lit ''lt'' then Some 60 else if s = lit ''gt'' then Some 62
      else if s = lit ''quot'' then Some 34
      else if s \<noteq> [] \<and> hd s = 35 \<and> tl s \<noteq> [] \<and> (\<forall>c \<in> set (tl s). is_digit c) \<and> xml_char (digits_value (tl s))
      then Some (digits_value (tl s))
      else None)"

text \<open>
  Characters that stand for themselves: an XML processor replaces a carriage return, and in an
  attribute also a tab or newline, by another character.
\<close>

definition raw_text :: "nat \<Rightarrow> bool" where
  "raw_text c \<longleftrightarrow> xml_char c \<and> c \<notin> {13, 38, 60}"

definition raw_attrib :: "nat \<Rightarrow> bool" where
  "raw_attrib c \<longleftrightarrow> raw_text c \<and> c \<notin> {9, 10, 34}"

function unescape :: "(nat \<Rightarrow> bool) \<Rightarrow> pystr \<Rightarrow> pystr option" where
  "unescape raw [] = Some []"
| "unescape raw (c # cs) =
     (if c = 38 then
        (case entity (takeWhile (\<lambda>x. x \<noteq> 59) cs) of
           None \<Rightarrow> None
         | Some x \<Rightarrow> map_option ((#) x) (unescape raw (drop 1 (dropWhile (\<lambda>x. x \<noteq> 59) cs))))
      else if raw c then map_option ((#) c) (unescape raw cs) else None)"
  by pat_completeness auto
termination
  by (relation "measure (\<lambda>(raw, s). length s)") (auto simp: less_Suc_eq_le length_dropWhile_le diff_le_mono intro: le_trans [OF diff_le_self])

definition name_char :: "nat \<Rightarrow> bool" where
  "name_char c \<longleftrightarrow> xml_char c \<and> c \<notin> {9, 10, 13, 32, 34, 38, 39, 47, 60, 61, 62}"

definition read_text :: "pystr \<Rightarrow> (pystr \<times> pystr) option" where
  "read_text s = map_option (\<lambda>t. (t, dropWhile (\<lambda>c. c \<noteq> 60) s)) (unescape raw_text (takeWhile (\<lambda>c. c \<noteq> 60) s))"

text \<open>The attributes of a start tag, whether it is empty, and the rest\<close>

function read_attribs :: "pystr \<Rightarrow> ((pystr \<times> pystr) list \<times> bool \<times> pystr) option" where
  "read_attribs s =
     (if prefix [62] s then Some ([], False, drop 1 s)
      else if prefix [32, 47, 62] s then Some ([], True, drop 3 s)
      else if prefix [32] s then
        let k = takeWhile name_char (tl s); r = dropWhile name_char (tl s); q = drop 2 r; v = takeWhile (\<lambda>c. c \<noteq> 34) q
        in if prefix [61, 34] r \<and> length v < length q then
             (case unescape raw_attrib v of
                None \<Rightarrow> None
              | Some w \<Rightarrow> map_option (\<lambda>(att, e, z). ((k, w) # att, e, z)) (read_attribs (drop (Suc (length v)) q)))
           else None
      else None)"
  by pat_completeness auto
termination
proof (relation "measure length", simp, goal_cases)
  case (1 s k r q v w)
  then have lt: "length v < length q" by blast
  then have "length (drop (Suc (length v)) q) < length q" unfolding length_drop by linarith
  also have "length q \<le> length s" using length_dropWhile_le [of name_char "tl s"] 1 by auto
  finally show ?case by simp
qed

declare read_attribs.simps [simp del]

fun read_element :: "nat \<Rightarrow> pystr \<Rightarrow> (element \<times> pystr) option"
  and read_children :: "nat \<Rightarrow> element list \<Rightarrow> pystr \<Rightarrow> (element list \<times> pystr) option" where
  "read_element 0 s = None"
| "read_element (Suc n) s =
     (if \<not> prefix [60] s then None
      else
        let tag = takeWhile name_char (tl s) in
        case read_attribs (dropWhile name_char (tl s)) of
          None \<Rightarrow> None
        | Some (att, True, r) \<Rightarrow> map_option (\<lambda>(tail', z). (Element tag att [] tail' [], z)) (read_text r)
        | Some (att, False, r) \<Rightarrow>
            (case read_text r of
               None \<Rightarrow> None
             | Some (txt, r1) \<Rightarrow>
                 (case read_children n [] r1 of
                    None \<Rightarrow> None
                  | Some (cs, r2) \<Rightarrow>
                      if prefix (tag @ [62]) r2
                      then map_option (\<lambda>(tail', z). (Element tag att txt tail' cs, z)) (read_text (drop (Suc (length tag)) r2))
                      else None)))"
| "read_children 0 acc s = None"
| "read_children (Suc n) acc s =
     (if prefix [60, 47] s then Some (rev acc, drop 2 s)
      else
        case read_element n s of
          None \<Rightarrow> None
        | Some (e, r) \<Rightarrow> read_children n (e # acc) r)"

text \<open>A document: the declaration, the root element, and nothing but blank text after it\<close>

definition read_document :: "pystr \<Rightarrow> element option" where
  "read_document s =
     (if \<not> prefix xml_declaration s then None
      else
        let body = drop (length xml_declaration) s in
        case read_element (length body) body of
          Some (Element tag att txt tail' cs, []) \<Rightarrow>
            if is_blank tail' then Some (Element tag att txt [] cs) else None
        | _ \<Rightarrow> None)"

section \<open>What is written is read back\<close>

text \<open>Trees an XML processor hands on unchanged\<close>

definition xml_name :: "pystr \<Rightarrow> bool" where
  "xml_name s \<longleftrightarrow> s \<noteq> [] \<and> (\<forall>c \<in> set s. name_char c)"

definition clean_text :: "pystr \<Rightarrow> bool" where
  "clean_text s \<longleftrightarrow> (\<forall>c \<in> set s. xml_char c \<and> c \<noteq> 13)"

definition clean_attrib :: "pystr \<times> pystr \<Rightarrow> bool" where
  "clean_attrib kv \<longleftrightarrow> xml_name (fst kv) \<and> (\<forall>c \<in> set (snd kv). xml_char c)"

fun clean :: "element \<Rightarrow> bool" where
  "clean (Element tag attrib txt tl' cs) \<longleftrightarrow>
     xml_name tag \<and> (\<forall>kv \<in> set attrib. clean_attrib kv) \<and> clean_text txt \<and> clean_text tl' \<and> (\<forall>c \<in> set cs. clean c)"

lemma takeWhile_stop: "\<forall>c \<in> set xs. P c \<Longrightarrow> r = [] \<or> \<not> P (hd r) \<Longrightarrow> takeWhile P (xs @ r) = xs \<and> dropWhile P (xs @ r) = r"
  by (cases r) (auto simp: takeWhile_append2 dropWhile_append2)

lemma unescape_entity:
  assumes "entity s = Some x" "59 \<notin> set s"
  shows "unescape raw (38 # s @ 59 # r) = map_option ((#) x) (unescape raw r)"
proof -
  have "\<forall>c \<in> set s. c \<noteq> 59" using assms(2) by auto
  from takeWhile_stop [OF this, of "59 # r"]
  have "takeWhile (\<lambda>x. x \<noteq> 59) (s @ 59 # r) = s" "dropWhile (\<lambda>x. x \<noteq> 59) (s @ 59 # r) = 59 # r" by simp_all
  with assms(1) show ?thesis by simp
qed

lemma entity_values:
  "entity (lit ''amp'') = Some 38" "entity (lit ''lt'') = Some 60" "entity (lit ''gt'') = Some 62"
  "entity (lit ''quot'') = Some 34" "entity (lit ''#13'') = Some 13" "entity (lit ''#10'') = Some 10"
  "entity (lit ''#09'') = Some 9"
  by (simp_all add: entity_def lit_def is_digit_def xml_char_def digits_value_def)

lemma unescape_named:
  assumes "x = 38 \<and> s = ''amp'' \<or> x = 60 \<and> s = ''lt'' \<or> x = 62 \<and> s = ''gt'' \<or> x = 34 \<and> s = ''quot'' \<or>
    x = 13 \<and> s = ''#13'' \<or> x = 10 \<and> s = ''#10'' \<or> x = 9 \<and> s = ''#09''"
  shows "unescape raw (lit ((CHR ''&'') # s @ [CHR '';'']) @ r) = map_option ((#) x) (unescape raw r)"
proof -
  have "entity (lit s) = Some x" "59 \<notin> set (lit s)" using assms entity_values by (auto simp: lit_def)
  from unescape_entity [OF this, of raw r] show ?thesis by (simp add: lit_def)
qed

lemma unescape_cdata_char:
  assumes "xml_char c" "c \<noteq> 13"
  shows "unescape raw_text (escape_cdata c @ r) = map_option ((#) c) (unescape raw_text r)"
  using assms unescape_named [of 38 "''amp''" raw_text r] unescape_named [of 60 "''lt''" raw_text r]
    unescape_named [of 62 "''gt''" raw_text r]
  by (auto simp: escape_cdata_def raw_text_def)

lemma unescape_cdata: "clean_text s \<Longrightarrow> unescape raw_text (concat (map escape_cdata s)) = Some s"
  by (induction s) (auto simp: clean_text_def unescape_cdata_char)

lemma unescape_attrib_char:
  assumes "xml_char c"
  shows "unescape raw_attrib (escape_attrib c @ r) = map_option ((#) c) (unescape raw_attrib r)"
  using assms unescape_named [of 38 "''amp''" raw_attrib r] unescape_named [of 60 "''lt''" raw_attrib r]
    unescape_named [of 62 "''gt''" raw_attrib r] unescape_named [of 34 "''quot''" raw_attrib r]
    unescape_named [of 13 "''#13''" raw_attrib r] unescape_named [of 10 "''#10''" raw_attrib r]
    unescape_named [of 9 "''#09''" raw_attrib r]
  by (auto simp: escape_attrib_def escape_cdata_def raw_attrib_def raw_text_def)

lemma unescape_attrib: "\<forall>c \<in> set s. xml_char c \<Longrightarrow> unescape raw_attrib (concat (map escape_attrib s)) = Some s"
  by (induction s) (auto simp: unescape_attrib_char)

lemma escaped_chars:
  "c \<in> set (escape_cdata x) \<Longrightarrow> c \<noteq> 60" "c \<in> set (escape_attrib x) \<Longrightarrow> c \<noteq> 34"
  by (auto simp: escape_attrib_def escape_cdata_def lit_def split: if_splits)

lemma read_text_cdata:
  assumes "clean_text s" "r = [] \<or> hd r = 60"
  shows "read_text (concat (map escape_cdata s) @ r) = Some (s, r)"
proof -
  have "\<forall>c \<in> set (concat (map escape_cdata s)). c \<noteq> 60" using escaped_chars(1) by auto
  then have "takeWhile (\<lambda>c. c \<noteq> 60) (concat (map escape_cdata s) @ r) = concat (map escape_cdata s) \<and>
      dropWhile (\<lambda>c. c \<noteq> 60) (concat (map escape_cdata s) @ r) = r"
    using assms(2) by (intro takeWhile_stop) auto
  with unescape_cdata [OF assms(1)] show ?thesis by (simp add: read_text_def)
qed

lemma read_attribs_end:
  "read_attribs (62 # r) = Some ([], False, r)" "read_attribs (lit '' />'' @ r) = Some ([], True, r)"
  by (simp_all add: read_attribs.simps lit_def)

lemma read_attribs_one:
  assumes "clean_attrib kv"
  shows "read_attribs (write_attrib kv @ r) = map_option (\<lambda>(att, e, z). (kv # att, e, z)) (read_attribs r)"
proof -
  obtain k w where kv: "kv = (k, w)" by (cases kv)
  have k: "xml_name k" and w: "\<forall>c \<in> set w. xml_char c" using assms by (auto simp: kv clean_attrib_def)
  define v where "v = concat (map escape_attrib w)"
  have s: "write_attrib kv @ r = 32 # k @ 61 # 34 # v @ 34 # r" by (simp add: write_attrib_def kv v_def)
  have name: "takeWhile name_char (k @ 61 # 34 # v @ 34 # r) = k \<and> dropWhile name_char (k @ 61 # 34 # v @ 34 # r) = 61 # 34 # v @ 34 # r"
    using k by (intro takeWhile_stop) (auto simp: xml_name_def name_char_def)
  have "\<forall>c \<in> set v. c \<noteq> 34" using escaped_chars(2) by (auto simp: v_def)
  then have val: "takeWhile (\<lambda>c. c \<noteq> 34) (v @ 34 # r) = v" using takeWhile_stop [of v "\<lambda>c. c \<noteq> 34" "34 # r"] by auto
  have "k \<noteq> [] \<and> name_char (hd k)" using k by (auto simp: xml_name_def)
  then have "\<not> prefix [32, 47, 62] (32 # k @ 61 # 34 # v @ 34 # r)" by (cases k) (auto simp: name_char_def)
  moreover have "unescape raw_attrib v = Some w" unfolding v_def by (rule unescape_attrib [OF w])
  ultimately show ?thesis
    unfolding s by (subst read_attribs.simps) (simp add: Let_def name val kv)
qed

lemma read_attribs_all:
  "\<forall>kv \<in> set att. clean_attrib kv \<Longrightarrow>
     read_attribs (concat (map write_attrib att) @ r) = map_option (\<lambda>(a, e, z). (att @ a, e, z)) (read_attribs r)"
  by (induction att) (auto simp: read_attribs_one option.map_comp comp_def case_prod_unfold option.map_ident)

fun read_cost :: "element \<Rightarrow> nat" where
  "read_cost (Element tag attrib txt tl' cs) = 2 + sum_list (map (\<lambda>c. Suc (read_cost c)) cs)"

lemma read_cost_length: "clean e \<Longrightarrow> Suc (read_cost e) \<le> length (serialize e)"
proof (induction e)
  case (Element tag att tx tl' cs)
  have "sum_list (map (\<lambda>c. Suc (read_cost c)) cs) \<le> sum_list (map (\<lambda>c. length (serialize c)) cs)"
    using Element by (intro sum_list_mono) auto
  moreover have "tag \<noteq> []" using Element.prems by (simp add: xml_name_def)
  ultimately show ?case by (cases tag) (auto simp: length_concat comp_def lit_def)
qed

lemma serialize_open: "clean e \<Longrightarrow> \<exists>c s. serialize e = 60 # c # s \<and> c \<noteq> 47"
  by (cases e; cases "el_tag e") (auto simp: xml_name_def name_char_def)

lemma serialize_children_open: "\<forall>c \<in> set cs. clean c \<Longrightarrow> hd (concat (map serialize cs) @ 60 # r) = 60"
proof (cases cs)
  case (Cons c cs')
  moreover assume "\<forall>c \<in> set cs. clean c"
  ultimately show ?thesis using serialize_open [of c] by auto
qed simp

lemma read_children_all:
  assumes "\<forall>c \<in> set cs. clean c \<and> (\<forall>n r. read_cost c \<le> n \<longrightarrow> r = [] \<or> hd r = 60 \<longrightarrow> read_element n (serialize c @ r) = Some (c, r))"
    and "Suc (sum_list (map (\<lambda>c. Suc (read_cost c)) cs)) \<le> n"
  shows "read_children n acc (concat (map serialize cs) @ 60 # 47 # r) = Some (rev acc @ cs, r)"
  using assms
proof (induction cs arbitrary: n acc)
  case Nil
  then show ?case by (cases n) simp_all
next
  case (Cons c cs)
  then obtain m where n: "n = Suc m" "read_cost c \<le> m" "Suc (sum_list (map (\<lambda>c. Suc (read_cost c)) cs)) \<le> m"
    by (cases n) auto
  let ?z = "concat (map serialize cs) @ 60 # 47 # r"
  have c: "clean c" using Cons.prems by simp
  have "hd ?z = 60" using Cons.prems(1) by (intro serialize_children_open) simp
  then have "read_element m (serialize c @ ?z) = Some (c, ?z)" using Cons.prems(1) n(2) by (metis list.set_intros(1))
  moreover have "\<not> prefix [60, 47] (serialize c @ ?z)" using serialize_open [OF c] by auto
  moreover have "read_children m (c # acc) ?z = Some (rev (c # acc) @ cs, r)"
    by (rule Cons.IH) (use Cons.prems(1) n(3) in auto)
  ultimately show ?case by (simp add: n(1))
qed

lemma read_element_serialize:
  "clean e \<Longrightarrow> read_cost e \<le> n \<Longrightarrow> r = [] \<or> hd r = 60 \<Longrightarrow> read_element n (serialize e @ r) = Some (e, r)"
proof (induction e arbitrary: n r)
  case (Element tag att tx tl' cs)
  then obtain m where n: "n = Suc m" "Suc (sum_list (map (\<lambda>c. Suc (read_cost c)) cs)) \<le> m" by (cases n) auto
  have tag: "\<forall>c \<in> set tag. name_char c" and att: "\<forall>kv \<in> set att. clean_attrib kv" and cs: "\<forall>c \<in> set cs. clean c"
    and tx: "clean_text tx" and tl': "clean_text tl'" using Element.prems(1) by (auto simp: xml_name_def)
  have name: "takeWhile name_char (tag @ concat (map write_attrib att) @ z) = tag \<and>
      dropWhile name_char (tag @ concat (map write_attrib att) @ z) = concat (map write_attrib att) @ z"
    if "z \<noteq> []" "\<not> name_char (hd z)" for z
    using tag that by (intro takeWhile_stop) (cases att; auto simp: write_attrib_def name_char_def)+
  have tail: "read_text (concat (map escape_cdata tl') @ r) = Some (tl', r)" by (rule read_text_cdata [OF tl' Element.prems(3)])
  show ?case
  proof (cases "tx = [] \<and> cs = []")
    case True
    let ?z = "lit '' />'' @ concat (map escape_cdata tl') @ r"
    have "read_attribs (concat (map write_attrib att) @ ?z) = Some (att, True, concat (map escape_cdata tl') @ r)"
      unfolding read_attribs_all [OF att] read_attribs_end by simp
    with True tail name [of ?z] n(1) show ?thesis by (simp add: lit_def name_char_def)
  next
    case False
    define y where "y = tag @ 62 # concat (map escape_cdata tl') @ r"
    let ?c = "concat (map serialize cs) @ 60 # 47 # y"
    let ?z = "62 # concat (map escape_cdata tx) @ ?c"
    have a: "read_attribs (concat (map write_attrib att) @ ?z) = Some (att, False, concat (map escape_cdata tx) @ ?c)"
      unfolding read_attribs_all [OF att] read_attribs_end by simp
    from serialize_children_open [OF cs] have t: "read_text (concat (map escape_cdata tx) @ ?c) = Some (tx, ?c)" using tx by (intro read_text_cdata) simp_all
    have c: "read_children m [] ?c = Some (cs, y)"
      using read_children_all [of cs m "[]" y] Element.IH cs n(2) by simp
    have "serialize (Element tag att tx tl' cs) @ r = 60 # tag @ concat (map write_attrib att) @ ?z"
      using False by (auto simp: y_def)
    moreover have "prefix (tag @ [62]) y" "drop (Suc (length tag)) y = concat (map escape_cdata tl') @ r"
      by (simp_all add: y_def)
    ultimately show ?thesis
      using a t c tail name [of ?z] n(1) by (simp add: name_char_def Let_def)
  qed
qed

text \<open>The text of a document, newline-terminated, reads back as the tree\<close>

lemma read_document_serialize:
  assumes "clean e" "el_tail e = []"
  shows "read_document (xml_declaration @ serialize e @ [10]) = Some e"
proof -
  obtain tag att tx cs where e: "e = Element tag att tx [] cs" using assms(2) by (cases e) auto
  define e1 where "e1 = Element tag att tx [10] cs"
  have c: "clean e1" using assms(1) by (auto simp: e e1_def clean_text_def xml_char_def)
  have s: "serialize e @ [10] = serialize e1" by (simp add: e e1_def escape_cdata_def)
  define b where "b = serialize e1"
  have "read_element (length b) (b @ []) = Some (e1, [])"
    unfolding b_def using read_cost_length [OF c] by (intro read_element_serialize c) auto
  then show ?thesis unfolding s b_def [symmetric] by (simp add: read_document_def e1_def e is_blank_def is_space_def)
qed

lemma clean_indentation: "clean_text (indentation k)"
  by (auto simp: indentation_def clean_text_def xml_char_def)

lemma clean_or_blank: "clean_text s \<Longrightarrow> clean_text t \<Longrightarrow> clean_text (or_blank s t)"
  by (simp add: or_blank_def)

lemma clean_set_tail: "clean e \<Longrightarrow> clean_text t \<Longrightarrow> clean (set_tail t e)"
  by (cases e) (simp add: set_tail_def clean_or_blank)

lemma clean_indent:
  "clean e \<Longrightarrow> clean (indent_element k e)"
  "\<forall>c \<in> set cs. clean c \<Longrightarrow> \<forall>c \<in> set (indent_children k cs). clean c"
  by (induction k e and k cs rule: indent_element_indent_children.induct)
    (simp_all add: clean_or_blank clean_set_tail clean_indentation)

lemma indent_tail [simp]: "el_tail (xml_indent e) = el_tail e"
  by (cases e) (simp add: xml_indent_def)

text \<open>Indentation changes white space only\<close>

definition unblank :: "pystr \<Rightarrow> pystr" where
  "unblank s = (if is_blank s then [] else s)"

fun strip_blank :: "element \<Rightarrow> element" where
  "strip_blank (Element tag att tx tl2 cs) = Element tag att (unblank tx) (unblank tl2) (map strip_blank cs)"

lemma unblank_or_blank: "is_blank t \<Longrightarrow> unblank (or_blank s t) = unblank s"
  by (simp add: unblank_def or_blank_def)

lemma indentation_blank: "is_blank (indentation k)"
  by (simp add: indentation_def is_blank_def is_space_def)

lemma strip_set_tail: "is_blank t \<Longrightarrow> strip_blank (set_tail t e) = strip_blank e"
  by (cases e) (simp add: set_tail_def unblank_or_blank)

lemma strip_indent:
  "strip_blank (indent_element k e) = strip_blank e"
  "map strip_blank (indent_children k cs) = map strip_blank cs"
  by (induction k e and k cs rule: indent_element_indent_children.induct)
    (simp_all add: unblank_or_blank strip_set_tail indentation_blank)

text \<open>Clean trees are encoded without character references, and decode to the serialized text\<close>

lemma escaped_xml_char:
  "xml_char x \<Longrightarrow> c \<in> set (escape_cdata x) \<Longrightarrow> xml_char c" "xml_char x \<Longrightarrow> c \<in> set (escape_attrib x) \<Longrightarrow> xml_char c"
  by (auto simp: escape_attrib_def escape_cdata_def lit_def xml_char_def split: if_splits)

lemma write_attrib_chars: "clean_attrib kv \<Longrightarrow> c \<in> set (write_attrib kv) \<Longrightarrow> xml_char c"
proof -
  assume kv: "clean_attrib kv" and "c \<in> set (write_attrib kv)"
  then consider "c \<in> set (fst kv)" | "c \<in> {32, 61, 34}" | x where "x \<in> set (snd kv)" "c \<in> set (escape_attrib x)"
    by (auto simp: write_attrib_def)
  then show ?thesis
  proof cases
    case 1
    with kv show ?thesis by (simp add: clean_attrib_def xml_name_def name_char_def)
  next
    case 3
    with kv show ?thesis using escaped_xml_char(2) by (auto simp: clean_attrib_def)
  qed (auto simp: xml_char_def)
qed

lemma clean_text_chars: "clean_text s \<Longrightarrow> c \<in> set (concat (map escape_cdata s)) \<Longrightarrow> xml_char c"
  by (auto simp: clean_text_def escaped_xml_char(1))

lemma punctuation_chars: "c \<in> set ([60, 62, 47] @ lit '' />'') \<Longrightarrow> xml_char c"
  by (auto simp: lit_def xml_char_def)

lemma serialize_chars: "clean e \<Longrightarrow> c \<in> set (serialize e) \<Longrightarrow> xml_char c"
proof (induction e)
  case (Element tag att tx tl2 cs)
  have tag: "x \<in> set tag \<Longrightarrow> xml_char x" for x using Element.prems(1) by (auto simp: xml_name_def name_char_def)
  have att: "x \<in> set (concat (map write_attrib att)) \<Longrightarrow> xml_char x" for x
    using Element.prems(1) write_attrib_chars by auto
  have tx: "x \<in> set (concat (map escape_cdata tx)) \<Longrightarrow> xml_char x" for x
    using Element.prems(1) clean_text_chars by (simp del: set_concat) blast
  have tl2: "x \<in> set (concat (map escape_cdata tl2)) \<Longrightarrow> xml_char x" for x
    using Element.prems(1) clean_text_chars by (simp del: set_concat) blast
  have cs: "x \<in> set (concat (map serialize cs)) \<Longrightarrow> x = c \<Longrightarrow> xml_char x" for x
    using Element.IH Element.prems(1) by (simp del: set_concat add: set_concat) blast
  have "c \<in> set tag \<union> set (concat (map write_attrib att)) \<union> set (concat (map escape_cdata tx)) \<union>
      set (concat (map escape_cdata tl2)) \<union> set (concat (map serialize cs)) \<union> set ([60, 62, 47] @ lit '' />'')"
    using Element.prems(2) by (simp del: set_concat split: if_splits) blast+
  then show ?case by (elim UnE) (erule tag att tx tl2 cs [OF _ refl] punctuation_chars)+
qed

lemma declaration_chars: "c \<in> set xml_declaration \<Longrightarrow> xml_char c"
  by (auto simp: xml_declaration_def lit_def xml_char_def)

lemma xml_char_code_point: "xml_char c \<Longrightarrow> is_code_point c \<and> \<not> is_surrogate c"
  by (auto simp: xml_char_def is_code_point_def is_surrogate_def)

lemma charref_ident: "\<forall>c \<in> set s. xml_char c \<Longrightarrow> concat (map charref s) = s"
  by (induction s) (auto simp: charref_def dest: xml_char_code_point)

lemma encode_charref_decode:
  assumes "\<forall>c \<in> set s. xml_char c"
  shows "utf8_decode (encode_charref s) = Inr s"
proof -
  have "utf8_encode s = Inr (encode_charref s)"
    using assms charref_ident [OF assms] by (auto simp: utf8_encode_def encode_charref_def dest: xml_char_code_point)
  moreover from this have "utf8_decode_replace (encode_charref s) = s"
    using assms by (intro utf8_roundtrip) (auto dest: xml_char_code_point)
  ultimately show ?thesis by (simp add: utf8_decode_def)
qed

lemma tostring_decode: "clean e \<Longrightarrow> utf8_decode (tostring e) = Inr (xml_declaration @ serialize e)"
  unfolding tostring_def by (intro encode_charref_decode) (auto dest: serialize_chars declaration_chars)

end
