(* ===== verification/Junit.thy ===== *)
theory Junit
  imports Report_Json Py_Xml
begin

text \<open>
  The JUnit report of \<open>src/vdevlab/junit.py\<close>: one test suite with one test case, with a \<open>failure\<close> or
  \<open>error\<close> element for a report that did not pass, indented and serialized. The counters of the suite
  agree with its elements, the details read back as the documents of the report, and a report of
  printable texts is well-formed XML.
\<close>

section \<open>The suite\<close>

definition json_text :: "pyval \<Rightarrow> pyexc + pystr" where
  "json_text v = json_dumps v"

definition attribs :: "(string \<times> pystr) list \<Rightarrow> (pystr \<times> pystr) list" where
  "attribs kvs = map (\<lambda>(k, v). (lit k, v)) kvs"

definition failed_assertions :: "ScenarioReport \<Rightarrow> pydict list" where
  "failed_assertions report = filter (\<lambda>d. dget d (lit ''passed'') = PBool False) (rp_assertions report)"

definition failures_document :: "ScenarioReport \<Rightarrow> pydict" where
  "failures_document report = [(lit ''failed_assertions'', PList (map pydict_val (failed_assertions report)))]"

definition failure_element :: "ScenarioReport \<Rightarrow> pyexc + element" where
  "failure_element report =
     rbind (json_text (pydict_val (failures_document report))) (\<lambda>t.
     Inr (Element (lit ''failure'')
            (attribs [(''message'', str_nat (length (failed_assertions report)) @ lit '' assertion(s) failed''),
                      (''type'', lit ''VDevLabAssertionFailure'')]) t [] []))"

definition report_error :: "ScenarioReport \<Rightarrow> pydict" where
  "report_error report = (case rp_error report of None \<Rightarrow> [] | Some d \<Rightarrow> d)"

definition error_element :: "interpreter \<Rightarrow> ScenarioReport \<Rightarrow> pyexc + element" where
  "error_element ip report =
     rbind (json_text (pydict_val (report_error report))) (\<lambda>t.
     Inr (Element (lit ''error'')
            (attribs [(''message'', py_str ip (dget_default (report_error report) (lit ''message'') (PStr (lit ''scenario report error'')))),
                      (''type'', py_str ip (dget_default (report_error report) (lit ''type'') (PStr (lit ''VDevLabError''))))])
            t [] []))"

definition timeout_document :: "ScenarioReport \<Rightarrow> pydict" where
  "timeout_document report =
     [(lit ''application'', pydict_val (case rp_application report of None \<Rightarrow> [] | Some d \<Rightarrow> d)),
      (lit ''status'', PStr (status_value (rp_status report)))]"

definition timeout_element :: "ScenarioReport \<Rightarrow> pyexc + element" where
  "timeout_element report =
     rbind (json_text (pydict_val (timeout_document report))) (\<lambda>t.
     Inr (Element (lit ''error'') (attribs [(''message'', lit ''scenario timed out''), (''type'', lit ''VDevLabTimeout'')]) t [] []))"

definition outcome_elements :: "interpreter \<Rightarrow> ScenarioReport \<Rightarrow> pyexc + element list" where
  "outcome_elements ip report =
     (case rp_status report of
        FAIL \<Rightarrow> rbind (failure_element report) (\<lambda>e. Inr [e])
      | ERROR \<Rightarrow> rbind (error_element ip report) (\<lambda>e. Inr [e])
      | TIMEOUT \<Rightarrow> rbind (timeout_element report) (\<lambda>e. Inr [e])
      | PASS \<Rightarrow> Inr [])"

definition properties_element :: "ScenarioReport \<Rightarrow> pyexc + element" where
  "properties_element report =
     rbind (int_repr (rp_schema_version report)) (\<lambda>version.
     Inr (Element (lit ''properties'') [] [] []
       [new_element (lit ''property'') (attribs [(''name'', lit ''vdevlab.report_schema_version''), (''value'', version)]),
        new_element (lit ''property'')
          (attribs [(''name'', lit ''vdevlab.status''), (''value'', status_value (rp_status report))])]))"

definition testcase_element :: "interpreter \<Rightarrow> ScenarioReport \<Rightarrow> pyexc + element" where
  "testcase_element ip report =
     rbind (outcome_elements ip report) (\<lambda>outcome.
     Inr (Element (lit ''testcase'')
            (attribs [(''classname'', lit ''vdevlab.scenario''), (''name'', rp_scenario_name report)]) [] [] outcome))"

definition junit_suite :: "interpreter \<Rightarrow> ScenarioReport \<Rightarrow> pyexc + element" where
  "junit_suite ip report =
     (let failures = (if rp_status report = FAIL then 1 else 0 :: int);
          errors = (if rp_status report = ERROR \<or> rp_status report = TIMEOUT then 1 else 0 :: int)
      in
      rbind (properties_element report) (\<lambda>properties.
      rbind (testcase_element ip report) (\<lambda>testcase.
      Inr (Element (lit ''testsuite'')
             (attribs [(''name'', lit ''vdevlab''), (''tests'', lit ''1''), (''failures'', str_int failures),
                       (''errors'', str_int errors), (''skipped'', lit ''0'')]) [] [] [properties, testcase]))))"

definition report_to_junit_xml :: "interpreter \<Rightarrow> ScenarioReport \<Rightarrow> pyexc + pystr" where
  "report_to_junit_xml ip report =
     rbind (junit_suite ip report) (\<lambda>suite.
     rbind (utf8_decode (tostring (xml_indent suite))) (\<lambda>t.
     Inr (t @ lit [CHR 0x0A])))"

section \<open>Shape\<close>

text \<open>The elements of a tree with a tag\<close>

fun elements :: "pystr \<Rightarrow> element \<Rightarrow> element list" where
  "elements tag (Element t att tx tail' cs) =
     (if t = tag then [Element t att tx tail' cs] else []) @ concat (map (elements tag) cs)"

definition attrib :: "element \<Rightarrow> string \<Rightarrow> pystr option" where
  "attrib e k = map_of (el_attrib e) (lit k)"

lemma json_text_wf: "wf_json v \<Longrightarrow> \<exists>t. json_text v = Inr t \<and> json_loads t = Inr (sort_val v)"
  using json_dumps_loads [of v "[]"] by (fastforce simp: json_text_def ends_number_def json_ws_def)

lemma json_text_of_dict: "wf_dict d \<Longrightarrow> \<exists>t. json_text (pydict_val d) = Inr t \<and> json_loads t = Inr (sort_val (pydict_val d))"
  by (rule json_text_wf) simp

lemma wf_junit_documents:
  assumes "wf_report rep"
  shows "wf_dict (failures_document rep)" "wf_dict (report_error rep)" "wf_dict (timeout_document rep)"
  using assms
  by (auto simp: failures_document_def failed_assertions_def report_error_def timeout_document_def wf_report_def
      split: option.splits)

text \<open>The element of a report that did not pass, and the document in it\<close>

definition outcome_tag :: "ReportStatus \<Rightarrow> pystr" where
  "outcome_tag st = (if st = FAIL then lit ''failure'' else lit ''error'')"

definition outcome_document :: "ScenarioReport \<Rightarrow> pydict" where
  "outcome_document rep =
     (case rp_status rep of FAIL \<Rightarrow> failures_document rep | ERROR \<Rightarrow> report_error rep | _ \<Rightarrow> timeout_document rep)"

definition is_outcome :: "ScenarioReport \<Rightarrow> element \<Rightarrow> bool" where
  "is_outcome rep e \<longleftrightarrow>
     el_tag e = outcome_tag (rp_status rep) \<and> el_children e = [] \<and> el_tail e = [] \<and>
     json_text (pydict_val (outcome_document rep)) = Inr (el_text e) \<and>
     json_loads (el_text e) = Inr (sort_val (pydict_val (outcome_document rep)))"

lemma outcome_passed: "rp_status rep = PASS \<Longrightarrow> outcome_elements ip rep = Inr []"
  by (simp add: outcome_elements_def)

lemma outcome_not_passed:
  assumes "wf_report rep" "rp_status rep \<noteq> PASS"
  shows "\<exists>e. outcome_elements ip rep = Inr [e] \<and> is_outcome rep e"
proof -
  have "wf_dict (outcome_document rep)"
    using wf_junit_documents [OF assms(1)] by (simp add: outcome_document_def split: ReportStatus.splits)
  from json_text_of_dict [OF this] show ?thesis
    using assms(2)
    by (cases "rp_status rep")
      (auto simp: outcome_elements_def is_outcome_def outcome_document_def outcome_tag_def failure_element_def
        error_element_def timeout_element_def)
qed

lemma elements_leaf: "el_children e = [] \<Longrightarrow> elements tag e = (if el_tag e = tag then [e] else [])"
  by (cases e) simp

lemmas suite_defs = junit_suite_def properties_element_def testcase_element_def new_element_def attribs_def int_repr_def

text \<open>The suite of a well-formed report, with the elements of each tag\<close>

lemma junit_suite_elements:
  assumes "wf_report rep"
  shows "\<exists>suite es. junit_suite ip rep = Inr suite \<and> outcome_elements ip rep = Inr es \<and>
    elements (lit ''failure'') suite = (if rp_status rep = FAIL then es else []) \<and>
    elements (lit ''error'') suite = (if rp_status rep = FAIL then [] else es) \<and>
    length (elements (lit ''testcase'') suite) = 1 \<and> elements (lit ''skipped'') suite = []"
proof -
  have v: "short_int (rp_schema_version rep)" using assms by (simp add: wf_report_def)
  show ?thesis
  proof (cases "rp_status rep = PASS")
    case True
    then show ?thesis using v outcome_passed [OF True, of ip] by (auto simp: suite_defs lit_def)
  next
    case False
    obtain e where e: "outcome_elements ip rep = Inr [e]" "is_outcome rep e" using outcome_not_passed [OF assms False] by blast
    have "elements tag e = (if outcome_tag (rp_status rep) = tag then [e] else [])" for tag
      using e(2) by (simp add: is_outcome_def elements_leaf)
    then show ?thesis using v e(1) by (auto simp: suite_defs outcome_tag_def lit_def)
  qed
qed

lemma junit_suite_attribs:
  assumes "junit_suite ip rep = Inr suite"
  shows "attrib suite ''tests'' = Some (lit ''1'')" "attrib suite ''skipped'' = Some (lit ''0'')"
    "attrib suite ''failures'' = Some (if rp_status rep = FAIL then lit ''1'' else lit ''0'')"
    "attrib suite ''errors'' = Some (if rp_status rep = ERROR \<or> rp_status rep = TIMEOUT then lit ''1'' else lit ''0'')"
  using assms by (auto simp: suite_defs Let_def attrib_def rbind_Inr_iff lit_def str_int_def str_nat.simps)

section \<open>Failed assertions\<close>

definition has_verdict :: "pydict \<Rightarrow> bool" where
  "has_verdict d \<longleftrightarrow> (\<exists>b. dget d (lit ''passed'') = PBool b)"

lemma documents_verdict:
  "has_verdict (event_count_document c)" "has_verdict (stdout_document s)" "has_verdict (disconnect_document d)"
  "has_verdict (kernel_warning_document k)" "has_verdict (exit_code_document n)" "has_verdict (latency_document l)"
  by (simp_all add: has_verdict_def event_count_document_def stdout_document_def disconnect_document_def
      kernel_warning_document_def exit_code_document_def latency_document_def dget_def lit_def)

lemma assertion_documents_verdict: "assertion_documents sc result events m = Inr docs \<Longrightarrow> \<forall>d \<in> set docs. has_verdict d"
  by (erule assertion_documents_all) (rule documents_verdict)+

text \<open>A built report fails exactly for the assertions the JUnit report lists.\<close>

lemma failed_assertions_built:
  assumes "build_scenario_report ip sc result = Inr rep" "rp_status rep = FAIL"
  shows "failed_assertions rep = filter (\<lambda>d. \<not> document_passed d) (rp_assertions rep) \<and> failed_assertions rep \<noteq> []"
proof -
  from assms obtain es m docs where docs: "assertion_documents sc result es m = Inr docs" "rp_assertions rep = docs"
    "fst (decide_status sc result docs) = FAIL"
    by (cases "analyse_log (ar_stdout (sr_application result))")
      (auto simp: build_scenario_report_def analysed_report_def log_error_report_def rbind_Inr_iff split: if_splits)
  have "dget d (lit ''passed'') = PBool False \<longleftrightarrow> \<not> document_passed d" if "d \<in> set docs" for d
    using assertion_documents_verdict [OF docs(1)] that by (auto simp: has_verdict_def document_passed_def)
  then have "failed_assertions rep = filter (\<lambda>d. \<not> document_passed d) docs"
    unfolding failed_assertions_def docs(2) by (rule filter_cong [OF refl])
  moreover have "\<not> list_all document_passed docs" using docs(3) by (auto simp: decide_status_def split: if_splits)
  ultimately show ?thesis by (auto simp: docs(2) list_all_iff filter_empty_conv)
qed

lemma failure_message:
  "failure_element rep = Inr e \<Longrightarrow>
     attrib e ''message'' = Some (str_nat (length (failed_assertions rep)) @ lit '' assertion(s) failed'')"
  by (auto simp: failure_element_def rbind_Inr_iff attrib_def attribs_def lit_def)

definition failing_result :: ScenarioRunResult where
  "failing_result = sample_result\<lparr>sr_application := (sr_application sample_result)\<lparr>ar_exit_code := 3\<rparr>\<rparr>"

lemma failing_report:
  "\<exists>rep. build_scenario_report sample_interpreter (normal_form [] sample_spec) failing_result = Inr rep \<and> rp_status rep = FAIL"
proof -
  obtain m where m: "analyse_log sample_log = Inr (sample_events, m)" using sample_analysis by blast
  obtain docs where docs: "assertion_documents (normal_form [] sample_spec) failing_result sample_events m = Inr docs"
    using assertion_documents_norm [of sample_spec "[]" failing_result sample_events m] wf_sample_spec
    by (auto simp: wf_spec_def)
  have "\<exists>ts. sorted_timeline (application_timeline sample_events) = Inr ts" by (rule sample_timeline) simp
  with m docs obtain rep where rep:
    "build_scenario_report sample_interpreter (normal_form [] sample_spec) failing_result = Inr rep"
    by (auto simp: build_scenario_report_def analysed_report_def dispatch_timeline_def failing_result_def sample_result_def)
  with build_report_status [OF wf_sample_spec rep] m show ?thesis by (simp add: failing_result_def sample_result_def)
qed

lemma sane_failing_result: "sane_result failing_result"
  using sane_sample_result by (simp add: failing_result_def sane_result_def)

section \<open>Well-formed XML\<close>

text \<open>
  Texts an XML document can hold. In JSON control characters are escaped, so only surrogates and the
  two noncharacters are excluded there.
\<close>

definition xml_string :: "pystr \<Rightarrow> bool" where
  "xml_string s \<longleftrightarrow> (\<forall>c \<in> set s. xml_char c)"

definition json_xml_string :: "pystr \<Rightarrow> bool" where
  "json_xml_string s \<longleftrightarrow> (\<forall>c \<in> set s. c < 32 \<or> xml_char c)"

fun xml_val :: "pyval \<Rightarrow> bool" where
  "xml_val (PStr s) \<longleftrightarrow> json_xml_string s"
| "xml_val (PList vs) \<longleftrightarrow> (\<forall>v \<in> set vs. xml_val v)"
| "xml_val (PDict kvs) \<longleftrightarrow> (\<forall>kv \<in> set kvs. xml_val (fst kv) \<and> xml_val (snd kv))"
| "xml_val v \<longleftrightarrow> True"

definition xml_dict :: "pydict \<Rightarrow> bool" where
  "xml_dict d \<longleftrightarrow> (\<forall>kv \<in> set d. json_xml_string (fst kv) \<and> xml_val (snd kv))"

lemma xml_val_pydict [simp]: "xml_val (pydict_val d) \<longleftrightarrow> xml_dict d"
  by (auto simp: pydict_val_def xml_dict_def)

lemma xml_val_sort: "xml_val v \<Longrightarrow> xml_val (sort_val v)"
  by (induction v rule: sort_val.induct) auto

lemma clean_append [simp]: "clean_text (s @ t) \<longleftrightarrow> clean_text s \<and> clean_text t"
  by (auto simp: clean_text_def)

lemma clean_Nil [simp]: "clean_text []"
  by (simp add: clean_text_def)

lemma clean_Cons [simp]: "clean_text (c # s) \<longleftrightarrow> xml_char c \<and> c \<noteq> 13 \<and> clean_text s"
  by (auto simp: clean_text_def)

lemma clean_concat: "\<forall>t \<in> set ts. clean_text t \<Longrightarrow> clean_text (concat ts)"
  by (auto simp: clean_text_def)

lemma ascii_char: "32 \<le> c \<Longrightarrow> c < 128 \<Longrightarrow> xml_char c \<and> c \<noteq> 13"
  by (simp add: xml_char_def)

lemma clean_ascii: "\<forall>c \<in> set s. 32 \<le> c \<and> c < 128 \<Longrightarrow> clean_text s"
  unfolding clean_text_def using ascii_char by blast

lemma hex_digit_ascii: "n < 16 \<Longrightarrow> 32 \<le> hex_digit n \<and> hex_digit n < 128"
  by (simp add: hex_digit_def)

lemma clean_escape:
  assumes "c < 32 \<or> xml_char c"
  shows "clean_text (escape_char c)"
proof (cases "32 \<le> c")
  case True
  with assms show ?thesis by (auto simp: escape_char_def ascii_char)
next
  case False
  then have "c div 16 < 16" "c mod 16 < 16" by simp_all
  then have "\<forall>x \<in> set [92, 117, 48, 48, hex_digit (c div 16), hex_digit (c mod 16)]. 32 \<le> x \<and> x < 128"
    using hex_digit_ascii by simp
  with False show ?thesis by (intro clean_ascii) (auto simp: escape_char_def)
qed

lemma clean_json_string: "json_xml_string s \<Longrightarrow> clean_text (json_string s)"
  unfolding json_string_def by (simp add: ascii_char clean_concat clean_escape json_xml_string_def)

lemma clean_digits: "\<forall>c \<in> set s. is_digit c \<Longrightarrow> clean_text s"
  by (rule clean_ascii) (auto simp: is_digit_def)

lemma clean_str_int: "clean_text (str_int n)"
  using clean_digits [OF str_nat_digits] by (simp add: str_int_def ascii_char)

lemma clean_repr_format:
  assumes "ds \<noteq> []" "\<forall>c \<in> set ds. is_digit c"
  shows "clean_text (repr_format ds pt)"
proof -
  obtain d ds' where ds: "ds = d # ds'" "is_digit d" "\<forall>c \<in> set ds'. is_digit c" using assms by (cases ds) auto
  have "xml_char d \<and> d \<noteq> 13" using ds(2) by (intro ascii_char) (simp_all add: is_digit_def)
  moreover have "clean_text ds'" using ds(3) by (rule clean_digits)
  moreover have "clean_text (replicate k 48)" for k by (rule clean_ascii) simp
  moreover have "clean_text (take k (d # ds')) \<and> clean_text (drop k (d # ds'))" for k
    using assms(2) unfolding ds(1) by (auto intro!: clean_digits dest!: in_set_takeD in_set_dropD simp del: take_Cons drop_Cons)
  moreover have "clean_text (two_digits n)" for n
    using clean_digits [OF str_nat_digits] by (simp add: two_digits_def ascii_char)
  ultimately show ?thesis using clean_digits [OF assms(2)] by (simp add: repr_format_def ds(1) ascii_char)
qed

lemma clean_float_repr: "wf_float f \<Longrightarrow> clean_text (float_repr f)"
proof (cases f)
  case (FFin q)
  assume "wf_float f"
  with FFin have b: "binary64 q" "binary64 (- q)" by simp_all
  have "clean_text (case repr_digits p of (ds, pt) \<Rightarrow> repr_format ds pt)" if "0 < p" "binary64 p" for p
    using that repr_digits_reads(2,3) [of p] by (auto simp: binary64_def intro!: clean_repr_format split: prod.split)
  with b show ?thesis by (simp add: FFin float_repr_def ascii_char) (simp add: lit_def ascii_char)
qed (simp_all add: float_repr_def lit_def ascii_char)

lemma clean_newline_indent: "clean_text (newline_indent l)"
  by (auto simp: newline_indent_def clean_text_def xml_char_def)

lemma clean_str_join: "clean_text sep \<Longrightarrow> \<forall>t \<in> set ts. clean_text t \<Longrightarrow> clean_text (str_join sep ts)"
  by (induction sep ts rule: str_join.induct) simp_all

lemma dump_clean:
  "wf_json v \<Longrightarrow> xml_val v \<Longrightarrow> dump_value l v = Inr t \<Longrightarrow> clean_text t"
  "\<forall>v \<in> set vs. wf_json v \<and> xml_val v \<Longrightarrow> dump_items l vs = Inr ts \<Longrightarrow> \<forall>t \<in> set ts. clean_text t"
  "\<forall>kv \<in> set kvs. wf_json (snd kv) \<and> xml_val (fst kv) \<and> xml_val (snd kv) \<Longrightarrow> dump_members l kvs = Inr ts \<Longrightarrow>
     \<forall>t \<in> set ts. clean_text t"
proof (induction l v and l vs and l kvs arbitrary: t and ts and ts rule: dump_value_dump_items_dump_members.induct)
  case (12 level k v kvs)
  then obtain s where k: "k = PStr s" by (cases k) auto
  from 12 k obtain tv tr where t: "dump_value level v = Inr tv" "dump_members level kvs = Inr tr"
    "ts = (json_string s @ 58 # 32 # tv) # tr" by (auto simp: rbind_Inr_iff)
  then show ?case using 12 k clean_json_string by (simp add: ascii_char)
qed (auto simp: rbind_Inr_iff int_repr_def clean_str_int clean_float_repr clean_json_string clean_newline_indent ascii_char
    intro!: clean_str_join split: if_splits, simp_all add: lit_def ascii_char)

lemma json_text_clean: "wf_dict d \<Longrightarrow> xml_dict d \<Longrightarrow> json_text (pydict_val d) = Inr t \<Longrightarrow> clean_text t"
  unfolding json_text_def json_dumps_def
  by (rule dump_clean(1) [OF wf_json_sort_val xml_val_sort]) simp_all

text \<open>Reports whose texts an XML document can hold\<close>

definition xml_field :: "pydict \<Rightarrow> string \<Rightarrow> bool" where
  "xml_field d k = (case dget_default d (lit k) (PStr []) of PStr s \<Rightarrow> xml_string s | _ \<Rightarrow> False)"

definition xml_report :: "ScenarioReport \<Rightarrow> bool" where
  "xml_report rep \<longleftrightarrow>
     xml_string (rp_scenario_name rep) \<and> (\<forall>d \<in> set (rp_assertions rep). xml_dict d) \<and>
     (case rp_application rep of None \<Rightarrow> True | Some d \<Rightarrow> xml_dict d) \<and>
     (case rp_error rep of None \<Rightarrow> True | Some d \<Rightarrow> xml_dict d \<and> xml_field d ''message'' \<and> xml_field d ''type'')"

lemma xml_string_lit: "\<forall>c \<in> set s. 32 \<le> (of_char c :: nat) \<and> (of_char c :: nat) < 128 \<Longrightarrow> xml_string (lit s)"
  by (auto simp: xml_string_def lit_def ascii_char)

lemma xml_field_str: "xml_field d k \<Longrightarrow> xml_string x \<Longrightarrow> xml_string (py_str ip (dget_default d (lit k) (PStr x)))"
  by (auto simp: xml_field_def dget_default_def py_str_def split: option.splits pyval.splits)

lemma xml_string_clean: "clean_text s \<Longrightarrow> xml_string s"
  by (simp add: clean_text_def xml_string_def)

lemma xml_string_append [simp]: "xml_string (s @ t) \<longleftrightarrow> xml_string s \<and> xml_string t"
  by (auto simp: xml_string_def)

lemma xml_name_lit:
  "xml_name (lit k)" if "k \<in> {''message'', ''type'', ''name'', ''value'', ''classname'', ''tests'', ''failures'', ''errors'', ''skipped'',
     ''testsuite'', ''properties'', ''property'', ''testcase'', ''failure'', ''error''}"
  using that by (auto simp: xml_name_def name_char_def xml_char_def lit_def)

lemma clean_attrib_lit: "xml_name (lit k) \<Longrightarrow> xml_string v \<Longrightarrow> clean_attrib (lit k, v)"
  by (simp add: clean_attrib_def xml_string_def)

lemma xml_dict_simps [simp]:
  "xml_dict []" "xml_dict ((k, v) # d) \<longleftrightarrow> json_xml_string k \<and> xml_val v \<and> xml_dict d"
  by (auto simp: xml_dict_def)

lemma json_xml_lit: "\<forall>c \<in> set s. 32 \<le> (of_char c :: nat) \<and> (of_char c :: nat) < 128 \<Longrightarrow> json_xml_string (lit s)"
  using xml_string_lit [of s] by (simp add: xml_string_def json_xml_string_def)

lemma xml_outcome_document:
  assumes "xml_report rep"
  shows "xml_dict (outcome_document rep)"
proof -
  have "json_xml_string (lit ''failed_assertions'')" "json_xml_string (lit ''application'')" "json_xml_string (lit ''status'')"
    by (rule json_xml_lit; simp)+
  moreover have "json_xml_string (lit ''PASS'')" "json_xml_string (lit ''TIMEOUT'')" by (rule json_xml_lit; simp)+
  ultimately show ?thesis
    using assms
    by (cases "rp_status rep"; cases "rp_application rep"; cases "rp_error rep")
      (simp_all add: xml_report_def outcome_document_def failures_document_def failed_assertions_def report_error_def
        timeout_document_def)
qed

lemma outcome_clean:
  assumes "wf_report rep" "xml_report rep" "outcome_elements ip rep = Inr es"
  shows "\<forall>e \<in> set es. clean e"
proof (cases "rp_status rep = PASS")
  case True
  with assms(3) outcome_passed show ?thesis by auto
next
  case False
  have wf: "wf_dict (outcome_document rep)"
    using wf_junit_documents [OF assms(1)] by (simp add: outcome_document_def split: ReportStatus.splits)
  obtain e where e: "es = [e]" "is_outcome rep e" using outcome_not_passed [OF assms(1) False, of ip] assms(3) by auto
  have tx: "clean_text (el_text e)"
    using e(2) json_text_clean [OF wf xml_outcome_document [OF assms(2)]] by (simp add: is_outcome_def)
  have names: "xml_name (lit ''message'')" "xml_name (lit ''type'')" "xml_name (lit ''failure'')" "xml_name (lit ''error'')"
    by (simp_all add: xml_name_lit)
  have strs: "xml_string (lit '' assertion(s) failed'')" "xml_string (lit ''VDevLabAssertionFailure'')"
    "xml_string (lit ''scenario report error'')" "xml_string (lit ''VDevLabError'')" "xml_string (lit ''scenario timed out'')"
    "xml_string (lit ''VDevLabTimeout'')" by (rule xml_string_lit; simp)+
  have num: "xml_string (str_nat n)" for n by (rule xml_string_clean [OF clean_digits [OF str_nat_digits]])
  have msg: "xml_string (py_str ip (dget_default (report_error rep) (lit k) (PStr x)))"
    if "k = ''message'' \<or> k = ''type''" "xml_string x" for k x
  proof (cases "rp_error rep")
    case None
    with that(2) show ?thesis by (simp add: report_error_def dget_default_def py_str_def)
  next
    case (Some d)
    with assms(2) that have "xml_field d k" by (auto simp: xml_report_def)
    with Some that(2) show ?thesis by (simp add: report_error_def xml_field_str)
  qed
  have "\<forall>kv \<in> set (el_attrib e). clean_attrib kv"
    using assms(3) False names strs num msg [of "''message''", OF _ strs(3)] msg [of "''type''", OF _ strs(4)]
    by (cases "rp_status rep") (auto simp: e(1) outcome_elements_def failure_element_def error_element_def timeout_element_def
        rbind_Inr_iff attribs_def intro!: clean_attrib_lit)
  then show ?thesis using tx e(2) names by (cases e rule: element.exhaust) (auto simp: e(1) is_outcome_def outcome_tag_def)
qed

lemma junit_suite_clean:
  assumes "wf_report rep" "xml_report rep" "junit_suite ip rep = Inr suite"
  shows "clean suite \<and> el_tail suite = []"
proof -
  have strs: "xml_string (lit ''vdevlab'')" "xml_string (lit ''vdevlab.report_schema_version'')" "xml_string (lit ''vdevlab.status'')"
    "xml_string (lit ''vdevlab.scenario'')" "xml_string (lit ''0'')" "xml_string (lit ''1'')" by (rule xml_string_lit; simp)+
  have st: "xml_string (status_value st)" for st by (cases st; simp only: status_value.simps; rule xml_string_lit; simp)
  have num: "xml_string (str_int n)" for n by (rule xml_string_clean [OF clean_str_int])
  have name: "xml_string (rp_scenario_name rep)" using assms(2) by (simp add: xml_report_def)
  from assms(3) obtain p c where suite: "suite = Element (lit ''testsuite'')
             (attribs [(''name'', lit ''vdevlab''), (''tests'', lit ''1''),
                (''failures'', str_int (if rp_status rep = FAIL then 1 else 0)),
                (''errors'', str_int (if rp_status rep = ERROR \<or> rp_status rep = TIMEOUT then 1 else 0)),
                (''skipped'', lit ''0'')]) [] [] [p, c]"
    and p: "properties_element rep = Inr p" and c: "testcase_element ip rep = Inr c"
    by (auto simp: junit_suite_def Let_def rbind_Inr_iff)
  have "clean p" using p strs st num
    by (auto simp: properties_element_def int_repr_def rbind_Inr_iff new_element_def attribs_def xml_name_lit
        intro!: clean_attrib_lit split: if_splits)
  moreover have "clean c" using c name strs outcome_clean [OF assms(1,2), of ip]
    by (auto simp: testcase_element_def rbind_Inr_iff attribs_def xml_name_lit intro!: clean_attrib_lit)
  ultimately show ?thesis using strs num by (simp add: suite attribs_def xml_name_lit clean_attrib_lit)
qed

lemma junit_xml_reads:
  assumes "wf_report rep" "xml_report rep"
  shows "\<exists>suite t. junit_suite ip rep = Inr suite \<and> report_to_junit_xml ip rep = Inr t \<and>
    read_document t = Some (xml_indent suite)"
proof -
  obtain suite where suite: "junit_suite ip rep = Inr suite" using junit_suite_elements [OF assms(1)] by blast
  from junit_suite_clean [OF assms suite] have c: "clean (xml_indent suite)" "el_tail (xml_indent suite) = []"
    by (simp_all add: clean_indent(1) [of suite 0, folded xml_indent_def])
  have "report_to_junit_xml ip rep = Inr (xml_declaration @ serialize (xml_indent suite) @ [10])"
    by (simp add: report_to_junit_xml_def suite tostring_decode [OF c(1)] lit_def)
  with suite read_document_serialize [OF c] show ?thesis by blast
qed

text \<open>An interrupted run\<close>

definition sample_error_report :: ScenarioReport where
  "sample_error_report = build_error_report (lit ''three-eio-recovery'') (RuntimeError (lit ''interrupted''))"

lemma xml_sample_error_report: "xml_report sample_error_report"
proof -
  have "json_xml_string (lit ''type'')" "json_xml_string (lit ''message'')" "json_xml_string (lit ''RuntimeError'')"
    "json_xml_string (lit ''interrupted'')" by (rule json_xml_lit; simp)+
  moreover have "xml_string (lit ''three-eio-recovery'')" "xml_string (lit ''RuntimeError'')" "xml_string (lit ''interrupted'')"
    by (rule xml_string_lit; simp)+
  moreover have "lit ''message'' \<noteq> lit ''type''" by (simp add: lit_def)
  ultimately show ?thesis
    by (simp add: sample_error_report_def build_error_report_def xml_report_def error_document_def xml_field_def dget_default_def)
qed

section \<open>Properties\<close>

text \<open>
  C32. The counters of the JUnit suite are the numbers of its elements. For every well-formed report a
  suite is built; its \<open>tests\<close>, \<open>failures\<close>, \<open>errors\<close> and \<open>skipped\<close> attributes are the numbers of test
  cases, failures, errors and skipped cases in it; it has a failure exactly for the status \<open>FAIL\<close>, and
  an error exactly for \<open>ERROR\<close> and \<open>TIMEOUT\<close>.
\<close>

theorem junit_counters:
  assumes "wf_report rep"
  shows "\<exists>suite. junit_suite ip rep = Inr suite \<and>
    attrib suite ''tests'' = Some (str_nat (length (elements (lit ''testcase'') suite))) \<and>
    attrib suite ''failures'' = Some (str_nat (length (elements (lit ''failure'') suite))) \<and>
    attrib suite ''errors'' = Some (str_nat (length (elements (lit ''error'') suite))) \<and>
    attrib suite ''skipped'' = Some (str_nat (length (elements (lit ''skipped'') suite))) \<and>
    (elements (lit ''failure'') suite \<noteq> [] \<longleftrightarrow> rp_status rep = FAIL) \<and>
    (elements (lit ''error'') suite \<noteq> [] \<longleftrightarrow> rp_status rep = ERROR \<or> rp_status rep = TIMEOUT)"
proof -
  obtain suite es where suite: "junit_suite ip rep = Inr suite" and es: "outcome_elements ip rep = Inr es"
    and el: "elements (lit ''failure'') suite = (if rp_status rep = FAIL then es else [])"
      "elements (lit ''error'') suite = (if rp_status rep = FAIL then [] else es)"
      "length (elements (lit ''testcase'') suite) = 1" "elements (lit ''skipped'') suite = []"
    using junit_suite_elements [OF assms] by blast
  have "length es = (if rp_status rep = PASS then 0 else 1)"
    using es outcome_passed [of rep ip] outcome_not_passed [OF assms, of ip] by auto
  then show ?thesis
    using suite el junit_suite_attribs [OF suite] by (cases "rp_status rep") (auto simp: lit_def str_nat.simps)
qed

theorem junit_counters_witness:
  "\<exists>suite. junit_suite sample_interpreter (build_error_report (lit ''s'') KeyboardInterrupt) = Inr suite \<and>
     attrib suite ''errors'' = Some (str_nat (length (elements (lit ''error'') suite))) \<and> elements (lit ''error'') suite \<noteq> []"
  using junit_counters [OF wf_error_report, of sample_interpreter "lit ''s''" KeyboardInterrupt]
  by (auto simp: build_error_report_def)

text \<open>
  C33. A failing run is explained: for a report of a validated scenario with status \<open>FAIL\<close>, the suite
  has one \<open>failure\<close> element, whose text is JSON that reads back as the list of exactly those assertion
  documents that did not pass; the list is not empty, and the message gives its length.
\<close>

theorem junit_failure_details:
  assumes "wf_spec a" and "sane_result result" and "build_scenario_report ip (normal_form src a) result = Inr rep"
    and "rp_status rep = FAIL"
  shows "\<exists>suite e failed. junit_suite ip rep = Inr suite \<and> elements (lit ''failure'') suite = [e] \<and>
    failed = filter (\<lambda>d. \<not> document_passed d) (rp_assertions rep) \<and> failed \<noteq> [] \<and>
    json_loads (el_text e) = Inr (sort_val (pydict_val [(lit ''failed_assertions'', PList (map pydict_val failed))])) \<and>
    attrib e ''message'' = Some (str_nat (length failed) @ lit '' assertion(s) failed'')"
proof -
  have wf: "wf_report rep" by (rule wf_built_report [OF wf_normal_form [OF assms(1)] assms(2,3)])
  obtain e where e: "outcome_elements ip rep = Inr [e]" "is_outcome rep e"
    using outcome_not_passed [OF wf] assms(4) by auto
  then have "failure_element rep = Inr e" using assms(4) by (auto simp: outcome_elements_def rbind_Inr_iff)
  with e failure_message [of rep e] failed_assertions_built [OF assms(3,4)] junit_suite_elements [OF wf, of ip] assms(4)
  show ?thesis by (auto simp: is_outcome_def outcome_document_def failures_document_def)
qed

theorem junit_failure_details_witness:
  "\<exists>rep suite e. build_scenario_report sample_interpreter (normal_form [] sample_spec) failing_result = Inr rep \<and>
     rp_status rep = FAIL \<and> junit_suite sample_interpreter rep = Inr suite \<and> elements (lit ''failure'') suite = [e]"
proof -
  obtain rep where rep: "build_scenario_report sample_interpreter (normal_form [] sample_spec) failing_result = Inr rep"
    "rp_status rep = FAIL" using failing_report by blast
  with junit_failure_details [OF wf_sample_spec sane_failing_result rep] show ?thesis by blast
qed

text \<open>
  C34. The JUnit report is well-formed XML: for a well-formed report whose texts are of XML characters
  (in the JSON details also control characters, which are escaped there), a text is written, and
  reading it as an XML document gives back the tree of the suite up to indentation.
\<close>

theorem junit_xml_roundtrip:
  assumes "wf_report rep" and "xml_report rep"
  shows "\<exists>suite t doc. junit_suite ip rep = Inr suite \<and> report_to_junit_xml ip rep = Inr t \<and>
    read_document t = Some doc \<and> strip_blank doc = strip_blank suite"
proof -
  obtain suite t where "junit_suite ip rep = Inr suite" "report_to_junit_xml ip rep = Inr t"
    "read_document t = Some (xml_indent suite)" using junit_xml_reads [OF assms] by blast
  then show ?thesis using strip_indent(1) [of 0 suite] by (auto simp: xml_indent_def)
qed

theorem junit_xml_roundtrip_witness:
  "\<exists>suite t doc. junit_suite sample_interpreter sample_error_report = Inr suite \<and>
     report_to_junit_xml sample_interpreter sample_error_report = Inr t \<and>
     read_document t = Some doc \<and> strip_blank doc = strip_blank suite"
  using junit_xml_roundtrip [OF _ xml_sample_error_report] by (simp add: sample_error_report_def wf_error_report)

end
