(* ===== verification/Cli.thy ===== *)
theory Cli
  imports Junit
begin

text \<open>
  The commands of \<open>src/vdevlab/cli.py\<close> after the command line has been parsed: \<open>validate\<close> loads each
  scenario, \<open>run\<close> loads one, runs it, writes the reports and turns the outcome into an exit code. The
  files, the streams, \<open>glob\<close>, PyYAML and the runner are the environment of the process.
\<close>

section \<open>Environment\<close>

record 'w cli_env =
  ce_read_text :: "pystr \<Rightarrow> ('w, pystr) io"
  ce_open :: "pystr \<Rightarrow> ('w, unit) io"
  ce_write :: "pystr \<Rightarrow> byte list \<Rightarrow> ('w, unit) io"
  ce_glob :: "pystr \<Rightarrow> ('w, pystr list) io"
  ce_print :: "pystr \<Rightarrow> ('w, unit) io"
  ce_print_err :: "pystr \<Rightarrow> ('w, unit) io"
  ce_safe_load :: "pystr \<Rightarrow> pyexc + pyval"
  ce_runner :: "'w ScenarioRunner"

text \<open>The namespace \<open>parse_args\<close> returns\<close>

record run_arguments =
  ra_path :: pystr
  ra_cwd :: pystr
  ra_report :: "pystr option"
  ra_junit_xml :: "pystr option"

datatype arguments = Validate "pystr list" | Run run_arguments

text \<open>\<open>glob.has_magic\<close>\<close>

definition has_magic :: "pystr \<Rightarrow> bool" where
  "has_magic s \<longleftrightarrow> list_ex (\<lambda>c. c = 42 \<or> c = 63 \<or> c = 91) s"

text \<open>\<open>Path(path).stem\<close>: the last component up to its last dot, unless that is its first or last character\<close>

definition path_name :: "pystr \<Rightarrow> pystr" where
  "path_name p = (if path_parts p = [] then [] else last (path_parts p))"

definition path_stem :: "pystr \<Rightarrow> pystr" where
  "path_stem p =
     (let name = path_name p; i = length name - Suc (length (takeWhile (\<lambda>c. c \<noteq> 46) (rev name)))
      in if 46 \<in> set name \<and> 0 < i \<and> i < length name - 1 then take i name else name)"

text \<open>\<open>Path(path).write_text(data, encoding="utf-8")\<close>: the file is open when the text is encoded.\<close>

definition write_text :: "'w cli_env \<Rightarrow> pystr \<Rightarrow> pystr \<Rightarrow> ('w, unit) io" where
  "write_text env path data =
     io_bind (ce_open env (path_str path)) (\<lambda>_.
     io_bind (io_lift (utf8_encode data)) (\<lambda>bs.
     ce_write env (path_str path) bs))"

definition print_line :: "'w cli_env \<Rightarrow> pystr \<Rightarrow> ('w, unit) io" where
  "print_line env s = ce_print env (s @ [10])"

definition print_error :: "'w cli_env \<Rightarrow> pystr \<Rightarrow> ('w, unit) io" where
  "print_error env s = ce_print_err env (lit ''error: '' @ s @ [10])"

text \<open>\<open>load_scenario\<close> on the files of the environment\<close>

definition cli_load :: "'w cli_env \<Rightarrow> pystr \<Rightarrow> ('w, ScenarioDefinition) io" where
  "cli_load env path =
     io_bind (io_try (ce_read_text env (path_str path))) (\<lambda>r.
     io_lift (load_scenario (\<lambda>_. r) (ce_safe_load env) path))"

text \<open>\<open>ScenarioRunner().run(scenario, cwd=...)\<close>\<close>

definition cli_run :: "interpreter \<Rightarrow> 'w cli_env \<Rightarrow> ScenarioDefinition \<Rightarrow> pystr \<Rightarrow> ('w, ScenarioRunResult) io" where
  "cli_run ip env scenario cwd =
     io_bind (io_lift (runner_init (ce_runner env))) (\<lambda>runner. runner_run ip runner scenario (Some cwd))"

section \<open>Reports\<close>

definition write_reports ::
  "interpreter \<Rightarrow> 'w cli_env \<Rightarrow> pystr option \<Rightarrow> pystr option \<Rightarrow> ScenarioReport \<Rightarrow> ('w, unit) io" where
  "write_reports ip env json_path junit_path report =
     io_bind
       (case json_path of
          None \<Rightarrow> io_return ()
        | Some p \<Rightarrow> io_bind (io_lift (report_to_json report)) (write_text env p))
       (\<lambda>_.
     case junit_path of
       None \<Rightarrow> io_return ()
     | Some p \<Rightarrow> io_bind (io_lift (report_to_junit_xml ip report)) (write_text env p))"

definition write_error_report ::
  "interpreter \<Rightarrow> 'w cli_env \<Rightarrow> pystr option \<Rightarrow> pystr option \<Rightarrow> pystr \<Rightarrow> pyexc \<Rightarrow> ('w, bool) io" where
  "write_error_report ip env json_path junit_path scenario_name error =
     io_bind (io_try (write_reports ip env json_path junit_path (build_error_report scenario_name error))) (\<lambda>r.
     case r of
       Inr _ \<Rightarrow> io_return True
     | Inl failure \<Rightarrow>
         if is_OSError failure
         then io_bind (print_error env (lit ''cannot write report: '' @ exc_str failure)) (\<lambda>_. io_return False)
         else io_raise failure)"

section \<open>Commands\<close>

fun expand_paths :: "'w cli_env \<Rightarrow> pystr list \<Rightarrow> ('w, pystr list) io" where
  "expand_paths env [] = io_return []"
| "expand_paths env (path # rest) =
     io_bind
       (if has_magic path then io_bind (ce_glob env path) (\<lambda>found. io_return (sort found)) else io_return [path])
       (\<lambda>matches.
     io_bind (expand_paths env rest) (\<lambda>paths.
     io_return ((if matches = [] then [path] else matches) @ paths)))"

definition valid_line :: "pystr \<Rightarrow> ScenarioDefinition \<Rightarrow> pystr" where
  "valid_line path scenario =
     lit ''valid: '' @ path @ lit '' name='' @ sd_name scenario @ lit '' events='' @ str_nat (length (sd_events scenario)) @
     lit '' assertions='' @ str_nat (length (sd_assertions scenario))"

fun validate_paths :: "'w cli_env \<Rightarrow> pystr list \<Rightarrow> ('w, int) io" where
  "validate_paths env [] = io_return 0"
| "validate_paths env (path # paths) =
     io_bind (io_try (cli_load env path)) (\<lambda>r.
     case r of
       Inl error \<Rightarrow>
         if is_ScenarioError error then io_bind (print_error env (exc_str error)) (\<lambda>_. io_return 2) else io_raise error
     | Inr scenario \<Rightarrow> io_bind (print_line env (valid_line path scenario)) (\<lambda>_. validate_paths env paths))"

definition main_validate :: "'w cli_env \<Rightarrow> pystr list \<Rightarrow> ('w, int) io" where
  "main_validate env paths = io_bind (expand_paths env paths) (validate_paths env)"

text \<open>The handlers around the load and the run\<close>

definition report_failure ::
  "interpreter \<Rightarrow> 'w cli_env \<Rightarrow> run_arguments \<Rightarrow> pystr \<Rightarrow> pyexc \<Rightarrow> pystr \<Rightarrow> int \<Rightarrow> ('w, int) io" where
  "report_failure ip env args scenario_name error message code =
     io_bind (write_error_report ip env (ra_report args) (ra_junit_xml args) scenario_name error) (\<lambda>_.
     io_bind (print_error env message) (\<lambda>_. io_return code))"

definition handle_failure :: "interpreter \<Rightarrow> 'w cli_env \<Rightarrow> run_arguments \<Rightarrow> pystr \<Rightarrow> pyexc \<Rightarrow> ('w, int) io" where
  "handle_failure ip env args scenario_name error =
     (if is_ScenarioError error then report_failure ip env args scenario_name error (exc_str error) 2
      else if error = KeyboardInterrupt
      then report_failure ip env args scenario_name (RuntimeError (lit ''interrupted'')) (lit ''interrupted'') 130
      else if is_OSError error \<or> is_RunnerError error
      then report_failure ip env args scenario_name error (exc_str error) 1
      else io_raise error)"

definition bool_lower :: "bool \<Rightarrow> pystr" where
  "bool_lower b = (if b then lit ''true'' else lit ''false'')"

definition result_line :: "ScenarioRunResult \<Rightarrow> ScenarioReport \<Rightarrow> pyexc + pystr" where
  "result_line result report =
     rbind (int_repr (ar_exit_code (sr_application result))) (\<lambda>exit_code.
     Inr (lit ''result: name='' @ sr_scenario_name result @ lit '' exit_code='' @ exit_code @
          lit '' timed_out='' @ bool_lower (ar_timed_out (sr_application result)) @
          lit '' forced='' @ bool_lower (ar_forced (sr_application result)) @
          lit '' events='' @ str_nat (length (sr_dispatches result)) @ lit '' status='' @ status_value (rp_status report)))"

definition print_result :: "'w cli_env \<Rightarrow> ScenarioRunResult \<Rightarrow> ScenarioReport \<Rightarrow> ('w, unit) io" where
  "print_result env result report =
     io_bind (if ar_stdout (sr_application result) \<noteq> [] then ce_print env (ar_stdout (sr_application result)) else io_return ())
       (\<lambda>_.
     io_bind (if ar_stderr (sr_application result) \<noteq> [] then ce_print_err env (ar_stderr (sr_application result)) else io_return ())
       (\<lambda>_.
     io_bind (io_lift (result_line result report)) (print_line env)))"

definition exit_status :: "ReportStatus \<Rightarrow> int \<Rightarrow> int" where
  "exit_status status exit_code =
     (if status = TIMEOUT then 124
      else if exit_code \<noteq> 0 then (if 1 \<le> exit_code \<and> exit_code \<le> 125 then exit_code else 1)
      else if status \<noteq> PASS then 1
      else 0)"

definition finish_run ::
  "interpreter \<Rightarrow> 'w cli_env \<Rightarrow> run_arguments \<Rightarrow> ScenarioDefinition \<Rightarrow> ScenarioRunResult \<Rightarrow> ('w, int) io" where
  "finish_run ip env args scenario result =
     io_bind (io_lift (build_scenario_report ip scenario result)) (\<lambda>report.
     io_bind (io_try (write_reports ip env (ra_report args) (ra_junit_xml args) report)) (\<lambda>r.
     case r of
       Inl error \<Rightarrow>
         if is_OSError error
         then io_bind (print_error env (lit ''cannot write report: '' @ exc_str error)) (\<lambda>_. io_return 1)
         else io_raise error
     | Inr _ \<Rightarrow>
         io_bind (print_result env result report) (\<lambda>_.
         io_return (exit_status (rp_status report) (ar_exit_code (sr_application result))))))"

definition main_run :: "interpreter \<Rightarrow> 'w cli_env \<Rightarrow> run_arguments \<Rightarrow> ('w, int) io" where
  "main_run ip env args =
     io_bind (io_try (cli_load env (ra_path args))) (\<lambda>loaded.
     case loaded of
       Inl error \<Rightarrow> handle_failure ip env args (path_stem (ra_path args)) error
     | Inr scenario \<Rightarrow>
         io_bind (io_try (cli_run ip env scenario (ra_cwd args))) (\<lambda>outcome.
         case outcome of
           Inl error \<Rightarrow> handle_failure ip env args (sd_name scenario) error
         | Inr result \<Rightarrow> finish_run ip env args scenario result))"

fun main_cli :: "interpreter \<Rightarrow> 'w cli_env \<Rightarrow> arguments \<Rightarrow> ('w, int) io" where
  "main_cli ip env (Validate paths) = main_validate env paths"
| "main_cli ip env (Run args) = main_run ip env args"

end
