(* ===== verification/Cli_Props.thy ===== *)
theory Cli_Props
  imports Cli
begin

text \<open>
  What the exit code and the report files of the command line mean. The interface to the files is a
  locale; a host with files and streams, below any runner, provides it.
\<close>

section \<open>Exit codes\<close>

lemma exit_status_zero: "exit_status st code = 0 \<longleftrightarrow> st = PASS \<and> code = 0"
  by (auto simp: exit_status_def)

lemma exit_status_bounds: "0 \<le> exit_status st code \<and> exit_status st code \<le> 125"
  by (auto simp: exit_status_def)

lemma report_failure_code: "report_failure ip env args name e m c w = (Inr c', w') \<Longrightarrow> c' = c"
  by (auto simp: report_failure_def res_iff)

lemma handle_failure_code: "handle_failure ip env args name e w = (Inr c, w') \<Longrightarrow> c \<in> {1, 2, 130}"
  by (auto simp: handle_failure_def res_iff dest: report_failure_code split: if_splits)

lemma finish_run_code:
  assumes "finish_run ip env args sc res w = (Inr c, w')"
  shows "c = 1 \<or> (\<exists>rep w1. build_scenario_report ip sc res = Inr rep \<and>
    write_reports ip env (ra_report args) (ra_junit_xml args) rep w = (Inr (), w1) \<and>
    c = exit_status (rp_status rep) (ar_exit_code (sr_application res)))"
proof -
  obtain rep where rep: "build_scenario_report ip sc res = Inr rep"
    using assms by (auto simp: finish_run_def res_iff)
  obtain r w1 where r: "write_reports ip env (ra_report args) (ra_junit_xml args) rep w = (r, w1)"
    by (cases "write_reports ip env (ra_report args) (ra_junit_xml args) rep w")
  show ?thesis
  proof (cases r)
    case (Inl e)
    with assms rep r show ?thesis
      by (auto simp: finish_run_def io_bind_def [of "io_lift _"] io_bind_def [of "io_try _"] io_try_def io_lift_def res_iff
          split: if_splits)
  next
    case (Inr x)
    with assms rep r show ?thesis
      by (auto simp: finish_run_def io_bind_def [of "io_lift _"] io_bind_def [of "io_try _"] io_try_def io_lift_def res_iff)
  qed
qed

lemma main_run_cases:
  assumes "main_run ip env args w = (Inr c, w')"
  shows "c \<in> {1, 2, 130} \<or>
    (\<exists>sc w1 res w2 rep w3. cli_load env (ra_path args) w = (Inr sc, w1) \<and> cli_run ip env sc (ra_cwd args) w1 = (Inr res, w2) \<and>
       build_scenario_report ip sc res = Inr rep \<and>
       write_reports ip env (ra_report args) (ra_junit_xml args) rep w2 = (Inr (), w3) \<and>
       c = exit_status (rp_status rep) (ar_exit_code (sr_application res)))"
proof -
  obtain loaded w1 where l: "cli_load env (ra_path args) w = (loaded, w1)" by (cases "cli_load env (ra_path args) w")
  show ?thesis
  proof (cases loaded)
    case (Inl e)
    with assms l show ?thesis by (auto simp: main_run_def io_try_def io_bind_def dest!: handle_failure_code)
  next
    case (Inr sc)
    obtain r w2 where r: "cli_run ip env sc (ra_cwd args) w1 = (r, w2)" by (cases "cli_run ip env sc (ra_cwd args) w1")
    show ?thesis
    proof (cases r)
      case (Inl e)
      with assms l Inr r show ?thesis by (auto simp: main_run_def io_try_def io_bind_def dest!: handle_failure_code)
    next
      case (Inr res)
      with assms l \<open>loaded = Inr sc\<close> r have "finish_run ip env args sc res w2 = (Inr c, w')"
        by (simp add: main_run_def io_try_def io_bind_def)
      from finish_run_code [OF this] l \<open>loaded = Inr sc\<close> r Inr show ?thesis by blast
    qed
  qed
qed

lemma validate_paths_code: "validate_paths env ps w = (Inr c, w') \<Longrightarrow> c = 0 \<or> c = 2"
proof (induction env ps arbitrary: w rule: validate_paths.induct)
  case (2 env p ps)
  obtain r w1 where r: "cli_load env p w = (r, w1)" by (cases "cli_load env p w")
  with 2 show ?case
    by (cases r) (fastforce simp: io_try_def io_bind_eq_Inr_iff io_basic_iff io_bind_def [of "io_try _"] split: if_splits)+
qed (simp add: io_return_def)

lemma parse_scenario_normal:
  assumes "parse_scenario safe_load t src = Inr sc"
  shows "\<exists>a. wf_spec a \<and> sc = normal_form src a"
proof (cases "safe_load t")
  case (Inl e)
  with assms show ?thesis by (cases e) (simp_all add: parse_scenario_def)
next
  case (Inr d)
  with assms parse_document_normal_form show ?thesis by (simp add: parse_scenario_def)
qed

lemma load_scenario_normal:
  assumes "load_scenario rd safe_load p = Inr sc"
  shows "\<exists>a. wf_spec a \<and> sc = normal_form (path_str p) a"
  using assms parse_scenario_normal
  by (cases "rd (path_str p)") (auto simp: load_scenario_def Let_def split: if_splits)

lemma cli_load_normal:
  assumes "cli_load env p w = (Inr sc, w1)"
  shows "\<exists>a. wf_spec a \<and> sc = normal_form (path_str p) a"
  using assms load_scenario_normal by (auto simp: cli_load_def res_iff)

text \<open>A report with exit code zero: the scenario passed\<close>

lemma built_exit_zero:
  assumes "wf_spec a" "build_scenario_report ip (normal_form src a) res = Inr rep"
  shows "exit_status (rp_status rep) (ar_exit_code (sr_application res)) = 0 \<longleftrightarrow>
    ar_exit_code (sr_application res) = 0 \<and> \<not> ar_timed_out (sr_application res) \<and>
    ((\<exists>n. KernelWarningsA n \<in> set (ss_assertions a)) \<longrightarrow> sr_kernel_log_available res) \<and>
    (\<exists>events metrics. analyse_log (ar_stdout (sr_application res)) = Inr (events, metrics) \<and>
       (\<forall>x \<in> set (ss_assertions a). assertion_holds res events metrics x))"
  unfolding exit_status_zero build_report_status [OF assms]
  by (cases "analyse_log (ar_stdout (sr_application res))") (auto split: prod.splits)

section \<open>Report files\<close>

text \<open>Reports all of whose texts an XML document can hold; then the JSON text can be encoded as well\<close>

definition text_report :: "ScenarioReport \<Rightarrow> bool" where
  "text_report rep \<longleftrightarrow> xml_report rep \<and> xml_dict (rp_observations rep) \<and> (\<forall>d \<in> set (rp_timeline rep). xml_dict d)"

lemma json_xml_of_xml: "xml_string s \<Longrightarrow> json_xml_string s"
  by (simp add: xml_string_def json_xml_string_def)

lemma xml_report_dict:
  assumes "text_report rep"
  shows "xml_dict (report_to_dict rep)"
proof -
  have "json_xml_string (lit ''schema_version'')" "json_xml_string (lit ''status'')" "json_xml_string (lit ''scenario'')"
    "json_xml_string (lit ''name'')" "json_xml_string (lit ''application'')" "json_xml_string (lit ''observations'')"
    "json_xml_string (lit ''assertions'')" "json_xml_string (lit ''timeline'')" "json_xml_string (lit ''error'')"
    by (rule json_xml_lit; simp)+
  moreover have "json_xml_string (status_value st)" for st by (cases st; simp only: status_value.simps; rule json_xml_lit; simp)
  moreover have "json_xml_string (rp_scenario_name rep)" using assms by (simp add: text_report_def xml_report_def json_xml_of_xml)
  ultimately show ?thesis
    using assms by (auto simp: report_to_dict_def text_report_def xml_report_def opt_val_def split: option.splits)
qed

lemma utf8_encode_xml: "\<forall>c \<in> set s. xml_char c \<Longrightarrow> \<exists>bs. utf8_encode s = Inr bs \<and> utf8_decode bs = Inr s"
proof -
  assume s: "\<forall>c \<in> set s. xml_char c"
  then have "\<not> (\<exists>c \<in> set s. is_surrogate c)" using xml_char_code_point by blast
  then obtain bs where bs: "utf8_encode s = Inr bs" by (simp add: utf8_encode_def)
  then have "utf8_decode_replace bs = s" using s by (intro utf8_roundtrip) (auto dest: xml_char_code_point)
  with bs show ?thesis by (simp add: utf8_decode_def)
qed

lemma report_json_encodes:
  assumes "wf_report rep" "text_report rep"
  shows "\<exists>t bs. report_to_json rep = Inr t \<and> utf8_encode t = Inr bs \<and> utf8_decode bs = Inr t \<and>
    json_loads t = Inr (sort_val (pydict_val (report_to_dict rep)))"
proof -
  obtain t where t: "report_to_json rep = Inr t" "json_loads t = Inr (sort_val (pydict_val (report_to_dict rep)))"
    using report_to_json_reads [OF assms(1)] by blast
  then obtain s where s: "json_text (pydict_val (report_to_dict rep)) = Inr s" "t = s @ [10]"
    by (auto simp: report_to_json_def json_text_def rbind_Inr_iff lit_def)
  have "clean_text s" by (rule json_text_clean [OF wf_report_to_dict [OF assms(1)] xml_report_dict [OF assms(2)] s(1)])
  then have "\<forall>c \<in> set t. xml_char c" by (auto simp: s(2) clean_text_def xml_char_def)
  with t utf8_encode_xml show ?thesis by blast
qed

lemma report_junit_encodes:
  assumes "wf_report rep" "text_report rep"
  shows "\<exists>t bs suite doc. report_to_junit_xml ip rep = Inr t \<and> utf8_encode t = Inr bs \<and> utf8_decode bs = Inr t \<and>
    junit_suite ip rep = Inr suite \<and> read_document t = Some doc \<and> strip_blank doc = strip_blank suite"
proof -
  have x: "xml_report rep" using assms(2) by (simp add: text_report_def)
  obtain suite t where t: "junit_suite ip rep = Inr suite" "report_to_junit_xml ip rep = Inr t"
    "read_document t = Some (xml_indent suite)" using junit_xml_reads [OF assms(1) x] by blast
  have c: "clean (xml_indent suite)"
    using junit_suite_clean [OF assms(1) x t(1)] by (simp add: clean_indent(1) [of suite 0, folded xml_indent_def])
  have "t = xml_declaration @ serialize (xml_indent suite) @ [10]"
    using t(1,2) tostring_decode [OF c] by (simp add: report_to_junit_xml_def lit_def)
  then have "\<forall>c \<in> set t. xml_char c" using c by (auto dest: serialize_chars declaration_chars simp: xml_char_def [of 10])
  with t utf8_encode_xml strip_indent(1) [of 0 suite] show ?thesis by (fastforce simp: xml_indent_def)
qed

text \<open>A stored file that is the JSON or the JUnit document of a report\<close>

definition stores_json :: "(pystr \<Rightarrow> byte list option) \<Rightarrow> pystr \<Rightarrow> ScenarioReport \<Rightarrow> bool" where
  "stores_json stored path rep \<longleftrightarrow>
     (\<exists>bs t. stored (path_str path) = Some bs \<and> utf8_decode bs = Inr t \<and>
        json_loads t = Inr (sort_val (pydict_val (report_to_dict rep))))"

definition stores_junit :: "interpreter \<Rightarrow> (pystr \<Rightarrow> byte list option) \<Rightarrow> pystr \<Rightarrow> ScenarioReport \<Rightarrow> bool" where
  "stores_junit ip stored path rep \<longleftrightarrow>
     (\<exists>bs t suite doc. stored (path_str path) = Some bs \<and> utf8_decode bs = Inr t \<and> junit_suite ip rep = Inr suite \<and>
        read_document t = Some doc \<and> strip_blank doc = strip_blank suite)"

definition stores_reports ::
  "interpreter \<Rightarrow> (pystr \<Rightarrow> byte list option) \<Rightarrow> pystr option \<Rightarrow> pystr option \<Rightarrow> ScenarioReport \<Rightarrow> bool" where
  "stores_reports ip stored json_path junit_path rep \<longleftrightarrow>
     (case json_path of None \<Rightarrow> True | Some p \<Rightarrow> stores_json stored p rep) \<and>
     (case junit_path of None \<Rightarrow> True | Some p \<Rightarrow> stores_junit ip stored p rep)"

text \<open>The paths are not the same file.\<close>

definition separate :: "pystr option \<Rightarrow> pystr option \<Rightarrow> bool" where
  "separate p q = (case (p, q) of (Some a, Some b) \<Rightarrow> path_str a \<noteq> path_str b | _ \<Rightarrow> True)"

definition all_writable :: "(pystr \<Rightarrow> bool) \<Rightarrow> run_arguments \<Rightarrow> bool" where
  "all_writable writable args \<longleftrightarrow>
     (case ra_report args of None \<Rightarrow> True | Some p \<Rightarrow> writable (path_str p)) \<and>
     (case ra_junit_xml args of None \<Rightarrow> True | Some p \<Rightarrow> writable (path_str p))"

text \<open>What the commands rely on: writable files are written, and nothing else changes a file.\<close>

locale report_store =
  fixes env :: "'w cli_env" and content :: "'w \<Rightarrow> pystr \<Rightarrow> byte list option" and writable :: "pystr \<Rightarrow> bool"
  assumes open_ok: "writable p \<Longrightarrow> \<exists>w'. ce_open env p w = (Inr (), w') \<and> (\<forall>q. q \<noteq> p \<longrightarrow> content w' q = content w q)"
    and write_ok: "writable p \<Longrightarrow> \<exists>w'. ce_write env p bs w = (Inr (), w') \<and> content w' = (content w)(p := Some bs)"
    and print_err_ok: "\<exists>w'. ce_print_err env s w = (Inr (), w') \<and> content w' = content w"
begin

lemma write_text_stores:
  assumes "writable (path_str p)" "utf8_encode t = Inr bs"
  shows "\<exists>w'. write_text env p t w = (Inr (), w') \<and> content w' (path_str p) = Some bs \<and>
    (\<forall>q. q \<noteq> path_str p \<longrightarrow> content w' q = content w q)"
proof -
  obtain w1 where w1: "ce_open env (path_str p) w = (Inr (), w1)" "\<forall>q. q \<noteq> path_str p \<longrightarrow> content w1 q = content w q"
    using open_ok [OF assms(1)] by blast
  obtain w2 where w2: "ce_write env (path_str p) bs w1 = (Inr (), w2)" "content w2 = (content w1)(path_str p := Some bs)"
    using write_ok [OF assms(1)] by blast
  show ?thesis using w1 w2 assms(2) by (simp add: write_text_def io_bind_def io_lift_def)
qed

lemma write_reports_stores:
  assumes wf: "wf_report rep" "text_report rep"
    and w: "case json of None \<Rightarrow> True | Some p \<Rightarrow> writable (path_str p)" "case junit of None \<Rightarrow> True | Some p \<Rightarrow> writable (path_str p)"
    and "separate json junit"
  shows "\<exists>w'. write_reports ip env json junit rep w = (Inr (), w') \<and> stores_reports ip (content w') json junit rep"
proof -
  obtain t bs where t: "report_to_json rep = Inr t" "utf8_encode t = Inr bs" "utf8_decode bs = Inr t"
    "json_loads t = Inr (sort_val (pydict_val (report_to_dict rep)))" using report_json_encodes [OF wf] by blast
  obtain x xs suite doc where x: "report_to_junit_xml ip rep = Inr x" "utf8_encode x = Inr xs" "utf8_decode xs = Inr x"
    "junit_suite ip rep = Inr suite" "read_document x = Some doc" "strip_blank doc = strip_blank suite"
    using report_junit_encodes [OF wf] by blast
  define m where "m = (case json of None \<Rightarrow> io_return () | Some p \<Rightarrow> io_bind (io_lift (report_to_json rep)) (write_text env p))"
  obtain w1 where w1: "m w = (Inr (), w1)" "case json of None \<Rightarrow> True | Some p \<Rightarrow> stores_json (content w1) p rep"
  proof (cases json)
    case None
    then show ?thesis using that [of w] by (simp add: m_def io_return_def)
  next
    case (Some p)
    with w(1) obtain w1 where "write_text env p t w = (Inr (), w1)" "content w1 (path_str p) = Some bs"
      using write_text_stores [OF _ t(2), of p] by auto
    with Some t show ?thesis using that [of w1] by (auto simp: m_def io_bind_def io_lift_def stores_json_def)
  qed
  show ?thesis
  proof (cases junit)
    case None
    with w1 show ?thesis by (simp add: write_reports_def m_def [symmetric] stores_reports_def io_bind_def io_return_def)
  next
    case (Some q)
    obtain w2 where w2: "write_text env q x w1 = (Inr (), w2)" "content w2 (path_str q) = Some xs"
      "\<forall>p. p \<noteq> path_str q \<longrightarrow> content w2 p = content w1 p"
      using write_text_stores [OF _ x(2), of q w1] w(2) Some by auto
    have "case json of None \<Rightarrow> True | Some p \<Rightarrow> stores_json (content w2) p rep"
      using w1(2) w2(3) assms(5) Some by (auto simp: stores_json_def separate_def split: option.splits)
    moreover have "stores_junit ip (content w2) q rep" using w2(2) x by (auto simp: stores_junit_def)
    ultimately show ?thesis using w1(1) w2(1) x(1) Some
      by (simp add: write_reports_def m_def [symmetric] stores_reports_def io_bind_def io_lift_def)
  qed
qed

lemma report_failure_stores:
  assumes "text_report (build_error_report name e)" "all_writable writable args" "separate (ra_report args) (ra_junit_xml args)"
  shows "\<exists>w'. report_failure ip env args name e m c w = (Inr c, w') \<and>
    stores_reports ip (content w') (ra_report args) (ra_junit_xml args) (build_error_report name e)"
proof -
  obtain w1 where w1: "write_reports ip env (ra_report args) (ra_junit_xml args) (build_error_report name e) w = (Inr (), w1)"
    "stores_reports ip (content w1) (ra_report args) (ra_junit_xml args) (build_error_report name e)"
    using write_reports_stores [OF wf_error_report assms(1) _ _ assms(3)] assms(2) by (auto simp: all_writable_def)
  obtain w2 where "ce_print_err env (lit ''error: '' @ m @ [10]) w1 = (Inr (), w2)" "content w2 = content w1"
    using print_err_ok by blast
  with w1 show ?thesis
    by (simp add: report_failure_def write_error_report_def print_error_def io_bind_def io_try_def io_return_def)
qed

end

text \<open>The exceptions \<open>run\<close> turns into an exit code, and the exception its error report names\<close>

definition failure_code :: "pyexc \<Rightarrow> int option" where
  "failure_code e =
     (if is_ScenarioError e then Some 2
      else if e = KeyboardInterrupt then Some 130
      else if is_OSError e \<or> is_RunnerError e then Some 1
      else None)"

definition reported :: "pyexc \<Rightarrow> pyexc" where
  "reported e = (if e = KeyboardInterrupt then RuntimeError (lit ''interrupted'') else e)"

text \<open>The load or the run raises \<open>e\<close>, with the name the error report gets\<close>

definition run_raises ::
  "interpreter \<Rightarrow> 'w cli_env \<Rightarrow> run_arguments \<Rightarrow> 'w \<Rightarrow> pyexc \<Rightarrow> pystr \<Rightarrow> 'w \<Rightarrow> bool" where
  "run_raises ip env args w e name w1 \<longleftrightarrow>
     (cli_load env (ra_path args) w = (Inl e, w1) \<and> name = path_stem (ra_path args) \<or>
      (\<exists>sc w0. cli_load env (ra_path args) w = (Inr sc, w0) \<and> cli_run ip env sc (ra_cwd args) w0 = (Inl e, w1) \<and>
         name = sd_name sc))"

lemma main_run_raises: "run_raises ip env args w e name w1 \<Longrightarrow> main_run ip env args w = handle_failure ip env args name e w1"
  by (auto simp: run_raises_def main_run_def io_bind_def io_try_def)

lemma handle_failure_eq:
  "failure_code e = Some c \<Longrightarrow> \<exists>m. handle_failure ip env args name e = report_failure ip env args name (reported e) m c"
  by (auto simp: failure_code_def handle_failure_def reported_def split: if_splits)

section \<open>A host\<close>

text \<open>
  Files, permissions and the two streams of a process; the runner works on any extension of it.
  Standard output is strict UTF-8, standard error writes what cannot be encoded as an escape.
\<close>

record host =
  ho_files :: "pystr \<Rightarrow> byte list option"
  ho_out :: pystr
  ho_err :: pystr

fun universal_newlines :: "bool \<Rightarrow> pystr \<Rightarrow> pystr" where
  "universal_newlines after_cr [] = []"
| "universal_newlines after_cr (c # cs) =
     (if c = 13 then 10 # universal_newlines True cs
      else if c = 10 \<and> after_cr then universal_newlines False cs
      else c # universal_newlines False cs)"

definition no_file :: pyexc where
  "no_file = OSError (lit ''FileNotFoundError'') (Some (lit ''No such file or directory'')) (lit ''[Errno 2] No such file or directory'')"

definition no_permission :: pyexc where
  "no_permission = OSError (lit ''PermissionError'') (Some (lit ''Permission denied'')) (lit ''[Errno 13] Permission denied'')"

definition host_text :: "(pystr \<Rightarrow> byte list option) \<Rightarrow> pystr \<Rightarrow> pyexc + pystr" where
  "host_text stored p =
     (case stored p of
        None \<Rightarrow> Inl no_file
      | Some bs \<Rightarrow> rbind (utf8_decode bs) (\<lambda>t. Inr (universal_newlines False t)))"

definition backslash_escape :: "nat \<Rightarrow> pystr" where
  "backslash_escape c =
     (if is_surrogate c
      then [92, 117, hex_digit (c div 4096), hex_digit (c div 256 mod 16), hex_digit (c div 16 mod 16), hex_digit (c mod 16)]
      else [c])"

definition host_open :: "(pystr \<Rightarrow> bool) \<Rightarrow> pystr \<Rightarrow> ('m host_scheme, unit) io" where
  "host_open writable p w =
     (if writable p then (Inr (), w\<lparr>ho_files := (ho_files w)(p := Some [])\<rparr>) else (Inl no_permission, w))"

definition host_print :: "pystr \<Rightarrow> ('m host_scheme, unit) io" where
  "host_print t w =
     (if list_ex is_surrogate t then (Inl UnicodeEncodeError, w) else (Inr (), w\<lparr>ho_out := ho_out w @ t\<rparr>))"

definition host_env ::
  "(pystr \<Rightarrow> bool) \<Rightarrow> (pystr \<Rightarrow> (pystr \<Rightarrow> byte list option) \<Rightarrow> pystr list) \<Rightarrow> (pystr \<Rightarrow> pyexc + pyval) \<Rightarrow>
     'm host_scheme ScenarioRunner \<Rightarrow> 'm host_scheme cli_env" where
  "host_env writable matches safe_load runner =
     \<lparr>ce_read_text = (\<lambda>p w. (host_text (ho_files w) p, w)),
      ce_open = host_open writable,
      ce_write = (\<lambda>p bs w. (Inr (), w\<lparr>ho_files := (ho_files w)(p := Some bs)\<rparr>)),
      ce_glob = (\<lambda>p w. (Inr (matches p (ho_files w)), w)),
      ce_print = host_print,
      ce_print_err = (\<lambda>t w. (Inr (), w\<lparr>ho_err := ho_err w @ concat (map backslash_escape t)\<rparr>)),
      ce_safe_load = safe_load, ce_runner = runner\<rparr>"

interpretation host_store: report_store "host_env writable matches safe_load runner" ho_files writable
  by unfold_locales (auto simp: host_env_def host_open_def)

lemma host_load:
  "cli_load (host_env writable matches safe_load runner) p w = (load_scenario (host_text (ho_files w)) safe_load p, w)"
  by (simp add: cli_load_def host_env_def io_try_def io_bind_def io_lift_def load_scenario_def)

text \<open>The files \<open>validate\<close> reads\<close>

definition expansion :: "(pystr \<Rightarrow> (pystr \<Rightarrow> byte list option) \<Rightarrow> pystr list) \<Rightarrow> (pystr \<Rightarrow> byte list option) \<Rightarrow> pystr \<Rightarrow> pystr list" where
  "expansion matches stored p =
     (if has_magic p \<and> matches p stored \<noteq> [] then sort (matches p stored) else [p])"

lemma host_expand:
  "expand_paths (host_env writable matches safe_load runner) ps w = (Inr (concat (map (expansion matches (ho_files w)) ps)), w)"
proof (induction ps)
  case (Cons p ps)
  have "sort xs = [] \<longleftrightarrow> xs = []" for xs :: "pystr list" by (metis length_0_conv length_sort)
  with Cons show ?case by (simp add: io_bind_def io_return_def expansion_def host_env_def)
qed (simp add: io_return_def)

definition error_line :: "pyexc \<Rightarrow> pystr" where
  "error_line e = concat (map backslash_escape (lit ''error: '' @ exc_str e @ [10]))"

lemma host_prints:
  "ce_print (host_env writable matches safe_load runner) = host_print"
  "print_error (host_env writable matches safe_load runner) m w =
     (Inr (), w\<lparr>ho_err := ho_err w @ concat (map backslash_escape (lit ''error: '' @ m @ [10]))\<rparr>)"
  by (simp_all add: host_env_def print_error_def)

text \<open>The error of the first scenario that does not load\<close>

fun first_error :: "(pystr \<Rightarrow> pyexc + 'a) \<Rightarrow> pystr list \<Rightarrow> pyexc option" where
  "first_error load [] = None"
| "first_error load (p # ps) = (case load p of Inl e \<Rightarrow> Some e | Inr _ \<Rightarrow> first_error load ps)"

lemma first_error_None: "first_error load ps = None \<longleftrightarrow> (\<forall>p \<in> set ps. \<exists>sc. load p = Inr sc)"
  by (induction ps) (auto split: sum.splits)

lemma host_validate:
  assumes "validate_paths (host_env writable matches safe_load runner) ps w = (Inr c, w')"
  shows "ho_files w' = ho_files w \<and>
    (case first_error (load_scenario (host_text (ho_files w)) safe_load) ps of
       None \<Rightarrow> c = 0 \<and> ho_err w' = ho_err w
     | Some e \<Rightarrow> c = 2 \<and> is_ScenarioError e \<and> ho_err w' = ho_err w @ error_line e)"
  using assms
proof (induction ps arbitrary: w)
  case Nil
  then show ?case by (simp add: io_return_def)
next
  case (Cons p ps)
  show ?case
  proof (cases "load_scenario (host_text (ho_files w)) safe_load p")
    case (Inl e)
    with Cons.prems show ?thesis
      by (auto simp: io_bind_def io_try_def host_load host_prints io_return_def io_raise_def error_line_def split: if_splits)
  next
    case (Inr sc)
    let ?w = "w\<lparr>ho_out := ho_out w @ valid_line p sc @ [10]\<rparr>"
    from Inr Cons.prems have "validate_paths (host_env writable matches safe_load runner) ps ?w = (Inr c, w')"
      by (auto simp: io_bind_def io_try_def host_load print_line_def io_return_def host_prints(1) host_print_def split: if_splits)
    from Cons.IH [OF this] Inr show ?thesis by (simp split: option.splits)
  qed
qed

section \<open>Texts that cannot be encoded\<close>

fun has_char :: "nat \<Rightarrow> pyval \<Rightarrow> bool" where
  "has_char c (PStr s) \<longleftrightarrow> c \<in> set s"
| "has_char c (PList vs) \<longleftrightarrow> (\<exists>v \<in> set vs. has_char c v)"
| "has_char c (PDict kvs) \<longleftrightarrow> (\<exists>kv \<in> set kvs. has_char c (fst kv) \<or> has_char c (snd kv))"
| "has_char c v \<longleftrightarrow> False"

lemma has_char_sort: "has_char c v \<Longrightarrow> has_char c (sort_val v)"
  by (induction v rule: sort_val.induct) auto

lemma json_string_char: "128 \<le> c \<Longrightarrow> c \<in> set s \<Longrightarrow> c \<in> set (json_string s)"
  by (force simp: json_string_def escape_char_def)

lemma str_join_char: "t \<in> set ts \<Longrightarrow> c \<in> set t \<Longrightarrow> c \<in> set (str_join sep ts)"
  by (induction sep ts rule: str_join.induct) auto

lemma dump_has_char:
  "128 \<le> c \<Longrightarrow> has_char c v \<Longrightarrow> dump_value l v = Inr t \<Longrightarrow> c \<in> set t"
  "128 \<le> c \<Longrightarrow> \<exists>v \<in> set vs. has_char c v \<Longrightarrow> dump_items l vs = Inr ts \<Longrightarrow> \<exists>t \<in> set ts. c \<in> set t"
  "128 \<le> c \<Longrightarrow> \<exists>kv \<in> set kvs. has_char c (fst kv) \<or> has_char c (snd kv) \<Longrightarrow> dump_members l kvs = Inr ts \<Longrightarrow>
     \<exists>t \<in> set ts. c \<in> set t"
proof (induction l v and l vs and l kvs arbitrary: t and ts and ts rule: dump_value_dump_items_dump_members.induct)
  case (5 level s)
  then show ?case using json_string_char by auto
next
  case (6 level vs)
  then show ?case by (fastforce simp: rbind_Inr_iff split: if_splits dest: str_join_char)
next
  case (7 level kvs)
  then show ?case by (fastforce simp: rbind_Inr_iff split: if_splits dest: str_join_char)
next
  case (10 level v vs)
  then obtain tv tr where "dump_value level v = Inr tv" "dump_items level vs = Inr tr" "ts = tv # tr" by (auto simp: rbind_Inr_iff)
  with 10 show ?case by auto
next
  case (12 level k v kvs)
  then obtain s where k: "k = PStr s" by (cases k) auto
  from 12 k obtain tv tr where t: "dump_value level v = Inr tv" "dump_members level kvs = Inr tr"
    "ts = (json_string s @ 58 # 32 # tv) # tr" by (auto simp: rbind_Inr_iff)
  then show ?case using 12 k json_string_char by auto
qed (auto simp: rbind_Inr_iff)

lemma report_json_char:
  assumes "report_to_json rep = Inr t" "128 \<le> c" "c \<in> set (rp_scenario_name rep)"
  shows "c \<in> set t"
proof -
  from assms(1) obtain s where s: "dump_value 0 (sort_val (pydict_val (report_to_dict rep))) = Inr s" "t = s @ [10]"
    by (auto simp: report_to_json_def json_dumps_def rbind_Inr_iff lit_def)
  have "has_char c (pydict_val (report_to_dict rep))" using assms(3) by (simp add: pydict_val_def report_to_dict_def)
  from dump_has_char(1) [OF assms(2) has_char_sort [OF this] s(1)] s(2) show ?thesis by simp
qed

lemma error_report_unencodable:
  assumes "c \<in> set name" "is_surrogate c"
  shows "\<exists>t. report_to_json (build_error_report name e) = Inr t \<and> utf8_encode t = Inl UnicodeEncodeError"
proof -
  obtain t where t: "report_to_json (build_error_report name e) = Inr t"
    using report_to_json_reads [OF wf_error_report] by blast
  have "c \<in> set t" using assms by (intro report_json_char [OF t]) (auto simp: build_error_report_def is_surrogate_def)
  with t assms(2) show ?thesis by (auto simp: utf8_encode_def)
qed

section \<open>Samples\<close>

text \<open>A host with one empty file \<open>s.yaml\<close>, which the loader reads as a scenario of one event at once\<close>

definition prompt_spec :: scenario_spec where
  "prompt_spec = sample_spec\<lparr>ss_events := [(0, ResetAct)]\<rparr>"

definition prompt_host :: host where
  "prompt_host = \<lparr>ho_files = [lit ''s.yaml'' \<mapsto> []], ho_out = [], ho_err = []\<rparr>"

definition prompt_backend :: "host DeviceBackend" where
  "prompt_backend = \<lparr>db_reset = io_return (), db_clear_fault = io_return (), db_write = (\<lambda>_. io_return ()),
     db_set_fault = (\<lambda>_. io_return ()), db_close = None\<rparr>"

definition prompt_application :: "host Application" where
  "prompt_application = \<lparr>ap_poll = io_return (Some 0), ap_terminate = (\<lambda>_. io_return (sr_application sample_result)),
     ap_collect_with_timeout = (\<lambda>_ _. io_return (sr_application sample_result))\<rparr>"

definition prompt_runner :: "host ScenarioRunner" where
  "prompt_runner =
     \<lparr>rn_backend_factory = (\<lambda>_. io_return prompt_backend), rn_application_factory = (\<lambda>_ _. io_return prompt_application),
      rn_timing = \<lparr>tm_clock = io_return 0, tm_sleeper = (\<lambda>_. io_return ())\<rparr>, rn_clock = io_return 0,
      rn_terminate_grace_ms = PInt 1000,
      rn_kernel_log_collector = \<lparr>kl_snapshot = io_return \<lparr>ks_lines = [], ks_error = None\<rparr>,
        kl_observe = (\<lambda>_. io_return \<lparr>ko_available = True, ko_warnings = [], ko_error = None\<rparr>)\<rparr>\<rparr>"

lemma prompt_sel:
  "rn_backend_factory prompt_runner p = io_return prompt_backend"
  "rn_application_factory prompt_runner cmd cwd = io_return prompt_application"
  "rn_clock prompt_runner = io_return 0" "tm_clock (rn_timing prompt_runner) = io_return 0"
  "rn_terminate_grace_ms prompt_runner = PInt 1000"
  "kl_snapshot (rn_kernel_log_collector prompt_runner) = io_return \<lparr>ks_lines = [], ks_error = None\<rparr>"
  "kl_observe (rn_kernel_log_collector prompt_runner) s = io_return \<lparr>ko_available = True, ko_warnings = [], ko_error = None\<rparr>"
  "db_reset prompt_backend = io_return ()" "db_close prompt_backend = None"
  "ap_collect_with_timeout prompt_application t g = io_return (sr_application sample_result)"
  by (simp_all add: prompt_runner_def prompt_backend_def prompt_application_def)

definition prompt_env :: "host cli_env" where
  "prompt_env = host_env (\<lambda>_. True) (\<lambda>_ _. []) (\<lambda>_. Inr (render prompt_spec)) prompt_runner"

definition sample_args :: "string \<Rightarrow> run_arguments" where
  "sample_args p = \<lparr>ra_path = lit p, ra_cwd = [46], ra_report = None, ra_junit_xml = None\<rparr>"

definition prompt_record :: DispatchRecord where
  "prompt_record = dispatch_record 0 0 (lit ''reset'') 0 0 0"

definition prompt_result :: ScenarioRunResult where
  "prompt_result = sample_result\<lparr>sr_dispatches := [prompt_record]\<rparr>"

lemma wf_prompt_spec: "wf_spec prompt_spec"
  using wf_sample_spec by (simp add: prompt_spec_def wf_spec_def)

lemma prompt_path: "path_str (lit ''s.yaml'') = lit ''s.yaml''"
  by (simp add: path_str_def path_root_def path_parts_def lit_def str_join.simps)

lemma prompt_load: "cli_load prompt_env (lit ''s.yaml'') prompt_host = (Inr (normal_form (lit ''s.yaml'') prompt_spec), prompt_host)"
  using parse_document_render [OF wf_prompt_spec]
  by (simp add: prompt_env_def host_load load_scenario_def prompt_path prompt_host_def host_text_def utf8_decode_def
      utf8_decode_replace_def utf8_encode_def parse_scenario_def)

lemma fl_truediv_zero: "fl_truediv 0 1000 = Inr 0"
  using fl_truediv_small [of 0 1000] by (simp add: pow2_pos)

lemma prompt_event: "sd_events (normal_form src prompt_spec) = [[(lit ''action'', PStr (lit ''reset'')), (lit ''at_ms'', PInt 0)]]"
  by (simp add: normal_form_def prompt_spec_def norm_event_def)

lemma prompt_schedule:
  "scheduler_run sample_interpreter (rn_timing prompt_runner) prompt_backend (sd_events (normal_form src prompt_spec)) w =
     (Inr [prompt_record], w)"
  by (simp add: scheduler_run_def prompt_event prompt_sel run_event_def scheduled_ms_def dget_def lit_def fl_truediv_zero
      io_bind_def io_return_def io_lift_def fl_sub_def fl_add_def wrap_dispatch_def io_catch_def dispatch_def event_action_def
      dget_default_def py_str_def prompt_record_def)

lemma prompt_required: "kernel_log_required (normal_form src prompt_spec)"
  by (simp add: kernel_log_required_norm prompt_spec_def sample_spec_def)

lemma prompt_body:
  "run_body sample_interpreter prompt_runner (normal_form src prompt_spec) prompt_backend 0 prompt_application w =
     (Inr (prompt_result\<lparr>sr_kernel_log_available := False\<rparr>), w)"
  unfolding run_body_def
  by (subst io_bind_Inr [OF prompt_schedule])
    (simp add: prompt_sel io_bind_def io_return_def fl_sub_def fl_mul_def fl_int_def prompt_result_def sample_result_def
      normal_form_def prompt_spec_def sample_spec_def recovery_spec_def)

lemma prompt_run:
  "cli_run sample_interpreter prompt_env (normal_form src prompt_spec) cwd w = (Inr prompt_result, w)"
proof -
  have e: "ce_runner prompt_env = prompt_runner" by (simp add: prompt_env_def host_env_def)
  have i: "runner_init prompt_runner = Inr prompt_runner"
    by (simp add: runner_init_def prompt_sel timeout_seconds_def fl_truediv_1000)
  have "run_guarded sample_interpreter prompt_runner (normal_form src prompt_spec) (Some cwd) prompt_backend 0 w =
      (Inr (prompt_result\<lparr>sr_kernel_log_available := False\<rparr>), w)"
    by (simp add: run_guarded_def prompt_sel io_try_def io_bind_def prompt_body io_return_def)
  then show ?thesis
    unfolding cli_run_def e i
    by (simp add: io_bind_def io_lift_def runner_run_def prompt_required prompt_sel io_return_def io_try_def
       cleanup_backend_def observe_warnings_def prompt_result_def sample_result_def)
qed

text \<open>The report of that run\<close>

lemma prompt_report:
  "\<exists>rep. build_scenario_report sample_interpreter (normal_form src prompt_spec) prompt_result = Inr rep \<and> rp_status rep = PASS"
proof -
  let ?sc = "normal_form src prompt_spec"
  obtain m where m: "analyse_log sample_log = Inr (sample_events, m)" "latency_holds m (Some 1000)" using sample_analysis by blast
  obtain docs where docs: "assertion_documents ?sc prompt_result sample_events m = Inr docs"
    using assertion_documents_norm [of prompt_spec src prompt_result sample_events m] wf_prompt_spec by (auto simp: wf_spec_def)
  define entry where "entry = dispatch_entry sample_interpreter prompt_record (sd_events ?sc ! 0)"
  have ds: "dispatch_timeline sample_interpreter ?sc (sr_dispatches prompt_result) = Inr [entry]"
    by (simp add: dispatch_timeline_def prompt_result_def event_at_def prompt_event prompt_record_def dispatch_record_def entry_def)
  have "timeline_key entry = Inr (0, 0)"
    by (simp add: entry_def entry_keys prompt_record_def dispatch_record_def fl_mul_def fl_int_def fl_of_int_small)
  moreover have "\<forall>e \<in> set sample_events. \<exists>k. timeline_key (application_entry e) = Inr k"
    by (simp add: sample_events_def entry_keys fl_of_int_small)
  ultimately obtain ts where ts: "sorted_timeline ([entry] @ application_timeline sample_events) = Inr ts"
    using sorted_timeline_total [of "[entry] @ application_timeline sample_events"] by (auto simp: application_timeline_def)
  obtain f where f: "first_fault_timestamp ?sc (sr_dispatches prompt_result) = Inr f"
    using first_fault_total [of "sr_dispatches prompt_result" ?sc]
    by (auto simp: prompt_result_def prompt_record_def dispatch_record_def prompt_event)
  have out: "ar_stdout (sr_application prompt_result) = sample_log" by (simp add: prompt_result_def sample_result_def)
  obtain rep where rep: "build_scenario_report sample_interpreter ?sc prompt_result = Inr rep"
    using m(1) docs ds ts f out by (auto simp: build_scenario_report_def analysed_report_def)
  have "\<forall>x \<in> set (ss_assertions prompt_spec). assertion_holds prompt_result sample_events m x"
    using m(2) sample_sublist
    by (simp add: prompt_spec_def sample_spec_def count_holds_def sample_events_def prompt_result_def sample_result_def
        latency_holds_def lit_def)
  with rep m(1) build_report_status [OF wf_prompt_spec rep] show ?thesis
    unfolding out by (simp add: prompt_result_def sample_result_def)
qed

lemma no_surrogates:
  "\<not> list_ex is_surrogate (str_nat n)" "\<not> list_ex is_surrogate (bool_lower b)"
  "\<not> list_ex is_surrogate (status_value st)"
  using str_nat_digits [of n]
  by (auto simp: list_ex_iff is_surrogate_def is_digit_def bool_lower_def lit_def) (cases st; simp add: lit_def)

lemma sample_log_encodable: "\<not> list_ex is_surrogate sample_log"
  by (simp add: sample_log_def json_line_def lit_def no_surrogates is_surrogate_def)

lemma prompt_main: "\<exists>w'. main_run sample_interpreter prompt_env (sample_args ''s.yaml'') prompt_host = (Inr 0, w')"
proof -
  obtain rep where rep: "build_scenario_report sample_interpreter (normal_form (lit ''s.yaml'') prompt_spec) prompt_result = Inr rep"
    "rp_status rep = PASS" using prompt_report by blast
  have app: "ar_stdout (sr_application prompt_result) = sample_log" "ar_stderr (sr_application prompt_result) = []"
    "ar_exit_code (sr_application prompt_result) = 0" by (simp_all add: prompt_result_def sample_result_def)
  obtain l where l: "result_line prompt_result rep = Inr l" "\<not> list_ex is_surrogate l"
    by (simp add: result_line_def app int_repr_def prompt_result_def sample_result_def no_surrogates lit_def is_surrogate_def
        str_int_def)
  have "ce_print prompt_env = host_print" by (simp add: prompt_env_def host_prints)
  then have "\<exists>w'. print_result prompt_env prompt_result rep prompt_host = (Inr (), w')"
    using l by (simp add: print_result_def app io_bind_def io_return_def io_lift_def host_print_def sample_log_encodable print_line_def
        is_surrogate_def)
  then show ?thesis
    using rep by (auto simp: main_run_def sample_args_def prompt_load prompt_run io_bind_def io_try_def finish_run_def io_lift_def
        write_reports_def io_return_def exit_status_def app)
qed

text \<open>A path that is not a file\<close>

definition missing_args :: run_arguments where
  "missing_args = \<lparr>ra_path = lit ''t.yaml'', ra_cwd = [46], ra_report = Some (lit ''r.json''), ra_junit_xml = Some (lit ''r.xml'')\<rparr>"

definition missing_error :: pyexc where
  "missing_error = ScenarioError (lit ''t.yaml'') (lit ''No such file or directory'')"

lemma missing_paths:
  "path_str (lit ''t.yaml'') = lit ''t.yaml''" "path_str (lit ''r.json'') \<noteq> path_str (lit ''r.xml'')"
  by (simp_all add: path_str_def path_root_def path_parts_def lit_def)

lemma missing_stem: "path_stem (ra_path missing_args) = lit ''t''"
  by (simp add: missing_args_def path_stem_def path_name_def path_parts_def lit_def)

lemma missing_load: "cli_load prompt_env (ra_path missing_args) prompt_host = (Inl missing_error, prompt_host)"
proof -
  have "lit ''t.yaml'' \<noteq> lit ''s.yaml''" "lit ''No such file or directory'' \<noteq> []" by (simp_all add: lit_def)
  then show ?thesis
    by (simp add: prompt_env_def host_load load_scenario_def missing_args_def missing_paths host_text_def prompt_host_def no_file_def
        missing_error_def Let_def)
qed

lemma missing_texts: "text_report (build_error_report (lit ''t'') missing_error)"
proof -
  have "json_xml_string (lit ''type'')" "json_xml_string (lit ''message'')" "json_xml_string (lit ''ScenarioError'')"
    by (rule json_xml_lit; simp)+
  moreover have str: "xml_string (lit ''t'')" "xml_string (lit ''ScenarioError'')" "xml_string (lit ''t.yaml'')" "xml_string (lit '': '')"
    "xml_string (lit ''No such file or directory'')" by (rule xml_string_lit; simp)+
  moreover have "lit ''message'' \<noteq> lit ''type''" by (simp add: lit_def)
  ultimately show ?thesis
    by (simp add: text_report_def missing_error_def build_error_report_def xml_report_def error_document_def xml_field_def
        dget_default_def ScenarioError_str_def json_xml_of_xml)
qed

lemma missing_validate: "\<exists>w'. main_validate prompt_env [lit ''s.yaml'', lit ''t.yaml''] prompt_host = (Inr 2, w')"
proof -
  have l: "\<not> list_ex is_surrogate (valid_line (lit ''s.yaml'') (normal_form (lit ''s.yaml'') prompt_spec) @ [10])"
    by (simp add: valid_line_def normal_form_def prompt_spec_def sample_spec_def recovery_spec_def lit_def no_surrogates is_surrogate_def)
  define w1 where "w1 = prompt_host\<lparr>ho_out := valid_line (lit ''s.yaml'') (normal_form (lit ''s.yaml'') prompt_spec) @ [10]\<rparr>"
  have "cli_load prompt_env (lit ''t.yaml'') w1 = (Inl missing_error, w1)"
    using missing_load by (simp add: prompt_env_def host_load w1_def missing_args_def)
  then have "\<exists>w'. validate_paths prompt_env [lit ''t.yaml''] w1 = (Inr 2, w')"
    by (simp add: io_bind_def io_try_def missing_error_def prompt_env_def host_prints io_return_def)
  moreover have "validate_paths prompt_env [lit ''s.yaml'', lit ''t.yaml''] prompt_host = validate_paths prompt_env [lit ''t.yaml''] w1"
  proof -
    have "io_try (cli_load prompt_env (lit ''s.yaml'')) prompt_host = (Inr (Inr (normal_form (lit ''s.yaml'') prompt_spec)), prompt_host)"
      by (simp add: io_try_def prompt_load)
    moreover have "print_line prompt_env (valid_line (lit ''s.yaml'') (normal_form (lit ''s.yaml'') prompt_spec)) prompt_host = (Inr (), w1)"
      using l by (simp add: print_line_def prompt_env_def host_prints host_print_def w1_def prompt_host_def)
    ultimately show ?thesis unfolding validate_paths.simps(2) [of prompt_env "lit ''s.yaml''"] by (simp only: io_bind_Inr sum.case)
  qed
  moreover have "expand_paths prompt_env [lit ''s.yaml'', lit ''t.yaml''] prompt_host = (Inr [lit ''s.yaml'', lit ''t.yaml''], prompt_host)"
    unfolding prompt_env_def host_expand by (simp add: expansion_def)
  ultimately show ?thesis by (simp only: main_validate_def io_bind_Inr)
qed

section \<open>Properties\<close>

text \<open>
  C35. Exit code zero means that the scenario passed. A \<open>run\<close> that returns does so with 0 exactly when
  the file was a valid scenario, the run completed, the reports were written, the application exited
  with 0 within the timeout, a kernel log that is asserted on was available, the log could be analysed,
  and every assertion of the scenario holds.
\<close>

theorem run_exit_zero:
  assumes "main_run ip env args w = (Inr c, w')"
  shows "c = 0 \<longleftrightarrow>
    (\<exists>a w1 res w2 rep w3.
       wf_spec a \<and> cli_load env (ra_path args) w = (Inr (normal_form (path_str (ra_path args)) a), w1) \<and>
       cli_run ip env (normal_form (path_str (ra_path args)) a) (ra_cwd args) w1 = (Inr res, w2) \<and>
       build_scenario_report ip (normal_form (path_str (ra_path args)) a) res = Inr rep \<and>
       write_reports ip env (ra_report args) (ra_junit_xml args) rep w2 = (Inr (), w3) \<and>
       ar_exit_code (sr_application res) = 0 \<and> \<not> ar_timed_out (sr_application res) \<and>
       ((\<exists>n. KernelWarningsA n \<in> set (ss_assertions a)) \<longrightarrow> sr_kernel_log_available res) \<and>
       (\<exists>events metrics. analyse_log (ar_stdout (sr_application res)) = Inr (events, metrics) \<and>
          (\<forall>x \<in> set (ss_assertions a). assertion_holds res events metrics x)))"
  (is "_ \<longleftrightarrow> ?pass")
proof
  assume "c = 0"
  then obtain sc w1 res w2 rep w3 where r: "cli_load env (ra_path args) w = (Inr sc, w1)"
    "cli_run ip env sc (ra_cwd args) w1 = (Inr res, w2)" "build_scenario_report ip sc res = Inr rep"
    "write_reports ip env (ra_report args) (ra_junit_xml args) rep w2 = (Inr (), w3)"
    "exit_status (rp_status rep) (ar_exit_code (sr_application res)) = 0"
    using main_run_cases [OF assms] by auto
  obtain a where a: "wf_spec a" "sc = normal_form (path_str (ra_path args)) a" using cli_load_normal [OF r(1)] by blast
  from built_exit_zero [OF a(1) r(3) [unfolded a(2)]] r a show ?pass by blast
next
  assume ?pass
  then obtain a w1 res w2 rep w3 where r: "wf_spec a" "cli_load env (ra_path args) w = (Inr (normal_form (path_str (ra_path args)) a), w1)"
    "cli_run ip env (normal_form (path_str (ra_path args)) a) (ra_cwd args) w1 = (Inr res, w2)"
    "build_scenario_report ip (normal_form (path_str (ra_path args)) a) res = Inr rep"
    "write_reports ip env (ra_report args) (ra_junit_xml args) rep w2 = (Inr (), w3)"
    "exit_status (rp_status rep) (ar_exit_code (sr_application res)) = 0"
    using built_exit_zero by blast
  with assms show "c = 0"
    by (auto simp: main_run_def finish_run_def io_bind_def io_try_def io_lift_def io_return_def split: prod.splits sum.splits)
qed

theorem run_exit_zero_witness:
  "\<exists>w' a w1 res w2. main_run sample_interpreter prompt_env (sample_args ''s.yaml'') prompt_host = (Inr 0, w') \<and>
     cli_load prompt_env (lit ''s.yaml'') prompt_host = (Inr (normal_form (path_str (lit ''s.yaml'')) a), w1) \<and>
     cli_run sample_interpreter prompt_env (normal_form (path_str (lit ''s.yaml'')) a) [46] w1 = (Inr res, w2) \<and>
     (\<exists>events metrics. analyse_log (ar_stdout (sr_application res)) = Inr (events, metrics) \<and>
        (\<forall>x \<in> set (ss_assertions a). assertion_holds res events metrics x))"
proof -
  obtain w' where run: "main_run sample_interpreter prompt_env (sample_args ''s.yaml'') prompt_host = (Inr 0, w')"
    using prompt_main by blast
  have args: "ra_path (sample_args ''s.yaml'') = lit ''s.yaml''" "ra_cwd (sample_args ''s.yaml'') = [46]"
    by (simp_all add: sample_args_def)
  from run_exit_zero [OF run, unfolded args] run show ?thesis by blast
qed

text \<open>
  Exit codes are within the range of a shell: a \<open>validate\<close> that returns gives 0 or 2; a \<open>run\<close> gives
  a code of at most 125 or, when interrupted, 130, whatever the exit code of the application.
\<close>

theorem exit_code_bounds:
  assumes "main_cli ip env args w = (Inr c, w')"
  shows "case args of Validate _ \<Rightarrow> c = 0 \<or> c = 2 | Run _ \<Rightarrow> 0 \<le> c \<and> c \<le> 125 \<or> c = 130"
proof (cases args)
  case (Validate ps)
  with assms show ?thesis by (auto simp: main_validate_def res_iff dest: validate_paths_code)
next
  case (Run a)
  with assms main_run_cases [of ip env a w c w'] exit_status_bounds show ?thesis by auto
qed

theorem exit_code_bounds_witness:
  "\<exists>c w'. main_cli sample_interpreter prompt_env (Run (sample_args ''s.yaml'')) prompt_host = (Inr c, w') \<and> 0 \<le> c \<and> c \<le> 130"
proof -
  obtain c w' where run: "main_cli sample_interpreter prompt_env (Run (sample_args ''s.yaml'')) prompt_host = (Inr c, w')"
    using prompt_main by auto
  from exit_code_bounds [OF run] run show ?thesis by (intro exI conjI) auto
qed

text \<open>
  C37. A run that fails leaves its error reports. On a host whose report paths are writable and not the
  same file, when loading or running the scenario raises a validation error, an interrupt, an operating
  system error or a runner error, \<open>run\<close> returns 2, 130 or 1, and each requested file holds the encoded
  report: the JSON file reads back as the document of the \<open>ERROR\<close> report that names the scenario and the
  exception, the XML file as its test suite, provided the texts are of XML characters.
\<close>

theorem failed_run_reports:
  assumes "run_raises ip (host_env writable matches safe_load runner) args w e name w1" and "failure_code e = Some c"
    and "text_report (build_error_report name (reported e))"
    and "all_writable writable args" and "separate (ra_report args) (ra_junit_xml args)"
  shows "\<exists>w'. main_run ip (host_env writable matches safe_load runner) args w = (Inr c, w') \<and>
    stores_reports ip (ho_files w') (ra_report args) (ra_junit_xml args) (build_error_report name (reported e))"
proof -
  obtain m where m: "handle_failure ip (host_env writable matches safe_load runner) args name e =
      report_failure ip (host_env writable matches safe_load runner) args name (reported e) m c"
    using handle_failure_eq [OF assms(2)] by blast
  show ?thesis
    unfolding main_run_raises [OF assms(1)] m by (rule host_store.report_failure_stores [OF assms(3-5)])
qed

theorem failed_run_reports_witness:
  "\<exists>w'. main_run sample_interpreter prompt_env missing_args prompt_host = (Inr 2, w') \<and>
     stores_reports sample_interpreter (ho_files w') (Some (lit ''r.json'')) (Some (lit ''r.xml''))
       (build_error_report (lit ''t'') missing_error)"
proof -
  have "run_raises sample_interpreter prompt_env missing_args prompt_host missing_error (lit ''t'') prompt_host"
    by (simp add: run_raises_def missing_load missing_stem)
  from failed_run_reports [OF this [unfolded prompt_env_def], of 2] missing_texts
  show ?thesis unfolding prompt_env_def
    by (simp add: failure_code_def missing_error_def reported_def all_writable_def missing_args_def separate_def missing_paths)
qed

text \<open>
  Where that proviso matters: when the scenario's file name has a character that stands for an
  undecodable byte (a surrogate) and the scenario does not load, \<open>run\<close> with a JSON report path does not
  return 2 but raises \<open>UnicodeEncodeError\<close>: the report file is left empty, and the validation error is
  not printed.
\<close>

theorem surrogate_name_unreported:
  assumes "load_scenario (host_text (ho_files w)) safe_load (ra_path args) = Inl e" and "is_ScenarioError e"
    and "ra_report args = Some p" and "writable (path_str p)"
    and "c \<in> set (path_stem (ra_path args))" and "is_surrogate c"
  shows "main_run ip (host_env writable matches safe_load runner) args w =
    (Inl UnicodeEncodeError, w\<lparr>ho_files := (ho_files w)(path_str p := Some [])\<rparr>)"
proof -
  let ?env = "host_env writable matches safe_load runner"
  obtain t where t: "report_to_json (build_error_report (path_stem (ra_path args)) e) = Inr t" "utf8_encode t = Inl UnicodeEncodeError"
    using error_report_unencodable [OF assms(5,6)] by blast
  have "run_raises ip ?env args w e (path_stem (ra_path args)) w" using assms(1) by (simp add: run_raises_def host_load)
  then have "main_run ip ?env args w = handle_failure ip ?env args (path_stem (ra_path args)) e w" by (rule main_run_raises)
  also have "\<dots> = (Inl UnicodeEncodeError, w\<lparr>ho_files := (ho_files w)(path_str p := Some [])\<rparr>)"
  proof -
    have "ce_open ?env (path_str p) w = (Inr (), w\<lparr>ho_files := (ho_files w)(path_str p := Some [])\<rparr>)"
      using assms(4) by (simp add: host_env_def host_open_def)
    with assms(2,3) t show ?thesis
      by (simp add: handle_failure_def report_failure_def write_error_report_def write_reports_def write_text_def io_bind_def
          io_lift_def io_try_def io_raise_def)
  qed
  finally show ?thesis .
qed

theorem surrogate_name_unreported_witness:
  "\<exists>w'. main_run sample_interpreter prompt_env
     \<lparr>ra_path = [56575], ra_cwd = [46], ra_report = Some (lit ''r.json''), ra_junit_xml = None\<rparr> prompt_host =
     (Inl UnicodeEncodeError, w') \<and> ho_err w' = []"
proof -
  have "path_str [56575] = [56575]" "path_stem [56575] = [56575]"
    by (simp_all add: path_str_def path_root_def path_parts_def path_stem_def path_name_def)
  then show ?thesis
    unfolding prompt_env_def
    by (subst surrogate_name_unreported [where c = 56575 and e = "ScenarioError [56575] (lit ''No such file or directory'')"])
      (simp_all add: load_scenario_def host_text_def prompt_host_def no_file_def lit_def is_surrogate_def)
qed

text \<open>
  C39. \<open>validate\<close> is exact: on a host it returns 0, with nothing on standard error, exactly when every
  file the patterns expand to is a valid scenario; otherwise it returns 2 with the error of the first one
  that is not. No file is changed.
\<close>

theorem validate_exact:
  assumes "main_validate (host_env writable matches safe_load runner) ps w = (Inr c, w')"
  shows "ho_files w' = ho_files w \<and>
    (c = 0 \<longleftrightarrow> (\<forall>p \<in> set (concat (map (expansion matches (ho_files w)) ps)). \<exists>sc. load_scenario (host_text (ho_files w)) safe_load p = Inr sc)) \<and>
    (case first_error (load_scenario (host_text (ho_files w)) safe_load) (concat (map (expansion matches (ho_files w)) ps)) of
       None \<Rightarrow> c = 0 \<and> ho_err w' = ho_err w
     | Some e \<Rightarrow> c = 2 \<and> is_ScenarioError e \<and> ho_err w' = ho_err w @ error_line e)"
proof -
  let ?ps = "concat (map (expansion matches (ho_files w)) ps)"
  let ?load = "load_scenario (host_text (ho_files w)) safe_load"
  have "validate_paths (host_env writable matches safe_load runner) ?ps w = (Inr c, w')"
    using assms by (simp add: main_validate_def io_bind_def host_expand)
  note v = host_validate [OF this]
  moreover have "c = 0 \<longleftrightarrow> first_error ?load ?ps = None" using v by (auto split: option.splits)
  ultimately show ?thesis unfolding first_error_None by blast
qed

theorem validate_exact_witness:
  "\<exists>w'. main_validate prompt_env [lit ''s.yaml'', lit ''t.yaml''] prompt_host = (Inr 2, w') \<and>
     ho_files w' = ho_files prompt_host \<and> ho_err w' = error_line missing_error"
proof -
  obtain w' where run: "main_validate prompt_env [lit ''s.yaml'', lit ''t.yaml''] prompt_host = (Inr 2, w')"
    using missing_validate by blast
  have "concat (map (expansion (\<lambda>_ _. []) (ho_files prompt_host)) [lit ''s.yaml'', lit ''t.yaml'']) = [lit ''s.yaml'', lit ''t.yaml'']"
    by (simp add: expansion_def)
  with validate_exact [OF run [unfolded prompt_env_def]] run prompt_load missing_load show ?thesis
    unfolding prompt_env_def host_load by (simp add: missing_args_def) (simp add: prompt_host_def)
qed

end
