(* ===== verification/Argparse.thy ===== *)
theory Argparse
  imports Cli "HOL-Library.AList"
begin

text \<open>
  The command line of \<open>cli.py\<close>: the parser that \<open>_parser\<close> builds, and \<open>ArgumentParser.parse_args\<close> of the standard
  library as far as this parser uses it: options with abbreviations, joined and separate values,
  combined single-dash options, \<open>--\<close>, one positional argument and sub-commands. A result \<open>Inl code\<close> is
  \<open>SystemExit\<close>: 0 after the help or the version, 2 after an error. Whether a character is a decimal digit of
  Unicode is a parameter.
\<close>

section \<open>Parsers\<close>

datatype option_action = HelpAction | VersionAction | StoreAction pystr

text \<open>A positional argument with its destination: \<open>nargs=None\<close>, \<open>nargs="+"\<close> or the sub-commands\<close>

datatype positional = PosOne pystr | PosMany pystr | PosCommand pystr

datatype attribute = NoValue | Single pystr | Several "pystr list"

type_synonym namespace = "(pystr \<times> attribute) list"

record argument_parser =
  ap_options :: "(pystr \<times> option_action) list"
  ap_positional :: "positional option"
  ap_defaults :: namespace

definition ArgumentParser :: argument_parser where
  "ArgumentParser =
     \<lparr>ap_options = [(lit ''-h'', HelpAction), (lit ''--help'', HelpAction)], ap_positional = None, ap_defaults = []\<rparr>"

text \<open>The destination of an option: without the leading dashes, inner dashes as underscores\<close>

definition option_dest :: "pystr \<Rightarrow> pystr" where
  "option_dest name = map (\<lambda>c. if c = 45 then 95 else c) (dropWhile (\<lambda>c. c = 45) name)"

definition add_version :: "argument_parser \<Rightarrow> argument_parser" where
  "add_version p = p\<lparr>ap_options := ap_options p @ [(lit ''--version'', VersionAction)]\<rparr>"

definition add_option :: "pystr \<Rightarrow> attribute \<Rightarrow> argument_parser \<Rightarrow> argument_parser" where
  "add_option name dflt p =
     p\<lparr>ap_options := ap_options p @ [(name, StoreAction (option_dest name))],
       ap_defaults := ap_defaults p @ [(option_dest name, dflt)]\<rparr>"

fun positional_dest :: "positional \<Rightarrow> pystr" where
  "positional_dest (PosOne d) = d"
| "positional_dest (PosMany d) = d"
| "positional_dest (PosCommand d) = d"

definition add_positional :: "positional \<Rightarrow> argument_parser \<Rightarrow> argument_parser" where
  "add_positional pos p =
     p\<lparr>ap_positional := Some pos, ap_defaults := ap_defaults p @ [(positional_dest pos, NoValue)]\<rparr>"

definition main_parser :: argument_parser where
  "main_parser = add_positional (PosCommand (lit ''command'')) (add_version ArgumentParser)"

definition validate_parser :: argument_parser where
  "validate_parser = add_positional (PosMany (lit ''paths'')) ArgumentParser"

definition run_parser :: argument_parser where
  "run_parser =
     add_option (lit ''--junit-xml'') NoValue (add_option (lit ''--report'') NoValue (add_option (lit ''--cwd'') (Single (lit ''.''))
       (add_positional (PosOne (lit ''path'')) ArgumentParser)))"

section \<open>Options\<close>

text \<open>\<open>str.partition("=")\<close>: the text before, whether there is a separator, and the text after it\<close>

definition partition_eq :: "pystr \<Rightarrow> pystr \<times> bool \<times> pystr" where
  "partition_eq s = (takeWhile (\<lambda>c. c \<noteq> 61) s, 61 \<in> set s, tl (dropWhile (\<lambda>c. c \<noteq> 61) s))"

text \<open>The action, the option string, the separator and the explicit argument\<close>

type_synonym option_tuple = "option_action option \<times> pystr \<times> pystr option \<times> pystr option"

definition get_option_tuples :: "argument_parser \<Rightarrow> pystr \<Rightarrow> option_tuple list" where
  "get_option_tuples p s =
     (if s ! 1 = 45 then
        (case partition_eq s of (option_prefix, found, explicit_arg) \<Rightarrow>
         map (\<lambda>(name, action). (Some action, name, if found then Some [61] else None, if found then Some explicit_arg else None))
           (filter (\<lambda>(name, action). prefix option_prefix name) (ap_options p)))
      else
        concat (map (\<lambda>(name, action).
          if name = take 2 s then [(Some action, name, Some [], Some (drop 2 s))]
          else if prefix s name then [(Some action, name, None, None)] else []) (ap_options p)))"

text \<open>The pattern for negative numbers, whose end may be before a final newline\<close>

definition negative_body :: "(nat \<Rightarrow> bool) \<Rightarrow> pystr \<Rightarrow> bool" where
  "negative_body udigit s \<longleftrightarrow>
     s \<noteq> [] \<and> list_all udigit s \<or>
     (case dropWhile udigit s of c # cs \<Rightarrow> c = 46 \<and> cs \<noteq> [] \<and> list_all udigit cs | [] \<Rightarrow> False)"

definition negative_number :: "(nat \<Rightarrow> bool) \<Rightarrow> pystr \<Rightarrow> bool" where
  "negative_number udigit s \<longleftrightarrow>
     s \<noteq> [] \<and> hd s = 45 \<and>
     (negative_body udigit (tl s) \<or> last s = 10 \<and> negative_body udigit (butlast (tl s)))"

definition parse_optional :: "(nat \<Rightarrow> bool) \<Rightarrow> argument_parser \<Rightarrow> pystr \<Rightarrow> int + option_tuple option" where
  "parse_optional udigit p s =
     (if s = [] then Inr None
      else if hd s \<noteq> 45 then Inr None
      else
        case map_of (ap_options p) s of
          Some action \<Rightarrow> Inr (Some (Some action, s, None, None))
        | None \<Rightarrow>
            if length s = 1 then Inr None
            else
              (case partition_eq s of (option_string, found, explicit_arg) \<Rightarrow>
               case (if found then map_of (ap_options p) option_string else None) of
                 Some action \<Rightarrow> Inr (Some (Some action, option_string, Some [61], Some explicit_arg))
               | None \<Rightarrow>
                   (case get_option_tuples p s of
                      [tup] \<Rightarrow> Inr (Some tup)
                    | _ # _ \<Rightarrow> Inl 2
                    | [] \<Rightarrow>
                        if negative_number udigit s then Inr None
                        else if 32 \<in> set s then Inr None
                        else Inr (Some (None, s, None, None)))))"

text \<open>The pattern of an argument list: \<open>A\<close>, \<open>-\<close> or \<open>O\<close> for each string, here with the option\<close>

datatype item = Arg pystr | Dash | Opt option_tuple pystr

fun item_text :: "item \<Rightarrow> pystr" where
  "item_text (Arg s) = s"
| "item_text Dash = lit ''--''"
| "item_text (Opt tup s) = s"

fun is_opt :: "item \<Rightarrow> bool" where
  "is_opt (Opt tup s) = True"
| "is_opt _ = False"

fun is_arg :: "item \<Rightarrow> bool" where
  "is_arg (Arg s) = True"
| "is_arg _ = False"

fun classify :: "(nat \<Rightarrow> bool) \<Rightarrow> argument_parser \<Rightarrow> pystr list \<Rightarrow> int + item list" where
  "classify udigit p [] = Inr []"
| "classify udigit p (s # ss) =
     (if s = lit ''--'' then Inr (Dash # map Arg ss)
      else
        rbind (parse_optional udigit p s) (\<lambda>r.
        rbind (classify udigit p ss) (\<lambda>items.
        Inr ((case r of None \<Rightarrow> Arg s | Some tup \<Rightarrow> Opt tup s) # items))))"

section \<open>Consuming arguments\<close>

record parse_state =
  ps_namespace :: namespace
  ps_pending :: "positional option"
  ps_extras :: "pystr list"
  ps_unrecognized :: "pystr list"

definition set_attribute :: "pystr \<Rightarrow> attribute \<Rightarrow> namespace \<Rightarrow> namespace" where
  "set_attribute d v ns = AList.update d v ns"

text \<open>The number of strings a positional takes, when its pattern matches\<close>

definition match_positional :: "positional \<Rightarrow> item list \<Rightarrow> nat option" where
  "match_positional pos items =
     (let dashes = takeWhile (\<lambda>i. i = Dash) items; rest = dropWhile (\<lambda>i. i = Dash) items in
      if rest = [] \<or> \<not> is_arg (hd rest) then None
      else Some (length dashes + 1 +
        (case pos of
           PosOne _ \<Rightarrow> length (takeWhile (\<lambda>i. i = Dash) (tl rest))
         | PosMany _ \<Rightarrow> length (takeWhile (\<lambda>i. \<not> is_opt i) (tl rest))
         | PosCommand _ \<Rightarrow> length (tl rest))))"

text \<open>A parser of the arguments after a command: its namespace and the strings it does not recognise\<close>

type_synonym sub_parser = "pystr list \<Rightarrow> int + namespace \<times> pystr list"

definition take_positional ::
  "(pystr \<times> sub_parser) list \<Rightarrow> positional \<Rightarrow> pystr list \<Rightarrow> parse_state \<Rightarrow> int + parse_state" where
  "take_positional commands pos strings st =
     (case pos of
        PosOne d \<Rightarrow>
          (case remove1 (lit ''--'') strings of
             [s] \<Rightarrow> Inr (st\<lparr>ps_namespace := set_attribute d (Single s) (ps_namespace st)\<rparr>)
           | values \<Rightarrow> Inr (st\<lparr>ps_namespace := set_attribute d (Several values) (ps_namespace st)\<rparr>))
      | PosMany d \<Rightarrow>
          Inr (st\<lparr>ps_namespace := set_attribute d (Several (remove1 (lit ''--'') strings)) (ps_namespace st)\<rparr>)
      | PosCommand d \<Rightarrow>
          (case map_of commands (hd strings) of
             None \<Rightarrow> Inl 2
           | Some sub \<Rightarrow>
               rbind (sub (tl strings)) (\<lambda>(subspace, unrecognized).
               Inr (st\<lparr>ps_namespace :=
                         fold (\<lambda>(d, v). set_attribute d v) subspace (set_attribute d (Single (hd strings)) (ps_namespace st)),
                       ps_unrecognized := ps_unrecognized st @ unrecognized\<rparr>))))"

text \<open>\<open>consume_positionals\<close>: the new state and the number of strings consumed\<close>

definition consume_positionals ::
  "(pystr \<times> sub_parser) list \<Rightarrow> item list \<Rightarrow> parse_state \<Rightarrow> int + parse_state \<times> nat" where
  "consume_positionals commands items st =
     (case ps_pending st of
        None \<Rightarrow> Inr (st, 0)
      | Some pos \<Rightarrow>
          (case match_positional pos items of
             None \<Rightarrow> Inr (st, 0)
           | Some n \<Rightarrow>
               rbind (take_positional commands pos (map item_text (take n items)) st) (\<lambda>st'.
               Inr (st'\<lparr>ps_pending := None\<rparr>, n))))"

fun takes_argument :: "option_action \<Rightarrow> bool" where
  "takes_argument (StoreAction d) = True"
| "takes_argument _ = False"

text \<open>
  An option with an explicit argument: the actions with their arguments, the extra strings, and the
  last action when it is still to be matched with the strings that follow.
\<close>

function explicit_chain ::
  "argument_parser \<Rightarrow> option_action \<Rightarrow> pystr \<Rightarrow> pystr \<Rightarrow> pystr
   \<Rightarrow> int + (option_action \<times> pystr list) list \<times> pystr list \<times> option_action option" where
  "explicit_chain p action option_string sep explicit_arg =
     (if \<not> takes_argument action \<and> option_string ! 1 \<noteq> 45 \<and> explicit_arg \<noteq> [] then
        if sep \<noteq> [] \<or> hd explicit_arg = 45 then Inl 2
        else
          let option_string' = [hd option_string, hd explicit_arg] in
          case map_of (ap_options p) option_string' of
            None \<Rightarrow> Inr ([(action, [])], [hd option_string # explicit_arg], None)
          | Some action' \<Rightarrow>
              if tl explicit_arg = [] then Inr ([(action, [])], [], Some action')
              else
                rbind (if hd (tl explicit_arg) = 61 then explicit_chain p action' option_string' [61] (tl (tl explicit_arg))
                       else explicit_chain p action' option_string' [] (tl explicit_arg))
                  (\<lambda>(actions, extras, last_action). Inr ((action, []) # actions, extras, last_action))
      else if takes_argument action then Inr ([(action, [explicit_arg])], [], None)
      else Inl 2)"
  by pat_completeness auto
termination
  by (relation "measure (\<lambda>(p, action, option_string, sep, explicit_arg). length explicit_arg)")
    (auto simp: neq_Nil_conv)

text \<open>The strings a last action takes from those that follow\<close>

definition match_option :: "option_action \<Rightarrow> item list \<Rightarrow> int + pystr list" where
  "match_option action items =
     (if \<not> takes_argument action then Inr []
      else case items of Arg s # _ \<Rightarrow> Inr [s] | _ \<Rightarrow> Inl 2)"

fun take_option :: "option_action \<times> pystr list \<Rightarrow> parse_state \<Rightarrow> int + parse_state" where
  "take_option (StoreAction d, strings) st =
     Inr (st\<lparr>ps_namespace := set_attribute d (Single (hd strings)) (ps_namespace st)\<rparr>)"
| "take_option _ st = Inl 0"

fun take_options :: "(option_action \<times> pystr list) list \<Rightarrow> parse_state \<Rightarrow> int + parse_state" where
  "take_options [] st = Inr st"
| "take_options (t # ts) st = rbind (take_option t st) (take_options ts)"

text \<open>\<open>consume_optional\<close>: the new state and how many strings after the option it takes\<close>

definition consume_optional ::
  "argument_parser \<Rightarrow> option_tuple \<Rightarrow> pystr \<Rightarrow> item list \<Rightarrow> parse_state \<Rightarrow> int + parse_state \<times> nat" where
  "consume_optional p tup s rest st =
     (case tup of
        (None, _) \<Rightarrow> Inr (st\<lparr>ps_extras := ps_extras st @ [s]\<rparr>, 0)
      | (Some action, option_string, sep, explicit_arg) \<Rightarrow>
          rbind (case explicit_arg of
                   None \<Rightarrow> Inr ([], [], Some action)
                 | Some e \<Rightarrow> explicit_chain p action option_string (case sep of None \<Rightarrow> [] | Some t \<Rightarrow> t) e)
            (\<lambda>(actions, extras, last_action).
          rbind (case last_action of None \<Rightarrow> Inr [] | Some a \<Rightarrow> rbind (match_option a rest) (\<lambda>strings. Inr [(a, strings)]))
            (\<lambda>final.
          rbind (take_options (actions @ final) (st\<lparr>ps_extras := ps_extras st @ extras\<rparr>)) (\<lambda>st'.
          Inr (st', length (concat (map snd final)))))))"

text \<open>The loop of \<open>_parse_known_args\<close> up to the last option; the strings that are left\<close>

function parse_loop ::
  "argument_parser \<Rightarrow> (pystr \<times> sub_parser) list \<Rightarrow> item list \<Rightarrow> parse_state \<Rightarrow> int + parse_state \<times> item list" where
  "parse_loop p commands items st =
     (if \<not> list_ex is_opt items then Inr (st, items)
      else
        rbind (if is_opt (hd items) then Inr (st, 0) else consume_positionals commands items st) (\<lambda>(st1, n).
        if 0 < n then parse_loop p commands (drop n items) st1
        else
          case dropWhile (\<lambda>i. \<not> is_opt i) items of
            Opt tup s # rest \<Rightarrow>
              rbind (consume_optional p tup s rest
                       (st1\<lparr>ps_extras := ps_extras st1 @ map item_text (takeWhile (\<lambda>i. \<not> is_opt i) items)\<rparr>)) (\<lambda>(st2, k).
              parse_loop p commands (drop k rest) st2)
          | _ \<Rightarrow> Inr (st1, items)))"
  by pat_completeness auto
termination
proof (relation "measure (\<lambda>(p, commands, items, st). length items)", goal_cases)
  case (2 p commands items st x st1 n)
  then show ?case by (cases items) auto
next
  case (3 p commands items st x st1 n i rest tup s x' st2 k)
  have "length (Opt tup s # rest) \<le> length items"
    using 3 length_dropWhile_le by metis
  then show ?case by simp
qed auto

declare explicit_chain.simps [simp del] parse_loop.simps [simp del]

section \<open>Parsing\<close>

definition parse_known_args ::
  "(nat \<Rightarrow> bool) \<Rightarrow> argument_parser \<Rightarrow> (pystr \<times> sub_parser) list \<Rightarrow> pystr list \<Rightarrow> int + namespace \<times> pystr list" where
  "parse_known_args udigit p commands argv =
     rbind (classify udigit p argv) (\<lambda>items.
     rbind (parse_loop p commands items
              \<lparr>ps_namespace = ap_defaults p, ps_pending = ap_positional p, ps_extras = [], ps_unrecognized = []\<rparr>) (\<lambda>(st, rest).
     rbind (consume_positionals commands rest st) (\<lambda>(st', n).
     if ps_pending st' \<noteq> None then Inl 2
     else Inr (ps_namespace st', ps_extras st' @ map item_text (drop n rest) @ ps_unrecognized st'))))"

definition sub_commands :: "(nat \<Rightarrow> bool) \<Rightarrow> (pystr \<times> sub_parser) list" where
  "sub_commands udigit =
     [(lit ''validate'', parse_known_args udigit validate_parser []), (lit ''run'', parse_known_args udigit run_parser [])]"

text \<open>\<open>_parser().parse_args(argv)\<close>\<close>

definition parse_args :: "(nat \<Rightarrow> bool) \<Rightarrow> pystr list \<Rightarrow> int + namespace" where
  "parse_args udigit argv =
     rbind (parse_known_args udigit main_parser (sub_commands udigit) argv) (\<lambda>(ns, extras).
     if extras \<noteq> [] then Inl 2 else Inr ns)"

section \<open>The program\<close>

fun text_of :: "attribute \<Rightarrow> pystr option" where
  "text_of (Single s) = Some s"
| "text_of _ = None"

definition text_attribute :: "namespace \<Rightarrow> char list \<Rightarrow> pystr option" where
  "text_attribute ns d = Option.bind (map_of ns (lit d)) text_of"

text \<open>The branch of \<open>main\<close> for a namespace, with the attributes it reads\<close>

definition command_of :: "namespace \<Rightarrow> arguments option" where
  "command_of ns =
     (if text_attribute ns ''command'' = Some (lit ''validate'') then
        (case map_of ns (lit ''paths'') of Some (Several ps) \<Rightarrow> Some (Validate ps) | _ \<Rightarrow> None)
      else if text_attribute ns ''command'' = Some (lit ''run'') then
        (case (text_attribute ns ''path'', text_attribute ns ''cwd'') of
           (Some path, Some cwd) \<Rightarrow>
             Some (Run \<lparr>ra_path = path, ra_cwd = cwd, ra_report = text_attribute ns ''report'',
                        ra_junit_xml = text_attribute ns ''junit_xml''\<rparr>)
         | _ \<Rightarrow> None)
      else None)"

text \<open>
  \<open>main(argv)\<close> with the exit code as its result. \<open>says\<close> prints the help, the version, or the usage with an
  error, whose texts are not modelled; \<open>argparse\<close> ignores an error of that.
\<close>

definition main_argv ::
  "(nat \<Rightarrow> bool) \<Rightarrow> interpreter \<Rightarrow> 'w cli_env \<Rightarrow> (int \<Rightarrow> pystr list \<Rightarrow> 'w \<Rightarrow> 'w) \<Rightarrow> pystr list \<Rightarrow> ('w, int) io" where
  "main_argv udigit ip env says argv w =
     (case parse_args udigit argv of
        Inl code \<Rightarrow> (Inr code, says code argv w)
      | Inr ns \<Rightarrow> (case command_of ns of None \<Rightarrow> (Inr 2, w) | Some args \<Rightarrow> main_cli ip env args w))"

end
