(* ===== verification/Argparse_Props.thy ===== *)
theory Argparse_Props
  imports Argparse Cli_Props
begin

text \<open>
  Properties of the command line: what a well-formed command line means, and what every exit of the program
  comes from.
\<close>

section \<open>Options\<close>

lemmas parsers = main_parser_def validate_parser_def run_parser_def add_positional_def add_option_def add_version_def ArgumentParser_def

definition run_names :: "pystr list" where
  "run_names = map lit [''--cwd'', ''--report'', ''--junit-xml'']"

text \<open>A name, or a beginning of it with at least one letter\<close>

definition abbreviates :: "pystr \<Rightarrow> pystr \<Rightarrow> bool" where
  "abbreviates ab name \<longleftrightarrow> name \<in> set run_names \<and> prefix ab name \<and> 3 \<le> length ab"

definition undashed :: "pystr \<Rightarrow> bool" where
  "undashed s \<longleftrightarrow> s = [] \<or> hd s \<noteq> 45"

lemma parse_undashed [simp]: "undashed s \<Longrightarrow> parse_optional udigit p s = Inr None"
  by (auto simp: undashed_def parse_optional_def)

lemma undashed_neq_dashes: "undashed s \<Longrightarrow> s \<noteq> lit ''--''"
  by (auto simp: undashed_def lit_def)

lemma abbreviates_cases:
  assumes "abbreviates ab name"
  obtains (cwd) r where "name = lit ''--cwd''" "ab = 45 # 45 # 99 # r" "prefix r (lit ''wd'')"
    | (report) r where "name = lit ''--report''" "ab = 45 # 45 # 114 # r" "prefix r (lit ''eport'')"
    | (junit) r where "name = lit ''--junit-xml''" "ab = 45 # 45 # 106 # r" "prefix r (lit ''unit-xml'')"
proof -
  obtain a b c r where ab: "ab = a # b # c # r"
    using assms by (auto simp: abbreviates_def numeral_3_eq_3 Suc_le_length_iff)
  show thesis using assms that unfolding ab abbreviates_def run_names_def by (auto simp: lit_def)
qed

lemma partition_eq_join: "61 \<notin> set a \<Longrightarrow> partition_eq (a @ 61 # v) = (a, True, v)"
  by (auto simp: partition_eq_def takeWhile_append dropWhile_append takeWhile_eq_all_conv)

lemma partition_eq_none: "61 \<notin> set a \<Longrightarrow> partition_eq a = (a, False, [])"
  by (induction a) (auto simp: partition_eq_def)

lemma prefix_no_eq: "prefix r s \<Longrightarrow> 61 \<notin> set s \<Longrightarrow> 61 \<notin> set (r :: pystr)"
  using set_mono_prefix by blast

lemma abbreviates_no_eq: "abbreviates ab name \<Longrightarrow> 61 \<notin> set ab"
  by (erule abbreviates_cases) (auto simp: lit_def dest: prefix_no_eq)

lemma options_no_eq:
  "p \<in> {main_parser, validate_parser, run_parser} \<Longrightarrow> (n, a) \<in> set (ap_options p) \<Longrightarrow> 61 \<notin> set n"
  by (auto simp: parsers lit_def)

lemma option_with_eq: "p \<in> {main_parser, validate_parser, run_parser} \<Longrightarrow> map_of (ap_options p) (a @ 61 # v) = None"
  using options_no_eq [of p] by (fastforce simp: map_of_eq_None_iff)

lemma run_options:
  "ap_options run_parser =
     [([45, 104], HelpAction), ([45, 45, 104, 101, 108, 112], HelpAction),
      (45 # 45 # 99 # lit ''wd'', StoreAction (lit ''cwd'')),
      (45 # 45 # 114 # lit ''eport'', StoreAction (lit ''report'')),
      (45 # 45 # 106 # lit ''unit-xml'', StoreAction (lit ''junit_xml''))]"
  by (simp add: parsers lit_def option_dest_def)

lemma main_options:
  "ap_options main_parser = [([45, 104], HelpAction), ([45, 45, 104, 101, 108, 112], HelpAction), (45 # 45 # 118 # lit ''ersion'', VersionAction)]"
  by (simp add: parsers lit_def)

lemma run_name_texts:
  "lit ''--cwd'' = 45 # 45 # 99 # lit ''wd''" "lit ''--report'' = 45 # 45 # 114 # lit ''eport''"
  "lit ''--junit-xml'' = 45 # 45 # 106 # lit ''unit-xml''"
  by (simp_all add: lit_def)

lemma run_dests:
  "option_dest (45 # 45 # 99 # lit ''wd'') = lit ''cwd''" "option_dest (45 # 45 # 114 # lit ''eport'') = lit ''report''"
  "option_dest (45 # 45 # 106 # lit ''unit-xml'') = lit ''junit_xml''"
  by (simp_all add: lit_def option_dest_def)

lemma option_abbreviated:
  assumes "abbreviates ab name"
  shows "filter (\<lambda>(n, a). prefix ab n) (ap_options run_parser) = [(name, StoreAction (option_dest name))]"
    and "map_of (ap_options run_parser) ab = (if ab = name then Some (StoreAction (option_dest name)) else None)"
    and "filter (\<lambda>(n, a). prefix ab n) (ap_options main_parser) = []"
    and "map_of (ap_options main_parser) ab = None"
  using assms by (cases rule: abbreviates_cases; simp add: run_options main_options run_name_texts run_dests)+

lemma abbreviates_shape: "abbreviates ab name \<Longrightarrow> \<exists>c r. ab = 45 # 45 # c # r"
  by (erule abbreviates_cases) auto

lemma parse_abbreviated:
  assumes "abbreviates ab name"
  shows "parse_optional udigit run_parser ab = Inr (Some (Some (StoreAction (option_dest name)), name, None, None))" (is ?exact)
    and "parse_optional udigit run_parser (ab @ 61 # v) = Inr (Some (Some (StoreAction (option_dest name)), name, Some [61], Some v))" (is ?joined)
    and "\<exists>r. parse_optional udigit main_parser ab = Inr r" (is ?main)
    and "\<exists>r. parse_optional udigit main_parser (ab @ 61 # v) = Inr r" (is ?main_joined)
proof -
  note facts = option_abbreviated [OF assms] partition_eq_join [OF abbreviates_no_eq [OF assms]] partition_eq_none [OF abbreviates_no_eq [OF assms]]
  have hd: "ab \<noteq> []" "hd ab = 45" "length ab \<noteq> 1" "ab ! 1 = 45" "(ab @ 61 # v) ! 1 = 45"
    using abbreviates_shape [OF assms] by auto
  show ?exact using hd by (simp add: parse_optional_def get_option_tuples_def facts)
  show ?joined using hd by (simp add: parse_optional_def get_option_tuples_def option_with_eq facts)
  show ?main using hd by (simp add: parse_optional_def get_option_tuples_def facts)
  show ?main_joined using hd by (simp add: parse_optional_def get_option_tuples_def option_with_eq facts)
qed

section \<open>A well-formed command line\<close>

text \<open>An option of \<open>run\<close> as it is written: joined to its value, or followed by it\<close>

datatype written = Joined pystr pystr | Separate pystr pystr

fun written_strings :: "written \<Rightarrow> pystr list" where
  "written_strings (Joined ab v) = [ab @ 61 # v]"
| "written_strings (Separate ab v) = [ab, v]"

fun written_value :: "written \<Rightarrow> pystr" where
  "written_value (Joined ab v) = v"
| "written_value (Separate ab v) = v"

fun well_written :: "pystr \<times> written \<Rightarrow> bool" where
  "well_written (name, Joined ab v) = abbreviates ab name"
| "well_written (name, Separate ab v) = (abbreviates ab name \<and> undashed v)"

definition option_strings :: "(pystr \<times> written) list \<Rightarrow> pystr list" where
  "option_strings opts = concat (map (\<lambda>(name, w). written_strings w) opts)"

definition given_value :: "char list \<Rightarrow> (pystr \<times> written) list \<Rightarrow> pystr option" where
  "given_value name opts = map_of (rev (map (\<lambda>(n, w). (n, written_value w)) opts)) (lit name)"

fun written_items :: "pystr \<times> written \<Rightarrow> item list" where
  "written_items (name, Joined ab v) = [Opt (Some (StoreAction (option_dest name)), name, Some [61], Some v) (ab @ 61 # v)]"
| "written_items (name, Separate ab v) = [Opt (Some (StoreAction (option_dest name)), name, None, None) ab, Arg v]"

definition option_items :: "(pystr \<times> written) list \<Rightarrow> item list" where
  "option_items opts = concat (map written_items opts)"

lemma option_simps [simp]:
  "option_strings [] = []" "option_strings ((name, w) # opts) = written_strings w @ option_strings opts"
  "option_items [] = []" "option_items (nw # opts) = written_items nw @ option_items opts"
  by (simp_all add: option_strings_def option_items_def)

lemma abbreviates_neq_dashes: "abbreviates ab name \<Longrightarrow> ab \<noteq> lit ''--'' \<and> ab @ 61 # v \<noteq> lit ''--''"
  using abbreviates_shape [of ab name] by (auto simp: lit_def)

text \<open>Strings that are classified one by one\<close>

lemma classify_options:
  assumes "list_all well_written opts"
  shows "classify udigit run_parser (option_strings opts @ rest) = rbind (classify udigit run_parser rest) (\<lambda>items. Inr (option_items opts @ items))"
  using assms
proof (induction opts)
  case (Cons nw opts)
  obtain name w where nw: "nw = (name, w)" by fastforce
  show ?case
  proof (cases w)
    case (Joined ab v)
    with Cons nw show ?thesis
      by (simp add: parse_abbreviated abbreviates_neq_dashes rbind_def split: sum.splits)
  next
    case (Separate ab v)
    with Cons nw show ?thesis
      by (simp add: parse_abbreviated abbreviates_neq_dashes undashed_neq_dashes rbind_def split: sum.splits)
  qed
qed (simp add: rbind_def split: sum.splits)

lemma classify_total:
  assumes "\<And>s. s \<in> set ss \<Longrightarrow> \<exists>r. parse_optional udigit p s = Inr r"
  shows "\<exists>items. classify udigit p ss = Inr items"
  using assms by (induction ss) (force simp: res_iff)+

lemma classify_texts: "classify udigit p ss = Inr items \<Longrightarrow> map item_text items = ss"
  by (induction ss arbitrary: items) (auto simp: res_iff comp_def split: if_splits option.splits)

section \<open>The loop\<close>

definition put :: "pystr \<Rightarrow> attribute \<Rightarrow> parse_state \<Rightarrow> parse_state" where
  "put d v st = st\<lparr>ps_namespace := set_attribute d v (ps_namespace st)\<rparr>"

lemma put_simps [simp]:
  "ps_pending (put d v st) = ps_pending st" "ps_extras (put d v st) = ps_extras st" "ps_unrecognized (put d v st) = ps_unrecognized st"
  "ps_namespace (put d v st) = set_attribute d v (ps_namespace st)"
  "put d v (st\<lparr>ps_pending := pos\<rparr>) = (put d v st)\<lparr>ps_pending := pos\<rparr>"
  by (simp_all add: put_def)

definition puts :: "(pystr \<times> written) list \<Rightarrow> parse_state \<Rightarrow> parse_state" where
  "puts = fold (\<lambda>(name, w). put (option_dest name) (Single (written_value w)))"

lemma puts_simps [simp]:
  "puts [] st = st" "puts ((name, w) # opts) st = puts opts (put (option_dest name) (Single (written_value w)) st)"
  by (simp_all add: puts_def)

lemma puts_state [simp]:
  "ps_pending (puts opts st) = ps_pending st" "ps_extras (puts opts st) = ps_extras st" "ps_unrecognized (puts opts st) = ps_unrecognized st"
  "puts opts (st\<lparr>ps_pending := pos\<rparr>) = (puts opts st)\<lparr>ps_pending := pos\<rparr>"
  by (induction opts arbitrary: st) auto

lemma parse_loop_option:
  "parse_loop p commands (written_items (name, w) @ rest) st =
     parse_loop p commands rest (put (option_dest name) (Single (written_value w)) st)"
  by (cases w; subst parse_loop.simps) (simp_all add: consume_optional_def explicit_chain.simps match_option_def put_def)

lemma parse_loop_options:
  "parse_loop p commands (option_items opts @ rest) st =
     parse_loop p commands rest (puts opts st)"
proof (induction opts arbitrary: st)
  case (Cons nw opts)
  then show ?case by (cases nw) (simp add: parse_loop_option)
qed simp

lemma parse_loop_Nil [simp]: "parse_loop p commands [] st = Inr (st, [])"
  by (simp add: parse_loop.simps)

lemma option_items_opts: "opts \<noteq> [] \<Longrightarrow> list_ex is_opt (option_items opts) \<and> (\<exists>tup s is. option_items opts = Opt tup s # is)"
  by (cases opts; cases "snd (hd opts)") auto

lemma consume_path:
  "ps_pending st = Some (PosOne d) \<Longrightarrow> s \<noteq> lit ''--'' \<Longrightarrow>
     consume_positionals commands (Arg s # option_items opts) st = Inr ((put d (Single s) st)\<lparr>ps_pending := None\<rparr>, 1)"
  using option_items_opts [of opts]
  by (cases "opts = []") (auto simp: consume_positionals_def match_positional_def take_positional_def put_def Let_def)

text \<open>Options, the path and more options\<close>

lemma parse_known_run:
  assumes "list_all well_written opts1" "list_all well_written opts2" "undashed path"
  defines "st0 \<equiv> \<lparr>ps_namespace = ap_defaults run_parser, ps_pending = ap_positional run_parser, ps_extras = [], ps_unrecognized = []\<rparr>"
  shows "parse_known_args udigit run_parser commands (option_strings opts1 @ path # option_strings opts2) =
    Inr (ps_namespace (puts opts2 (put (lit ''path'') (Single path) (puts opts1 st0))), [])"
proof -
  have pos: "ps_pending st0 = Some (PosOne (lit ''path''))" by (simp add: st0_def parsers)
  have c2: "classify udigit run_parser (option_strings opts2) = Inr (option_items opts2)"
    using classify_options [OF assms(2), of udigit "[]"] by simp
  have "classify udigit run_parser (option_strings opts1 @ path # option_strings opts2) =
      Inr (option_items opts1 @ Arg path # option_items opts2)"
    using assms(1,3) c2 by (simp add: classify_options undashed_neq_dashes)
  moreover define st1 where "st1 = puts opts1 st0"
  have c: "consume_positionals commands (Arg path # option_items opts2) st1 = Inr ((put (lit ''path'') (Single path) st1)\<lparr>ps_pending := None\<rparr>, 1)"
    using consume_path [of st1] assms(3) pos by (simp add: undashed_neq_dashes st1_def)
  have "rbind (parse_loop run_parser commands (Arg path # option_items opts2) st1) (\<lambda>(st, rest).
     rbind (consume_positionals commands rest st) (\<lambda>(st', n).
     if ps_pending st' \<noteq> None then Inl 2
     else Inr (ps_namespace st', ps_extras st' @ map item_text (drop n rest) @ ps_unrecognized st'))) =
     Inr (ps_namespace (puts opts2 (put (lit ''path'') (Single path) st1)), [])"
  proof (cases "opts2 = []")
    case True
    then show ?thesis
      using c by (subst parse_loop.simps) (simp add: st1_def st0_def)
  next
    case False
    have "parse_loop run_parser commands (Arg path # option_items opts2) st1 =
        parse_loop run_parser commands (option_items opts2) ((put (lit ''path'') (Single path) st1)\<lparr>ps_pending := None\<rparr>)"
      using False c option_items_opts by (subst parse_loop.simps) simp
    also have "\<dots> = Inr (puts opts2 ((put (lit ''path'') (Single path) st1)\<lparr>ps_pending := None\<rparr>), [])"
      using parse_loop_options [of run_parser commands opts2 "[]"] by simp
    finally show ?thesis
      by (simp add: consume_positionals_def st1_def st0_def)
  qed
  ultimately show ?thesis
    by (simp add: parse_known_args_def parse_loop_options st0_def [symmetric] st1_def)
qed

section \<open>Sub-commands\<close>

lemma map_of_set_attribute [simp]: "map_of (set_attribute d v ns) = (map_of ns)(d \<mapsto> v)"
  by (simp add: set_attribute_def update_conv')

lemma distinct_set_attribute [simp]: "distinct (map fst ns) \<Longrightarrow> distinct (map fst (set_attribute d v ns))"
  by (simp add: set_attribute_def distinct_update)

lemma map_of_merge:
  "distinct (map fst kvs) \<Longrightarrow> map_of (fold (\<lambda>(d, v). set_attribute d v) kvs ns) = map_of ns ++ map_of kvs"
proof (induction kvs arbitrary: ns)
  case (Cons kv kvs)
  obtain d v where kv: "kv = (d, v)" by fastforce
  then have "map_of kvs d = None" using Cons.prems by (simp add: map_of_eq_None_iff)
  then show ?case using Cons kv by (auto simp: fun_eq_iff map_add_def split: option.splits)
qed simp

text \<open>The command takes all the strings that follow it.\<close>

lemma parse_known_command:
  assumes "classify udigit main_parser (c # ss) = Inr (Arg c # items)" "map_of commands c = Some sub" "sub ss = Inr (ns, ex)"
  shows "parse_known_args udigit main_parser commands (c # ss) =
    Inr (fold (\<lambda>(d, v). set_attribute d v) ns (set_attribute (lit ''command'') (Single c) (ap_defaults main_parser)), ex)"
proof -
  define st0 where "st0 = \<lparr>ps_namespace = ap_defaults main_parser, ps_pending = ap_positional main_parser, ps_extras = [], ps_unrecognized = []\<rparr>"
  have "ps_pending st0 = Some (PosCommand (lit ''command''))" by (simp add: st0_def parsers)
  moreover have "map item_text items = ss" using classify_texts [OF assms(1)] by simp
  ultimately have c: "consume_positionals commands (Arg c # items) st0 =
      Inr (st0\<lparr>ps_namespace := fold (\<lambda>(d, v). set_attribute d v) ns (set_attribute (lit ''command'') (Single c) (ps_namespace st0)),
            ps_unrecognized := ex, ps_pending := None\<rparr>, Suc (length items))"
    using assms(2,3) by (simp add: consume_positionals_def match_positional_def take_positional_def Let_def st0_def)
  show ?thesis
  proof (cases "list_ex is_opt items")
    case True
    then have "parse_loop main_parser commands (Arg c # items) st0 =
        Inr (st0\<lparr>ps_namespace := fold (\<lambda>(d, v). set_attribute d v) ns (set_attribute (lit ''command'') (Single c) (ps_namespace st0)),
            ps_unrecognized := ex, ps_pending := None\<rparr>, [])"
      using c by (subst parse_loop.simps) simp
    then show ?thesis
      using assms(1) by (simp add: parse_known_args_def st0_def [symmetric] consume_positionals_def) (simp add: st0_def)
  next
    case False
    then have "parse_loop main_parser commands (Arg c # items) st0 = Inr (st0, Arg c # items)"
      by (simp add: parse_loop.simps)
    then show ?thesis
      using assms(1) c by (simp add: parse_known_args_def st0_def [symmetric]) (simp add: st0_def)
  qed
qed

lemma parse_args_command:
  assumes "classify udigit main_parser (c # ss) = Inr (Arg c # items)" "map_of (sub_commands udigit) c = Some sub" "sub ss = Inr (ns, [])"
  shows "parse_args udigit (c # ss) =
    Inr (fold (\<lambda>(d, v). set_attribute d v) ns (set_attribute (lit ''command'') (Single c) (ap_defaults main_parser)))"
  using parse_known_command [OF assms] by (simp add: parse_args_def)

lemma sub_commands_lookup [simp]:
  "map_of (sub_commands udigit) (lit ''validate'') = Some (parse_known_args udigit validate_parser [])"
  "map_of (sub_commands udigit) (lit ''run'') = Some (parse_known_args udigit run_parser [])"
  by (simp_all add: sub_commands_def lit_def)

lemma main_classify:
  assumes "undashed c" "c \<noteq> []" "\<And>s. s \<in> set ss \<Longrightarrow> \<exists>r. parse_optional udigit main_parser s = Inr r"
  shows "\<exists>items. classify udigit main_parser (c # ss) = Inr (Arg c # items)"
  using assms classify_total [of ss udigit main_parser] by (auto simp: undashed_neq_dashes)

lemma main_parses_options:
  assumes "list_all well_written opts" "s \<in> set (option_strings opts)"
  shows "\<exists>r. parse_optional udigit main_parser s = Inr r"
  using assms
proof (induction opts)
  case (Cons nw opts)
  obtain name w where nw: "nw = (name, w)" by fastforce
  with Cons show ?case by (cases w) (auto simp: parse_abbreviated(3,4))
qed simp

section \<open>The namespace of a run\<close>

lemma puts_distinct: "distinct (map fst (ps_namespace st)) \<Longrightarrow> distinct (map fst (ps_namespace (puts opts st)))"
  by (induction opts arbitrary: st) auto

lemma run_dest_inj:
  "name \<in> set run_names \<Longrightarrow> name' \<in> set run_names \<Longrightarrow> option_dest name = option_dest name' \<longleftrightarrow> name = name'"
  "name \<in> set run_names \<Longrightarrow> option_dest name \<noteq> lit ''path'' \<and> option_dest name \<noteq> lit ''command''"
  by (auto simp: run_names_def option_dest_def lit_def)

lemma well_written_name: "well_written (name, w) \<Longrightarrow> name \<in> set run_names"
  by (cases w) (auto simp: abbreviates_def)

lemma run_dests_lit:
  "option_dest (lit ''--cwd'') = lit ''cwd''" "option_dest (lit ''--report'') = lit ''report''"
  "option_dest (lit ''--junit-xml'') = lit ''junit_xml''"
  by (simp_all add: run_name_texts run_dests)

lemma run_defaults:
  "map_of (ap_defaults run_parser) (lit ''cwd'') = Some (Single (lit ''.''))"
  "map_of (ap_defaults run_parser) (lit ''report'') = Some NoValue"
  "map_of (ap_defaults run_parser) (lit ''junit_xml'') = Some NoValue"
  by (simp_all add: parsers lit_def option_dest_def)

lemma puts_lookup:
  assumes "list_all well_written opts" "lit name \<in> set run_names"
  shows "map_of (ps_namespace (puts opts st)) (option_dest (lit name)) =
    (case given_value name opts of None \<Rightarrow> map_of (ps_namespace st) (option_dest (lit name)) | Some v \<Rightarrow> Some (Single v))"
  using assms(1)
proof (induction opts rule: rev_induct)
  case (snoc nw opts)
  obtain n w where nw: "nw = (n, w)" by fastforce
  then have "n \<in> set run_names" using snoc.prems well_written_name by auto
  then show ?case using snoc nw run_dest_inj(1) [OF assms(2)] by (auto simp: puts_def given_value_def)
qed (simp add: given_value_def)

lemma puts_other:
  assumes "list_all well_written opts" "d \<notin> option_dest ` set run_names"
  shows "map_of (ps_namespace (puts opts st)) d = map_of (ps_namespace st) d"
  using assms(1)
proof (induction opts rule: rev_induct)
  case (snoc nw opts)
  obtain n w where nw: "nw = (n, w)" by fastforce
  then have "n \<in> set run_names" using snoc.prems well_written_name by auto
  then show ?case using snoc nw assms(2) by (auto simp: puts_def)
qed simp

section \<open>A list of paths\<close>

lemma classify_undashed: "list_all undashed ss \<Longrightarrow> classify udigit p ss = Inr (map Arg ss)"
  by (induction ss) (auto simp: undashed_neq_dashes)

lemma parse_known_validate:
  assumes "list_all undashed ps" "ps \<noteq> []"
  shows "parse_known_args udigit validate_parser commands ps = Inr ([(lit ''paths'', Several ps)], [])"
proof -
  have "length (takeWhile (\<lambda>i. \<not> is_opt i) (map Arg ss)) = length ss" for ss
    by (induction ss) simp_all
  then have "match_positional (PosMany d) (map Arg ps) = Some (length ps)" for d
    using assms(2) by (cases ps) (simp_all add: match_positional_def Let_def)
  moreover have "remove1 (lit ''--'') ps = ps"
    using assms(1) by (auto simp: remove1_idem list_all_iff dest: undashed_neq_dashes)
  moreover have "\<not> list_ex is_opt (map Arg ps)" by (simp add: list_ex_iff)
  moreover have "map item_text (map Arg ps) = ps" by (simp add: comp_def)
  moreover have "ap_positional validate_parser = Some (PosMany (lit ''paths''))" "ap_defaults validate_parser = [(lit ''paths'', NoValue)]"
    by (simp_all add: parsers)
  ultimately show ?thesis
    using assms
    by (simp add: parse_known_args_def classify_undashed parse_loop.simps consume_positionals_def take_positional_def set_attribute_def del: map_map)
qed

lemma validate_line_meaning:
  assumes "list_all undashed ps" "ps \<noteq> []"
  shows "\<exists>ns. parse_args udigit (lit ''validate'' # ps) = Inr ns \<and> command_of ns = Some (Validate ps)"
proof -
  obtain items where "classify udigit main_parser (lit ''validate'' # ps) = Inr (Arg (lit ''validate'') # items)"
    using main_classify [of "lit ''validate''" ps udigit] assms(1) by (auto simp: undashed_def lit_def list_all_iff)
  from parse_args_command [OF this, of "parse_known_args udigit validate_parser []"] parse_known_validate [OF assms, of udigit "[]"]
  show ?thesis
    by (simp add: command_of_def text_attribute_def map_of_merge)
qed

text \<open>The namespace of a run: its attributes after the options and the path\<close>

lemma run_line_meaning:
  assumes "list_all well_written opts1" "list_all well_written opts2" "undashed path"
  shows "\<exists>ns. parse_args udigit (lit ''run'' # option_strings opts1 @ path # option_strings opts2) = Inr ns \<and>
      command_of ns = Some (Run
        \<lparr>ra_path = path, ra_cwd = (case given_value ''--cwd'' (opts1 @ opts2) of None \<Rightarrow> lit ''.'' | Some v \<Rightarrow> v),
         ra_report = given_value ''--report'' (opts1 @ opts2), ra_junit_xml = given_value ''--junit-xml'' (opts1 @ opts2)\<rparr>)"
proof -
  define st0 where "st0 = \<lparr>ps_namespace = ap_defaults run_parser, ps_pending = ap_positional run_parser, ps_extras = [], ps_unrecognized = []\<rparr>"
  define sub where "sub = ps_namespace (puts opts2 (put (lit ''path'') (Single path) (puts opts1 st0)))"
  have dist: "distinct (map fst sub)"
    unfolding sub_def by (rule puts_distinct, simp, rule distinct_set_attribute, rule puts_distinct) (simp add: st0_def parsers lit_def option_dest_def)
  have names: "lit ''--cwd'' \<in> set run_names" "lit ''--report'' \<in> set run_names" "lit ''--junit-xml'' \<in> set run_names"
    by (simp_all add: run_names_def)
  have other: "lit ''path'' \<notin> option_dest ` set run_names" "lit ''command'' \<notin> option_dest ` set run_names"
    using run_dest_inj(2) by force+
  have given: "given_value name (opts1 @ opts2) = (case given_value name opts2 of None \<Rightarrow> given_value name opts1 | Some v \<Rightarrow> Some v)" for name
    by (simp add: given_value_def map_add_def split: option.splits)
  have look: "map_of sub (option_dest (lit name)) =
      (case given_value name (opts1 @ opts2) of None \<Rightarrow> map_of (ap_defaults run_parser) (option_dest (lit name)) | Some v \<Rightarrow> Some (Single v))"
    if "lit name \<in> set run_names" for name
    using puts_lookup [OF assms(2) that] puts_lookup [OF assms(1) that, of st0] run_dest_inj(2) [OF that]
    by (simp add: sub_def given st0_def split: option.splits)
  have path: "map_of sub (lit ''path'') = Some (Single path)" "map_of sub (lit ''command'') = None"
    using puts_other [OF assms(2) other(1)] puts_other [OF assms(2) other(2)] puts_other [OF assms(1) other(2), of st0]
    by (simp_all add: sub_def st0_def) (simp_all add: parsers lit_def option_dest_def)
  have strings: "\<exists>r. parse_optional udigit main_parser s = Inr r" if "s \<in> set (option_strings opts1 @ path # option_strings opts2)" for s
    using that main_parses_options [OF assms(1), of s udigit] main_parses_options [OF assms(2), of s udigit] assms(3) by auto
  have undashed_run: "undashed (lit ''run'')" "lit ''run'' \<noteq> []" by (simp_all add: undashed_def lit_def)
  obtain items where items: "classify udigit main_parser (lit ''run'' # option_strings opts1 @ path # option_strings opts2) = Inr (Arg (lit ''run'') # items)"
    using main_classify [OF undashed_run(1,2) strings] by blast
  have "parse_args udigit (lit ''run'' # option_strings opts1 @ path # option_strings opts2) =
      Inr (fold (\<lambda>(d, v). set_attribute d v) sub (set_attribute (lit ''command'') (Single (lit ''run'')) (ap_defaults main_parser)))"
    using parse_args_command [OF items sub_commands_lookup(2) parse_known_run [OF assms, of udigit "[]"]]
    by (simp add: sub_def st0_def)
  moreover have "lit ''run'' \<noteq> lit ''validate''" by (simp add: lit_def)
  ultimately show ?thesis
    using look [OF names(1)] look [OF names(2)] look [OF names(3)] path dist
    by (simp add: command_of_def text_attribute_def map_of_merge run_dests_lit run_defaults map_add_def split: option.splits)
qed

section \<open>Properties\<close>

text \<open>
  C30. The meaning of a command line: \<open>run\<close> with its path, and its options before and after the path in any
  order, each abbreviated or not, joined to its value by an equals sign or followed by a value that
  does not begin with a dash, runs that path with the last value given for each option; \<open>validate\<close> with paths
  that do not begin with a dash validates these paths.
\<close>

theorem command_line_meaning:
  assumes "list_all well_written (opts1 @ opts2)" and "undashed path" and "list_all undashed ps" and "ps \<noteq> []"
  shows "(\<exists>ns. parse_args udigit (lit ''run'' # option_strings opts1 @ path # option_strings opts2) = Inr ns \<and>
      command_of ns = Some (Run
        \<lparr>ra_path = path, ra_cwd = (case given_value ''--cwd'' (opts1 @ opts2) of None \<Rightarrow> lit ''.'' | Some v \<Rightarrow> v),
         ra_report = given_value ''--report'' (opts1 @ opts2), ra_junit_xml = given_value ''--junit-xml'' (opts1 @ opts2)\<rparr>)) \<and>
    (\<exists>ns. parse_args udigit (lit ''validate'' # ps) = Inr ns \<and> command_of ns = Some (Validate ps))"
  using run_line_meaning [of opts1 opts2 path udigit] validate_line_meaning [of ps udigit] assms by simp

definition demo_options1 :: "(pystr \<times> written) list" where
  "demo_options1 = [(lit ''--report'', Joined (lit ''--rep'') (lit ''--=x''))]"

definition demo_options2 :: "(pystr \<times> written) list" where
  "demo_options2 = [(lit ''--cwd'', Separate (lit ''--cwd'') (lit ''work'')), (lit ''--report'', Joined (lit ''--report'') (lit ''r.json''))]"

theorem command_line_meaning_witness:
  "(\<exists>ns. parse_args is_digit
      [lit ''run'', lit ''--rep=--=x'', lit ''s.yaml'', lit ''--cwd'', lit ''work'', lit ''--report=r.json''] = Inr ns \<and>
    command_of ns = Some (Run \<lparr>ra_path = lit ''s.yaml'', ra_cwd = lit ''work'', ra_report = Some (lit ''r.json''), ra_junit_xml = None\<rparr>)) \<and>
   (\<exists>ns. parse_args is_digit [lit ''validate'', lit ''a.yaml'', lit ''b*.yaml''] = Inr ns \<and>
    command_of ns = Some (Validate [lit ''a.yaml'', lit ''b*.yaml'']))"
proof -
  have "list_all well_written (demo_options1 @ demo_options2)" "undashed (lit ''s.yaml'')" "list_all undashed [lit ''a.yaml'', lit ''b*.yaml'']"
    by (simp_all add: demo_options1_def demo_options2_def abbreviates_def run_names_def undashed_def lit_def)
  from command_line_meaning [OF this, of is_digit] show ?thesis
    by (simp add: demo_options1_def demo_options2_def given_value_def lit_def)
qed

end
