(* ===== verification/Argparse_Exits.thy ===== *)
theory Argparse_Exits
  imports Argparse_Props
begin

text \<open>
  Every way in which the program ends: the exits of the command line and their reasons, and that a command line
  that is accepted is one of the two commands with the attributes it needs.
\<close>

section \<open>Where an exit comes from\<close>

text \<open>A string that asks for the help or the version\<close>

definition asks_help :: "pystr \<Rightarrow> bool" where
  "asks_help s \<longleftrightarrow> prefix (lit ''-h'') s \<or> prefix (lit ''--h'') s \<or> prefix (lit ''--v'') s"

lemma get_option_tuples_origin:
  assumes "(Some a, os, sep, e) \<in> set (get_option_tuples p s)" "s \<noteq> []" "hd s = 45" "length s \<noteq> 1"
  shows "(os, a) \<in> set (ap_options p) \<and> (case e of None \<Rightarrow> prefix s os | Some _ \<Rightarrow> os ! 1 \<noteq> 45 \<longrightarrow> prefix os s)"
proof -
  obtain c r where s: "s = 45 # c # r" using assms(2-4) by (cases s; cases "tl s") auto
  show ?thesis
  proof (cases "c = 45")
    case True
    show ?thesis
    proof (cases "61 \<in> set r")
      case eq: True
      then have "partition_eq s = (45 # 45 # takeWhile (\<lambda>c. c \<noteq> 61) r, True, tl (dropWhile (\<lambda>c. c \<noteq> 61) r))"
        using True by (simp add: s partition_eq_def)
      then show ?thesis using assms(1) True s by (auto simp: get_option_tuples_def prefix_def)
    next
      case False
      then show ?thesis using assms(1) True s by (auto simp: get_option_tuples_def partition_eq_none)
    qed
  next
    case False
    with assms(1) s show ?thesis
      by (auto simp: get_option_tuples_def take_is_prefix split: if_splits)
  qed
qed

lemma parse_optional_origin:
  assumes "parse_optional udigit p s = Inr (Some (Some a, os, sep, e))"
  shows "(os, a) \<in> set (ap_options p) \<and> (case e of None \<Rightarrow> prefix s os \<and> (s = os \<or> 2 \<le> length s) | Some _ \<Rightarrow> os ! 1 \<noteq> 45 \<longrightarrow> prefix os s)"
proof -
  have s: "s \<noteq> []" "hd s = 45" using assms by (auto simp: parse_optional_def split: if_splits)
  show ?thesis
  proof (cases "map_of (ap_options p) s")
    case None
    then have l: "length s \<noteq> 1" using assms s by (auto simp: parse_optional_def)
    obtain pre found ex where pe: "partition_eq s = (pre, found, ex)" by (metis prod.exhaust)
    have pre: "prefix pre s" using pe by (auto simp: partition_eq_def takeWhile_is_prefix)
    show ?thesis
    proof (cases "if found then map_of (ap_options p) pre else None")
      case (Some a')
      with assms s None l pe pre show ?thesis by (auto simp: parse_optional_def dest: map_of_SomeD split: if_splits)
    next
      case none: None
      with assms s None l pe have "get_option_tuples p s = [(Some a, os, sep, e)]"
        by (auto simp: parse_optional_def split: list.splits if_splits)
      moreover have "2 \<le> length s" using s l by (cases s; cases "tl s") auto
      ultimately show ?thesis using get_option_tuples_origin [of a os sep e p s] s l by (auto split: option.splits)
    qed
  qed (use assms s in \<open>auto simp: parse_optional_def dest: map_of_SomeD\<close>)
qed

lemma silent_options:
  "p \<in> {main_parser, validate_parser, run_parser} \<Longrightarrow> (os, a) \<in> set (ap_options p) \<Longrightarrow> \<not> takes_argument a \<Longrightarrow>
     os \<in> {lit ''-h'', lit ''--help'', lit ''--version''}"
  by (auto simp: parsers)

lemma help_asked:
  assumes "p \<in> {main_parser, validate_parser, run_parser}" "parse_optional udigit p s = Inr (Some (Some a, os, sep, e))"
    "\<not> takes_argument a" "s \<noteq> lit ''--''" "e = None \<or> os ! 1 \<noteq> 45"
  shows "asks_help s"
proof -
  note o1 = parse_optional_origin [OF assms(2)]
  have os: "os \<in> {lit ''-h'', lit ''--help'', lit ''--version''}" using silent_options assms(1,3) o1 by blast
  show ?thesis
  proof (cases e)
    case None
    then have "prefix s os" "s = os \<or> 2 \<le> length s" using o1 by auto
    moreover from this obtain c r where "s = 45 # c # r"
      using os by (cases s; cases "tl s") (auto simp: lit_def)
    ultimately show ?thesis using os assms(4) by (cases r) (auto simp: asks_help_def lit_def)
  next
    case (Some x)
    then have "prefix os s" "os ! 1 \<noteq> 45" using o1 assms(5) by auto
    then show ?thesis using os by (auto simp: asks_help_def lit_def)
  qed
qed

lemma explicit_chain_cases:
  "explicit_chain p a os sep e = Inr (actions, ex, final) \<Longrightarrow>
     takes_argument a \<and> actions = [(a, [e])] \<and> final = None \<or> \<not> takes_argument a \<and> os ! 1 \<noteq> 45"
  by (subst (asm) explicit_chain.simps) (auto split: if_splits)

lemma explicit_chain_starts:
  "explicit_chain p a os sep e = Inr (actions, ex, final) \<Longrightarrow> \<exists>ss ts. actions = (a, ss) # ts"
  by (subst (asm) explicit_chain.simps) (auto simp: res_iff Let_def split: if_splits option.splits)

lemma explicit_chain_exit: "explicit_chain p a os sep e = Inl c \<Longrightarrow> c = 2"
  by (induction p a os sep e rule: explicit_chain.induct, subst (asm) explicit_chain.simps)
    (auto simp: res_iff Let_def split: if_splits option.splits)

lemma take_options_exit: "take_options ts st = Inl c \<Longrightarrow> c = 0 \<and> (\<exists>(a, ss) \<in> set ts. \<not> takes_argument a)"
proof (induction ts arbitrary: st)
  case (Cons t ts)
  then show ?case by (cases "(t, st)" rule: take_option.cases) (auto simp: res_iff)
qed simp

lemma match_option_exit: "match_option a items = Inl c \<Longrightarrow> c = 2"
  by (auto simp: match_option_def split: if_splits list.splits item.splits)

text \<open>An exit while an option is consumed\<close>

lemma consume_optional_exit:
  assumes "p \<in> {main_parser, validate_parser, run_parser}" "parse_optional udigit p s = Inr (Some tup)" "s \<noteq> lit ''--''"
    "consume_optional p tup s rest st = Inl c"
  shows "c = 2 \<or> c = 0 \<and> asks_help s"
proof -
  obtain a os sep e where tup: "tup = (Some a, os, sep, e)"
    using assms(4) by (cases tup) (auto simp: consume_optional_def split: option.splits)
  have asked: "asks_help s" if "\<not> takes_argument a" "e = None \<or> os ! 1 \<noteq> 45"
    using help_asked [OF assms(1) _ that(1) assms(3) that(2)] assms(2) tup by blast
  show ?thesis
  proof (cases e)
    case None
    with assms(4) tup asked show ?thesis
      by (auto simp: consume_optional_def res_iff dest: match_option_exit dest!: take_options_exit)
  next
    case (Some x)
    with assms(4) tup asked show ?thesis
      by (auto simp: consume_optional_def res_iff dest: match_option_exit explicit_chain_exit dest!: take_options_exit explicit_chain_cases
          split: option.splits)
  qed
qed

definition help_exit :: "int \<Rightarrow> pystr list \<Rightarrow> bool" where
  "help_exit c ss \<longleftrightarrow> c = 2 \<or> c = 0 \<and> list_ex asks_help ss"

fun parsed_item :: "(nat \<Rightarrow> bool) \<Rightarrow> argument_parser \<Rightarrow> item \<Rightarrow> bool" where
  "parsed_item udigit p (Opt tup s) = (s \<noteq> lit ''--'' \<and> parse_optional udigit p s = Inr (Some tup))"
| "parsed_item udigit p _ = True"

lemma parse_optional_exit: "parse_optional udigit p s = Inl c \<Longrightarrow> c = 2"
  by (auto simp: parse_optional_def split: if_splits option.splits prod.splits list.splits)

lemma classify_exit: "classify udigit p ss = Inl c \<Longrightarrow> c = 2"
  by (induction ss) (auto simp: res_iff dest: parse_optional_exit split: if_splits)

lemma classify_parsed: "classify udigit p ss = Inr items \<Longrightarrow> list_all (parsed_item udigit p) items"
  by (induction ss arbitrary: items) (auto simp: res_iff list_all_iff split: if_splits option.splits)

lemma help_exit_sub: "help_exit c ss \<Longrightarrow> set ss \<subseteq> set ss' \<Longrightarrow> help_exit c ss'"
  by (auto simp: help_exit_def list_ex_iff)

lemma consume_positionals_exit:
  assumes "\<And>n sub ss c. map_of commands n = Some sub \<Longrightarrow> sub ss = Inl c \<Longrightarrow> help_exit c ss"
    "consume_positionals commands items st = Inl c"
  shows "help_exit c (map item_text items)"
proof -
  obtain pos n where pos: "match_positional pos items = Some n" "take_positional commands pos (map item_text (take n items)) st = Inl c"
    using assms(2) by (auto simp: consume_positionals_def res_iff split: option.splits)
  have "c = 2 \<or> help_exit c (tl (map item_text (take n items)))"
    using pos(2) assms(1) by (auto simp: take_positional_def res_iff split: positional.splits option.splits list.splits)
  moreover have "set (tl (map item_text (take n items))) \<subseteq> set (map item_text items)"
  proof -
    have "set (tl xs) \<subseteq> set xs" for xs :: "pystr list" by (cases xs) auto
    then have "set (tl (map item_text (take n items))) \<subseteq> set (map item_text (take n items))" .
    also have "\<dots> \<subseteq> set (map item_text items)" using set_take_subset [of n items] by auto
    finally show ?thesis .
  qed
  ultimately show ?thesis using help_exit_sub by (auto simp: help_exit_def)
qed

section \<open>Invariants of the loop\<close>

lemma consume_positionals_none: "consume_positionals commands items st = Inr (st1, 0) \<Longrightarrow> st1 = st"
  by (auto simp: consume_positionals_def match_positional_def Let_def res_iff split: option.splits if_splits)

lemma first_opt: "list_ex is_opt items \<Longrightarrow> \<exists>tup s rest. dropWhile (\<lambda>i. \<not> is_opt i) items = Opt tup s # rest"
proof (induction items)
  case (Cons i items)
  then show ?case by (cases i) auto
qed simp

text \<open>A step of the loop that exits\<close>

definition step_exits :: "argument_parser \<Rightarrow> (pystr \<times> sub_parser) list \<Rightarrow> int \<Rightarrow> item list \<Rightarrow> parse_state \<Rightarrow> bool" where
  "step_exits p commands c items st \<longleftrightarrow>
     consume_positionals commands items st = Inl c \<or>
     (\<exists>pre tup s rest ex. items = pre @ Opt tup s # rest \<and> consume_optional p tup s rest (st\<lparr>ps_extras := ex\<rparr>) = Inl c)"

text \<open>What holds of the remaining strings and the state through the loop\<close>

locale loop_invariant =
  fixes p :: argument_parser and commands :: "(pystr \<times> sub_parser) list" and inv :: "item list \<Rightarrow> parse_state \<Rightarrow> bool"
  assumes positional_keeps: "inv items st \<Longrightarrow> consume_positionals commands items st = Inr (st1, n) \<Longrightarrow> inv (drop n items) st1"
    and optional_keeps: "inv (pre @ Opt tup s # rest) st \<Longrightarrow> \<not> list_ex is_opt pre \<Longrightarrow>
      consume_optional p tup s rest (st\<lparr>ps_extras := ex\<rparr>) = Inr (st2, k) \<Longrightarrow> inv (drop k rest) st2"
begin

lemma parse_loop_result:
  assumes "inv items st"
  shows "case parse_loop p commands items st of
    Inr (st', rest) \<Rightarrow> inv rest st' \<and> \<not> list_ex is_opt rest
  | Inl c \<Rightarrow> (\<exists>items st. inv items st \<and> step_exits p commands c items st)"
  using assms
proof (induction items arbitrary: st rule: length_induct)
  case (1 items)
  show ?case
  proof (cases "list_ex is_opt items")
    case True
    define first where "first = (if is_opt (hd items) then Inr (st, 0) else consume_positionals commands items st)"
    have loop: "parse_loop p commands items st =
      rbind first (\<lambda>(st1, n).
        if 0 < n then parse_loop p commands (drop n items) st1
        else
          case dropWhile (\<lambda>i. \<not> is_opt i) items of
            Opt tup s # rest \<Rightarrow>
              rbind (consume_optional p tup s rest
                       (st1\<lparr>ps_extras := ps_extras st1 @ map item_text (takeWhile (\<lambda>i. \<not> is_opt i) items)\<rparr>)) (\<lambda>(st2, k).
              parse_loop p commands (drop k rest) st2)
          | _ \<Rightarrow> Inr (st1, items))"
      using True by (subst parse_loop.simps) (simp add: first_def)
    obtain tup s rest where split: "dropWhile (\<lambda>i. \<not> is_opt i) items = Opt tup s # rest"
      using first_opt [OF True] by blast
    define pre where "pre = takeWhile (\<lambda>i. \<not> is_opt i) items"
    have items: "items = pre @ Opt tup s # rest" "\<not> list_ex is_opt pre"
      using split takeWhile_dropWhile_id [of "\<lambda>i. \<not> is_opt i" items] by (auto simp: pre_def list_ex_iff dest: set_takeWhileD)
    show ?thesis
    proof (cases first)
      case (Inl c)
      then have "step_exits p commands c items st" by (auto simp: first_def step_exits_def split: if_splits)
      with Inl loop 1(2) show ?thesis by auto
    next
      case (Inr r)
      obtain st1 n where r: "r = (st1, n)" by fastforce
      show ?thesis
      proof (cases "0 < n")
        case True
        with Inr r have "consume_positionals commands items st = Inr (st1, n)" by (auto simp: first_def split: if_splits)
        from positional_keeps [OF 1(2) this] have "inv (drop n items) st1" .
        moreover have "length (drop n items) < length items" using True items(1) by simp
        ultimately show ?thesis using 1(1) loop Inr r True by auto
      next
        case False
        then have st1: "st1 = st" using Inr r consume_positionals_none by (auto simp: first_def split: if_splits)
        define ex where "ex = ps_extras st @ map item_text pre"
        show ?thesis
        proof (cases "consume_optional p tup s rest (st\<lparr>ps_extras := ex\<rparr>)")
          case (Inl c)
          with loop Inr r False split st1 have "parse_loop p commands items st = Inl c" by (simp add: ex_def pre_def)
          moreover have "step_exits p commands c items st" unfolding step_exits_def using items(1) Inl by blast
          ultimately show ?thesis using 1(2) by auto
        next
          case opt: (Inr q)
          obtain st2 k where q: "q = (st2, k)" by fastforce
          have "inv (drop k rest) st2" using optional_keeps 1(2) items opt q by blast
          moreover have "length (drop k rest) < length items" using items(1) by simp
          ultimately show ?thesis using 1(1) loop Inr r False split st1 opt q by (simp add: ex_def pre_def)
        qed
      qed
    qed
  qed (use 1 in \<open>simp add: parse_loop.simps\<close>)
qed

end

interpretation parsed: loop_invariant p commands
    "\<lambda>items st. list_all (parsed_item udigit p) items \<and> set (map item_text items) \<subseteq> set argv" for p commands udigit argv
proof
  have dropped: "set (map item_text (drop n items)) \<subseteq> set (map item_text items)" for n items
    by (auto dest: in_set_dropD)
  show "list_all (parsed_item udigit p) (drop n items) \<and> set (map item_text (drop n items)) \<subseteq> set argv"
    if "list_all (parsed_item udigit p) items \<and> set (map item_text items) \<subseteq> set argv" for items n
    using that dropped [of n items] by (auto simp: list_all_iff dest: in_set_dropD)
  show "list_all (parsed_item udigit p) (drop k rest) \<and> set (map item_text (drop k rest)) \<subseteq> set argv"
    if "list_all (parsed_item udigit p) (pre @ Opt tup s # rest) \<and> set (map item_text (pre @ Opt tup s # rest)) \<subseteq> set argv" for pre tup s rest k
    using that dropped [of k rest] by (simp add: list_all_iff) (meson UnCI in_set_dropD order_trans)
qed

text \<open>\<open>parse_known_args\<close> exits with 2, or with 0 when one of the strings asks for it.\<close>

lemma parse_known_exit:
  assumes "p \<in> {main_parser, validate_parser, run_parser}"
    "\<And>n sub ss c. map_of commands n = Some sub \<Longrightarrow> sub ss = Inl c \<Longrightarrow> help_exit c ss"
    "parse_known_args udigit p commands argv = Inl c"
  shows "help_exit c argv"
proof (cases "classify udigit p argv")
  case (Inl c')
  with assms(3) show ?thesis using classify_exit by (auto simp: parse_known_args_def help_exit_def)
next
  case (Inr items)
  define st0 where "st0 = \<lparr>ps_namespace = ap_defaults p, ps_pending = ap_positional p, ps_extras = [], ps_unrecognized = []\<rparr>"
  have start: "list_all (parsed_item udigit p) items \<and> set (map item_text items) \<subseteq> set argv"
    using classify_parsed [OF Inr] classify_texts [OF Inr] by auto
  have pos: "help_exit c argv" if "set (map item_text is) \<subseteq> set argv" "consume_positionals commands is st = Inl c" for "is" st
    using help_exit_sub [OF consume_positionals_exit [OF assms(2) that(2)] that(1)] .
  show ?thesis
  proof (cases "parse_loop p commands items st0")
    case (Inl c')
    then have c': "c' = c" using assms(3) \<open>classify udigit p argv = Inr items\<close> by (simp add: parse_known_args_def st0_def)
    from parsed.parse_loop_result [OF start, of commands st0] Inl c'
    obtain "is" st where i: "list_all (parsed_item udigit p) is" "set (map item_text is) \<subseteq> set argv"
      and "step_exits p commands c is st"
      by auto
    then consider "consume_positionals commands is st = Inl c"
      | pre tup s rest ex where "is = pre @ Opt tup s # rest" "consume_optional p tup s rest (st\<lparr>ps_extras := ex\<rparr>) = Inl c"
      unfolding step_exits_def by blast
    then show ?thesis
    proof cases
      case 1
      then show ?thesis using pos i(2) by blast
    next
      case 2
      then have "c = 2 \<or> c = 0 \<and> asks_help s" "s \<in> set argv"
        using i consume_optional_exit [OF assms(1), of udigit s tup rest "st\<lparr>ps_extras := ex\<rparr>" c] by auto
      then show ?thesis by (auto simp: help_exit_def list_ex_iff)
    qed
  next
    case loop: (Inr r)
    obtain st rest where r: "r = (st, rest)" by fastforce
    then have "set (map item_text rest) \<subseteq> set argv" using parsed.parse_loop_result [OF start, of commands st0] loop by simp
    moreover have "c = 2 \<or> consume_positionals commands rest st = Inl c"
      using assms(3) Inr loop r by (auto simp: parse_known_args_def st0_def res_iff split: if_splits prod.splits)
    ultimately show ?thesis using pos by (auto simp: help_exit_def)
  qed
qed

lemma parse_args_exit:
  assumes "parse_args udigit argv = Inl c"
  shows "help_exit c argv"
proof -
  have sub: "help_exit c ss" if "map_of (sub_commands udigit) n = Some sub" "sub ss = Inl c" for n sub ss c
    using that parse_known_exit [of validate_parser "[]" udigit ss c] parse_known_exit [of run_parser "[]" udigit ss c]
    by (auto simp: sub_commands_def split: if_splits)
  show ?thesis
    using assms parse_known_exit [of main_parser "sub_commands udigit" udigit argv c] sub
    by (auto simp: parse_args_def res_iff help_exit_def split: if_splits)
qed

section \<open>The attributes of a parsed command line\<close>

text \<open>An option that is consumed without an exit stores its value, or is not known.\<close>

lemma take_options_silent: "\<not> takes_argument a \<Longrightarrow> take_options ((a, ss) # ts) st = Inl 0"
  by (cases a) simp_all

lemma consume_optional_ok:
  assumes "consume_optional p tup s rest st = Inr (st2, k)"
  shows "(\<exists>ex. st2 = st\<lparr>ps_extras := ex\<rparr> \<and> k = 0) \<or>
    (\<exists>d v os sep e. tup = (Some (StoreAction d), os, sep, e) \<and> st2 = put d (Single v) st \<and> (k = 0 \<or> k = 1 \<and> (\<exists>r. rest = Arg v # r)))"
proof -
  obtain act os sep e where tup: "tup = (act, os, sep, e)" by (metis prod.exhaust)
  show ?thesis
  proof (cases act)
    case None
    with assms tup show ?thesis by (auto simp: consume_optional_def)
  next
    case (Some a)
    show ?thesis
    proof (cases a)
      case (StoreAction d)
      with assms tup Some show ?thesis
        by (cases e) (auto simp: consume_optional_def res_iff match_option_def explicit_chain.simps put_def split: list.splits item.splits)
    next
      case HelpAction
      with assms tup Some show ?thesis
        by (cases e) (auto simp: consume_optional_def res_iff match_option_def take_options_silent dest!: explicit_chain_starts)
    next
      case VersionAction
      with assms tup Some show ?thesis
        by (cases e) (auto simp: consume_optional_def res_iff match_option_def take_options_silent dest!: explicit_chain_starts)
    qed
  qed
qed

text \<open>Only strings after the first \<open>--\<close> are \<open>--\<close> themselves, and no option is there.\<close>

fun dashes_ok :: "item list \<Rightarrow> bool" where
  "dashes_ok [] = True"
| "dashes_ok (Dash # items) = list_all is_arg items"
| "dashes_ok (i # items) = (item_text i \<noteq> lit ''--'' \<and> dashes_ok items)"

lemma classify_dashes: "classify udigit p ss = Inr items \<Longrightarrow> dashes_ok items"
  by (induction ss arbitrary: items) (auto simp: res_iff list_all_iff split: if_splits option.splits)

lemma dashes_ok_after_opt: "dashes_ok (pre @ Opt tup s # rest) \<Longrightarrow> dashes_ok rest"
  by (induction pre rule: dashes_ok.induct) auto

lemma match_one:
  assumes "dashes_ok items" "match_positional (PosOne d) items = Some n"
  shows "\<exists>s. remove1 (lit ''--'') (map item_text (take n items)) = [s]"
proof -
  obtain i items' where items: "items = i # items'" using assms(2) by (cases items) (auto simp: match_positional_def)
  have no_dash: "takeWhile (\<lambda>i. i = Dash) is = []" if "list_all is_arg is" for "is" using that by (cases "is") auto
  show ?thesis
  proof (cases i)
    case (Arg s)
    show ?thesis
    proof (cases items')
      case (Cons j more)
      with assms items Arg no_dash [of more] show ?thesis by (cases "j = Dash") (auto simp: match_positional_def Let_def)
    qed (use assms items Arg in \<open>auto simp: match_positional_def Let_def\<close>)
  next
    case Dash
    with assms items obtain s more where "items' = Arg s # more" "list_all is_arg more"
      by (cases items'; cases "hd items'") (auto simp: match_positional_def Let_def)
    with assms items Dash no_dash [of more] show ?thesis by (auto simp: match_positional_def Let_def)
  qed (use assms items in \<open>auto simp: match_positional_def Let_def\<close>)
qed

definition is_text :: "namespace \<Rightarrow> pystr \<Rightarrow> bool" where
  "is_text ns d \<longleftrightarrow> (\<exists>s. map_of ns d = Some (Single s))"

lemma is_text_put [simp]: "is_text ns d \<Longrightarrow> is_text (set_attribute d' (Single v) ns) d"
  by (auto simp: is_text_def)

definition run_state :: "(nat \<Rightarrow> bool) \<Rightarrow> item list \<Rightarrow> parse_state \<Rightarrow> bool" where
  "run_state udigit items st \<longleftrightarrow>
     list_all (parsed_item udigit run_parser) items \<and>
     distinct (map fst (ps_namespace st)) \<and> map_of (ps_namespace st) (lit ''command'') = None \<and> is_text (ps_namespace st) (lit ''cwd'') \<and>
     (case ps_pending st of None \<Rightarrow> is_text (ps_namespace st) (lit ''path'') | Some pos \<Rightarrow> pos = PosOne (lit ''path'') \<and> dashes_ok items)"

lemma list_all_drop: "list_all P xs \<Longrightarrow> list_all P (drop n xs)"
  by (auto simp: list_all_iff dest: in_set_dropD)

lemma run_stores: "(os, StoreAction d) \<in> set (ap_options run_parser) \<Longrightarrow> d \<noteq> lit ''command''"
  by (auto simp: run_options lit_def)

interpretation run_loop: loop_invariant run_parser commands "run_state udigit" for commands udigit
proof
  fix items st st1 n
  assume inv: "run_state udigit items st" and c: "consume_positionals commands items st = Inr (st1, n)"
  show "run_state udigit (drop n items) st1"
  proof (cases "ps_pending st")
    case None
    with inv c show ?thesis by (simp add: consume_positionals_def)
  next
    case (Some pos)
    with inv have pos: "pos = PosOne (lit ''path'')" "dashes_ok items" by (simp_all add: run_state_def)
    show ?thesis
    proof (cases "match_positional pos items")
      case None
      with Some inv c show ?thesis by (simp add: consume_positionals_def)
    next
      case m: (Some n')
      obtain s where "remove1 (lit ''--'') (map item_text (take n' items)) = [s]" using match_one pos m by blast
      then have "st1 = (put (lit ''path'') (Single s) st)\<lparr>ps_pending := None\<rparr>"
        using c Some pos(1) m by (auto simp: consume_positionals_def take_positional_def put_def)
      with inv show ?thesis
        by (auto simp: run_state_def list_all_drop) (auto simp: is_text_def lit_def)
    qed
  qed
next
  fix pre tup s rest st ex st2 k
  assume inv: "run_state udigit (pre @ Opt tup s # rest) st"
    and c: "consume_optional run_parser tup s rest (st\<lparr>ps_extras := ex\<rparr>) = Inr (st2, k)"
  have drop: "dashes_ok rest" if "ps_pending st \<noteq> None"
    using inv that dashes_ok_after_opt [of pre tup s rest] by (auto simp: run_state_def split: option.splits)
  have opt: "parse_optional udigit run_parser s = Inr (Some tup)" using inv by (simp add: run_state_def)
  from consume_optional_ok [OF c] consider (unknown) ex' where "st2 = st\<lparr>ps_extras := ex'\<rparr>" "k = 0"
    | (store) d v os sep e where "tup = (Some (StoreAction d), os, sep, e)" "st2 = put d (Single v) (st\<lparr>ps_extras := ex\<rparr>)"
        "k = 0 \<or> k = 1 \<and> (\<exists>r. rest = Arg v # r)"
    by auto
  then show "run_state udigit (drop k rest) st2"
  proof cases
    case unknown
    with inv drop show ?thesis by (auto simp: run_state_def split: option.splits)
  next
    case (store d v os sep e)
    have "d \<noteq> lit ''command''" using run_stores parse_optional_origin opt store(1) by blast
    moreover have "dashes_ok (drop k rest)" if "ps_pending st \<noteq> None" using drop [OF that] store(3) by auto
    ultimately show ?thesis using inv store(2) by (auto simp: run_state_def list_all_drop split: option.splits)
  qed
qed

lemma parse_known_run_typed:
  assumes "parse_known_args udigit run_parser [] argv = Inr (ns, ex)"
  shows "distinct (map fst ns) \<and> map_of ns (lit ''command'') = None \<and> is_text ns (lit ''cwd'') \<and> is_text ns (lit ''path'')"
proof -
  define st0 where "st0 = \<lparr>ps_namespace = ap_defaults run_parser, ps_pending = ap_positional run_parser, ps_extras = [], ps_unrecognized = []\<rparr>"
  from assms obtain items st rest st' n where r: "classify udigit run_parser argv = Inr items" "parse_loop run_parser [] items st0 = Inr (st, rest)"
      "consume_positionals [] rest st = Inr (st', n)" "ps_pending st' = None" "ns = ps_namespace st'"
    by (auto simp: parse_known_args_def st0_def res_iff split: if_splits prod.splits)
  have "run_state udigit items st0"
    using classify_parsed [OF r(1)] classify_dashes [OF r(1)]
    by (simp add: run_state_def st0_def) (simp add: parsers lit_def option_dest_def is_text_def)
  from run_loop.parse_loop_result [OF this, of "[]"] r(2) have "run_state udigit rest st" by simp
  from run_loop.positional_keeps [OF this r(3)] r(4,5) show ?thesis by (simp add: run_state_def)
qed

definition validate_state :: "(nat \<Rightarrow> bool) \<Rightarrow> item list \<Rightarrow> parse_state \<Rightarrow> bool" where
  "validate_state udigit items st \<longleftrightarrow>
     list_all (parsed_item udigit validate_parser) items \<and>
     (case ps_pending st of None \<Rightarrow> \<exists>ps. ps_namespace st = [(lit ''paths'', Several ps)]
      | Some pos \<Rightarrow> pos = PosMany (lit ''paths'') \<and> ps_namespace st = [(lit ''paths'', NoValue)])"

lemma validate_stores: "(os, StoreAction d) \<notin> set (ap_options validate_parser)"
  by (simp add: parsers)

lemma optional_without_store:
  assumes "\<And>os d. (os, StoreAction d) \<notin> set (ap_options p)" "consume_optional p tup s rest (st\<lparr>ps_extras := ex\<rparr>) = Inr (st2, k)"
    "parse_optional udigit p s = Inr (Some tup)"
  shows "\<exists>ex'. st2 = st\<lparr>ps_extras := ex'\<rparr>"
proof -
  have "tup \<noteq> (Some (StoreAction d), os, sep, e)" for d os sep e using assms(1,3) parse_optional_origin by blast
  with consume_optional_ok [OF assms(2)] show ?thesis by auto
qed

interpretation validate_loop: loop_invariant validate_parser commands "validate_state udigit" for commands udigit
proof
  fix items st st1 n
  assume inv: "validate_state udigit items st" and c: "consume_positionals commands items st = Inr (st1, n)"
  then show "validate_state udigit (drop n items) st1"
    by (auto simp: validate_state_def consume_positionals_def take_positional_def set_attribute_def list_all_drop split: option.splits)
next
  fix pre tup s rest st ex st2 k
  assume inv: "validate_state udigit (pre @ Opt tup s # rest) st"
    and c: "consume_optional validate_parser tup s rest (st\<lparr>ps_extras := ex\<rparr>) = Inr (st2, k)"
  have opt: "parse_optional udigit validate_parser s = Inr (Some tup)" using inv by (simp add: validate_state_def)
  from optional_without_store [OF validate_stores c opt] obtain ex' where "st2 = st\<lparr>ps_extras := ex'\<rparr>" by blast
  with inv show "validate_state udigit (drop k rest) st2" by (auto simp: validate_state_def list_all_drop split: option.splits)
qed

lemma parse_known_validate_typed:
  assumes "parse_known_args udigit validate_parser [] argv = Inr (ns, ex)"
  shows "\<exists>ps. ns = [(lit ''paths'', Several ps)]"
proof -
  define st0 where "st0 = \<lparr>ps_namespace = ap_defaults validate_parser, ps_pending = ap_positional validate_parser, ps_extras = [], ps_unrecognized = []\<rparr>"
  from assms obtain items st rest st' n where r: "classify udigit validate_parser argv = Inr items"
      "parse_loop validate_parser [] items st0 = Inr (st, rest)"
      "consume_positionals [] rest st = Inr (st', n)" "ps_pending st' = None" "ns = ps_namespace st'"
    by (auto simp: parse_known_args_def st0_def res_iff split: if_splits prod.splits)
  have "validate_state udigit items st0"
    using classify_parsed [OF r(1)] by (simp add: validate_state_def st0_def) (simp add: parsers)
  from validate_loop.parse_loop_result [OF this, of "[]"] r(2) have "validate_state udigit rest st" by simp
  from validate_loop.positional_keeps [OF this r(3)] r(4,5) show ?thesis by (simp add: validate_state_def)
qed

definition is_command :: "namespace \<Rightarrow> bool" where
  "is_command ns \<longleftrightarrow> (\<exists>args. command_of ns = Some args)"

definition main_state :: "(nat \<Rightarrow> bool) \<Rightarrow> item list \<Rightarrow> parse_state \<Rightarrow> bool" where
  "main_state udigit items st \<longleftrightarrow>
     list_all (parsed_item udigit main_parser) items \<and>
     (case ps_pending st of None \<Rightarrow> is_command (ps_namespace st)
      | Some pos \<Rightarrow> pos = PosCommand (lit ''command'') \<and> ps_namespace st = [(lit ''command'', NoValue)])"

lemma main_stores: "(os, StoreAction d) \<notin> set (ap_options main_parser)"
  by (simp add: parsers)

lemma sub_command_typed:
  assumes "map_of (sub_commands udigit) c = Some sub" "sub ss = Inr (ns, ex)"
  shows "is_command (fold (\<lambda>(d, v). set_attribute d v) ns (set_attribute (lit ''command'') (Single c) [(lit ''command'', NoValue)]))"
proof (cases "c = lit ''validate''")
  case True
  with assms obtain ps where "ns = [(lit ''paths'', Several ps)]" using parse_known_validate_typed by fastforce
  with True show ?thesis by (simp add: is_command_def command_of_def text_attribute_def)
next
  case False
  with assms have c: "c = lit ''run''" "parse_known_args udigit run_parser [] ss = Inr (ns, ex)"
    by (auto simp: sub_commands_def split: if_splits)
  from parse_known_run_typed [OF c(2)] False c(1) show ?thesis
    by (auto simp: is_command_def command_of_def text_attribute_def map_of_merge is_text_def map_add_def)
qed

interpretation main_loop: loop_invariant main_parser "sub_commands udigit" "main_state udigit" for udigit
proof
  fix items st st1 n
  assume inv: "main_state udigit items st" and c: "consume_positionals (sub_commands udigit) items st = Inr (st1, n)"
  then show "main_state udigit (drop n items) st1"
    by (auto simp: main_state_def consume_positionals_def take_positional_def res_iff list_all_drop
        intro: sub_command_typed split: option.splits)
next
  fix pre tup s rest st ex st2 k
  assume inv: "main_state udigit (pre @ Opt tup s # rest) st"
    and c: "consume_optional main_parser tup s rest (st\<lparr>ps_extras := ex\<rparr>) = Inr (st2, k)"
  then have opt: "parse_optional udigit main_parser s = Inr (Some tup)" by (simp add: main_state_def)
  from optional_without_store [OF main_stores c opt] obtain ex' where "st2 = st\<lparr>ps_extras := ex'\<rparr>" by blast
  with inv show "main_state udigit (drop k rest) st2" by (auto simp: main_state_def list_all_drop split: option.splits)
qed

lemma parse_args_command_of:
  assumes "parse_args udigit argv = Inr ns"
  shows "\<exists>args. command_of ns = Some args"
proof -
  define st0 where "st0 = \<lparr>ps_namespace = ap_defaults main_parser, ps_pending = ap_positional main_parser, ps_extras = [], ps_unrecognized = []\<rparr>"
  from assms obtain items st rest st' n where r: "classify udigit main_parser argv = Inr items"
      "parse_loop main_parser (sub_commands udigit) items st0 = Inr (st, rest)"
      "consume_positionals (sub_commands udigit) rest st = Inr (st', n)" "ps_pending st' = None" "ns = ps_namespace st'"
    by (auto simp: parse_args_def parse_known_args_def st0_def res_iff split: if_splits prod.splits)
  have "main_state udigit items st0"
    using classify_parsed [OF r(1)] by (simp add: main_state_def st0_def) (simp add: parsers)
  from main_loop.parse_loop_result [OF this] r(2) have "main_state udigit rest st" by simp
  from main_loop.positional_keeps [OF this r(3)] r(4,5) show ?thesis by (simp add: main_state_def is_command_def)
qed

section \<open>Properties\<close>

text \<open>
  C11. How the program ends. Every exit code of the program, for any command line, comes from one of the two
  commands, with a code of at most 125 or, when interrupted, 130; or the command line is refused with 2; or it is 0
  because an argument asks for the help or the version, by its name or a beginning of it. In the last two cases no
  operation of a command has taken place. The branch of \<open>main\<close> for an unknown command is never reached.
\<close>

theorem program_exit:
  assumes "main_argv udigit ip env says argv w = (Inr code, w')"
  shows "(\<exists>ns args. parse_args udigit argv = Inr ns \<and> command_of ns = Some args \<and> main_cli ip env args w = (Inr code, w') \<and>
      (0 \<le> code \<and> code \<le> 125 \<or> code = 130)) \<or>
    parse_args udigit argv = Inl code \<and> w' = says code argv w \<and> (code = 2 \<or> code = 0 \<and> list_ex asks_help argv)"
proof (cases "parse_args udigit argv")
  case (Inl c)
  with assms parse_args_exit [OF Inl] show ?thesis by (auto simp: main_argv_def help_exit_def)
next
  case (Inr ns)
  from parse_args_command_of [OF Inr] obtain args where args: "command_of ns = Some args" by blast
  with assms Inr have run: "main_cli ip env args w = (Inr code, w')" by (simp add: main_argv_def)
  from exit_code_bounds [OF run] have "0 \<le> code \<and> code \<le> 125 \<or> code = 130" by (auto split: arguments.splits)
  with Inr args run show ?thesis by blast
qed

theorem program_exit_witness:
  "\<exists>code w' ns args. main_argv is_digit sample_interpreter prompt_env (\<lambda>_ _ w. w) [lit ''run'', lit ''s.yaml''] prompt_host = (Inr code, w') \<and>
     command_of ns = Some args \<and> main_cli sample_interpreter prompt_env args prompt_host = (Inr code, w') \<and> (0 \<le> code \<and> code \<le> 125 \<or> code = 130)"
proof -
  have "undashed (lit ''s.yaml'')" by (simp add: undashed_def lit_def)
  with run_line_meaning [of "[]" "[]" "lit ''s.yaml''" is_digit] obtain ns where
    ns: "parse_args is_digit [lit ''run'', lit ''s.yaml''] = Inr ns" "command_of ns = Some (Run (sample_args ''s.yaml''))"
    by (auto simp: given_value_def sample_args_def lit_def)
  obtain w' where "main_argv is_digit sample_interpreter prompt_env (\<lambda>_ _ w. w) [lit ''run'', lit ''s.yaml''] prompt_host = (Inr 0, w')"
    using prompt_main ns by (auto simp: main_argv_def)
  moreover from program_exit [OF this] ns(1) obtain ns' args where "command_of ns' = Some args"
    "main_cli sample_interpreter prompt_env args prompt_host = (Inr 0, w')"
    by (metis (no_types, lifting) Inl_Inr_False)
  ultimately show ?thesis by fastforce
qed

end
