(* ===== verification/Kernel_Tasks.thy ===== *)
theory Kernel_Tasks
  imports Kernel_Props
begin

text \<open>
  The file operations of \<open>kernel/vdevlab_core.c\<close> between the critical sections: any number of tasks are
  inside \<open>read\<close>, \<open>write\<close> or \<open>ioctl\<close>, every lock, every check of a wait condition and every wake-up is a
  step of its own, signals may arrive, and the memory of the caller may fault. Return values are the
  64-bit values the system call returns.
\<close>

section \<open>Return values\<close>

definition errno_code :: "errno \<Rightarrow> 32 word" where
  "errno_code e =
     (case e of E_INTR \<Rightarrow> 4 | E_IO \<Rightarrow> 5 | E_AGAIN \<Rightarrow> 11 | E_FAULT \<Rightarrow> 14 | E_NODEV \<Rightarrow> 19 | E_INVAL \<Rightarrow> 22 | E_NOTTY \<Rightarrow> 25
      | E_RESTARTSYS \<Rightarrow> 512)"

text \<open>An \<open>int\<close> returned as \<open>ssize_t\<close> or \<open>long\<close> is sign-extended.\<close>

definition int_ret :: "errno \<Rightarrow> 64 word" where
  "int_ret e = scast (- errno_code e)"

text \<open>
  The end of \<open>read\<close> and \<open>write\<close>: \<open>copied\<close> is \<open>unsigned int\<close> and \<open>ret\<close> is \<open>int\<close>, so the conditional
  expression has the type \<open>unsigned int\<close>, and the return extends it with zeros.
\<close>

definition copy_ret :: "nat \<Rightarrow> bool \<Rightarrow> 64 word" where
  "copy_ret copied fault =
     (if fault then ucast (if (of_nat copied :: 32 word) \<noteq> 0 then of_nat copied else - errno_code E_FAULT)
      else ucast (of_nat copied :: 32 word))"

section \<open>Tasks\<close>

datatype queue = ReadQ | WriteQ

datatype task =
    Returned "64 word" "byte list"
  | RFault bool nat bool "32 word"
  | RFifo bool nat bool "32 word"
  | RCheck nat bool "32 word"
  | RWait nat bool "32 word" bool
  | WTop bool "byte list"
  | WCheck "byte list"
  | WWait "byte list" bool
  | WPost "byte list"
  | WLock bool "byte list"
  | ICall byteorder "32 word" "byte list option"
  | Waking "queue list" "64 word" "byte list"

text \<open>
  A task outside a call has the value and the data of its last one. Inside a call it is about to apply
  the fault (\<open>RFault\<close>), to lock the FIFO (\<open>RFifo\<close>, \<open>WLock\<close>), to check the condition of the wait
  (\<open>RCheck\<close>, \<open>WCheck\<close>), asleep with a flag for a wake-up received (\<open>RWait\<close>, \<open>WWait\<close>), at the top of the
  write loop or after its wait (\<open>WTop\<close>, \<open>WPost\<close>), or about to wake queues (\<open>Waking\<close>).
\<close>

datatype call = Read bool nat | Write bool "byte list" | Ioctl byteorder "32 word" "byte list option"

fun enter :: "call \<Rightarrow> task" where
  "enter (Read nonblock count) = (if count = 0 then Returned 0 [] else RFault nonblock count False 0)"
| "enter (Write nonblock buf) = (if buf = [] then Returned 0 [] else WTop nonblock buf)"
| "enter (Ioctl order cmd arg) = ICall order cmd arg"

text \<open>\<open>kfifo_to_user\<close> and \<open>kfifo_from_user\<close>: the first \<open>mem\<close> bytes of the caller's memory can be accessed.\<close>

definition to_user :: "nat \<Rightarrow> nat \<Rightarrow> 32 word \<Rightarrow> vdevlab \<Rightarrow> task \<times> vdevlab" where
  "to_user mem count partial_read_bytes d =
     (let n = min count (length (kd_fifo d));
          to_copy = (if partial_read_bytes \<noteq> 0 then min n (unat partial_read_bytes) else n);
          copied = min to_copy mem
      in (Waking (if copied \<noteq> 0 then [WriteQ] else []) (copy_ret copied (copied < to_copy)) (take copied (kd_fifo d)),
          d\<lparr>kd_fifo := drop copied (kd_fifo d)\<rparr>))"

definition from_user :: "nat \<Rightarrow> byte list \<Rightarrow> vdevlab \<Rightarrow> task \<times> vdevlab" where
  "from_user mem buf d =
     (let to_copy = min (length buf) (VDEVLAB_FIFO_SIZE - length (kd_fifo d)); copied = min to_copy mem
      in (Waking (if copied \<noteq> 0 then [ReadQ] else []) (copy_ret copied (copied < to_copy)) [],
          d\<lparr>kd_fifo := kd_fifo d @ take copied buf\<rparr>))"

definition write_wakes :: "vdevlab \<Rightarrow> bool" where
  "write_wakes d \<longleftrightarrow> \<not> kfifo_is_full d \<or> vdevlab_is_disconnected d"

text \<open>
  \<open>wait_event_interruptible\<close>: the condition is checked before a pending signal; a sleeping task looks
  again only when a wake-up or a signal has reached it.
\<close>

definition wait_event :: "bool \<Rightarrow> bool \<Rightarrow> bool \<Rightarrow> task \<Rightarrow> task \<Rightarrow> task \<Rightarrow> task" where
  "wait_event signal runnable condition go sleep stay =
     (if \<not> runnable \<and> \<not> signal then stay
      else if condition then go
      else if signal then Returned (int_ret E_RESTARTSYS) []
      else sleep)"

definition ioctl_wakes :: "32 word \<Rightarrow> queue list" where
  "ioctl_wakes cmd = (if cmd = KERNEL_IOC_GET_FAULT then [] else [ReadQ, WriteQ])"

text \<open>One step of a task; the queues it wakes are the last component.\<close>

fun task_step :: "bool \<Rightarrow> nat \<Rightarrow> vdevlab \<Rightarrow> task \<Rightarrow> task \<times> vdevlab \<times> queue list" where
  "task_step signal mem d (Returned r bs) = (Returned r bs, d, [])"
| "task_step signal mem d (RFault nonblock count delay_applied partial) =
     (case vdevlab_apply_read_fault signal delay_applied partial d of
        (Some err, _, _, d1) \<Rightarrow> (Returned (int_ret err) [], d1, [])
      | (None, delay_applied1, partial1, d1) \<Rightarrow> (RFifo nonblock count delay_applied1 partial1, d1, []))"
| "task_step signal mem d (RFifo nonblock count delay_applied partial) =
     (if signal then (Returned (int_ret E_INTR) [], d, [])
      else if kd_fifo d \<noteq> [] then (case to_user mem count partial d of (t, d1) \<Rightarrow> (t, d1, []))
      else if nonblock then (Returned (int_ret E_AGAIN) [], d, [])
      else (RCheck count delay_applied partial, d, []))"
| "task_step signal mem d (RCheck count delay_applied partial) =
     (wait_event signal True (read_wakes d) (RFault False count delay_applied partial)
        (RWait count delay_applied partial False) (RCheck count delay_applied partial), d, [])"
| "task_step signal mem d (RWait count delay_applied partial woken) =
     (wait_event signal woken (read_wakes d) (RFault False count delay_applied partial)
        (RWait count delay_applied partial False) (RWait count delay_applied partial woken), d, [])"
| "task_step signal mem d (WTop nonblock buf) =
     (if vdevlab_is_disconnected d then (Returned (int_ret E_NODEV) [], d, [])
      else if nonblock then
        if kfifo_is_full d then (Returned (int_ret E_AGAIN) [], d, []) else (WLock True buf, d, [])
      else (WCheck buf, d, []))"
| "task_step signal mem d (WCheck buf) =
     (wait_event signal True (write_wakes d) (WPost buf) (WWait buf False) (WCheck buf), d, [])"
| "task_step signal mem d (WWait buf woken) =
     (wait_event signal woken (write_wakes d) (WPost buf) (WWait buf False) (WWait buf woken), d, [])"
| "task_step signal mem d (WPost buf) =
     (if vdevlab_is_disconnected d then (WTop False buf, d, []) else (WLock False buf, d, []))"
| "task_step signal mem d (WLock nonblock buf) =
     (if signal then (Returned (int_ret E_INTR) [], d, [])
      else if \<not> kfifo_is_full d then (case from_user mem buf d of (t, d1) \<Rightarrow> (t, d1, []))
      else if nonblock then (Returned (int_ret E_AGAIN) [], d, [])
      else (WTop False buf, d, []))"
| "task_step signal mem d (ICall order cmd arg) =
     (case vdevlab_ioctl order cmd arg d of
        (Inl err, d1) \<Rightarrow> (Returned (int_ret err) [], d1, [])
      | (Inr bs, d1) \<Rightarrow> (Waking (ioctl_wakes cmd) 0 bs, d1, []))"
| "task_step signal mem d (Waking [] r bs) = (Returned r bs, d, [])"
| "task_step signal mem d (Waking (q # qs) r bs) = (Waking qs r bs, d, [q])"

section \<open>The system\<close>

record system =
  sy_device :: vdevlab
  sy_tasks :: "nat \<Rightarrow> task"

fun woken_by :: "queue list \<Rightarrow> task \<Rightarrow> task" where
  "woken_by qs (RWait count delay_applied partial woken) = RWait count delay_applied partial (woken \<or> ReadQ \<in> set qs)"
| "woken_by qs (WWait buf woken) = WWait buf (woken \<or> WriteQ \<in> set qs)"
| "woken_by qs t = t"

definition run_task :: "nat \<Rightarrow> bool \<Rightarrow> nat \<Rightarrow> system \<Rightarrow> system" where
  "run_task i signal mem s =
     (case task_step signal mem (sy_device s) (sy_tasks s i) of
        (t, d, qs) \<Rightarrow> \<lparr>sy_device = d, sy_tasks = (\<lambda>j. if j = i then t else woken_by qs (sy_tasks s j))\<rparr>)"

inductive sys_step :: "system \<Rightarrow> system \<Rightarrow> bool" where
  sys_call: "sy_tasks s i = Returned r bs \<Longrightarrow> sys_step s (s\<lparr>sy_tasks := (sy_tasks s)(i := enter c)\<rparr>)"
| sys_run: "sys_step s (run_task i signal mem s)"

inductive_cases sys_stepE: "sys_step s s'"

definition sys_init :: system where
  "sys_init = \<lparr>sy_device = vdevlab_init, sy_tasks = (\<lambda>_. Returned 0 [])\<rparr>"

section \<open>No wake-up is lost\<close>

fun pending :: "queue \<Rightarrow> task \<Rightarrow> bool" where
  "pending q (Waking qs r bs) \<longleftrightarrow> q \<in> set qs"
| "pending q t \<longleftrightarrow> False"

text \<open>A task asleep on a queue that no wake-up has reached\<close>

fun asleep_on :: "queue \<Rightarrow> task \<Rightarrow> bool" where
  "asleep_on ReadQ (RWait count delay_applied partial woken) \<longleftrightarrow> \<not> woken"
| "asleep_on WriteQ (WWait buf woken) \<longleftrightarrow> \<not> woken"
| "asleep_on q t \<longleftrightarrow> False"

fun condition_of :: "queue \<Rightarrow> vdevlab \<Rightarrow> bool" where
  "condition_of ReadQ d = read_wakes d"
| "condition_of WriteQ d = write_wakes d"

definition no_lost_wakeup :: "system \<Rightarrow> bool" where
  "no_lost_wakeup s \<longleftrightarrow>
     (\<forall>q i. asleep_on q (sy_tasks s i) \<and> condition_of q (sy_device s) \<longrightarrow> (\<exists>j. pending q (sy_tasks s j)))"

lemma asleep_on_iff:
  "asleep_on ReadQ t \<longleftrightarrow> (\<exists>c da p. t = RWait c da p False)" "asleep_on WriteQ t \<longleftrightarrow> (\<exists>buf. t = WWait buf False)"
  by (cases t; simp)+

lemma wf_apply_fault_wakes:
  assumes "vdevlab_apply_read_fault signal da p d = (e, da', p', d')" "condition_of q d'"
  shows "condition_of q d"
  using assms
  by (cases q) (auto simp: vdevlab_apply_read_fault_def Let_def read_wakes_def write_wakes_def vdevlab_fault_interrupts_read_def
      vdevlab_is_disconnected_def kfifo_is_full_def vdevlab_clear_fault_locked_def no_fault_def split: if_splits)

lemma to_user_wakes:
  assumes "to_user mem count p d = (t, d')" "condition_of q d'"
  shows "condition_of q d \<or> pending q t"
  using assms
  by (cases q) (auto simp: to_user_def Let_def read_wakes_def write_wakes_def vdevlab_fault_interrupts_read_def
      vdevlab_is_disconnected_def kfifo_is_full_def split: if_splits)

lemma from_user_wakes:
  assumes "from_user mem buf d = (t, d')" "condition_of q d'"
  shows "condition_of q d \<or> pending q t"
  using assms
  by (cases q) (auto simp: from_user_def Let_def read_wakes_def write_wakes_def vdevlab_fault_interrupts_read_def
      vdevlab_is_disconnected_def kfifo_is_full_def split: if_splits)

lemma ioctl_wakes_both:
  assumes "vdevlab_ioctl order cmd arg d = (Inr bs, d')" "condition_of q d'"
  shows "condition_of q d \<or> q \<in> set (ioctl_wakes cmd)"
  using assms by (cases q) (auto simp: vdevlab_ioctl_def ioctl_wakes_def requests_distinct split: if_splits option.splits)

lemma ioctl_error_keeps: "vdevlab_ioctl order cmd arg d = (Inl e, d') \<Longrightarrow> d' = d"
  by (auto simp: vdevlab_ioctl_def split: if_splits option.splits sum.splits)

text \<open>A step that makes a condition true leaves its task with that wake-up to do.\<close>

lemma task_step_wakes:
  assumes "task_step signal mem d t = (t', d', qs)" "condition_of q d'"
  shows "condition_of q d \<or> pending q t'"
proof (cases t)
  case (RFault nb c da p)
  with assms wf_apply_fault_wakes [of signal da p d] show ?thesis by (auto split: prod.splits option.splits)
next
  case (RFifo nb c da p)
  with assms to_user_wakes [of mem c p d] show ?thesis by (auto split: prod.splits if_splits)
next
  case (WLock nb buf)
  with assms from_user_wakes [of mem buf d] show ?thesis by (auto split: prod.splits if_splits)
next
  case (ICall order cmd arg)
  obtain r d1 where r: "vdevlab_ioctl order cmd arg d = (r, d1)" by (cases "vdevlab_ioctl order cmd arg d")
  show ?thesis
  proof (cases r)
    case (Inl e)
    with ICall r assms ioctl_error_keeps [of order cmd arg d e d1] show ?thesis by auto
  next
    case (Inr bs)
    with ICall r assms ioctl_wakes_both [of order cmd arg d bs d1 q] show ?thesis by auto
  qed
next
  case (Waking ws r bs)
  with assms show ?thesis by (cases ws) auto
qed (use assms in \<open>auto split: if_splits\<close>)

text \<open>A wake-up to do is done or still to do.\<close>

lemma task_step_pending:
  assumes "task_step signal mem d t = (t', d', qs)" "pending q t"
  shows "pending q t' \<or> q \<in> set qs"
proof -
  obtain ws r bs where t: "t = Waking ws r bs" "q \<in> set ws" using assms(2) by (cases t) auto
  with assms(1) show ?thesis by (cases ws) auto
qed

text \<open>A task goes to sleep only when its condition does not hold.\<close>

lemma copy_not_asleep: "to_user mem count p d = (t, d') \<Longrightarrow> \<not> asleep_on q t" "from_user mem buf d = (t, d') \<Longrightarrow> \<not> asleep_on q t"
  by (cases q; auto simp: to_user_def from_user_def Let_def)+

lemma task_step_sleeps:
  assumes "task_step signal mem d t = (t', d', qs)" "asleep_on q t'"
  shows "\<not> condition_of q d' \<or> t' = t \<and> d' = d"
proof (cases t)
  case (RFault nb c da p)
  with assms show ?thesis by (cases q) (auto split: prod.splits option.splits)
next
  case (RFifo nb c da p)
  with assms copy_not_asleep(1) [of mem c p d] show ?thesis by (cases q) (auto split: prod.splits if_splits)
next
  case (WLock nb buf)
  with assms copy_not_asleep(2) [of mem buf d] show ?thesis by (cases q) (auto split: prod.splits if_splits)
next
  case (ICall order cmd arg)
  with assms show ?thesis by (cases q) (auto split: prod.splits sum.splits)
next
  case (Waking ws r bs)
  with assms show ?thesis by (cases ws; cases q) auto
qed (use assms in \<open>cases q; auto simp: wait_event_def split: if_splits\<close>)+

lemma woken_by_asleep: "asleep_on q (woken_by qs t) \<longleftrightarrow> asleep_on q t \<and> q \<notin> set qs"
  by (cases t; cases q) auto

lemma woken_by_pending [simp]: "pending q (woken_by qs t) \<longleftrightarrow> pending q t"
  by (cases t) auto

lemma asleep_wakes_none: "asleep_on q t \<Longrightarrow> task_step signal mem d t = (t', d', qs) \<Longrightarrow> qs = []"
  by (cases q) (auto simp: asleep_on_iff)

lemma run_task_lost:
  assumes "no_lost_wakeup s"
  shows "no_lost_wakeup (run_task i signal mem s)"
proof -
  obtain t d qs where st: "task_step signal mem (sy_device s) (sy_tasks s i) = (t, d, qs)" by (metis prod_cases3)
  let ?tasks = "\<lambda>j. if j = i then t else woken_by qs (sy_tasks s j)"
  have eq: "run_task i signal mem s = \<lparr>sy_device = d, sy_tasks = ?tasks\<rparr>" by (simp add: run_task_def st)
  have "\<exists>k. pending q (?tasks k)" if asl: "asleep_on q (?tasks j)" and cond: "condition_of q d" for q j
  proof (rule ccontr)
    assume none: "\<nexists>k. pending q (?tasks k)"
    have "\<not> pending q t" using none by (metis (full_types))
    then have c: "condition_of q (sy_device s)" using task_step_wakes [OF st cond] by simp
    have "q \<notin> set qs \<and> asleep_on q (sy_tasks s j)"
    proof (cases "j = i")
      case True
      with asl have "asleep_on q t" by simp
      with task_step_sleeps [OF st this] cond have "t = sy_tasks s i" by blast
      moreover have "asleep_on q (sy_tasks s i)" using calculation \<open>asleep_on q t\<close> by simp
      ultimately show ?thesis using True asleep_wakes_none [OF _ st] by simp
    next
      case False
      with asl show ?thesis by (simp add: woken_by_asleep)
    qed
    with assms c obtain k where k: "pending q (sy_tasks s k)" "q \<notin> set qs" unfolding no_lost_wakeup_def by blast
    then have "pending q (?tasks k)" using task_step_pending [OF st] by auto
    with none show False by blast
  qed
  then show ?thesis unfolding no_lost_wakeup_def eq system.select_convs by blast
qed

lemma enter_tasks: "\<not> asleep_on q (enter c)" "\<not> pending q (Returned r bs)"
  by (cases c; cases q; simp)+

lemma sys_step_lost: "sys_step s s' \<Longrightarrow> no_lost_wakeup s \<Longrightarrow> no_lost_wakeup s'"
proof (induction rule: sys_step.induct)
  case (sys_call s i r bs c)
  then show ?case unfolding no_lost_wakeup_def by (auto simp: enter_tasks) (metis enter_tasks(2))
qed (rule run_task_lost)

text \<open>The device stays well formed.\<close>

lemma user_copy_wf:
  "wf_device d \<Longrightarrow> to_user mem count p d = (t, d') \<Longrightarrow> wf_device d'"
  "wf_device d \<Longrightarrow> from_user mem buf d = (t, d') \<Longrightarrow> wf_device d'"
  by (auto simp: to_user_def from_user_def Let_def wf_device_def)

lemma task_step_wf:
  assumes "task_step signal mem d t = (t', d', qs)" "wf_device d"
  shows "wf_device d'"
proof (cases t)
  case (RFault nb c da p)
  with assms wf_apply_read_fault [OF assms(2)] show ?thesis by (auto split: prod.splits option.splits)
next
  case (ICall order cmd arg)
  with assms wf_ioctl [OF assms(2), of order cmd arg] show ?thesis by (auto split: prod.splits sum.splits)
next
  case (Waking ws r bs)
  with assms show ?thesis by (cases ws) auto
qed (use assms user_copy_wf [OF assms(2)] in \<open>auto split: prod.splits if_splits\<close>)

interpretation tasks: state_machine sys_init sys_step "\<lambda>s. wf_device (sy_device s) \<and> no_lost_wakeup s"
proof unfold_locales
  show "wf_device (sy_device sys_init) \<and> no_lost_wakeup sys_init"
  proof -
    have "\<not> asleep_on q (Returned 0 [])" for q by (cases q) simp_all
    then show ?thesis using device.inv_init by (simp add: sys_init_def no_lost_wakeup_def)
  qed
  show "wf_device (sy_device s') \<and> no_lost_wakeup s'"
    if "sys_step s s'" "wf_device (sy_device s) \<and> no_lost_wakeup s" for s s'
  proof
    show "no_lost_wakeup s'" using sys_step_lost that by blast
    show "wf_device (sy_device s')"
      using that task_step_wf by (auto elim!: sys_stepE simp: run_task_def split: prod.splits)
  qed
qed

end
