(* ===== verification/Kernel_Solo.thy ===== *)
theory Kernel_Solo
  imports Kernel_Tasks
begin

text \<open>
  A call that runs without interference: the steps of \<open>Kernel_Tasks\<close> give the results of the operations
  of \<open>Kernel_Device\<close>.
\<close>

text \<open>A task running alone, without signals\<close>

primrec run_alone :: "nat \<Rightarrow> nat \<Rightarrow> nat \<Rightarrow> system \<Rightarrow> system" where
  "run_alone i mem 0 s = s"
| "run_alone i mem (Suc n) s = run_alone i mem n (run_task i False mem s)"

section \<open>Completion\<close>

lemma run_alone_task:
  "task_step False mem (sy_device s) (sy_tasks s i) = (t, d, qs) \<Longrightarrow>
     run_alone i mem (Suc n) s = run_alone i mem n \<lparr>sy_device = d, sy_tasks = (\<lambda>j. if j = i then t else woken_by qs (sy_tasks s j))\<rparr>"
  by (simp add: run_task_def)

lemma run_alone_returned: "sy_tasks s i = Returned r bs \<Longrightarrow> sy_tasks (run_alone i mem n s) i = Returned r bs \<and> sy_device (run_alone i mem n s) = sy_device s"
  by (induction n arbitrary: s) (simp_all add: run_task_def)

text \<open>Wakers finish.\<close>

lemma run_alone_waking:
  "sy_tasks s i = Waking qs r bs \<Longrightarrow> length qs < n \<Longrightarrow>
     sy_tasks (run_alone i mem n s) i = Returned r bs \<and> sy_device (run_alone i mem n s) = sy_device s"
proof (induction n arbitrary: s qs)
  case (Suc n)
  show ?case
  proof (cases qs)
    case Nil
    with Suc.prems show ?thesis using run_alone_returned by (simp add: run_task_def)
  next
    case (Cons q qs')
    with Suc.prems Suc.IH [of "run_task i False mem s" qs'] show ?thesis by (simp add: run_task_def)
  qed
qed simp

definition reaches :: "nat \<Rightarrow> nat \<Rightarrow> nat \<Rightarrow> system \<Rightarrow> task \<Rightarrow> vdevlab \<Rightarrow> bool" where
  "reaches i mem n s t d \<longleftrightarrow> sy_tasks (run_alone i mem n s) i = t \<and> sy_device (run_alone i mem n s) = d"

lemma reaches_step:
  assumes "task_step False mem (sy_device s) (sy_tasks s i) = (t, d, qs)"
    and "\<And>s'. sy_tasks s' i = t \<Longrightarrow> sy_device s' = d \<Longrightarrow> reaches i mem n s' t' d'"
  shows "reaches i mem (Suc n) s t' d'"
proof -
  let ?s = "\<lparr>sy_device = d, sy_tasks = (\<lambda>j. if j = i then t else woken_by qs (sy_tasks s j))\<rparr>"
  have "reaches i mem n ?s t' d'" by (rule assms(2)) simp_all
  then show ?thesis unfolding reaches_def run_alone_task [OF assms(1)] .
qed

lemma reaches_returned: "sy_tasks s i = Returned r bs \<Longrightarrow> sy_device s = d \<Longrightarrow> reaches i mem n s (Returned r bs) d"
  using run_alone_returned [of s i r bs mem n] by (simp add: reaches_def)

lemma reaches_waking:
  "sy_tasks s i = Waking qs r bs \<Longrightarrow> sy_device s = d \<Longrightarrow> length qs < n \<Longrightarrow> reaches i mem n s (Returned r bs) d"
  using run_alone_waking [of s i qs r bs n mem] by (simp add: reaches_def)

text \<open>The value and the data of a call as the operations of \<open>Kernel_Device\<close> give them\<close>

fun read_ret :: "errno + byte list \<Rightarrow> task" where
  "read_ret (Inl e) = Returned (int_ret e) []"
| "read_ret (Inr bs) = Returned (of_nat (length bs)) bs"

fun write_ret :: "errno + nat \<Rightarrow> task" where
  "write_ret (Inl e) = Returned (int_ret e) []"
| "write_ret (Inr n) = Returned (of_nat n) []"

lemma copy_ret_ok: "n < 2 ^ 32 \<Longrightarrow> copy_ret n False = of_nat n"
  by (simp add: copy_ret_def unsigned_of_nat take_bit_nat_eq_self)

lemma to_user_all:
  assumes "wf_device d" "count \<le> mem"
  shows "\<exists>qs. to_user mem count p d = (Waking qs (of_nat (length (fst (read_copy count p d)))) (fst (read_copy count p d)), snd (read_copy count p d))
    \<and> length qs \<le> 1"
proof -
  define n where "n = (if p \<noteq> 0 then min (min count (length (kd_fifo d))) (unat p) else min count (length (kd_fifo d)))"
  have "n \<le> count" "n \<le> length (kd_fifo d)" by (auto simp: n_def)
  moreover have "length (kd_fifo d) \<le> 4096" using assms(1) by (simp add: wf_device_def VDEVLAB_FIFO_SIZE_def)
  ultimately have "copy_ret n False = of_nat n" "min n mem = n" using assms(2) by (auto intro: copy_ret_ok)
  with \<open>n \<le> length (kd_fifo d)\<close> show ?thesis by (simp add: to_user_def read_copy_def Let_def n_def [symmetric])
qed

lemma from_user_all:
  assumes "length buf \<le> mem"
  shows "\<exists>qs. from_user mem buf d = (Waking qs (of_nat (fst (write_copy buf d))) [], snd (write_copy buf d)) \<and> length qs \<le> 1"
proof -
  define n where "n = min (length buf) (VDEVLAB_FIFO_SIZE - length (kd_fifo d))"
  have "n \<le> 4096" "n \<le> mem" using assms by (auto simp: n_def VDEVLAB_FIFO_SIZE_def)
  then have "copy_ret n False = of_nat n" "min n mem = n" by (auto intro: copy_ret_ok)
  then show ?thesis by (simp add: from_user_def write_copy_def Let_def n_def [symmetric])
qed

lemma read_loop_reaches:
  assumes "sy_tasks s i = RFault nb count da p" "wf_device (sy_device s)" "count \<le> mem" "4 \<le> n"
    and "vdevlab_read_loop nb False count da p (sy_device s) [] = Some (r, d')"
  shows "reaches i mem n s (read_ret r) d'"
proof -
  obtain k where n: "n = Suc (Suc k)" "2 \<le> k" using assms(4) that [of "n - 2"] by simp
  obtain e da1 p1 d1 where app: "vdevlab_apply_read_fault False da p (sy_device s) = (e, da1, p1, d1)" by (metis prod_cases4)
  have wf: "wf_device d1" by (rule wf_apply_read_fault [OF assms(2) app])
  show ?thesis
  proof (cases e)
    case (Some err)
    with app assms(5) have r: "r = Inl err" "d' = d1" by (simp_all add: vdevlab_read_loop.simps [of _ _ _ _ _ _ "[]"])
    show ?thesis unfolding n(1) by (rule reaches_step) (use app Some assms(1) r in \<open>auto intro: reaches_returned\<close>)
  next
    case None
    show ?thesis unfolding n(1)
    proof (rule reaches_step)
      show "task_step False mem (sy_device s) (sy_tasks s i) = (RFifo nb count da1 p1, d1, [])" using app None assms(1) by simp
      fix s' :: system assume s': "sy_tasks s' i = RFifo nb count da1 p1" "sy_device s' = d1"
      show "reaches i mem (Suc k) s' (read_ret r) d'"
      proof (cases "kd_fifo d1 = []")
        case True
        with app None assms(5) have "nb" "r = Inl E_AGAIN" "d' = d1"
          by (auto simp: vdevlab_read_loop.simps [of _ _ _ _ _ _ "[]"] split: if_splits)
        with True s' show ?thesis by (rule_tac reaches_step [where qs = "[]"], simp) (auto intro: reaches_returned)
      next
        case False
        obtain qs where qs: "to_user mem count p1 d1 =
            (Waking qs (of_nat (length (fst (read_copy count p1 d1)))) (fst (read_copy count p1 d1)), snd (read_copy count p1 d1))"
          "length qs \<le> 1" using to_user_all [OF wf assms(3)] by blast
        from False app None assms(5) have "r = Inr (fst (read_copy count p1 d1))" "d' = snd (read_copy count p1 d1)"
          by (auto simp: vdevlab_read_loop.simps [of _ _ _ _ _ _ "[]"] split: prod.splits)
        with False s' qs n(2) show ?thesis by (rule_tac reaches_step [where qs = "[]"], simp) (auto intro: reaches_waking)
      qed
    qed
  qed
qed

lemma reaches_asleep:
  assumes "asleep_on q (sy_tasks s i)" "sy_tasks s i = t" "sy_device s = d"
  shows "reaches i mem n s t d"
  using assms
proof (induction n arbitrary: s)
  case (Suc n)
  have st: "task_step False mem (sy_device s) (sy_tasks s i) = (t, d, [])"
    using Suc.prems by (cases q) (auto simp: asleep_on_iff wait_event_def)
  show ?case by (rule reaches_step [OF st]) (use Suc in simp)
qed (simp add: reaches_def)

lemma read_loop_sleeps:
  assumes "sy_tasks s i = RFault nb count da p" "wf_device (sy_device s)" "3 \<le> n"
    and "vdevlab_read_loop nb False count da p (sy_device s) [] = None"
  shows "\<exists>t. reaches i mem n s t (sy_device s) \<and> asleep_on ReadQ t \<and> \<not> read_wakes (sy_device s)"
proof -
  obtain k where n: "n = Suc (Suc (Suc k))" using assms(3) that [of "n - 3"] by simp
  obtain e da1 p1 d1 where app: "vdevlab_apply_read_fault False da p (sy_device s) = (e, da1, p1, d1)" by (metis prod_cases4)
  from app assms(4) have e: "e = None" "kd_fifo d1 = []" "\<not> nb"
    by (auto simp: vdevlab_read_loop.simps [of _ _ _ _ _ _ "[]"] split: option.splits prod.splits if_splits)
  have d1: "d1 = sy_device s" "\<not> vdevlab_fault_interrupts_read d1"
    using app e(1) assms(2)
    by (auto simp: vdevlab_apply_read_fault_def Let_def wf_device_def wf_config_def vdevlab_fault_interrupts_read_def split: if_splits)
  then have c: "\<not> read_wakes d1" using e(2) by (simp add: read_wakes_def)
  have "reaches i mem n s (RWait count da1 p1 False) d1" unfolding n
  proof (rule reaches_step)
    show "task_step False mem (sy_device s) (sy_tasks s i) = (RFifo nb count da1 p1, d1, [])" using app e assms(1) by simp
    fix s1 :: system assume "sy_tasks s1 i = RFifo nb count da1 p1" "sy_device s1 = d1"
    then show "reaches i mem (Suc (Suc k)) s1 (RWait count da1 p1 False) d1"
      using e c by (rule_tac reaches_step [where qs = "[]"], simp)
        (rule reaches_step [where qs = "[]"], simp add: wait_event_def, auto intro!: reaches_asleep [where q = ReadQ])
  qed
  with c d1 show ?thesis by auto
qed

lemma write_reaches:
  assumes "sy_tasks s i = WTop nb buf" "buf \<noteq> []" "length buf \<le> mem" "6 \<le> n"
    and "vdevlab_write nb buf (sy_device s) [] = Some (r, d')"
  shows "reaches i mem n s (write_ret r) d'"
proof -
  let ?d = "sy_device s"
  obtain k where n: "n = Suc (Suc (Suc (Suc k)))" "2 \<le> k" using assms(4) that [of "n - 4"] by simp
  have lock: "reaches i mem (Suc m) s1 (write_ret r) d'"
    if "sy_tasks s1 i = WLock b buf" "sy_device s1 = ?d" "\<not> kfifo_is_full ?d" "\<not> vdevlab_is_disconnected ?d" "2 \<le> m" for s1 :: system and b m
  proof -
    obtain qs where "from_user mem buf ?d = (Waking qs (of_nat (fst (write_copy buf ?d))) [], snd (write_copy buf ?d))" "length qs \<le> 1"
      using from_user_all [OF assms(3)] by blast
    moreover have "r = Inr (fst (write_copy buf ?d))" "d' = snd (write_copy buf ?d)"
      using assms(2,5) that by (auto simp: vdevlab_write_def split: prod.splits)
    ultimately show ?thesis using that by (rule_tac reaches_step [where qs = "[]"], simp) (auto intro: reaches_waking)
  qed
  consider "vdevlab_is_disconnected ?d" | "\<not> vdevlab_is_disconnected ?d" "kfifo_is_full ?d" | "\<not> vdevlab_is_disconnected ?d" "\<not> kfifo_is_full ?d"
    by blast
  then show ?thesis
  proof cases
    case 1
    with assms(1,2,5) show ?thesis unfolding n(1)
      by (rule_tac reaches_step [where qs = "[]"], simp) (auto simp: vdevlab_write_def intro: reaches_returned)
  next
    case 2
    with assms(2,5) have "nb" "r = Inl E_AGAIN" "d' = ?d" by (auto simp: vdevlab_write_def split: if_splits)
    with 2 assms(1) show ?thesis unfolding n(1) by (rule_tac reaches_step [where qs = "[]"], simp) (auto intro: reaches_returned)
  next
    case 3
    show ?thesis
    proof (cases nb)
      case True
      with 3 assms(1) n(2) show ?thesis unfolding n(1) by (rule_tac reaches_step [where qs = "[]"], simp) (auto intro: lock)
    next
      case False
      have post: "reaches i mem (Suc (Suc k)) s1 (write_ret r) d'" if "sy_tasks s1 i = WPost buf" "sy_device s1 = ?d" for s1 :: system
        using 3 that n(2) by (rule_tac reaches_step [where qs = "[]"], simp) (auto intro: lock)
      have check: "reaches i mem (Suc (Suc (Suc k))) s1 (write_ret r) d'" if "sy_tasks s1 i = WCheck buf" "sy_device s1 = ?d" for s1 :: system
        using 3 that by (rule_tac reaches_step [where qs = "[]"], simp add: wait_event_def write_wakes_def) (auto intro: post)
      show ?thesis unfolding n(1) using 3 False assms(1) by (rule_tac reaches_step [where qs = "[]"], simp) (auto intro: check)
    qed
  qed
qed

lemma write_sleeps:
  assumes "sy_tasks s i = WTop nb buf" "2 \<le> n" and "vdevlab_write nb buf (sy_device s) [] = None"
  shows "\<exists>t. reaches i mem n s t (sy_device s) \<and> asleep_on WriteQ t \<and> \<not> write_wakes (sy_device s)"
proof -
  obtain k where n: "n = Suc (Suc k)" using assms(2) that [of "n - 2"] by simp
  have c: "\<not> vdevlab_is_disconnected (sy_device s)" "kfifo_is_full (sy_device s)" "\<not> nb"
    using assms(3) by (auto simp: vdevlab_write_def split: if_splits prod.splits)
  have "reaches i mem n s (WWait buf False) (sy_device s)" unfolding n
    using c assms(1) by (rule_tac reaches_step [where qs = "[]"], simp)
      (rule reaches_step [where qs = "[]"], simp add: wait_event_def write_wakes_def, auto intro!: reaches_asleep [where q = WriteQ])
  with c show ?thesis by (auto simp: write_wakes_def)
qed

section \<open>Calls against their specification\<close>

text \<open>What a call does according to the operations of \<open>Kernel_Device\<close>; \<open>None\<close> when it sleeps\<close>

fun call_spec :: "call \<Rightarrow> vdevlab \<Rightarrow> (task \<times> vdevlab) option" where
  "call_spec (Read nonblock count) d = map_option (map_prod read_ret id) (vdevlab_read nonblock False count d [])"
| "call_spec (Write nonblock buf) d = map_option (map_prod write_ret id) (vdevlab_write nonblock buf d [])"
| "call_spec (Ioctl order cmd arg) d =
     (case vdevlab_ioctl order cmd arg d of
        (Inl e, d') \<Rightarrow> Some (Returned (int_ret e) [], d')
      | (Inr bs, d') \<Rightarrow> Some (Returned 0 bs, d'))"

fun call_size :: "call \<Rightarrow> nat" where
  "call_size (Read nonblock count) = count"
| "call_size (Write nonblock buf) = length buf"
| "call_size (Ioctl order cmd arg) = 0"

fun call_queue :: "call \<Rightarrow> queue" where
  "call_queue (Write nonblock buf) = WriteQ"
| "call_queue c = ReadQ"

definition runs_as :: "nat \<Rightarrow> nat \<Rightarrow> call \<Rightarrow> system \<Rightarrow> bool" where
  "runs_as i mem c s \<longleftrightarrow>
     (case call_spec c (sy_device s) of
        Some (t, d') \<Rightarrow> reaches i mem 7 s t d'
      | None \<Rightarrow> \<exists>t. reaches i mem 7 s t (sy_device s) \<and> asleep_on (call_queue c) t
                  \<and> \<not> condition_of (call_queue c) (sy_device s))"

lemma ioctl_reaches:
  assumes "sy_tasks s i = ICall order cmd arg"
  shows "runs_as i mem (Ioctl order cmd arg) s"
proof -
  obtain r d' where r: "vdevlab_ioctl order cmd arg (sy_device s) = (r, d')" by fastforce
  have n: "(7 :: nat) = Suc 6" by simp
  have len: "length (ioctl_wakes cmd) < 6" by (simp add: ioctl_wakes_def)
  show ?thesis
  proof (cases r)
    case (Inl e)
    have "reaches i mem 7 s (Returned (int_ret e) []) d'" unfolding n
      by (rule reaches_step) (use assms r Inl in \<open>auto intro: reaches_returned\<close>)
    with r Inl show ?thesis by (simp add: runs_as_def)
  next
    case (Inr bs)
    have "reaches i mem 7 s (Returned 0 bs) d'" unfolding n
      by (rule reaches_step) (use assms r Inr len in \<open>auto intro: reaches_waking\<close>)
    with r Inr show ?thesis by (simp add: runs_as_def)
  qed
qed

lemma read_runs_as:
  assumes "sy_tasks s i = enter (Read nb count)" "wf_device (sy_device s)" "count \<le> mem"
  shows "runs_as i mem (Read nb count) s"
proof (cases "count = 0")
  case True
  with assms(1) show ?thesis by (simp add: runs_as_def vdevlab_read_def reaches_returned)
next
  case False
  then have t: "sy_tasks s i = RFault nb count False 0" using assms(1) by simp
  show ?thesis
  proof (cases "vdevlab_read_loop nb False count False 0 (sy_device s) []")
    case None
    from read_loop_sleeps [OF t assms(2) _ None, of 7 mem] False None show ?thesis by (simp add: runs_as_def vdevlab_read_def)
  next
    case (Some rd)
    obtain r d' where "rd = (r, d')" by fastforce
    with read_loop_reaches [OF t assms(2,3), of 7 r d'] False Some show ?thesis by (simp add: runs_as_def vdevlab_read_def)
  qed
qed

lemma write_runs_as:
  assumes "sy_tasks s i = enter (Write nb buf)" "length buf \<le> mem"
  shows "runs_as i mem (Write nb buf) s"
proof (cases "buf = []")
  case True
  with assms(1) show ?thesis by (simp add: runs_as_def vdevlab_write_def reaches_returned)
next
  case False
  then have t: "sy_tasks s i = WTop nb buf" using assms(1) by simp
  show ?thesis
  proof (cases "vdevlab_write nb buf (sy_device s) []")
    case None
    from write_sleeps [OF t _ None, of 7 mem] None show ?thesis by (simp add: runs_as_def)
  next
    case (Some rd)
    obtain r d' where "rd = (r, d')" by fastforce
    with write_reaches [OF t False assms(2), of 7 r d'] Some show ?thesis by (simp add: runs_as_def)
  qed
qed

text \<open>
  C13. In every reachable state of the concurrent system, a call that has just entered the module, with memory
  for its data, and then runs without signals and without another task in between, ends after at most seven
  of its steps with exactly the value, the data and the device that the operations of \<open>Kernel_Device\<close> give;
  where they do not return, it is asleep on its queue, the device is unchanged and the condition it waits
  for does not hold.
\<close>

theorem solo_call_refines:
  assumes "sys_step\<^sup>*\<^sup>* sys_init s" "sy_tasks s i = enter c" "call_size c \<le> mem"
  shows "case call_spec c (sy_device s) of
      Some (t, d') \<Rightarrow> reaches i mem 7 s t d'
    | None \<Rightarrow> \<exists>t. reaches i mem 7 s t (sy_device s) \<and> asleep_on (call_queue c) t
              \<and> \<not> condition_of (call_queue c) (sy_device s)"
proof -
  have wf: "wf_device (sy_device s)" using tasks.inv_reachable [OF assms(1)] by blast
  have "runs_as i mem c s"
    using assms(2,3) wf by (cases c) (auto intro: read_runs_as write_runs_as ioctl_reaches simp del: enter.simps(1,2))
  then show ?thesis by (simp add: runs_as_def)
qed

theorem solo_call_refines_witness:
  "reaches 2 100 7 (sys_init\<lparr>sy_tasks := (sy_tasks sys_init)(2 := enter (Write False [72, 105]))\<rparr>)
     (Returned 2 []) (vdevlab_init\<lparr>kd_fifo := [72, 105]\<rparr>)"
proof -
  let ?s = "sys_init\<lparr>sy_tasks := (sy_tasks sys_init)(2 := enter (Write False [72, 105]))\<rparr>"
  have "sys_step sys_init ?s" by (rule sys_call [where r = 0 and bs = "[]"]) (simp add: sys_init_def)
  then have "sys_step\<^sup>*\<^sup>* sys_init ?s" by blast
  from solo_call_refines [OF this, of 2 "Write False [72, 105]" 100] show ?thesis
    by (simp add: sys_init_def vdevlab_write_def vdevlab_init_def write_copy_def Let_def kfifo_is_full_def VDEVLAB_FIFO_SIZE_def
        vdevlab_is_disconnected_def no_fault_def fault_types)
qed

section \<open>Faults of the caller's memory\<close>

lemma copy_ret_fault: "n < 2 ^ 32 \<Longrightarrow> copy_ret n True = (if n = 0 then 0xFFFFFFF2 else of_nat n)"
  by (auto simp: copy_ret_def errno_code_def unsigned_of_nat take_bit_nat_eq_self word_of_nat_eq_0_iff dest: dvd_imp_le)

lemma read_fault_step:
  assumes "wf_device d" "mem < length (fst (read_copy count p d))"
  shows "task_step False mem d (RFifo nonblock count delay_applied p) =
      (Waking (if mem = 0 then [] else [WriteQ]) (if mem = 0 then 0xFFFFFFF2 else of_nat mem) (take mem (kd_fifo d)),
       d\<lparr>kd_fifo := drop mem (kd_fifo d)\<rparr>, [])"
proof -
  have "mem < (if p \<noteq> 0 then min (min count (length (kd_fifo d))) (unat p) else min count (length (kd_fifo d)))"
    using assms(2) by (simp add: read_copy_def Let_def split: if_splits)
  moreover from this have "kd_fifo d \<noteq> []" "mem < 2 ^ 32"
    using assms(1) by (auto simp: wf_device_def VDEVLAB_FIFO_SIZE_def split: if_splits)
  ultimately show ?thesis by (simp add: to_user_def Let_def copy_ret_fault min_def split: if_splits)
qed

lemma write_fault_step:
  assumes "mem < fst (write_copy buf d)"
  shows "task_step False mem d (WLock nonblock buf) =
      (Waking (if mem = 0 then [] else [ReadQ]) (if mem = 0 then 0xFFFFFFF2 else of_nat mem) [],
       d\<lparr>kd_fifo := kd_fifo d @ take mem buf\<rparr>, [])"
proof -
  have m: "mem < length buf" "mem < VDEVLAB_FIFO_SIZE - length (kd_fifo d)" using assms by (auto simp: write_copy_def Let_def)
  then have "\<not> kfifo_is_full d" "mem < 2 ^ 32" by (auto simp: kfifo_is_full_def VDEVLAB_FIFO_SIZE_def)
  with m show ?thesis by (simp add: from_user_def Let_def copy_ret_fault min_def)
qed

text \<open>
  C20. When the caller's memory faults after \<open>mem\<close> bytes of the copy of a read or a write, exactly those bytes
  have moved and their number is returned; when it faults at the first byte, nothing has moved, nobody is
  woken, and the value is \<open>0xFFFFFFF2\<close>, which is positive at 64 bits: a caller sees four gigabytes
  transferred and not the error \<open>-EFAULT\<close>, which is \<open>-14\<close>.
\<close>

theorem user_fault_return:
  assumes "wf_device d"
  shows "(mem < length (fst (read_copy count partial d)) \<longrightarrow>
           task_step False mem d (RFifo nonblock count delay_applied partial) =
             (Waking (if mem = 0 then [] else [WriteQ]) (if mem = 0 then 0xFFFFFFF2 else of_nat mem) (take mem (kd_fifo d)),
              d\<lparr>kd_fifo := drop mem (kd_fifo d)\<rparr>, []))
       \<and> (mem < fst (write_copy buf d) \<longrightarrow>
           task_step False mem d (WLock nonblock buf) =
             (Waking (if mem = 0 then [] else [ReadQ]) (if mem = 0 then 0xFFFFFFF2 else of_nat mem) [],
              d\<lparr>kd_fifo := kd_fifo d @ take mem buf\<rparr>, []))
       \<and> 0 < sint (0xFFFFFFF2 :: 64 word) \<and> sint (int_ret E_FAULT) = - 14"
  using read_fault_step [OF assms, of mem count partial nonblock delay_applied] write_fault_step [of mem buf d nonblock]
  by (simp add: int_ret_def errno_code_def)

theorem user_fault_return_witness:
  "task_step False 0 (vdevlab_init\<lparr>kd_fifo := [72, 105]\<rparr>) (RFifo False 2 False 0) =
     (Waking [] 0xFFFFFFF2 [], vdevlab_init\<lparr>kd_fifo := [72, 105]\<rparr>, [])
   \<and> task_step False 1 (vdevlab_init\<lparr>kd_fifo := [72, 105]\<rparr>) (WLock False [33, 10]) =
     (Waking [ReadQ] 1 [], vdevlab_init\<lparr>kd_fifo := [72, 105, 33]\<rparr>, [])"
proof -
  have wf: "wf_device (vdevlab_init\<lparr>kd_fifo := [72, 105]\<rparr>)" by (simp add: wf_device_def vdevlab_init_def VDEVLAB_FIFO_SIZE_def)
  show ?thesis
    using user_fault_return [OF wf, of 0 2 0 False False "[33, 10]"] user_fault_return [OF wf, of 1 2 0 False False "[33, 10]"]
    by (simp add: read_copy_def write_copy_def Let_def vdevlab_init_def VDEVLAB_FIFO_SIZE_def del: task_step.simps)
qed

end
