(* ===== verification/Kernel_Fair.thy ===== *)
theory Kernel_Fair
  imports Kernel_Tasks "HOL-Library.Countable"
begin

text \<open>
  Infinite runs of the tasks of \<open>Kernel_Tasks\<close> under a scheduler that lets every task run again and again.
\<close>

section \<open>Fair runs\<close>

text \<open>An interface of a system whose components take steps, and the rule that a fair component acts\<close>

locale interleaving =
  fixes init :: 's and step :: "'s \<Rightarrow> 's \<Rightarrow> bool" and acts :: "'i \<Rightarrow> 's \<Rightarrow> 's \<Rightarrow> bool"
  assumes acts_step: "acts i s s' \<Longrightarrow> step s s'"
begin

lemma run_reachable:
  assumes "r 0 = init" "\<forall>n. step (r n) (r (Suc n))"
  shows "step\<^sup>*\<^sup>* init (r n)"
  using assms by (induction n) (auto intro: rtranclp.rtrancl_into_rtrancl)

lemma weak_fairness:
  assumes fair: "\<forall>n. \<exists>m\<ge>n. acts i (r m) (r (Suc m))"
    and "P (r n)"
    and keep: "\<And>m. n \<le> m \<Longrightarrow> P (r m) \<Longrightarrow> P (r (Suc m)) \<or> Q (r (Suc m))"
    and own: "\<And>m. n \<le> m \<Longrightarrow> P (r m) \<Longrightarrow> acts i (r m) (r (Suc m)) \<Longrightarrow> Q (r (Suc m))"
  shows "\<exists>m\<ge>n. Q (r m)"
proof (rule ccontr)
  assume none: "\<not> (\<exists>m\<ge>n. Q (r m))"
  have P: "P (r m)" if "n \<le> m" for m
    using that
  proof (induction m rule: dec_induct)
    case (step m)
    with keep [of m] none show ?case by (meson le_SucI)
  qed (rule assms(2))
  obtain m where "n \<le> m" "acts i (r m) (r (Suc m))" using fair by blast
  with own [of m] P [of m] none show False by (meson le_SucI)
qed

end

definition task_acts :: "nat \<Rightarrow> system \<Rightarrow> system \<Rightarrow> bool" where
  "task_acts i s s' \<longleftrightarrow> (\<exists>signal mem. s' = run_task i signal mem s)"

interpretation threads: interleaving sys_init sys_step task_acts
  by unfold_locales (auto simp: task_acts_def intro: sys_run)

definition execution :: "(nat \<Rightarrow> system) \<Rightarrow> bool" where
  "execution r \<longleftrightarrow> r 0 = sys_init \<and> (\<forall>n. sys_step (r n) (r (Suc n)))"

definition fair :: "(nat \<Rightarrow> system) \<Rightarrow> bool" where
  "fair r \<longleftrightarrow> (\<forall>i n. \<exists>m\<ge>n. task_acts i (r m) (r (Suc m)))"

section \<open>Progress of one task\<close>

text \<open>The tasks inside a call on the read or the write queue\<close>

fun in_call :: "queue \<Rightarrow> task \<Rightarrow> bool" where
  "in_call ReadQ (RFault nb c da p) = True"
| "in_call ReadQ (RFifo nb c da p) = True"
| "in_call ReadQ (RCheck c da p) = True"
| "in_call ReadQ (RWait c da p w) = True"
| "in_call WriteQ (WTop nb buf) = True"
| "in_call WriteQ (WCheck buf) = True"
| "in_call WriteQ (WWait buf w) = True"
| "in_call WriteQ (WPost buf) = True"
| "in_call WriteQ (WLock nb buf) = True"
| "in_call q t = False"

fun served :: "queue \<Rightarrow> vdevlab \<Rightarrow> bool" where
  "served ReadQ d \<longleftrightarrow> kd_fifo d \<noteq> []"
| "served WriteQ d \<longleftrightarrow> \<not> kfifo_is_full d \<and> \<not> vdevlab_is_disconnected d"

text \<open>The steps a task still has to take, on a device that serves it or on a disconnected one\<close>

fun remaining :: "bool \<Rightarrow> task \<Rightarrow> nat" where
  "remaining gone (RWait c da p w) = (if w then 7 else 8)"
| "remaining gone (RCheck c da p) = 7"
| "remaining gone (RFault nb c da p) = 6"
| "remaining gone (RFifo nb c da p) = (if gone then 9 else 5)"
| "remaining gone (WTop nb buf) = (if gone then 5 else 8)"
| "remaining gone (WWait buf w) = (if w then 7 else 8)"
| "remaining gone (WCheck buf) = 7"
| "remaining gone (WPost buf) = 6"
| "remaining gone (WLock nb buf) = (if gone then 9 else 5)"
| "remaining gone (Waking qs r bs) = length qs"
| "remaining gone t = 0"

definition provides :: "bool \<Rightarrow> queue \<Rightarrow> vdevlab \<Rightarrow> bool" where
  "provides gone q d \<longleftrightarrow> (if gone then vdevlab_is_disconnected d else served q d)"

lemma provides_condition: "provides gone q d \<Longrightarrow> condition_of q d"
  by (cases q) (auto simp: provides_def read_wakes_def write_wakes_def vdevlab_fault_interrupts_read_def vdevlab_is_disconnected_def split: if_splits)

definition advanced :: "bool \<Rightarrow> queue \<Rightarrow> task \<Rightarrow> task \<Rightarrow> bool" where
  "advanced gone q t t' \<longleftrightarrow> (\<exists>r bs. t' = Returned r bs)
     \<or> remaining gone t' < remaining gone t \<and> (in_call q t' \<or> (\<exists>qs r bs. t' = Waking qs r bs))"

lemma disconnected_fault:
  "vdevlab_is_disconnected d \<Longrightarrow> vdevlab_apply_read_fault signal da p d = (Some E_NODEV, da, p, d)"
  by (simp add: vdevlab_apply_read_fault_def vdevlab_is_disconnected_def Let_def fault_types)

lemma copy_waking:
  "to_user mem count p d = (t, d') \<Longrightarrow> \<exists>qs r bs. t = Waking qs r bs \<and> length qs \<le> 1"
  "from_user mem buf d = (t, d') \<Longrightarrow> \<exists>qs r bs. t = Waking qs r bs \<and> length qs \<le> 1"
  by (auto simp: to_user_def from_user_def Let_def)

lemma step_advances_read:
  assumes "task_step signal mem d t = (t', d', qs)" "in_call ReadQ t" "provides gone ReadQ d" "\<not> asleep_on ReadQ t"
  shows "advanced gone ReadQ t t'"
proof (cases t)
  case (RFault nb c da p)
  with assms disconnected_fault [of d signal da p] show ?thesis
    by (cases gone) (auto simp: advanced_def provides_def split: prod.splits option.splits)
next
  case (RFifo nb c da p)
  with assms copy_waking(1) [of mem c p d] show ?thesis
    by (cases gone) (fastforce simp: advanced_def provides_def split: prod.splits if_splits)+
next
  case (RCheck c da p)
  with assms provides_condition [OF assms(3)] show ?thesis by (auto simp: advanced_def wait_event_def)
next
  case (RWait c da p w)
  with assms provides_condition [OF assms(3)] show ?thesis by (auto simp: advanced_def wait_event_def)
qed (use assms(2) in auto)

lemma step_advances_write:
  assumes "task_step signal mem d t = (t', d', qs)" "in_call WriteQ t" "provides gone WriteQ d" "\<not> asleep_on WriteQ t"
  shows "advanced gone WriteQ t t'"
proof (cases t)
  case (WLock nb buf)
  with assms copy_waking(2) [of mem buf d] show ?thesis
    by (cases gone) (fastforce simp: advanced_def provides_def split: prod.splits if_splits)+
next
  case (WCheck buf)
  with assms provides_condition [OF assms(3)] show ?thesis by (auto simp: advanced_def wait_event_def)
next
  case (WWait buf w)
  with assms provides_condition [OF assms(3)] show ?thesis by (auto simp: advanced_def wait_event_def)
qed (use assms in \<open>auto simp: advanced_def provides_def split: if_splits\<close>)

lemma step_advances:
  assumes "task_step signal mem d t = (t', d', qs)" "in_call q t" "provides gone q d" "\<not> asleep_on q t"
  shows "advanced gone q t t'"
  using assms by (cases q) (auto intro: step_advances_read step_advances_write)

lemma waking_advances:
  assumes "task_step signal mem d (Waking ws r bs) = (t', d', qs)"
  shows "advanced gone q (Waking ws r bs) t'"
  using assms by (cases ws) (auto simp: advanced_def)

text \<open>A sleeping task that is woken, or whose own step sees the condition, has advanced.\<close>

lemma asleep_advances:
  assumes "asleep_on q t" "provides gone q d"
  shows "q \<in> set qs \<Longrightarrow> advanced gone q t (woken_by qs t)"
    and "task_step signal mem d t = (t', d', qs') \<Longrightarrow> t' = t \<or> advanced gone q t t'"
    and "q \<notin> set qs \<Longrightarrow> woken_by qs t = t"
  using assms provides_condition [OF assms(2)]
  by (cases q; auto simp: asleep_on_iff advanced_def wait_event_def split: if_splits)+

lemma awake_unchanged: "in_call q t \<Longrightarrow> \<not> asleep_on q t \<Longrightarrow> woken_by qs t = t"
  by (cases t; cases q) auto

section \<open>Every call returns\<close>

lemma sys_step_task:
  assumes "sys_step s s'" "\<nexists>r bs. sy_tasks s i = Returned r bs"
  shows "(\<exists>signal mem d qs. task_step signal mem (sy_device s) (sy_tasks s i) = (sy_tasks s' i, d, qs))
    \<or> (\<exists>qs. sy_tasks s' i = woken_by qs (sy_tasks s i))"
  using assms(1)
proof (cases rule: sys_step.cases)
  case (sys_call j r bs c)
  moreover have "woken_by [] t = t" for t by (cases t) auto
  ultimately show ?thesis using assms(2) by (cases "j = i") (auto intro: exI [where x = "[]"])
next
  case (sys_run j signal mem)
  then show ?thesis by (cases "j = i") (auto simp: run_task_def split: prod.splits)
qed

lemma acts_task:
  assumes "task_acts i s s'"
  obtains signal mem d qs where "task_step signal mem (sy_device s) (sy_tasks s i) = (sy_tasks s' i, d, qs)"
    "\<And>j. j \<noteq> i \<Longrightarrow> sy_tasks s' j = woken_by qs (sy_tasks s j)"
proof -
  obtain signal mem where s': "s' = run_task i signal mem s" using assms by (auto simp: task_acts_def)
  obtain t d qs where "task_step signal mem (sy_device s) (sy_tasks s i) = (t, d, qs)" by (metis prod_cases3)
  then show ?thesis by (intro that [of signal mem d qs]) (simp_all add: s' run_task_def)
qed

lemma fair_task: "fair r \<Longrightarrow> \<forall>n. \<exists>m\<ge>n. task_acts i (r m) (r (Suc m))"
  by (simp add: fair_def)

lemma active_not_returned: "in_call q t \<Longrightarrow> t \<noteq> Returned r bs" "asleep_on q t \<Longrightarrow> t \<noteq> Returned r bs"
  by (cases t; cases q; simp)+

text \<open>A task that does not sleep advances.\<close>

lemma awake_progress:
  assumes ex: "execution r" "fair r" and prov: "\<And>m. n \<le> m \<Longrightarrow> provides gone q (sy_device (r m))"
    and t: "sy_tasks (r n) i = t" "in_call q t \<and> \<not> asleep_on q t \<or> (\<exists>ws x bs. t = Waking ws x bs)"
  shows "\<exists>m\<ge>n. advanced gone q t (sy_tasks (r m) i)"
proof (rule threads.weak_fairness [OF fair_task [OF ex(2)], where P = "\<lambda>s. sy_tasks s i = t"])
  have step: "advanced gone q t t'" if "n \<le> m" "task_step signal mem (sy_device (r m)) t = (t', d, qs)" for m signal mem t' d qs
    using t(2) step_advances [OF that(2) _ prov [OF that(1)]] waking_advances that(2) by blast
  have same: "woken_by qs t = t" for qs using t(2) awake_unchanged by auto
  show "sy_tasks (r (Suc m)) i = t \<or> advanced gone q t (sy_tasks (r (Suc m)) i)" if "n \<le> m" "sy_tasks (r m) i = t" for m
  proof -
    have "sys_step (r m) (r (Suc m))" using ex(1) by (simp add: execution_def)
    moreover have "\<nexists>x bs. sy_tasks (r m) i = Returned x bs" using t(2) that(2) active_not_returned(1) by auto
    ultimately show ?thesis using sys_step_task [of "r m" "r (Suc m)" i] step [OF that(1)] that(2) same by auto
  qed
  show "advanced gone q t (sy_tasks (r (Suc m)) i)"
    if "n \<le> m" "sy_tasks (r m) i = t" "task_acts i (r m) (r (Suc m))" for m
    using acts_task [OF that(3)] step [OF that(1)] that(2) by metis
qed (rule t(1))

text \<open>A sleeping task whose condition holds is woken.\<close>

lemma asleep_step:
  assumes "sys_step s s'" "provides gone q (sy_device s)" "sy_tasks s i = t" "asleep_on q t"
  shows "sy_tasks s' i = t \<or> advanced gone q t (sy_tasks s' i)"
proof -
  have "\<nexists>x bs. sy_tasks s i = Returned x bs" using assms(3,4) active_not_returned(2) by auto
  with sys_step_task [OF assms(1), of i] consider
      signal mem d qs where "task_step signal mem (sy_device s) t = (sy_tasks s' i, d, qs)"
    | qs where "sy_tasks s' i = woken_by qs t" using assms(3) by blast
  then show ?thesis
  proof cases
    case 1
    with asleep_advances(2) [OF assms(4,2)] show ?thesis by blast
  next
    case (2 qs)
    with asleep_advances(1,3) [OF assms(4,2), of qs] show ?thesis by metis
  qed
qed

lemma waker_progress:
  assumes ex: "execution r" "fair r" and prov: "\<And>m. n \<le> m \<Longrightarrow> provides gone q (sy_device (r m))"
    and "sy_tasks (r n) i = t" "asleep_on q t" "sy_tasks (r n) j = Waking ws x bs" "q \<in> set ws"
  shows "\<exists>m\<ge>n. advanced gone q t (sy_tasks (r m) i)"
  using assms(3-)
proof (induction ws arbitrary: n)
  case (Cons w ws)
  let ?P = "\<lambda>s. sy_tasks s i = t \<and> sy_tasks s j = Waking (w # ws) x bs"
  let ?Q = "\<lambda>s. advanced gone q t (sy_tasks s i) \<or> sy_tasks s i = t \<and> sy_tasks s j = Waking ws x bs \<and> q \<in> set ws"
  have "i \<noteq> j" using Cons.prems by (cases q) (auto simp: asleep_on_iff)
  have st: "sys_step (r m) (r (Suc m))" for m using ex(1) by (simp add: execution_def)
  have own: "?Q (r (Suc m))" if "n \<le> m" "?P (r m)" and acts: "task_acts j (r m) (r (Suc m))" for m
  proof -
    obtain signal mem d qs where a: "task_step signal mem (sy_device (r m)) (sy_tasks (r m) j) = (sy_tasks (r (Suc m)) j, d, qs)"
      "sy_tasks (r (Suc m)) i = woken_by qs (sy_tasks (r m) i)"
      using acts_task [OF acts] \<open>i \<noteq> j\<close> by metis
    with that(2) have j: "sy_tasks (r (Suc m)) j = Waking ws x bs" "qs = [w]" by simp_all
    show ?thesis
      using asleep_advances(1,3) [OF Cons.prems(3) Cons.prems(1) [OF that(1)], of qs] a(2) j that(2) Cons.prems(5)
      by (cases "w = q") auto
  qed
  have "\<exists>m\<ge>n. ?Q (r m)"
  proof (rule threads.weak_fairness [OF fair_task [OF ex(2), of j], where P = ?P])
    show "?P (r n)" using Cons.prems by simp
    show "?P (r (Suc m)) \<or> ?Q (r (Suc m))" if "n \<le> m" "?P (r m)" for m
    proof (cases "task_acts j (r m) (r (Suc m))")
      case True
      with own that show ?thesis by blast
    next
      case False
      with st [of m] that(2) have "sy_tasks (r (Suc m)) j = Waking (w # ws) x bs"
        by (auto elim!: sys_stepE simp: task_acts_def run_task_def split: prod.splits if_splits)
      with asleep_step [OF st [of m] Cons.prems(1) [OF that(1)], of i t] that(2) Cons.prems(3) show ?thesis by blast
    qed
  qed (use own in blast)
  then obtain m where m: "n \<le> m" "?Q (r m)" by blast
  show ?case
  proof (cases "advanced gone q t (sy_tasks (r m) i)")
    case False
    with m Cons.IH [of m] Cons.prems(1,3) obtain k where "m \<le> k" "advanced gone q t (sy_tasks (r k) i)"
      by (metis dual_order.trans)
    with m(1) show ?thesis by (meson order_trans)
  qed (use m in blast)
qed simp

lemma asleep_progress:
  assumes ex: "execution r" "fair r" and prov: "\<And>m. n \<le> m \<Longrightarrow> provides gone q (sy_device (r m))"
    and t: "sy_tasks (r n) i = t" "asleep_on q t"
  shows "\<exists>m\<ge>n. advanced gone q t (sy_tasks (r m) i)"
proof -
  have "sys_step\<^sup>*\<^sup>* sys_init (r n)" using ex(1) by (intro threads.run_reachable) (auto simp: execution_def)
  then have "no_lost_wakeup (r n)" using tasks.inv_reachable by blast
  with t provides_condition [OF prov [of n]] obtain j where "pending q (sy_tasks (r n) j)"
    unfolding no_lost_wakeup_def by blast
  then obtain ws x bs where "sy_tasks (r n) j = Waking ws x bs" "q \<in> set ws" by (cases "sy_tasks (r n) j") auto
  with waker_progress [OF ex prov t] show ?thesis by blast
qed

lemma task_returns:
  assumes ex: "execution r" "fair r" and prov: "\<And>m. n \<le> m \<Longrightarrow> provides gone q (sy_device (r m))"
    and "in_call q (sy_tasks (r n) i) \<or> (\<exists>ws x bs. sy_tasks (r n) i = Waking ws x bs)"
  shows "\<exists>m\<ge>n. \<exists>x bs. sy_tasks (r m) i = Returned x bs"
  using assms(3-)
proof (induction "remaining gone (sy_tasks (r n) i)" arbitrary: n rule: less_induct)
  case less
  obtain m where m: "n \<le> m" "advanced gone q (sy_tasks (r n) i) (sy_tasks (r m) i)"
    using awake_progress [OF ex less.prems(1) refl] asleep_progress [OF ex less.prems(1) refl] less.prems(2) by blast
  show ?case
  proof (cases "\<exists>x bs. sy_tasks (r m) i = Returned x bs")
    case False
    with m have "\<exists>k\<ge>m. \<exists>x bs. sy_tasks (r k) i = Returned x bs"
      by (intro less.hyps) (use less.prems(1) in \<open>auto simp: advanced_def\<close>)
    with m(1) show ?thesis by (meson order_trans)
  qed (use m in blast)
qed

text \<open>
  C7. In every run in which each task gets to act again and again, whatever the other tasks call, whatever
  signals arrive and whichever memory faults: a read that is anywhere inside its call, asleep or not,
  returns if from then on the buffer is never empty; a write returns if the buffer is never full and the
  device stays connected; and both return if the device stays disconnected.
\<close>

theorem blocked_call_returns:
  assumes "execution r" "fair r" "in_call q (sy_tasks (r n) i)"
    and "(\<forall>m\<ge>n. served q (sy_device (r m))) \<or> (\<forall>m\<ge>n. vdevlab_is_disconnected (sy_device (r m)))"
  shows "\<exists>m\<ge>n. \<exists>x bs. sy_tasks (r m) i = Returned x bs"
  using assms(4)
proof
  assume "\<forall>m\<ge>n. served q (sy_device (r m))"
  then show ?thesis using assms(3) by (intro task_returns [OF assms(1,2), where gone = False and q = q]) (auto simp: provides_def)
next
  assume "\<forall>m\<ge>n. vdevlab_is_disconnected (sy_device (r m))"
  then show ?thesis using assms(3) by (intro task_returns [OF assms(1,2), where gone = True and q = q]) (auto simp: provides_def)
qed

text \<open>
  A run for the theorem: task 0 sleeps in a read of one byte, task 1 writes two bytes and has its wake-up
  to do at time 9; from there on the scheduler gives every task a turn again and again.
\<close>

definition turn :: "nat \<Rightarrow> system \<Rightarrow> system" where
  "turn n s =
     (if n = 0 then s\<lparr>sy_tasks := (sy_tasks s)(0 := enter (Read False 1))\<rparr>
      else if n < 4 then run_task 0 False 100 s
      else if n = 4 then s\<lparr>sy_tasks := (sy_tasks s)(1 := enter (Write False [72, 105]))\<rparr>
      else if n < 9 then run_task 1 False 100 s
      else run_task (fst (prod_decode n)) False 100 s)"

primrec demo_run :: "nat \<Rightarrow> system" where
  "demo_run 0 = sys_init"
| "demo_run (Suc n) = turn n (demo_run n)"

definition demo_inv :: "system \<Rightarrow> bool" where
  "demo_inv s \<longleftrightarrow> kd_fault (sy_device s) = no_fault
     \<and> (\<forall>j\<ge>2. sy_tasks s j = Returned 0 [])
     \<and> sy_tasks s 1 \<in> {Waking [ReadQ] 2 [], Waking [] 2 [], Returned 2 []}
     \<and> (kd_fifo (sy_device s) = [72, 105] \<and> sy_tasks s 0 \<in> {RWait 1 False 0 False, RWait 1 False 0 True, RFault False 1 False 0, RFifo False 1 False 0}
      \<or> kd_fifo (sy_device s) = [105] \<and> sy_tasks s 0 \<in> {Waking [WriteQ] 1 [72], Waking [] 1 [72], Returned 1 [72]})"

lemmas demo_simps = run_task_def wait_event_def read_wakes_def write_wakes_def vdevlab_fault_interrupts_read_def
  vdevlab_is_disconnected_def kfifo_is_full_def VDEVLAB_FIFO_SIZE_def vdevlab_apply_read_fault_def no_fault_def fault_types Let_def
  to_user_def from_user_def copy_ret_def

lemma demo_inv_step:
  assumes "demo_inv s"
  shows "demo_inv (run_task i False 100 s)"
proof -
  consider "i = 0" | "i = 1" | "2 \<le> i" by linarith
  then show ?thesis
  proof cases
    case 3
    with assms have "run_task i False 100 s = s\<lparr>sy_tasks := (\<lambda>j. if j = i then Returned 0 [] else woken_by [] (sy_tasks s j))\<rparr>"
      by (simp add: demo_inv_def run_task_def)
    with 3 assms show ?thesis by (auto simp: demo_inv_def)
  qed (use assms in \<open>auto simp: demo_inv_def demo_simps\<close>)
qed

lemma turn_Suc_numeral: "demo_run (numeral k) = turn (pred_numeral k) (demo_run (pred_numeral k))"
  by (simp add: numeral_eq_Suc)

lemma demo_9: "demo_inv (demo_run 9)" "sy_tasks (demo_run 9) 0 = RWait 1 False 0 False" "sy_tasks (demo_run 4) 1 = Returned 0 []"
  by (simp_all add: turn_Suc_numeral turn_def demo_simps sys_init_def vdevlab_init_def demo_inv_def)

lemma demo_inv_after: "9 \<le> m \<Longrightarrow> demo_inv (demo_run m)"
proof (induction m rule: dec_induct)
  case (step m)
  then show ?case by (simp add: turn_def demo_inv_step)
qed (rule demo_9)

lemma demo_execution: "execution demo_run"
proof -
  have "sys_step (demo_run n) (demo_run (Suc n))" for n
  proof -
    consider "n = 0" | "n = 4" | "n \<noteq> 0" "n \<noteq> 4" by blast
    then show ?thesis
    proof cases
      case 1
      have "sys_step sys_init (sys_init\<lparr>sy_tasks := (sy_tasks sys_init)(0 := enter (Read False 1))\<rparr>)"
        by (rule sys_call [where r = 0 and bs = "[]"]) (simp add: sys_init_def)
      with 1 show ?thesis by (simp add: turn_def)
    next
      case 2
      then show ?thesis unfolding demo_run.simps turn_def using sys_call [OF demo_9(3), of "Write False [72, 105]"] by simp
    next
      case 3
      then show ?thesis by (auto simp: turn_def intro: sys_run)
    qed
  qed
  then show ?thesis by (simp add: execution_def)
qed

lemma demo_fair: "fair demo_run"
  unfolding fair_def
proof (intro allI)
  fix i n :: nat
  define m where "m = prod_encode (i, max n 9)"
  have m: "max n 9 \<le> m" unfolding m_def by (rule le_prod_encode_2)
  then have "demo_run (Suc m) = run_task i False 100 (demo_run m)" by (simp add: turn_def m_def)
  then have "task_acts i (demo_run m) (demo_run (Suc m))" unfolding task_acts_def by blast
  with m show "\<exists>m\<ge>n. task_acts i (demo_run m) (demo_run (Suc m))" by (intro exI [of _ m]) simp
qed

theorem blocked_call_returns_witness:
  "sy_tasks (demo_run 9) 0 = RWait 1 False 0 False \<and> (\<exists>m\<ge>9. \<exists>x bs. sy_tasks (demo_run m) 0 = Returned x bs)"
proof
  have "served ReadQ (sy_device (demo_run m))" if "9 \<le> m" for m
    using demo_inv_after [OF that] by (auto simp: demo_inv_def)
  then have served: "\<forall>m\<ge>9. served ReadQ (sy_device (demo_run m))" by blast
  show "\<exists>m\<ge>9. \<exists>x bs. sy_tasks (demo_run m) 0 = Returned x bs"
    by (rule blocked_call_returns [OF demo_execution demo_fair, of ReadQ]) (use served demo_9(2) in simp_all)
qed (rule demo_9(2))

end
