(* ===== verification/Kernel_History.thy ===== *)
theory Kernel_History
  imports Kernel_Tasks
begin

text \<open>
  The bytes that go through the device under any interleaving of the calls of \<open>Kernel_Tasks\<close>, as the callers
  see them, against a sequential queue.
\<close>

section \<open>Schedules\<close>

datatype move = Call nat call | Run nat bool nat

text \<open>
  What the caller of a read, a write or a reset sees at the end of its critical section: the value the system
  call returns, with the buffer it gave (\<open>Put\<close>) or the data it received (\<open>Got\<close>)
\<close>

datatype fifo_event = Put "64 word" "byte list" | Got "64 word" "byte list" | Cleared | Quiet

fun observed :: "task \<Rightarrow> task \<Rightarrow> fifo_event" where
  "observed (RFifo nonblock count delay_applied partial) (Waking qs r bs) = Got r bs"
| "observed (WLock nonblock buf) (Waking qs r bs) = Put r buf"
| "observed (ICall order cmd arg) (Waking qs r bs) = (if cmd = KERNEL_IOC_RESET then Cleared else Quiet)"
| "observed t t' = Quiet"

fun make_move :: "move \<Rightarrow> system \<Rightarrow> fifo_event \<times> system" where
  "make_move (Call i c) s =
     (Quiet, case sy_tasks s i of Returned r bs \<Rightarrow> s\<lparr>sy_tasks := (sy_tasks s)(i := enter c)\<rparr> | _ \<Rightarrow> s)"
| "make_move (Run i signal mem) s =
     (let s' = run_task i signal mem s in (observed (sy_tasks s i) (sy_tasks s' i), s'))"

fun run_moves :: "move list \<Rightarrow> system \<Rightarrow> fifo_event list \<times> system" where
  "run_moves [] s = ([], s)"
| "run_moves (m # ms) s = (case make_move m s of (e, s1) \<Rightarrow> case run_moves ms s1 of (es, s2) \<Rightarrow> (e # es, s2))"

section \<open>The sequential queue\<close>

text \<open>
  The queue takes and gives the bytes of a return value. One value does not tell the truth: a copy whose
  first byte faults returns \<open>-EFAULT\<close> through an \<open>unsigned int\<close>, the caller is told 4294967282 bytes, and
  nothing has moved.
\<close>

definition first_byte_fault :: "64 word" where "first_byte_fault = 0xFFFFFFF2"

definition moved :: "64 word \<Rightarrow> nat" where
  "moved r = (if r = first_byte_fault then 0 else unat r)"

fun replay :: "fifo_event list \<Rightarrow> byte list \<Rightarrow> byte list option" where
  "replay [] q = Some q"
| "replay (Put r buf # es) q =
     (if moved r \<le> length buf \<and> length q + moved r \<le> VDEVLAB_FIFO_SIZE then replay es (q @ take (moved r) buf) else None)"
| "replay (Got r bs # es) q =
     (if moved r = length bs \<and> take (moved r) q = bs then replay es (drop (moved r) q) else None)"
| "replay (Cleared # es) q = replay es []"
| "replay (Quiet # es) q = replay es q"

fun put_bytes :: "fifo_event list \<Rightarrow> byte list" where
  "put_bytes [] = []"
| "put_bytes (Put r buf # es) = take (moved r) buf @ put_bytes es"
| "put_bytes (e # es) = put_bytes es"

fun got_bytes :: "fifo_event list \<Rightarrow> byte list" where
  "got_bytes [] = []"
| "got_bytes (Got r bs # es) = bs @ got_bytes es"
| "got_bytes (e # es) = got_bytes es"

fun told :: "fifo_event \<Rightarrow> 64 word option" where
  "told (Put r buf) = Some r"
| "told (Got r bs) = Some r"
| "told e = None"

lemma replay_conserves:
  "replay es q = Some q' \<Longrightarrow> Cleared \<notin> set es \<Longrightarrow> q @ put_bytes es = got_bytes es @ q'"
proof (induction es q rule: replay.induct)
  case (3 r bs es q)
  then have "bs = take (moved r) q" "drop (moved r) q @ put_bytes es = got_bytes es @ q'" by (auto split: if_splits)
  then show ?case by (metis append.assoc append_take_drop_id got_bytes.simps(2) put_bytes.simps(3))
qed (auto split: if_splits)

section \<open>Every step is a step of the queue\<close>

lemma copy_ret_moved:
  assumes "n \<le> VDEVLAB_FIFO_SIZE"
  shows "moved (copy_ret n fault) = n" "0 < n \<or> \<not> fault \<Longrightarrow> copy_ret n fault \<noteq> first_byte_fault"
proof -
  have n: "unat (of_nat n :: 32 word) = n" "unat (ucast (of_nat n :: 32 word) :: 64 word) = n"
    using assms by (simp_all add: VDEVLAB_FIFO_SIZE_def unsigned_of_nat unsigned_ucast_eq take_bit_nat_eq_self)
  have "unat first_byte_fault = 4294967282" by (simp add: first_byte_fault_def)
  moreover have "n \<noteq> 4294967282" using assms by (simp add: VDEVLAB_FIFO_SIZE_def)
  ultimately have ne: "(ucast (of_nat n :: 32 word) :: 64 word) \<noteq> first_byte_fault" using n(2) by metis
  have z: "(of_nat n :: 32 word) = 0 \<longleftrightarrow> n = 0" using arg_cong [of _ _ unat] n(1) by fastforce
  show "moved (copy_ret n fault) = n" using n ne z
    by (auto simp: copy_ret_def moved_def errno_code_def first_byte_fault_def)
  show "copy_ret n fault \<noteq> first_byte_fault" if "0 < n \<or> \<not> fault" using that ne z by (auto simp: copy_ret_def)
qed

lemma to_user_replay:
  assumes "to_user mem count p d = (Waking qs r bs, d')" "wf_device d"
  shows "replay (Got r bs # es) (kd_fifo d) = replay es (kd_fifo d')"
  using assms copy_ret_moved(1) by (auto simp: to_user_def Let_def wf_device_def min_def split: if_splits)

lemma from_user_replay:
  assumes "from_user mem buf d = (Waking qs r bs, d')" "wf_device d"
  shows "replay (Put r buf # es) (kd_fifo d) = replay es (kd_fifo d')"
  using assms copy_ret_moved(1) by (auto simp: from_user_def Let_def wf_device_def min_def split: if_splits)

lemma to_user_truth:
  assumes "to_user mem count p d = (Waking qs r bs, d')" "wf_device d" "0 < mem" 
  shows "r \<noteq> first_byte_fault"
  using assms copy_ret_moved(2) by (auto simp: to_user_def Let_def wf_device_def split: if_splits)

lemma from_user_truth:
  assumes "from_user mem buf d = (Waking qs r bs, d')" "wf_device d" "0 < mem"
  shows "r \<noteq> first_byte_fault"
  using assms copy_ret_moved(2) by (auto simp: from_user_def Let_def wf_device_def split: if_splits)

lemma fault_keeps_fifo: "vdevlab_apply_read_fault signal da p d = (e, da', p', d') \<Longrightarrow> kd_fifo d' = kd_fifo d"
  by (auto simp: vdevlab_apply_read_fault_def Let_def vdevlab_clear_fault_locked_def split: if_splits)

lemma ioctl_fifo:
  assumes "vdevlab_ioctl order cmd arg d = (r, d')"
  shows "kd_fifo d' = (if cmd = KERNEL_IOC_RESET then [] else kd_fifo d)"
  using assms by (auto simp: vdevlab_ioctl_def requests_distinct vdevlab_clear_fault_locked_def split: if_splits option.splits sum.splits)

lemma reset_succeeds: "\<exists>bs. fst (vdevlab_ioctl order KERNEL_IOC_RESET arg d) = Inr bs"
  by (simp add: vdevlab_ioctl_def requests_distinct requests_distinct [symmetric])

lemma task_step_replay:
  assumes "task_step signal mem d t = (t', d', qs)" "wf_device d"
  shows "replay (observed t t' # es) (kd_fifo d) = replay es (kd_fifo d')"
proof (cases t)
  case (RFault nb c da p)
  with assms show ?thesis by (auto dest: fault_keeps_fifo split: prod.splits option.splits)
next
  case (RFifo nb c da p)
  obtain x d1 where x: "to_user mem c p d = (x, d1)" by fastforce
  then obtain ws r bs where "x = Waking ws r bs" by (auto simp: to_user_def Let_def)
  with RFifo x assms to_user_replay [of mem c p d ws r bs d1 es] show ?thesis by (auto split: if_splits)
next
  case (WLock nb buf)
  obtain x d1 where x: "from_user mem buf d = (x, d1)" by fastforce
  then obtain ws r bs where "x = Waking ws r bs" by (auto simp: from_user_def Let_def)
  with WLock x assms from_user_replay [of mem buf d ws r bs d1 es] show ?thesis by (auto split: if_splits)
next
  case (ICall order cmd arg)
  obtain x d1 where x: "vdevlab_ioctl order cmd arg d = (x, d1)" by fastforce
  with reset_succeeds [of order arg d] have "cmd = KERNEL_IOC_RESET \<Longrightarrow> \<exists>bs. x = Inr bs" by auto
  with ICall x assms(1) ioctl_fifo [OF x] show ?thesis by (cases x) auto
next
  case (Waking ws r bs)
  with assms show ?thesis by (cases ws) auto
qed (use assms in \<open>auto split: if_splits\<close>)

lemma task_step_truth:
  assumes "task_step signal mem d t = (t', d', qs)" "wf_device d" "0 < mem"
  shows "told (observed t t') \<noteq> Some first_byte_fault"
proof (cases t)
  case (RFifo nb c da p)
  obtain x d1 where x: "to_user mem c p d = (x, d1)" by fastforce
  then obtain ws r bs where "x = Waking ws r bs" by (auto simp: to_user_def Let_def)
  with RFifo x assms to_user_truth [of mem c p d ws r bs d1] show ?thesis by (auto split: if_splits)
next
  case (WLock nb buf)
  obtain x d1 where x: "from_user mem buf d = (x, d1)" by fastforce
  then obtain ws r bs where "x = Waking ws r bs" by (auto simp: from_user_def Let_def)
  with WLock x assms from_user_truth [of mem buf d ws r bs d1] show ?thesis by (auto split: if_splits)
next
  case (ICall order cmd arg)
  then show ?thesis by (cases t') auto
qed auto

lemma make_move_truth:
  assumes "make_move m s = (e, s')" "wf_device (sy_device s)" "\<forall>i signal. m \<noteq> Run i signal 0"
  shows "told e \<noteq> Some first_byte_fault"
proof (cases m)
  case (Run i signal mem)
  obtain t d qs where st: "task_step signal mem (sy_device s) (sy_tasks s i) = (t, d, qs)" by (metis prod_cases3)
  with Run assms task_step_truth [OF st assms(2)] show ?thesis by (auto simp: Let_def run_task_def)
qed (use assms in auto)

lemma make_move_replay:
  assumes "make_move m s = (e, s')" "wf_device (sy_device s)"
  shows "replay (e # es) (kd_fifo (sy_device s)) = replay es (kd_fifo (sy_device s')) \<and> wf_device (sy_device s')"
proof (cases m)
  case (Call i c)
  with assms show ?thesis by (auto split: task.splits)
next
  case (Run i signal mem)
  obtain t d qs where st: "task_step signal mem (sy_device s) (sy_tasks s i) = (t, d, qs)" by (metis prod_cases3)
  with Run assms task_step_replay [OF st assms(2), of es] task_step_wf [OF st assms(2)] show ?thesis
    by (auto simp: Let_def run_task_def)
qed

lemma run_moves_replay:
  "run_moves ms s = (es, s') \<Longrightarrow> wf_device (sy_device s) \<Longrightarrow> replay es (kd_fifo (sy_device s)) = Some (kd_fifo (sy_device s'))"
proof (induction ms arbitrary: s es)
  case (Cons m ms)
  obtain e s1 es1 where "make_move m s = (e, s1)" "run_moves ms s1 = (es1, s')" "es = e # es1"
    using Cons.prems(1) by (auto split: prod.splits)
  with Cons.IH [of s1 es1] make_move_replay [of m s e s1 es1] Cons.prems(2) show ?case by simp
qed simp

lemma run_moves_truth:
  "run_moves ms s = (es, s') \<Longrightarrow> wf_device (sy_device s) \<Longrightarrow> \<forall>i signal. Run i signal 0 \<notin> set ms \<Longrightarrow>
     \<forall>e \<in> set es. told e \<noteq> Some first_byte_fault"
proof (induction ms arbitrary: s es)
  case (Cons m ms)
  obtain e s1 es1 where "make_move m s = (e, s1)" "run_moves ms s1 = (es1, s')" "es = e # es1"
    using Cons.prems(1) by (auto split: prod.splits)
  with Cons.IH [of s1 es1] make_move_replay [of m s e s1 es1] make_move_truth [of m s e s1] Cons.prems(2,3) show ?case by auto
qed simp

text \<open>
  C6. For every schedule of calls and steps of any number of tasks, with signals and memory faults: the values
  the calls have returned, with the buffers given and the data received, taken in the order of the critical
  sections, are a run of one sequential queue of 4096 bytes that ends with the contents of the buffer: a
  write that returned \<open>r\<close> has put the first \<open>r\<close> bytes of its buffer at the end, a read that returned \<open>r\<close>
  has received the first \<open>r\<close> bytes, and nothing else moves. The one exception is the value
  \<open>0xFFFFFFF2\<close>, with which nothing has moved although the caller is told 4294967282 bytes; no call returns
  it while the first byte of every caller's memory is accessible. While nobody resets the device, the bytes
  taken from writers are the bytes given to readers followed by the bytes still in the buffer: none is
  lost, repeated or reordered.
\<close>

theorem fifo_sequential:
  assumes "run_moves ms sys_init = (es, s)"
  shows "replay es [] = Some (kd_fifo (sy_device s))
    \<and> (Cleared \<notin> set es \<longrightarrow> put_bytes es = got_bytes es @ kd_fifo (sy_device s))
    \<and> ((\<forall>i signal. Run i signal 0 \<notin> set ms) \<longrightarrow> (\<forall>e \<in> set es. told e \<noteq> Some first_byte_fault))"
proof -
  have wf: "wf_device (sy_device sys_init)" using device.inv_init by (simp add: sys_init_def)
  have "replay es [] = Some (kd_fifo (sy_device s))"
    using run_moves_replay [OF assms wf] by (simp add: sys_init_def Kernel_Device.vdevlab_init_def)
  with replay_conserves [OF this] run_moves_truth [OF assms wf] show ?thesis by simp
qed

definition demo_moves :: "nat \<Rightarrow> move list" where
  "demo_moves mem =
     [Call 1 (Write True [72, 105]), Call 0 (Read True 1), Run 1 False 9, Run 0 False 9, Run 1 False 9, Run 0 False mem]"

lemma demo_moves_run:
  "fst (run_moves (demo_moves mem) sys_init) =
     [Quiet, Quiet, Quiet, Quiet, Put 2 [72, 105], if mem = 0 then Got first_byte_fault [] else Got 1 [72]]"
  by (simp add: demo_moves_def run_task_def wait_event_def read_wakes_def write_wakes_def vdevlab_fault_interrupts_read_def
      vdevlab_is_disconnected_def kfifo_is_full_def VDEVLAB_FIFO_SIZE_def vdevlab_apply_read_fault_def no_fault_def fault_types Let_def
      to_user_def from_user_def copy_ret_def sys_init_def Kernel_Device.vdevlab_init_def first_byte_fault_def errno_code_def)

text \<open>With memory, the reader gets its byte; without, it is told four gigabytes and the byte stays.\<close>

theorem fifo_sequential_witness:
  "got_bytes (fst (run_moves (demo_moves 9) sys_init)) = [72]
   \<and> kd_fifo (sy_device (snd (run_moves (demo_moves 9) sys_init))) = [105]
   \<and> Some first_byte_fault \<notin> told ` set (fst (run_moves (demo_moves 9) sys_init))
   \<and> Some first_byte_fault \<in> told ` set (fst (run_moves (demo_moves 0) sys_init))
   \<and> kd_fifo (sy_device (snd (run_moves (demo_moves 0) sys_init))) = [72, 105]"
proof -
  have "\<forall>i signal. Run i signal 0 \<notin> set (demo_moves 9)" by (simp add: demo_moves_def)
  with fifo_sequential [of "demo_moves 9", OF prod.collapse [symmetric]]
  have "kd_fifo (sy_device (snd (run_moves (demo_moves 9) sys_init))) = [105]"
    "Some first_byte_fault \<notin> told ` set (fst (run_moves (demo_moves 9) sys_init))"
    by (simp_all add: demo_moves_run moved_def first_byte_fault_def VDEVLAB_FIFO_SIZE_def)
  moreover from fifo_sequential [of "demo_moves 0", OF prod.collapse [symmetric]]
  have "kd_fifo (sy_device (snd (run_moves (demo_moves 0) sys_init))) = [72, 105]"
    by (simp add: demo_moves_run moved_def first_byte_fault_def VDEVLAB_FIFO_SIZE_def)
  ultimately show ?thesis by (simp add: demo_moves_run)
qed

end
