(* ===== verification/Kernel_Module.thy ===== *)
theory Kernel_Module
  imports Kernel_Props
begin

text \<open>
  Loading and unloading the module of \<open>kernel/vdevlab_core.c\<close>: \<open>vdevlab_init\<close> with its chain of error
  labels and \<open>vdevlab_exit\<close>. The kernel's registration functions are the fields of \<open>kernel_api\<close>, over a
  state \<open>'k\<close> of the kernel; \<open>lawful_api\<close> says of them that a failed registration registers nothing and
  that each release undoes its registration.
\<close>

section \<open>The functions of the kernel\<close>

type_synonym dev_t = "32 word"

definition MAJOR :: "dev_t \<Rightarrow> nat" where "MAJOR dev = unat (drop_bit 20 dev)"
definition MINOR :: "dev_t \<Rightarrow> nat" where "MINOR dev = unat (take_bit 20 dev)"

text \<open>Functions that return a pointer or an error pointer return a sum.\<close>

record ('k, 'c) kernel_api =
  kfifo_alloc :: "nat \<Rightarrow> 'k \<Rightarrow> int \<times> 'k"
  alloc_chrdev_region :: "nat \<Rightarrow> nat \<Rightarrow> pystr \<Rightarrow> 'k \<Rightarrow> int \<times> dev_t \<times> 'k"
  cdev_add :: "dev_t \<Rightarrow> nat \<Rightarrow> 'k \<Rightarrow> int \<times> 'k"
  class_create :: "pystr \<Rightarrow> 'k \<Rightarrow> (int + 'c) \<times> 'k"
  device_create :: "'c \<Rightarrow> dev_t \<Rightarrow> pystr \<Rightarrow> 'k \<Rightarrow> (int + unit) \<times> 'k"
  device_destroy :: "'c \<Rightarrow> dev_t \<Rightarrow> 'k \<Rightarrow> 'k"
  class_destroy :: "'c \<Rightarrow> 'k \<Rightarrow> 'k"
  cdev_del :: "'k \<Rightarrow> 'k"
  unregister_chrdev_region :: "dev_t \<Rightarrow> nat \<Rightarrow> 'k \<Rightarrow> 'k"
  kfifo_free :: "'k \<Rightarrow> 'k"

section \<open>Load and unload\<close>

definition VDEVLAB_DEVICE_NAME :: pystr where "VDEVLAB_DEVICE_NAME = lit ''vdevlab0''"
definition VDEVLAB_CLASS_NAME :: pystr where "VDEVLAB_CLASS_NAME = lit ''vdevlab''"

text \<open>The static variables of a loaded module\<close>

record 'c module_statics =
  vdevlab_dev :: dev_t
  vdevlab_class :: 'c
  vdevlab_state :: vdevlab

text \<open>The labels, each of which falls through to the next\<close>

definition err_free_fifo :: "('k, 'c) kernel_api \<Rightarrow> 'k \<Rightarrow> 'k" where
  "err_free_fifo api k = kfifo_free api k"

definition err_unregister_chrdev :: "('k, 'c) kernel_api \<Rightarrow> dev_t \<Rightarrow> 'k \<Rightarrow> 'k" where
  "err_unregister_chrdev api dev k = err_free_fifo api (unregister_chrdev_region api dev 1 k)"

definition err_del_cdev :: "('k, 'c) kernel_api \<Rightarrow> dev_t \<Rightarrow> 'k \<Rightarrow> 'k" where
  "err_del_cdev api dev k = err_unregister_chrdev api dev (cdev_del api k)"

definition err_destroy_class :: "('k, 'c) kernel_api \<Rightarrow> 'c \<Rightarrow> dev_t \<Rightarrow> 'k \<Rightarrow> 'k" where
  "err_destroy_class api cls dev k = err_del_cdev api dev (class_destroy api cls k)"

definition pr_failed :: "string \<Rightarrow> int \<Rightarrow> pystr" where
  "pr_failed what ret = lit ''vdevlab: failed to '' @ lit what @ lit '': '' @ str_int ret"

definition pr_registered :: "dev_t \<Rightarrow> pystr" where
  "pr_registered dev =
     lit ''vdevlab: /dev/'' @ VDEVLAB_DEVICE_NAME @ lit '' registered (major='' @ str_nat (MAJOR dev) @ lit '', minor=''
     @ str_nat (MINOR dev) @ lit '', fifo='' @ str_nat VDEVLAB_FIFO_SIZE @ lit '' bytes)''"

text \<open>
  \<open>vdevlab_init\<close>: the return value of a failure or the variables of the module, the line logged, and the
  state of the kernel. \<open>fault\<close> is what the static variable held before.
\<close>

definition module_init ::
  "('k, 'c) kernel_api \<Rightarrow> vdevlab_fault_config \<Rightarrow> 'k \<Rightarrow> (int + 'c module_statics) \<times> pystr \<times> 'k" where
  "module_init api fault k =
     (let state = vdevlab_clear_fault_locked \<lparr>kd_fault = fault, kd_fifo = []\<rparr>; (ret, k1) = kfifo_alloc api VDEVLAB_FIFO_SIZE k in
      if ret \<noteq> 0 then (Inl ret, pr_failed ''allocate FIFO'' ret, k1)
      else case alloc_chrdev_region api 0 1 VDEVLAB_DEVICE_NAME k1 of (ret, dev, k2) \<Rightarrow>
      if ret \<noteq> 0 then (Inl ret, pr_failed ''allocate device number'' ret, err_free_fifo api k2)
      else case cdev_add api dev 1 k2 of (ret, k3) \<Rightarrow>
      if ret \<noteq> 0 then (Inl ret, pr_failed ''add character device'' ret, err_unregister_chrdev api dev k3)
      else case class_create api VDEVLAB_CLASS_NAME k3 of
        (Inl ret, k4) \<Rightarrow> (Inl ret, pr_failed ''create device class'' ret, err_del_cdev api dev k4)
      | (Inr cls, k4) \<Rightarrow>
          (case device_create api cls dev VDEVLAB_DEVICE_NAME k4 of
             (Inl ret, k5) \<Rightarrow> (Inl ret, pr_failed ''create device'' ret, err_destroy_class api cls dev k5)
           | (Inr _, k5) \<Rightarrow>
               (Inr \<lparr>vdevlab_dev = dev, vdevlab_class = cls, vdevlab_state = state\<rparr>, pr_registered dev, k5)))"

definition module_exit :: "('k, 'c) kernel_api \<Rightarrow> 'c module_statics \<Rightarrow> 'k \<Rightarrow> pystr \<times> 'k" where
  "module_exit api m k =
     (lit ''vdevlab: /dev/'' @ VDEVLAB_DEVICE_NAME @ lit '' unregistered'',
      kfifo_free api (unregister_chrdev_region api (vdevlab_dev m) 1 (cdev_del api
        (class_destroy api (vdevlab_class m) (device_destroy api (vdevlab_class m) (vdevlab_dev m) k)))))"

section \<open>Registrations and releases balance\<close>

definition lawful_api :: "('k, 'c) kernel_api \<Rightarrow> bool" where
  "lawful_api api \<longleftrightarrow>
     (\<forall>n k ret k'. kfifo_alloc api n k = (ret, k') \<longrightarrow> (if ret = 0 then kfifo_free api k' = k else k' = k))
   \<and> (\<forall>a n s k ret dev k'. alloc_chrdev_region api a n s k = (ret, dev, k') \<longrightarrow>
        (if ret = 0 then unregister_chrdev_region api dev n k' = k else k' = k))
   \<and> (\<forall>dev n k ret k'. cdev_add api dev n k = (ret, k') \<longrightarrow> (if ret = 0 then cdev_del api k' = k else k' = k))
   \<and> (\<forall>s k k'. (\<forall>e. class_create api s k = (Inl e, k') \<longrightarrow> e < 0 \<and> k' = k)
             \<and> (\<forall>c. class_create api s k = (Inr c, k') \<longrightarrow> class_destroy api c k' = k))
   \<and> (\<forall>c dev s k k'. (\<forall>e. device_create api c dev s k = (Inl e, k') \<longrightarrow> e < 0 \<and> k' = k)
             \<and> (\<forall>x. device_create api c dev s k = (Inr x, k') \<longrightarrow> device_destroy api c dev k' = k))"

lemma lawfulD:
  assumes "lawful_api api"
  shows "kfifo_alloc api n k = (0, k') \<Longrightarrow> kfifo_free api k' = k"
    and "alloc_chrdev_region api a n s k = (0, dev, k') \<Longrightarrow> unregister_chrdev_region api dev n k' = k"
    and "cdev_add api dev n k = (0, k') \<Longrightarrow> cdev_del api k' = k"
    and "class_create api s k = (Inr c, k') \<Longrightarrow> class_destroy api c k' = k"
    and "device_create api c dev s k = (Inr x, k') \<Longrightarrow> device_destroy api c dev k' = k"
  using assms unfolding lawful_api_def by metis+

lemma lawful_failure:
  assumes "lawful_api api"
  shows "kfifo_alloc api n k = (ret, k') \<Longrightarrow> ret \<noteq> 0 \<Longrightarrow> k' = k"
    and "alloc_chrdev_region api a n s k = (ret, dev, k') \<Longrightarrow> ret \<noteq> 0 \<Longrightarrow> k' = k"
    and "cdev_add api dev n k = (ret, k') \<Longrightarrow> ret \<noteq> 0 \<Longrightarrow> k' = k"
    and "class_create api s k = (Inl e, k') \<Longrightarrow> e < 0 \<and> k' = k"
    and "device_create api c dev s k = (Inl e, k') \<Longrightarrow> e < 0 \<and> k' = k"
  using assms unfolding lawful_api_def by metis+

lemmas unwind_defs = err_free_fifo_def err_unregister_chrdev_def err_del_cdev_def err_destroy_class_def

text \<open>
  C38. On a kernel whose failed registrations register nothing and whose releases undo their registrations,
  loading the module at whatever point it fails returns a non-zero value and leaves the kernel as it was;
  a module that loads starts with the initial device, and unloading it restores the kernel.
\<close>

theorem module_balanced:
  assumes "lawful_api api"
  shows "case module_init api fault k of
      (Inl ret, line, k') \<Rightarrow> ret \<noteq> 0 \<and> k' = k
    | (Inr m, line, k') \<Rightarrow> vdevlab_state m = Kernel_Device.vdevlab_init \<and> snd (module_exit api m k') = k"
  by (auto simp: module_init_def unwind_defs module_exit_def Kernel_Device.vdevlab_init_def vdevlab_clear_fault_locked_def
      Let_def lawfulD [OF assms] split: prod.splits sum.splits dest: lawful_failure [OF assms])

text \<open>A kernel that keeps a stack of what is registered and refuses one registration\<close>

definition stack_api :: "nat \<Rightarrow> (nat list, unit) kernel_api" where
  "stack_api refused =
     (let take_one = \<lambda>n k. if n = refused then (- 12, k) else (0, n # k);
          take_handle = \<lambda>n k. if n = refused then (Inl (- 12), k) else (Inr (), n # k)
      in \<lparr>kfifo_alloc = (\<lambda>_. take_one 0),
          alloc_chrdev_region = (\<lambda>_ _ _ k. case take_one 1 k of (ret, k') \<Rightarrow> (ret, 0x0F000000, k')),
          cdev_add = (\<lambda>_ _. take_one 2),
          class_create = (\<lambda>_. take_handle 3),
          device_create = (\<lambda>_ _ _. take_handle 4),
          device_destroy = (\<lambda>_ _. tl), class_destroy = (\<lambda>_. tl), cdev_del = tl,
          unregister_chrdev_region = (\<lambda>_ _. tl), kfifo_free = tl\<rparr>)"

lemma stack_api_lawful: "lawful_api (stack_api refused)"
  by (auto simp: lawful_api_def stack_api_def Let_def split: if_splits)

theorem module_balanced_witness:
  "fst (module_init (stack_api 4) no_fault [9]) = Inl (- 12) \<and> snd (snd (module_init (stack_api 4) no_fault [9])) = [9]
   \<and> (\<exists>m line. module_init (stack_api 5) no_fault [9] = (Inr m, line, [4, 3, 2, 1, 0, 9])
        \<and> snd (module_exit (stack_api 5) m [4, 3, 2, 1, 0, 9]) = [9])"
proof -
  have fst4: "fst (module_init (stack_api 4) no_fault [9]) = Inl (- 12)" by (simp add: module_init_def stack_api_def Let_def)
  then obtain line k' where "module_init (stack_api 4) no_fault [9] = (Inl (- 12), line, k')" by (metis prod.collapse)
  then have 4: "snd (snd (module_init (stack_api 4) no_fault [9])) = [9]"
    using module_balanced [OF stack_api_lawful [of 4], where fault = no_fault and k = "[9]"] by simp
  have "\<exists>m line. module_init (stack_api 5) no_fault [9] = (Inr m, line, [4, 3, 2, 1, 0, 9])"
    by (simp add: module_init_def stack_api_def Let_def)
  then obtain m line where m: "module_init (stack_api 5) no_fault [9] = (Inr m, line, [4, 3, 2, 1, 0, 9])" by blast
  with module_balanced [OF stack_api_lawful [of 5], where fault = no_fault and k = "[9]"] fst4 4 show ?thesis by auto
qed

end
