(* ===== verification/Monitor.thy ===== *)
theory Monitor
  imports Kernel_Props Py_Json
begin

text \<open>
  The example application of \<open>examples/vtemp_monitor.c\<close>: it polls the device, reads lines with
  temperatures, retries after EIO and writes a log of JSON lines. Strings are lists of bytes, and
  \<open>strtoul\<close>, \<open>strtod\<close> and \<open>printf\<close> are modelled as far as the program uses them. The clock, \<open>poll\<close>, \<open>read\<close>,
  \<open>open\<close>, \<open>close\<close>, \<open>perror\<close> and the flag of the signal handler are operations of a world.
\<close>

section \<open>The C library\<close>

definition isspace :: "nat \<Rightarrow> bool" where
  "isspace c \<longleftrightarrow> c = 32 \<or> 9 \<le> c \<and> c \<le> 13"

text \<open>An optional sign: whether it is a minus, and the text after it\<close>

definition c_sign :: "pystr \<Rightarrow> bool \<times> pystr" where
  "c_sign s = (case s of c # cs \<Rightarrow> if c = 45 then (True, cs) else if c = 43 then (False, cs) else (False, s) | [] \<Rightarrow> (False, []))"

text \<open>\<open>strtoul\<close> in base 10: the value, whether \<open>errno\<close> is \<open>ERANGE\<close>, and the rest of the text\<close>

definition strtoul :: "pystr \<Rightarrow> 64 word \<times> bool \<times> pystr" where
  "strtoul s =
     (case c_sign (dropWhile isspace s) of (neg, s1) \<Rightarrow>
      let ds = takeWhile is_digit s1; v = digits_value ds in
      if ds = [] then (0, False, s)
      else if 2 ^ 64 \<le> v then (- 1, True, dropWhile is_digit s1)
      else (if neg then - of_nat v else of_nat v, False, dropWhile is_digit s1))"

text \<open>The nearest double, with \<open>ERANGE\<close> for an overflow and for a result that is tiny and inexact\<close>

definition double_of :: "bool \<Rightarrow> rat \<Rightarrow> pyfloat \<times> bool" where
  "double_of neg q =
     (let r = rnd64 q in
      if pow2 1024 \<le> r then (if neg then FNegInf else FInf, True)
      else (if r = 0 then (if neg then FNegZero else FFin 0) else FFin (if neg then - r else r),
            q \<noteq> r \<and> q < pow2 (- 1022) - pow2 (- 1076)))"

definition is_xdigit :: "nat \<Rightarrow> bool" where
  "is_xdigit c \<longleftrightarrow> hex_value c \<noteq> None"

definition xdigits_value :: "pystr \<Rightarrow> nat" where
  "xdigits_value ds = foldl (\<lambda>n c. 16 * n + (case hex_value c of Some h \<Rightarrow> h | None \<Rightarrow> 0)) 0 ds"

text \<open>Digits with an optional point; \<open>None\<close> when there is no digit\<close>

definition c_digits :: "(nat \<Rightarrow> bool) \<Rightarrow> pystr \<Rightarrow> (pystr \<times> pystr \<times> pystr) option" where
  "c_digits digit s =
     (let whole = takeWhile digit s; r = dropWhile digit s;
          fr = (if prefix [46] r then takeWhile digit (tl r) else [])
      in if whole = [] \<and> fr = [] then None
         else Some (whole, fr, if prefix [46] r then dropWhile digit (tl r) else r))"

text \<open>An exponent after one of the letters \<open>marks\<close>, taken only when it has a digit\<close>

definition c_exponent :: "nat set \<Rightarrow> pystr \<Rightarrow> int \<times> pystr" where
  "c_exponent marks s =
     (case s of
        c # cs \<Rightarrow>
          (case c_sign cs of (neg, ds) \<Rightarrow>
           if c \<in> marks \<and> takeWhile is_digit ds \<noteq> []
           then (if neg then - int (digits_value (takeWhile is_digit ds)) else int (digits_value (takeWhile is_digit ds)),
                 dropWhile is_digit ds)
           else (0, s))
      | [] \<Rightarrow> (0, []))"

definition c_lower :: "nat \<Rightarrow> nat" where
  "c_lower c = (if 65 \<le> c \<and> c \<le> 90 then c + 32 else c)"

definition is_n_char :: "nat \<Rightarrow> bool" where
  "is_n_char c \<longleftrightarrow> is_digit c \<or> 97 \<le> c_lower c \<and> c_lower c \<le> 122 \<or> c = 95"

definition nan_rest :: "pystr \<Rightarrow> pystr" where
  "nan_rest s =
     (if prefix [40] s \<and> prefix [41] (dropWhile is_n_char (tl s)) then tl (dropWhile is_n_char (tl s)) else s)"

text \<open>The number after the sign: its value, \<open>ERANGE\<close>, the rest; \<open>None\<close> when nothing can be converted\<close>

definition strtod_number :: "bool \<Rightarrow> pystr \<Rightarrow> (pyfloat \<times> bool \<times> pystr) option" where
  "strtod_number neg s =
     (if prefix (lit ''inf'') (map c_lower s)
      then Some (if neg then FNegInf else FInf, False, drop (if prefix (lit ''infinity'') (map c_lower s) then 8 else 3) s)
      else if prefix (lit ''nan'') (map c_lower s) then Some (FNaN, False, nan_rest (drop 3 s))
      else if prefix (lit ''0x'') (map c_lower s) \<and> c_digits is_xdigit (drop 2 s) \<noteq> None then
        (case c_digits is_xdigit (drop 2 s) of
           Some (whole, fr, r) \<Rightarrow>
             (case c_exponent {112, 80} r of (k, r1) \<Rightarrow>
              case double_of neg (of_nat (xdigits_value (whole @ fr)) * pow2 (k - 4 * int (length fr))) of (x, erange) \<Rightarrow>
              Some (x, erange, r1))
         | None \<Rightarrow> None)
      else
        (case c_digits is_digit s of
           Some (whole, fr, r) \<Rightarrow>
             (case c_exponent {101, 69} r of (k, r1) \<Rightarrow>
              case double_of neg (of_nat (digits_value (whole @ fr)) * pow10 (k - int (length fr))) of (x, erange) \<Rightarrow>
              Some (x, erange, r1))
         | None \<Rightarrow> None))"

definition strtod :: "pystr \<Rightarrow> pyfloat \<times> bool \<times> pystr" where
  "strtod s =
     (case c_sign (dropWhile isspace s) of (neg, s1) \<Rightarrow>
      case strtod_number neg s1 of None \<Rightarrow> (FFin 0, False, s) | Some r \<Rightarrow> r)"

fun isfinite :: "pyfloat \<Rightarrow> bool" where
  "isfinite (FFin q) = True"
| "isfinite FNegZero = True"
| "isfinite _ = False"

text \<open>The conversion \<open>%.3f\<close>\<close>

definition fixed3_nat :: "rat \<Rightarrow> pystr" where
  "fixed3_nat q =
     (let n = nat (rne (q * 1000)); d = n mod 1000
      in str_nat (n div 1000) @ 46 # [48 + d div 100, 48 + d div 10 mod 10, 48 + d mod 10])"

fun fixed3 :: "pyfloat \<Rightarrow> pystr" where
  "fixed3 (FFin q) = (if q < 0 then 45 # fixed3_nat (- q) else fixed3_nat q)"
| "fixed3 FNegZero = 45 # fixed3_nat 0"
| "fixed3 FInf = lit ''inf''"
| "fixed3 FNegInf = lit ''-inf''"
| "fixed3 FNaN = lit ''nan''"

fun at_least :: "rat \<Rightarrow> pyfloat \<Rightarrow> bool" where
  "at_least b (FFin q) \<longleftrightarrow> b \<le> q"
| "at_least b FNegZero \<longleftrightarrow> b \<le> 0"
| "at_least b FInf = True"
| "at_least b _ = False"

section \<open>The world\<close>

record 'w monitor_os =
  clock_gettime :: "'w \<Rightarrow> (int \<times> int) option \<times> 'w"
  stop_requested :: "'w \<Rightarrow> bool \<times> 'w"
  poll_device :: "int \<Rightarrow> 'w \<Rightarrow> (int + 32 word) \<times> 'w"
  read_device :: "nat \<Rightarrow> 'w \<Rightarrow> (int + byte list) \<times> 'w"
  open_device :: "pystr \<Rightarrow> 'w \<Rightarrow> bool \<times> 'w"
  close_device :: "'w \<Rightarrow> 'w"
  perror :: "pystr \<Rightarrow> 'w \<Rightarrow> 'w"
  put_stderr :: "pystr \<Rightarrow> 'w \<Rightarrow> 'w"

text \<open>
  \<open>poll_device\<close> gives the error number or the returned events, none at a time-out; \<open>read_device\<close> the error
  number or the bytes; the last two print on the error stream.
\<close>

definition MAX_PENDING_BYTES :: nat where "MAX_PENDING_BYTES = 4096"
definition MAX_EIO_RETRIES :: "32 word" where "MAX_EIO_RETRIES = 3"
definition THERMAL_WARNING_C :: rat where "THERMAL_WARNING_C = 80"

record options =
  op_device :: pystr
  op_max_events :: "32 word"
  op_poll_timeout_ms :: int

record input_buffer =
  ib_data :: "byte list"
  ib_length :: nat

text \<open>The world and what has been printed\<close>

type_synonym 'w console = "'w \<times> pystr"

section \<open>The log\<close>

definition monotonic_milliseconds :: "'w monitor_os \<Rightarrow> 'w \<Rightarrow> int \<times> 'w" where
  "monotonic_milliseconds os w =
     (case clock_gettime os w of
        (None, w') \<Rightarrow> (- 1, w')
      | (Some (sec, nsec), w') \<Rightarrow> (sec * 1000 + nsec div 1000000, w'))"

definition print_log :: "'w monitor_os \<Rightarrow> (int \<Rightarrow> pystr) \<Rightarrow> 'w console \<Rightarrow> 'w console" where
  "print_log os line c = (case c of (w, out) \<Rightarrow> case monotonic_milliseconds os w of (now, w') \<Rightarrow> (w', out @ line now))"

definition simple_line :: "pystr \<Rightarrow> int \<Rightarrow> pystr" where
  "simple_line event now =
     lit ''{\"timestamp_ms\":'' @ str_int now @ lit '',\"event\":\"'' @ event @ lit ''\"}'' @ [10]"

definition errno_line :: "pystr \<Rightarrow> int \<Rightarrow> int \<Rightarrow> pystr" where
  "errno_line event err now =
     lit ''{\"timestamp_ms\":'' @ str_int now @ lit '',\"event\":\"'' @ event @ lit ''\",\"errno\":'' @ str_int err @ lit ''}'' @ [10]"

definition retry_line :: "32 word \<Rightarrow> int \<Rightarrow> pystr" where
  "retry_line retry now =
     lit ''{\"timestamp_ms\":'' @ str_int now @ lit '',\"event\":\"READ_RETRY\",\"retry\":'' @ str_int (uint retry)
     @ lit '',\"max_retries\":'' @ str_int (uint MAX_EIO_RETRIES) @ lit '',\"errno\":'' @ str_int 5 @ lit ''}'' @ [10]"

definition recovery_line :: "32 word \<Rightarrow> int \<Rightarrow> pystr" where
  "recovery_line retries now =
     lit ''{\"timestamp_ms\":'' @ str_int now @ lit '',\"event\":\"RECOVERY_SUCCESS\",\"retries\":'' @ str_int (uint retries)
     @ lit ''}'' @ [10]"

definition temperature_line :: "pyfloat \<Rightarrow> int \<Rightarrow> pystr" where
  "temperature_line temperature now =
     (let event = (if at_least THERMAL_WARNING_C temperature then lit ''THERMAL_WARNING'' else lit ''TEMPERATURE'')
      in lit ''{\"timestamp_ms\":'' @ str_int now @ lit '',\"event\":\"'' @ event @ lit ''\",\"temperature_c\":'' @ fixed3 temperature
         @ lit ''}'' @ [10])"

definition log_simple :: "'w monitor_os \<Rightarrow> pystr \<Rightarrow> 'w console \<Rightarrow> 'w console" where
  "log_simple os event = print_log os (simple_line event)"

definition log_errno_event :: "'w monitor_os \<Rightarrow> pystr \<Rightarrow> int \<Rightarrow> 'w console \<Rightarrow> 'w console" where
  "log_errno_event os event err = print_log os (errno_line event err)"

definition log_retry :: "'w monitor_os \<Rightarrow> 32 word \<Rightarrow> 'w console \<Rightarrow> 'w console" where
  "log_retry os retry = print_log os (retry_line retry)"

definition log_recovery :: "'w monitor_os \<Rightarrow> 32 word \<Rightarrow> 'w console \<Rightarrow> 'w console" where
  "log_recovery os retries = print_log os (recovery_line retries)"

definition log_temperature :: "'w monitor_os \<Rightarrow> pyfloat \<Rightarrow> 'w console \<Rightarrow> 'w console" where
  "log_temperature os temperature = print_log os (temperature_line temperature)"

section \<open>The command line\<close>

definition parse_unsigned :: "pystr \<Rightarrow> 32 word option" where
  "parse_unsigned s =
     (case strtoul s of (parsed, erange, rest) \<Rightarrow>
      if erange \<or> s = [] \<or> rest \<noteq> [] \<or> 2 ^ 32 - 1 < unat parsed then None else Some (ucast parsed))"

definition usage :: "pystr \<Rightarrow> pystr" where
  "usage program =
     lit ''Usage: '' @ program @ lit '' [--device PATH] [--max-events COUNT] [--poll-timeout-ms MS]'' @ [10]"

datatype parsed_options = Parsed options | Help | Bad

fun parse_arguments :: "pystr list \<Rightarrow> options \<Rightarrow> parsed_options" where
  "parse_arguments [] opts = Parsed opts"
| "parse_arguments (arg # args) opts =
     (if arg = lit ''--device'' \<and> args \<noteq> [] then parse_arguments (tl args) (opts\<lparr>op_device := hd args\<rparr>)
      else if arg = lit ''--max-events'' \<and> args \<noteq> [] then
        (case parse_unsigned (hd args) of
           None \<Rightarrow> Bad
         | Some v \<Rightarrow> if v = 0 then Bad else parse_arguments (tl args) (opts\<lparr>op_max_events := v\<rparr>))
      else if arg = lit ''--poll-timeout-ms'' \<and> args \<noteq> [] then
        (case parse_unsigned (hd args) of
           None \<Rightarrow> Bad
         | Some v \<Rightarrow> if 2 ^ 31 - 1 < unat v then Bad else parse_arguments (tl args) (opts\<lparr>op_poll_timeout_ms := uint v\<rparr>))
      else if arg = lit ''--help'' then Help
      else Bad)"

definition parse_options :: "pystr list \<Rightarrow> parsed_options" where
  "parse_options args =
     parse_arguments args \<lparr>op_device = lit ''/dev/vdevlab0'', op_max_events = 0, op_poll_timeout_ms = 5000\<rparr>"

section \<open>Input\<close>

definition is_pad :: "nat \<Rightarrow> bool" where
  "is_pad c \<longleftrightarrow> c = 32 \<or> c = 9 \<or> c = 13"

text \<open>A line up to its terminating zero\<close>

definition c_string :: "byte list \<Rightarrow> pystr" where
  "c_string bs = map unat (takeWhile (\<lambda>b. b \<noteq> 0) bs)"

definition process_line :: "'w monitor_os \<Rightarrow> byte list \<Rightarrow> 32 word \<Rightarrow> 'w console \<Rightarrow> 32 word \<times> 'w console" where
  "process_line os line event_count c =
     (let start = dropWhile is_pad (c_string line) in
      case strtod start of (temperature, erange, rest) \<Rightarrow>
      if erange \<or> length rest = length start \<or> \<not> isfinite temperature then (event_count, log_simple os (lit ''INVALID_INPUT'') c)
      else if dropWhile is_pad rest \<noteq> [] then (event_count, log_simple os (lit ''INVALID_INPUT'') c)
      else (event_count + 1, log_temperature os temperature c))"

text \<open>A store into the array; outside it the program has no defined behaviour, \<open>None\<close>\<close>

definition store :: "byte list \<Rightarrow> nat \<Rightarrow> byte \<Rightarrow> byte list option" where
  "store xs i b = (if i < length xs then Some (xs[i := b]) else None)"

text \<open>\<open>consume_input\<close>: whether the limit of events is reached, the buffer, the count, the console\<close>

fun consume_input ::
  "'w monitor_os \<Rightarrow> 32 word \<Rightarrow> byte list \<Rightarrow> input_buffer \<Rightarrow> 32 word \<Rightarrow> 'w console
   \<Rightarrow> (bool \<times> input_buffer \<times> 32 word \<times> 'w console) option" where
  "consume_input os max_events [] inp event_count c = Some (False, inp, event_count, c)"
| "consume_input os max_events (b # bs) inp event_count c =
     (if b = 10 then
        (case store (ib_data inp) (ib_length inp) 0 of
           None \<Rightarrow> None
         | Some data \<Rightarrow>
             (case process_line os data event_count c of (event_count1, c1) \<Rightarrow>
              let inp1 = \<lparr>ib_data = data, ib_length = 0\<rparr> in
              if max_events \<noteq> 0 \<and> max_events \<le> event_count1 then Some (True, inp1, event_count1, c1)
              else consume_input os max_events bs inp1 event_count1 c1))
      else if MAX_PENDING_BYTES \<le> ib_length inp + 1 then
        consume_input os max_events bs (inp\<lparr>ib_length := 0\<rparr>) event_count (log_simple os (lit ''INPUT_TOO_LONG'') c)
      else
        (case store (ib_data inp) (ib_length inp) b of
           None \<Rightarrow> None
         | Some data \<Rightarrow>
             consume_input os max_events bs \<lparr>ib_data = data, ib_length = ib_length inp + 1\<rparr> event_count c))"

section \<open>The main loop\<close>

record 'w monitor =
  mo_console :: "'w console"
  mo_input :: input_buffer
  mo_event_count :: "32 word"
  mo_eio_retries :: "32 word"

datatype outcome = Running | Exited int | Undefined

definition EPOLL_MASK :: "32 word" where "EPOLL_MASK = EPOLLIN OR EPOLLERR OR EPOLLHUP"

text \<open>The result of a \<open>read\<close> that failed\<close>

definition read_failed :: "'w monitor_os \<Rightarrow> int \<Rightarrow> 'w monitor \<Rightarrow> outcome \<times> 'w monitor" where
  "read_failed os err m =
     (if err = 11 then (Running, m)
      else if err = 5 then
        let eio_retries = mo_eio_retries m + 1; m1 = m\<lparr>mo_eio_retries := eio_retries\<rparr> in
        if MAX_EIO_RETRIES < eio_retries
        then (Exited 1, m1\<lparr>mo_console := log_errno_event os (lit ''READ_FAILED'') 5 (mo_console m1)\<rparr>)
        else (Running, m1\<lparr>mo_console := log_retry os eio_retries (mo_console m1)\<rparr>)
      else if err = 19 then
        (Exited 0, m\<lparr>mo_console := log_errno_event os (lit ''DEVICE_DISCONNECTED'') 19 (mo_console m)\<rparr>)
      else (Exited 1, m\<lparr>mo_console := log_errno_event os (lit ''READ_FAILED'') err (mo_console m)\<rparr>))"

text \<open>The result of a \<open>read\<close> that returned bytes\<close>

definition read_done :: "'w monitor_os \<Rightarrow> options \<Rightarrow> byte list \<Rightarrow> 'w monitor \<Rightarrow> outcome \<times> 'w monitor" where
  "read_done os opts bytes m =
     (if bytes = [] then (Exited 0, m\<lparr>mo_console := log_simple os (lit ''DEVICE_EOF'') (mo_console m)\<rparr>)
      else
        let m1 = (if mo_eio_retries m \<noteq> 0
                  then m\<lparr>mo_console := log_recovery os (mo_eio_retries m) (mo_console m), mo_eio_retries := 0\<rparr> else m) in
        case consume_input os (op_max_events opts) bytes (mo_input m1) (mo_event_count m1) (mo_console m1) of
          None \<Rightarrow> (Undefined, m1)
        | Some (full, inp, event_count, c) \<Rightarrow>
            (if full then Exited 0 else Running, m1\<lparr>mo_input := inp, mo_event_count := event_count, mo_console := c\<rparr>))"

definition with_world :: "('w \<Rightarrow> 'a \<times> 'w) \<Rightarrow> 'w monitor \<Rightarrow> 'a \<times> 'w monitor" where
  "with_world f m = (case f (fst (mo_console m)) of (x, w) \<Rightarrow> (x, m\<lparr>mo_console := (w, snd (mo_console m))\<rparr>))"

definition loop_body :: "'w monitor_os \<Rightarrow> options \<Rightarrow> 'w monitor \<Rightarrow> outcome \<times> 'w monitor" where
  "loop_body os opts m =
     (case with_world (poll_device os (op_poll_timeout_ms opts)) m of
        (Inl err, m1) \<Rightarrow>
          if err = 4 then (Running, m1)
          else (Exited 1, snd (with_world (\<lambda>w. ((), perror os (lit ''poll'') w)) m1))
      | (Inr revents, m1) \<Rightarrow>
          if revents AND EPOLL_MASK = 0 then (Running, m1)
          else
            (case with_world (read_device os 512) m1 of
               (Inl err, m2) \<Rightarrow> read_failed os err m2
             | (Inr bytes, m2) \<Rightarrow> read_done os opts bytes m2))"

primrec monitor_loop :: "nat \<Rightarrow> 'w monitor_os \<Rightarrow> options \<Rightarrow> 'w monitor \<Rightarrow> outcome \<times> 'w monitor" where
  "monitor_loop 0 os opts m = (Running, m)"
| "monitor_loop (Suc n) os opts m =
     (case with_world (stop_requested os) m of (stop, m1) \<Rightarrow>
      if stop then (Exited 0, m1)
      else case loop_body os opts m1 of
             (Running, m2) \<Rightarrow> monitor_loop n os opts m2
           | (result, m2) \<Rightarrow> (result, m2))"

text \<open>\<open>main\<close>: the exit status, or \<open>Running\<close> when \<open>n\<close> turns of the loop do not end it, and the output\<close>

definition monitor_main :: "nat \<Rightarrow> 'w monitor_os \<Rightarrow> pystr \<Rightarrow> pystr list \<Rightarrow> 'w \<Rightarrow> outcome \<times> 'w console" where
  "monitor_main n os program args w =
     (case parse_options args of
        Help \<Rightarrow> (Exited 0, put_stderr os (usage program) w, [])
      | Bad \<Rightarrow> (Exited 2, put_stderr os (usage program) w, [])
      | Parsed opts \<Rightarrow>
          (case open_device os (op_device opts) w of
             (False, w1) \<Rightarrow> (Exited 1, perror os (lit ''open'') w1, [])
           | (True, w1) \<Rightarrow>
               (case monitor_loop n os opts
                       \<lparr>mo_console = log_simple os (lit ''MONITOR_STARTED'') (w1, []),
                        mo_input = \<lparr>ib_data = replicate MAX_PENDING_BYTES 0, ib_length = 0\<rparr>,
                        mo_event_count = 0, mo_eio_retries = 0\<rparr> of
                  (Running, m) \<Rightarrow> (Running, mo_console m)
                | (result, m) \<Rightarrow> (result, close_device os (fst (mo_console m)), snd (mo_console m)))))"

end
