(* ===== verification/Monitor_Log.thy ===== *)
theory Monitor_Log
  imports Monitor Analysis_Props Py_Json_Dump
begin

text \<open>
  The lines of the monitor are JSON objects that the log parser of \<open>Analysis\<close> accepts.
\<close>

section \<open>Lines as objects\<close>

definition plain :: "pystr \<Rightarrow> bool" where
  "plain s \<longleftrightarrow> s \<noteq> [] \<and> (\<forall>c \<in> set s. 65 \<le> c \<and> c \<le> 122 \<and> c \<noteq> 92)"

lemma json_string_plain: "(\<forall>c \<in> set s. 65 \<le> c \<and> c \<le> 122 \<and> c \<noteq> 92) \<Longrightarrow> json_string s = 34 # s @ [34]"
proof -
  assume p: "\<forall>c \<in> set s. 65 \<le> c \<and> c \<le> 122 \<and> c \<noteq> 92"
  then have "concat (map escape_char s) = s" by (induction s) (auto simp: escape_char_def)
  then show ?thesis by (simp add: json_string_def)
qed

text \<open>What a line says: its time, its event and its other fields\<close>

type_synonym entry = "int \<times> pystr \<times> pydict"

definition entry_object :: "entry \<Rightarrow> pydict" where
  "entry_object e = (case e of (now, event, fs) \<Rightarrow> (lit ''timestamp_ms'', PInt now) # (lit ''event'', PStr event) # fs)"

definition wf_entry :: "entry \<Rightarrow> bool" where
  "wf_entry e \<longleftrightarrow> (case e of (now, event, fs) \<Rightarrow> 0 \<le> now \<and> plain event \<and> distinct (map fst (entry_object e)))"

definition says :: "entry \<Rightarrow> pystr \<Rightarrow> bool" where
  "says e line \<longleftrightarrow> (\<exists>t. line = t @ [10] \<and> reads (pydict_val (entry_object e)) t \<and> (\<forall>c \<in> set t. 32 \<le> c \<and> c \<le> 126))"

definition object_text :: "(pystr \<times> pystr) list \<Rightarrow> pystr" where
  "object_text ms = 123 # str_join [44] (map (\<lambda>(k, t). 34 # k @ 34 # 58 # t) ms) @ [125]"

lemma object_text_reads:
  assumes "d \<noteq> []" "list_all2 (\<lambda>kv kt. fst kt = fst kv \<and> reads (snd kv) (snd kt)) d ms" "distinct (map fst d)"
    and "\<forall>k \<in> fst ` set d. \<forall>c \<in> set k. 65 \<le> c \<and> c \<le> 122 \<and> c \<noteq> 92"
  shows "reads (pydict_val d) (object_text ms)"
proof -
  have "list_all2 member_text d (map (\<lambda>(k, t). 34 # k @ 34 # 58 # t) ms)"
    using assms(2,4)
  proof (induction d ms rule: list_all2_induct)
    case (Cons kv d kt ms)
    have "json_string (fst kv) = 34 # fst kv @ [34]" using Cons.prems by (intro json_string_plain) simp
    then have "member_text kv (34 # fst kv @ 34 # 58 # snd kt)"
      unfolding member_text_def using Cons.hyps(1) by (intro exI [of _ "[]"] exI [of _ "snd kt"]) simp
    with Cons show ?case by (auto split: prod.splits)
  qed simp
  from reads_dict [OF assms(1) this assms(3), of "[]" "[]" "[]"] show ?thesis by (simp add: object_text_def)
qed

section \<open>The lines of the monitor\<close>

text \<open>The numbers the monitor prints are those of 64-bit integers.\<close>

definition c_int :: "int \<Rightarrow> bool" where
  "c_int n \<longleftrightarrow> \<bar>n\<bar> < 2 ^ 64"

lemma short_c_int: "c_int n \<Longrightarrow> reads (PInt n) (str_int n)"
proof -
  assume n: "c_int n"
  have "nat \<bar>n\<bar> < 10 ^ Suc 19" using n by (simp add: c_int_def)
  then have "length (str_nat (nat \<bar>n\<bar>)) \<le> Suc 19" by (rule length_str_nat)
  then show ?thesis by (intro reads_int) (simp add: short_int_def)
qed

lemma str_int_printable: "c \<in> set (str_int n) \<Longrightarrow> 32 \<le> c \<and> c \<le> 126"
  using str_nat_digits [of "nat n"] str_nat_digits [of "nat (- n)"] by (auto simp: str_int_def is_digit_def split: if_splits)

definition fixed3_value :: "pyfloat \<Rightarrow> pyval" where
  "fixed3_value x =
     (case x of
        FFin q \<Rightarrow> json_float (q < 0) (of_nat (nat (rne (\<bar>q\<bar> * 1000))) * pow10 (- 3))
      | FNegZero \<Rightarrow> json_float True 0
      | _ \<Rightarrow> PNone)"

lemma three_digits:
  assumes "d < 1000"
  shows "digits_value (ds @ [48 + d div 100, 48 + d div 10 mod 10, 48 + d mod 10]) = digits_value ds * 1000 + d"
    and "\<forall>c \<in> set [48 + d div 100, 48 + d div 10 mod 10, 48 + d mod 10]. is_digit c"
proof -
  have "d div 10 = 10 * (d div 100) + d div 10 mod 10" "d = 10 * (d div 10) + d mod 10"
    using mult_div_mod_eq [of 10 "d div 10"] by (simp_all add: div_mult2_eq [symmetric])
  then have d: "100 * (d div 100) + 10 * (d div 10 mod 10) + d mod 10 = d" by linarith
  have "digits_value (ds @ [48 + a, 48 + b, 48 + c]) = digits_value ds * 1000 + (100 * a + 10 * b + c)" for a b c
    by (simp add: digits_value_def)
  with d show "digits_value (ds @ [48 + d div 100, 48 + d div 10 mod 10, 48 + d mod 10]) = digits_value ds * 1000 + d" by simp
  show "\<forall>c \<in> set [48 + d div 100, 48 + d div 10 mod 10, 48 + d mod 10]. is_digit c"
    using assms by (auto simp: is_digit_def)
qed

lemma scan_fixed3_nat:
  assumes "0 \<le> q" "ends_number r"
  shows "scan_number neg (fixed3_nat q @ r) = Inr (json_float neg (of_nat (nat (rne (q * 1000))) * pow10 (- 3)), r)"
proof -
  define n where "n = nat (rne (q * 1000))"
  define d where "d = n mod 1000"
  define fr where "fr = [48 + d div 100, 48 + d div 10 mod 10, 48 + d mod 10]"
  have d: "d < 1000" by (simp add: d_def)
  have f: "scan_fraction (46 # fr @ r) = (fr, r)"
    using assms(2) three_digits(2) [OF d] by (intro scan_fraction_digits) (auto simp: fr_def ends_number_def)
  have e: "scan_exponent r = (None, r)" using assms(2) by (intro scan_exponent_none) (auto simp: ends_number_def)
  have "digits_value (str_nat (n div 1000) @ fr) = n" using three_digits(1) [OF d, of "str_nat (n div 1000)"] by (simp add: fr_def d_def)
  moreover have "fixed3_nat q @ r = str_nat (n div 1000) @ 46 # fr @ r" by (simp add: fixed3_nat_def n_def d_def fr_def Let_def)
  ultimately show ?thesis
    using scan_number_parts [OF canonical_str_nat _ f e, of neg "n div 1000"] by (simp add: fr_def is_digit_def n_def)
qed

lemma fixed3_nat_start: "\<exists>c cs. fixed3_nat q = c # cs \<and> is_digit c"
  using str_nat_digits [of "nat (rne (q * 1000)) div 1000"]
  by (cases "str_nat (nat (rne (q * 1000)) div 1000)") (auto simp: fixed3_nat_def Let_def)

lemma reads_fixed3:
  assumes "isfinite x"
  shows "reads (fixed3_value x) (fixed3 x)"
proof -
  have pos: "reads (json_float False (of_nat (nat (rne (q * 1000))) * pow10 (- 3))) (fixed3_nat q)" if "0 \<le> q" for q
  proof -
    obtain c cs where c: "fixed3_nat q = c # cs" "is_digit c" using fixed3_nat_start by blast
    show ?thesis
    proof (rule reads_scalar)
      show "json_scalar (fixed3_nat q @ r) = Inr (json_float False (of_nat (nat (rne (q * 1000))) * pow10 (- 3)), r)"
        if "ends_number r" for r
        using scan_fixed3_nat [OF \<open>0 \<le> q\<close> that, of False] c by (simp add: json_scalar_digit)
    qed (use c in \<open>auto simp: starts_def is_digit_def\<close>)
  qed
  have neg: "reads (json_float True (of_nat (nat (rne (q * 1000))) * pow10 (- 3))) (45 # fixed3_nat q)" if "0 \<le> q" for q
  proof -
    obtain c cs where c: "fixed3_nat q = c # cs" "is_digit c" using fixed3_nat_start by blast
    show ?thesis
    proof (rule reads_scalar)
      show "json_scalar ((45 # fixed3_nat q) @ r) = Inr (json_float True (of_nat (nat (rne (q * 1000))) * pow10 (- 3)), r)"
        if "ends_number r" for r
        using scan_fixed3_nat [OF \<open>0 \<le> q\<close> that, of True] c by (simp add: json_scalar_minus)
    qed (auto simp: starts_def)
  qed
  show ?thesis using assms pos [of "case x of FFin q \<Rightarrow> \<bar>q\<bar> | _ \<Rightarrow> 0"] neg [of "case x of FFin q \<Rightarrow> \<bar>q\<bar> | _ \<Rightarrow> 0"]
    rne_of_int [of 0]
    by (cases x) (auto simp: fixed3_value_def)
qed

definition printable :: "pystr \<Rightarrow> bool" where
  "printable s \<longleftrightarrow> (\<forall>c \<in> set s. 32 \<le> c \<and> c \<le> 126)"

lemma printable_simps [simp]:
  "printable []" "printable (c # s) \<longleftrightarrow> 32 \<le> c \<and> c \<le> 126 \<and> printable s" "printable (s @ t) \<longleftrightarrow> printable s \<and> printable t"
  by (auto simp: printable_def)

lemma printable_str_join: "printable sep \<Longrightarrow> \<forall>t \<in> set ts. printable t \<Longrightarrow> printable (str_join sep ts)"
  by (induction ts) (auto simp: str_join_Cons, metis printable_simps(3) str_join.simps(2) str_join_Cons)

lemma object_text_printable: "\<forall>(k, t) \<in> set ms. printable k \<and> printable t \<Longrightarrow> printable (object_text ms)"
  unfolding object_text_def by (auto intro!: printable_str_join, fastforce+)

lemma fixed3_printable: "isfinite x \<Longrightarrow> printable (fixed3 x)"
proof -
  assume fin: "isfinite x"
  have "printable (fixed3_nat q)" for q
    using str_nat_digits [of "nat (rne (q * 1000)) div 1000"] three_digits(2) [of "nat (rne (q * 1000)) mod 1000"]
    by (auto simp: printable_def fixed3_nat_def is_digit_def Let_def)
  with fin show ?thesis by (cases x) auto
qed

definition key_chars :: "pystr \<Rightarrow> bool" where
  "key_chars k \<longleftrightarrow> (\<forall>c \<in> set k. 65 \<le> c \<and> c \<le> 122 \<and> c \<noteq> 92)"

definition field_text :: "pystr \<times> pyval \<Rightarrow> pystr \<times> pystr \<Rightarrow> bool" where
  "field_text kv kt \<longleftrightarrow> fst kt = fst kv \<and> reads (snd kv) (snd kt) \<and> key_chars (fst kv) \<and> printable (snd kt)"

lemma field_text_keys: "list_all2 field_text d ms \<Longrightarrow> k \<in> fst ` set d \<Longrightarrow> key_chars k"
  by (induction d ms rule: list_all2_induct) (auto simp: field_text_def)

lemma key_chars_printable: "key_chars k \<Longrightarrow> printable k"
  unfolding key_chars_def printable_def by fastforce

lemma field_text_printable: "list_all2 field_text d ms \<Longrightarrow> (k, t) \<in> set ms \<Longrightarrow> printable k \<and> printable t"
  by (induction d ms rule: list_all2_induct) (auto simp: field_text_def key_chars_printable)

lemma object_says:
  assumes "wf_entry (now, event, fs)" "c_int now" "list_all2 field_text fs ms"
  shows "says (now, event, fs) (object_text ((lit ''timestamp_ms'', str_int now) # (lit ''event'', 34 # event @ [34]) # ms) @ [10])"
proof -
  let ?ms = "(lit ''timestamp_ms'', str_int now) # (lit ''event'', 34 # event @ [34]) # ms"
  let ?d = "entry_object (now, event, fs)"
  have ev: "\<forall>c \<in> set event. 65 \<le> c \<and> c \<le> 122 \<and> c \<noteq> 92" using assms(1) by (simp add: wf_entry_def plain_def)
  have "key_chars (lit ''timestamp_ms'')" "key_chars (lit ''event'')" by (simp_all add: key_chars_def lit_def)
  moreover have "reads (PStr event) (34 # event @ [34])" using reads_string [of event] json_string_plain [OF ev] by simp
  moreover have "printable (str_int now)" "printable (34 # event @ [34])"
    using str_int_printable ev by (auto simp: printable_def)
  ultimately have all: "list_all2 field_text ?d ?ms"
    using assms(3) short_c_int [OF assms(2)] by (simp add: entry_object_def field_text_def)
  have "reads (pydict_val ?d) (object_text ?ms)"
  proof (rule object_text_reads)
    show "list_all2 (\<lambda>kv kt. fst kt = fst kv \<and> reads (snd kv) (snd kt)) ?d ?ms"
      using all by (rule list_all2_mono) (simp add: field_text_def)
    show "\<forall>k \<in> fst ` set ?d. \<forall>c \<in> set k. 65 \<le> c \<and> c \<le> 122 \<and> c \<noteq> 92"
      using field_text_keys [OF all] by (simp add: key_chars_def)
  qed (use assms(1) in \<open>auto simp: wf_entry_def entry_object_def\<close>)
  moreover have "printable (object_text ?ms)"
    using field_text_printable [OF all] by (intro object_text_printable) blast
  ultimately show ?thesis unfolding says_def printable_def by blast
qed

subsection \<open>What each function logs\<close>

definition errno_fields :: "int \<Rightarrow> pydict" where "errno_fields e = [(lit ''errno'', PInt e)]"
definition retry_fields :: "32 word \<Rightarrow> pydict" where
  "retry_fields r = [(lit ''retry'', PInt (uint r)), (lit ''max_retries'', PInt 3), (lit ''errno'', PInt 5)]"
definition recovery_fields :: "32 word \<Rightarrow> pydict" where "recovery_fields r = [(lit ''retries'', PInt (uint r))]"
definition temperature_event :: "pyfloat \<Rightarrow> pystr" where
  "temperature_event x = (if at_least THERMAL_WARNING_C x then lit ''THERMAL_WARNING'' else lit ''TEMPERATURE'')"

lemmas entry_defs = wf_entry_def entry_object_def plain_def lit_def

lemma c_int_word: "c_int (uint (w :: 32 word))"
proof -
  have "uint w < 2 ^ 32" using uint_lt2p [of w] by simp
  then show ?thesis by (simp add: c_int_def)
qed

lemma simple_says:
  assumes "0 \<le> now" "c_int now" "plain event"
  shows "says (now, event, []) (simple_line event now)"
proof -
  have "simple_line event now = object_text [(lit ''timestamp_ms'', str_int now), (lit ''event'', 34 # event @ [34])] @ [10]"
    by (simp add: simple_line_def object_text_def lit_def)
  then show ?thesis using object_says [of now event "[]" "[]"] assms by (simp add: wf_entry_def entry_object_def lit_def)
qed

lemma errno_says:
  assumes "0 \<le> now" "c_int now" "plain event" "c_int e"
  shows "says (now, event, errno_fields e) (errno_line event e now)"
proof -
  let ?ms = "[(lit ''errno'', str_int e)]"
  have "errno_line event e now =
      object_text ((lit ''timestamp_ms'', str_int now) # (lit ''event'', 34 # event @ [34]) # ?ms) @ [10]"
    by (simp add: errno_line_def object_text_def lit_def)
  moreover have "list_all2 field_text (errno_fields e) ?ms"
    using short_c_int [OF assms(4)] str_int_printable [of _ e] by (auto simp: errno_fields_def field_text_def key_chars_def printable_def lit_def)
  ultimately show ?thesis
    using object_says [of now event "errno_fields e" ?ms] assms by (simp add: wf_entry_def entry_object_def errno_fields_def lit_def)
qed

lemma field_int: "c_int n \<Longrightarrow> key_chars k \<Longrightarrow> field_text (k, PInt n) (k, str_int n)"
  using short_c_int [of n] str_int_printable [of _ n] by (auto simp: field_text_def printable_def)

lemma retry_says:
  assumes "0 \<le> now" "c_int now"
  shows "says (now, lit ''READ_RETRY'', retry_fields r) (retry_line r now)"
proof -
  let ?ms = "[(lit ''retry'', str_int (uint r)), (lit ''max_retries'', str_int 3), (lit ''errno'', str_int 5)]"
  have "retry_line r now =
      object_text ((lit ''timestamp_ms'', str_int now) # (lit ''event'', 34 # lit ''READ_RETRY'' @ [34]) # ?ms) @ [10]"
    by (simp add: retry_line_def object_text_def lit_def MAX_EIO_RETRIES_def)
  moreover have "list_all2 field_text (retry_fields r) ?ms"
    unfolding retry_fields_def using c_int_word
    by (auto intro!: field_int simp: c_int_def [of 3] c_int_def [of 5] key_chars_def lit_def)
  ultimately show ?thesis
    using object_says [of now "lit ''READ_RETRY''" "retry_fields r" ?ms] assms
    by (simp add: wf_entry_def entry_object_def retry_fields_def plain_def lit_def)
qed

lemma recovery_says:
  assumes "0 \<le> now" "c_int now"
  shows "says (now, lit ''RECOVERY_SUCCESS'', recovery_fields r) (recovery_line r now)"
proof -
  let ?ms = "[(lit ''retries'', str_int (uint r))]"
  have "recovery_line r now =
      object_text ((lit ''timestamp_ms'', str_int now) # (lit ''event'', 34 # lit ''RECOVERY_SUCCESS'' @ [34]) # ?ms) @ [10]"
    by (simp add: recovery_line_def object_text_def lit_def)
  moreover have "list_all2 field_text (recovery_fields r) ?ms"
    unfolding recovery_fields_def using c_int_word by (auto intro!: field_int simp: key_chars_def lit_def)
  ultimately show ?thesis
    using object_says [of now "lit ''RECOVERY_SUCCESS''" "recovery_fields r" ?ms] assms
    by (simp add: wf_entry_def entry_object_def recovery_fields_def plain_def lit_def)
qed

lemma temperature_says:
  assumes "0 \<le> now" "c_int now" "isfinite x"
  shows "says (now, temperature_event x, [(lit ''temperature_c'', fixed3_value x)]) (temperature_line x now)"
proof -
  let ?ms = "[(lit ''temperature_c'', fixed3 x)]"
  have "temperature_line x now =
      object_text ((lit ''timestamp_ms'', str_int now) # (lit ''event'', 34 # temperature_event x @ [34]) # ?ms) @ [10]"
    by (simp add: temperature_line_def temperature_event_def object_text_def lit_def)
  moreover have "list_all2 field_text [(lit ''temperature_c'', fixed3_value x)] ?ms"
    using reads_fixed3 [OF assms(3)] fixed3_printable [OF assms(3)] by (simp add: field_text_def key_chars_def lit_def)
  ultimately show ?thesis
    using object_says [of now "temperature_event x" "[(lit ''temperature_c'', fixed3_value x)]" ?ms] assms
    by (simp add: wf_entry_def entry_object_def temperature_event_def plain_def lit_def)
qed

section \<open>The log is parsed\<close>

definition entry_event :: "int \<Rightarrow> entry \<Rightarrow> ApplicationLogEvent" where
  "entry_event line e =
     (case e of (now, event, fs) \<Rightarrow> \<lparr>le_line = line, le_timestamp_ms = now, le_event = event, le_fields = fs\<rparr>)"

primrec entry_events :: "int \<Rightarrow> entry list \<Rightarrow> ApplicationLogEvent list" where
  "entry_events line [] = []"
| "entry_events line (e # es) = entry_event line e # entry_events (line + 1) es"

lemma entry_events_append: "entry_events line (es @ es') = entry_events line es @ entry_events (line + int (length es)) es'"
  by (induction es arbitrary: line) (simp_all add: add.assoc)

lemma parse_entry:
  assumes "wf_entry e" "says e (t @ [10])" "case prev of None \<Rightarrow> True | Some p \<Rightarrow> p \<le> fst e"
  shows "parse_log_line line prev t = Inr (entry_event line e)" and "\<not> is_blank t" and "\<forall>c \<in> set t. \<not> is_linebreak c"
proof -
  obtain now event fs where e: "e = (now, event, fs)" by (cases e)
  have r: "reads (pydict_val (entry_object e)) t" and p: "\<forall>c \<in> set t. 32 \<le> c \<and> c \<le> 126" using assms(2) by (auto simp: says_def)
  have "json_loads (t @ []) = Inr (pydict_val (entry_object e))" using r by (rule json_loads_reads) (simp_all add: ends_number_def json_ws_def)
  moreover have "json_object line (pydict_val (entry_object e)) = Inr (entry_object e)"
    by (simp add: json_object_def pydict_val_def comp_def case_prod_beta)
  moreover have "dget (entry_object e) (lit ''timestamp_ms'') = PInt now" "dget (entry_object e) (lit ''event'') = PStr event"
    by (simp_all add: e entry_object_def dget_def lit_def)
  moreover have "0 \<le> now" "plain event" and d: "distinct (map fst (entry_object e))" using assms(1) by (simp_all add: wf_entry_def e)
  moreover have "\<not> is_blank event" using \<open>plain event\<close> by (cases event) (auto simp: plain_def is_blank_def is_space_def)
  moreover have "filter (\<lambda>kv. fst kv \<noteq> lit ''timestamp_ms'' \<and> fst kv \<noteq> lit ''event'') (entry_object e) = fs"
    using d by (auto simp: entry_object_def e filter_id_conv rev_image_eqI)
  ultimately show "parse_log_line line prev t = Inr (entry_event line e)"
    using assms(3)
    by (simp add: parse_log_line_def load_line_def require_nonnegative_integer_def event_name_def entry_event_def e ensure_def
        not_less split: option.splits)
  show "\<forall>c \<in> set t. \<not> is_linebreak c" using p by (auto simp: is_linebreak_def)
  have "starts t" using r by (simp add: reads_def)
  then show "\<not> is_blank t" using p by (cases t) (auto simp: starts_def is_blank_def is_space_def)
qed

definition logged :: "pystr \<Rightarrow> entry list \<Rightarrow> bool" where
  "logged out es \<longleftrightarrow> (\<exists>ts. out = concat (map (\<lambda>t. t @ [10]) ts) \<and> list_all2 (\<lambda>e t. says e (t @ [10])) es ts)
     \<and> (\<forall>e \<in> set es. wf_entry e) \<and> sorted (map fst es)"

lemma parse_entries:
  assumes "list_all2 (\<lambda>e t. says e (t @ [10])) es ts" "\<forall>e \<in> set es. wf_entry e" "sorted (map fst es)"
    and "\<forall>e \<in> set es. case prev of None \<Rightarrow> True | Some p \<Rightarrow> p \<le> fst e"
  shows "parse_log_lines line prev ts = Inr (entry_events line es)"
  using assms
proof (induction es ts arbitrary: line prev rule: list_all2_induct)
  case (Cons e es t ts)
  have 1: "parse_log_line line prev t = Inr (entry_event line e)" "\<not> is_blank t"
    using parse_entry(1) [of e t prev line] parse_entry(2) [of e t prev] Cons by simp_all
  moreover have "le_timestamp_ms (entry_event line e) = fst e" by (simp add: entry_event_def split: prod.splits)
  moreover have "parse_log_lines (line + 1) (Some (fst e)) ts = Inr (entry_events (line + 1) es)"
    using Cons by (intro Cons.IH) auto
  ultimately show ?case by simp
qed simp

lemma logged_parses:
  assumes "logged out es"
  shows "parse_application_log out = Inr (entry_events 1 es)"
proof -
  from assms obtain ts where out: "out = concat (map (\<lambda>t. t @ [10]) ts)" and ts: "list_all2 (\<lambda>e t. says e (t @ [10])) es ts"
    and wf: "\<forall>e \<in> set es. wf_entry e" "sorted (map fst es)" by (auto simp: logged_def)
  have "\<forall>t \<in> set ts. \<forall>c \<in> set t. \<not> is_linebreak c"
    using ts wf(1) by (induction es ts rule: list_all2_induct) (auto dest: parse_entry(3) [where prev = None])
  then show ?thesis using parse_entries [OF ts wf, of None 1] by (simp add: parse_application_log_def out splitlines_concat)
qed

lemma logged_snoc:
  assumes "logged out es" "says e line" "wf_entry e" "\<forall>x \<in> set es. fst x \<le> fst e"
  shows "logged (out @ line) (es @ [e])"
proof -
  from assms(1) obtain ts where out: "out = concat (map (\<lambda>t. t @ [10]) ts)" and ts: "list_all2 (\<lambda>e t. says e (t @ [10])) es ts"
    by (auto simp: logged_def)
  from assms(2) obtain t where t: "line = t @ [10]" by (auto simp: says_def)
  with out ts assms(2) have "out @ line = concat (map (\<lambda>t. t @ [10]) (ts @ [t])) \<and> list_all2 (\<lambda>e t. says e (t @ [10])) (es @ [e]) (ts @ [t])"
    by (simp add: list_all2_appendI)
  then have "\<exists>ts. out @ line = concat (map (\<lambda>t. t @ [10]) ts) \<and> list_all2 (\<lambda>e t. says e (t @ [10])) (es @ [e]) ts" by blast
  moreover have "\<forall>x \<in> set (es @ [e]). wf_entry x" "sorted (map fst (es @ [e]))"
    using assms by (auto simp: logged_def sorted_append)
  ultimately show ?thesis unfolding logged_def by blast
qed

end
