(* ===== verification/Monitor_Props.thy ===== *)
theory Monitor_Props
  imports Monitor_Log
begin

text \<open>
  The monitor under any behaviour of its device: it stays inside its buffer, and its log can be parsed and
  measured.
\<close>

section \<open>The log and the retries\<close>

definition exact_window :: "RecoveryWindow \<Rightarrow> bool" where
  "exact_window w \<longleftrightarrow> rw_observed_retries w = rw_reported_retries w \<and> 1 \<le> rw_observed_retries w \<and> rw_observed_retries w \<le> 3"

text \<open>
  The state of the metrics after a log with \<open>k\<close> retries in all, with recoveries after \<open>ns\<close> retries each, and
  with \<open>r\<close> retries not yet followed by a recovery
\<close>

definition retry_state :: "entry list \<Rightarrow> 32 word \<Rightarrow> int \<Rightarrow> int list \<Rightarrow> bool" where
  "retry_state es r k ns \<longleftrightarrow> unat r \<le> 3 \<and>
     (\<exists>st. metrics_loop metrics_init (entry_events 1 es) = Inr st \<and> ms_active_retry_count st = int (unat r)
        \<and> (ms_first_error st = None \<longleftrightarrow> r = 0) \<and> (\<forall>w \<in> set (ms_recoveries st). exact_window w)
        \<and> ms_application_retry_count st = k \<and> ms_observed_eio_count st = k \<and> map rw_observed_retries (ms_recoveries st) = ns)"

lemma metrics_snoc:
  assumes "metrics_loop metrics_init (entry_events 1 es) = Inr st"
  shows "metrics_loop metrics_init (entry_events 1 (es @ [e])) = metrics_step st (entry_event (1 + int (length es)) e)"
proof -
  have "rbind x Inr = x" for x :: "pyexc + metrics_state" by (cases x) simp_all
  with assms show ?thesis by (simp add: entry_events_append metrics_loop_append)
qed

lemma retry_state_other:
  assumes "retry_state es r k ns" "event \<noteq> lit ''READ_RETRY''" "event \<noteq> lit ''RECOVERY_SUCCESS''"
  shows "retry_state (es @ [(t, event, fs)]) r k ns"
  using assms unfolding retry_state_def by (auto simp: metrics_snoc metrics_step_def entry_event_def)

lemma unat_suc_small: "unat (r :: 32 word) < 3 \<Longrightarrow> unat (r + 1) = unat r + 1"
  by (simp add: unat_word_ariths)

lemma retry_state_retry:
  assumes "retry_state es r k ns" "unat r < 3"
  shows "retry_state (es @ [(t, lit ''READ_RETRY'', retry_fields (r + 1))]) (r + 1) (k + 1) ns"
proof -
  obtain st where st: "metrics_loop metrics_init (entry_events 1 es) = Inr st" "ms_active_retry_count st = int (unat r)"
    "\<forall>w \<in> set (ms_recoveries st). exact_window w"
    "ms_application_retry_count st = k" "ms_observed_eio_count st = k" "map rw_observed_retries (ms_recoveries st) = ns"
    using assms(1) by (auto simp: retry_state_def)
  have "r + 1 \<noteq> 0" using unat_suc_small [OF assms(2)] by auto
  moreover have "dget (retry_fields (r + 1)) (lit ''errno'') = PInt 5" "dget (retry_fields (r + 1)) (lit ''retry'') = PInt (uint (r + 1))"
    by (simp_all add: retry_fields_def dget_def lit_def)
  ultimately show ?thesis using st assms(2) unat_suc_small [OF assms(2)]
    by (auto simp: retry_state_def metrics_snoc metrics_step_def entry_event_def retry_step_def require_nonnegative_integer_def or_else_def
        EIO_def split: option.splits)
qed

lemma exact_windowI:
  "1 \<le> n \<Longrightarrow> n \<le> 3 \<Longrightarrow>
     exact_window \<lparr>rw_first_error_timestamp_ms = a, rw_recovery_timestamp_ms = b, rw_recovery_latency_ms = c,
       rw_observed_retries = n, rw_reported_retries = n\<rparr>"
  by (simp add: exact_window_def)

lemma retry_state_recovery:
  assumes "retry_state es r k ns" "r \<noteq> 0"
  shows "retry_state (es @ [(t, lit ''RECOVERY_SUCCESS'', recovery_fields r)]) 0 k (ns @ [uint r])"
proof -
  obtain st where st: "metrics_loop metrics_init (entry_events 1 es) = Inr st" "ms_active_retry_count st = int (unat r)"
    "ms_first_error st \<noteq> None" "\<forall>w \<in> set (ms_recoveries st). exact_window w" "unat r \<le> 3"
    "ms_application_retry_count st = k" "ms_observed_eio_count st = k" "map rw_observed_retries (ms_recoveries st) = ns"
    using assms by (auto simp: retry_state_def)
  have "1 \<le> unat r" using assms(2) by (simp add: Suc_le_eq unat_gt_0)
  moreover have "int (unat r) = uint r" by simp
  ultimately have "1 \<le> uint r" "uint r \<le> 3" using st(5) by linarith+
  moreover have "dget (recovery_fields r) (lit ''retries'') = PInt (int (unat r))"
    by (simp add: recovery_fields_def dget_def)
  moreover have "lit ''RECOVERY_SUCCESS'' \<noteq> lit ''READ_RETRY''" by (simp add: lit_def)
  ultimately show ?thesis using st
    by (auto simp: retry_state_def metrics_snoc metrics_step_def entry_event_def recovery_step_def require_nonnegative_integer_def
        intro!: exact_windowI)
qed

lemma retry_state_init: "retry_state [] 0 0 []"
  by (simp add: retry_state_def metrics_init_def)

text \<open>A log that the parser accepts and whose metrics can be computed, every recovery with as many retries as it reports\<close>

definition analysable :: "pystr \<Rightarrow> bool" where
  "analysable out \<longleftrightarrow> (\<exists>events m. parse_application_log out = Inr events \<and> calculate_recovery_metrics events = Inr m
     \<and> (\<forall>w \<in> set (rm_recoveries m). exact_window w))"

definition input_ok :: "input_buffer \<Rightarrow> bool" where
  "input_ok inp \<longleftrightarrow> length (ib_data inp) = MAX_PENDING_BYTES \<and> ib_length inp < MAX_PENDING_BYTES"

lemma store_ok: "input_ok inp \<Longrightarrow> store (ib_data inp) (ib_length inp) b = Some ((ib_data inp)[ib_length inp := b])"
  by (simp add: store_def input_ok_def)

section \<open>The monitor in its environment\<close>

text \<open>
  What the monitor relies on: a clock that works, is not negative, fits in \<open>long long\<close> and does not go back;
  \<open>read\<close> fails with an error number, and returns no more bytes than it was asked for.
\<close>

locale monitor_env =
  fixes os :: "'w monitor_os" and now :: "'w \<Rightarrow> int"
  assumes now_range: "0 \<le> now w" "now w < 2 ^ 63"
    and clock: "clock_gettime os w = (r, w') \<Longrightarrow>
      \<exists>sec nsec. r = Some (sec, nsec) \<and> now w \<le> sec * 1000 + nsec div 1000000 \<and> sec * 1000 + nsec div 1000000 \<le> now w'"
    and stop: "stop_requested os w = (stop, w') \<Longrightarrow> now w \<le> now w'"
    and poll: "poll_device os timeout w = (p, w') \<Longrightarrow> now w \<le> now w'"
    and read: "read_device os n w = (bytes, w') \<Longrightarrow> now w \<le> now w' \<and> (\<forall>e. bytes = Inl e \<longrightarrow> 0 < e \<and> e < 4096)"
    and perror: "now w \<le> now (perror os msg w)"
begin

definition console_ok :: "'w console \<Rightarrow> 32 word \<Rightarrow> int \<Rightarrow> int list \<Rightarrow> bool" where
  "console_ok c r k ns \<longleftrightarrow> (\<exists>es. logged (snd c) es \<and> (\<forall>e \<in> set es. fst e \<le> now (fst c)) \<and> retry_state es r k ns)"

definition sound_log :: "'w console \<Rightarrow> 32 word \<Rightarrow> bool" where
  "sound_log c r \<longleftrightarrow> (\<exists>k ns. console_ok c r k ns)"

lemma sound_logI: "console_ok c r k ns \<Longrightarrow> sound_log c r"
  by (auto simp: sound_log_def)

lemma milliseconds:
  assumes "monotonic_milliseconds os w = (t, w')"
  shows "now w \<le> t" "t \<le> now w'" "0 \<le> t" "c_int t"
proof -
  obtain r v where c: "clock_gettime os w = (r, v)" by fastforce
  with clock [OF c] assms show 1: "now w \<le> t" "t \<le> now w'" by (auto simp: monotonic_milliseconds_def)
  with now_range [of w] now_range [of w'] show "0 \<le> t" "c_int t" by (auto simp: c_int_def)
qed

lemma print_ok:
  assumes "console_ok c r k ns" "\<And>t. 0 \<le> t \<Longrightarrow> c_int t \<Longrightarrow> says (t, event, fs) (line t) \<and> wf_entry (t, event, fs)"
    and "\<And>es t. retry_state es r k ns \<Longrightarrow> retry_state (es @ [(t, event, fs)]) r' k' ns'"
  shows "console_ok (print_log os line c) r' k' ns'"
proof -
  obtain w out where c: "c = (w, out)" by fastforce
  obtain es where es: "logged out es" "\<forall>e \<in> set es. fst e \<le> now w" "retry_state es r k ns"
    using assms(1) by (auto simp: console_ok_def c)
  obtain t w' where t: "monotonic_milliseconds os w = (t, w')" by fastforce
  note m = milliseconds [OF t]
  have le: "\<forall>x \<in> set es. fst x \<le> t" using es(2) m(1) by force
  have "logged (out @ line t) (es @ [(t, event, fs)])"
    using es(1) assms(2) [OF m(3,4)] le by (intro logged_snoc) auto
  moreover have "\<forall>e \<in> set (es @ [(t, event, fs)]). fst e \<le> now w'" using le m(2) by force
  moreover have "retry_state (es @ [(t, event, fs)]) r' k' ns'" using es(3) by (rule assms(3))
  ultimately have "console_ok (w', out @ line t) r' k' ns'" unfolding console_ok_def fst_conv snd_conv by blast
  then show ?thesis by (simp add: print_log_def c t)
qed

lemma log_simple_ok:
  assumes "console_ok c r k ns" "plain event" "event \<noteq> lit ''READ_RETRY''" "event \<noteq> lit ''RECOVERY_SUCCESS''"
  shows "console_ok (log_simple os event c) r k ns"
  unfolding log_simple_def
  by (rule print_ok [OF assms(1), where event = event and fs = "[]"])
    (use assms simple_says in \<open>auto simp: wf_entry_def entry_object_def lit_def intro: retry_state_other\<close>)

lemma log_errno_ok:
  assumes "console_ok c r k ns" "plain event" "event \<noteq> lit ''READ_RETRY''" "event \<noteq> lit ''RECOVERY_SUCCESS''" "c_int e"
  shows "console_ok (log_errno_event os event e c) r k ns"
  unfolding log_errno_event_def
  by (rule print_ok [OF assms(1), where event = event and fs = "errno_fields e"])
    (use assms errno_says in \<open>auto simp: wf_entry_def entry_object_def errno_fields_def lit_def intro: retry_state_other\<close>)

lemma log_retry_ok:
  assumes "console_ok c r k ns" "unat r < 3"
  shows "console_ok (log_retry os (r + 1) c) (r + 1) (k + 1) ns"
  unfolding log_retry_def
  by (rule print_ok [OF assms(1), where event = "lit ''READ_RETRY''" and fs = "retry_fields (r + 1)"])
    (use retry_says retry_state_retry [OF _ assms(2)] in
      \<open>auto simp: wf_entry_def entry_object_def retry_fields_def plain_def lit_def\<close>)

lemma log_recovery_ok:
  assumes "console_ok c r k ns" "r \<noteq> 0"
  shows "console_ok (log_recovery os r c) 0 k (ns @ [uint r])"
  unfolding log_recovery_def
  by (rule print_ok [OF assms(1), where event = "lit ''RECOVERY_SUCCESS''" and fs = "recovery_fields r"])
    (use recovery_says retry_state_recovery [OF _ assms(2)] in
      \<open>auto simp: wf_entry_def entry_object_def recovery_fields_def plain_def lit_def\<close>)

lemma log_temperature_ok:
  assumes "console_ok c r k ns" "isfinite x"
  shows "console_ok (log_temperature os x c) r k ns"
proof -
  have e: "temperature_event x \<noteq> lit ''READ_RETRY''" "temperature_event x \<noteq> lit ''RECOVERY_SUCCESS''" "plain (temperature_event x)"
    by (auto simp: temperature_event_def plain_def lit_def)
  show ?thesis unfolding log_temperature_def
    by (rule print_ok [OF assms(1), where event = "temperature_event x" and fs = "[(lit ''temperature_c'', fixed3_value x)]"])
      (use assms(2) temperature_says e in \<open>auto simp: wf_entry_def entry_object_def lit_def intro: retry_state_other\<close>)
qed

lemma process_line_ok:
  assumes "console_ok c r k ns" "process_line os line n c = (n', c')"
  shows "console_ok c' r k ns"
proof -
  have "console_ok (log_simple os (lit ''INVALID_INPUT'') c) r k ns"
    using assms(1) by (rule log_simple_ok) (simp_all add: plain_def lit_def)
  with assms log_temperature_ok [OF assms(1)] show ?thesis
    by (auto simp: process_line_def Let_def split: prod.splits if_splits)
qed

lemma consume_input_ok:
  assumes "input_ok inp" "console_ok c r k ns"
  shows "\<exists>full inp' n' c'. consume_input os max_events bs inp n c = Some (full, inp', n', c') \<and> input_ok inp' \<and> console_ok c' r k ns"
  using assms
proof (induction bs arbitrary: inp n c)
  case (Cons b bs)
  show ?case
  proof (cases "b = 10")
    case True
    obtain n1 c1 where p: "process_line os ((ib_data inp)[ib_length inp := 0]) n c = (n1, c1)" by (metis surj_pair)
    let ?inp = "\<lparr>ib_data = (ib_data inp)[ib_length inp := 0], ib_length = 0\<rparr>"
    have "input_ok ?inp" "console_ok c1 r k ns"
      using Cons.prems process_line_ok [OF Cons.prems(2) p] by (simp_all add: input_ok_def)
    with Cons.IH [of ?inp c1 n1] True store_ok [OF Cons.prems(1)] p show ?thesis by (cases c1) (auto simp: Let_def)
  next
    case False
    show ?thesis
    proof (cases "MAX_PENDING_BYTES \<le> ib_length inp + 1")
      case True
      have "input_ok (inp\<lparr>ib_length := 0\<rparr>)" "console_ok (log_simple os (lit ''INPUT_TOO_LONG'') c) r k ns"
        using Cons.prems by (auto simp: input_ok_def MAX_PENDING_BYTES_def plain_def lit_def intro!: log_simple_ok)
      with Cons.IH False True show ?thesis by simp
    next
      case long: False
      have "input_ok \<lparr>ib_data = (ib_data inp)[ib_length inp := b], ib_length = ib_length inp + 1\<rparr>"
        using Cons.prems(1) long by (simp add: input_ok_def)
      with Cons.IH [OF _ Cons.prems(2)] False long store_ok [OF Cons.prems(1)] show ?thesis by simp
    qed
  qed
qed auto

definition monitor_ok :: "'w monitor \<Rightarrow> bool" where
  "monitor_ok m \<longleftrightarrow> input_ok (mo_input m) \<and> sound_log (mo_console m) (mo_eio_retries m)"

text \<open>A result of a turn: the invariant while the loop runs, an analysable log when it has ended\<close>

definition turn_ok :: "outcome \<times> 'w monitor \<Rightarrow> bool" where
  "turn_ok om \<longleftrightarrow>
     (case om of (Running, m) \<Rightarrow> monitor_ok m | (Exited _, m) \<Rightarrow> (\<exists>r. sound_log (mo_console m) r) | (Undefined, m) \<Rightarrow> False)"

lemma console_ok_later: "console_ok (w, out) r k ns \<Longrightarrow> now w \<le> now w' \<Longrightarrow> console_ok (w', out) r k ns"
  unfolding console_ok_def by force

lemma sound_log_later: "sound_log (w, out) r \<Longrightarrow> now w \<le> now w' \<Longrightarrow> sound_log (w', out) r"
  using console_ok_later unfolding sound_log_def by blast

lemma with_world_ok:
  assumes "monitor_ok m" "with_world f m = (x, m')" "\<And>w w'. f w = (x, w') \<Longrightarrow> now w \<le> now w'"
  shows "monitor_ok m'"
proof -
  obtain w out where c: "mo_console m = (w, out)" by fastforce
  obtain w' where f: "f w = (x, w')" "m' = m\<lparr>mo_console := (w', out)\<rparr>"
    using assms(2) by (auto simp: with_world_def c split: prod.splits)
  with assms(1) sound_log_later [of w out _ w'] assms(3) show ?thesis by (simp add: monitor_ok_def c)
qed

lemma with_world_value: "with_world f m = (x, m') \<Longrightarrow> \<exists>w w'. f w = (x, w')"
  by (auto simp: with_world_def split: prod.splits)

lemma read_failed_ok:
  assumes "monitor_ok m" "0 < e" "e < 4096"
  shows "turn_ok (read_failed os e m)"
proof -
  obtain k ns where c: "console_ok (mo_console m) (mo_eio_retries m) k ns" "input_ok (mo_input m)"
    using assms(1) by (auto simp: monitor_ok_def sound_log_def)
  have i: "c_int e" "c_int 5" "c_int 19" using assms(2,3) by (simp_all add: c_int_def)
  have le3: "unat (mo_eio_retries m) \<le> 3" using c(1) by (auto simp: console_ok_def retry_state_def)
  have failed: "console_ok (log_errno_event os (lit ''READ_FAILED'') j (mo_console m)) (mo_eio_retries m) k ns" if "c_int j" for j
    using that by (intro log_errno_ok c(1)) (simp_all add: plain_def lit_def)
  have gone: "console_ok (log_errno_event os (lit ''DEVICE_DISCONNECTED'') 19 (mo_console m)) (mo_eio_retries m) k ns"
    using i(3) by (intro log_errno_ok c(1)) (simp_all add: plain_def lit_def)
  have retry: "console_ok (log_retry os (mo_eio_retries m + 1) (mo_console m)) (mo_eio_retries m + 1) (k + 1) ns"
    if "\<not> MAX_EIO_RETRIES < mo_eio_retries m + 1"
  proof (rule log_retry_ok [OF c(1)])
    show "unat (mo_eio_retries m) < 3"
    proof (rule ccontr)
      assume "\<not> unat (mo_eio_retries m) < 3"
      with le3 have "mo_eio_retries m = 3" by (intro word_unat_eq_iff [THEN iffD2]) simp
      with that show False by (simp add: MAX_EIO_RETRIES_def)
    qed
  qed
  show ?thesis
    using failed [OF i(1), THEN sound_logI] failed [OF i(2), THEN sound_logI] sound_logI [OF gone] sound_logI [OF retry] assms(1) c(2)
    by (auto simp: turn_ok_def read_failed_def Let_def monitor_ok_def)
qed

lemma read_done_ok:
  assumes "monitor_ok m"
  shows "turn_ok (read_done os opts bytes m)"
proof (cases "bytes = []")
  case True
  obtain k ns where "console_ok (mo_console m) (mo_eio_retries m) k ns" using assms by (auto simp: monitor_ok_def sound_log_def)
  then have "console_ok (log_simple os (lit ''DEVICE_EOF'') (mo_console m)) (mo_eio_retries m) k ns"
    by (rule log_simple_ok) (simp_all add: plain_def lit_def)
  then have "sound_log (log_simple os (lit ''DEVICE_EOF'') (mo_console m)) (mo_eio_retries m)" by (rule sound_logI)
  with True show ?thesis by (auto simp: turn_ok_def read_done_def)
next
  case False
  define m1 where "m1 = (if mo_eio_retries m \<noteq> 0
    then m\<lparr>mo_console := log_recovery os (mo_eio_retries m) (mo_console m), mo_eio_retries := 0\<rparr> else m)"
  obtain k ns where m: "console_ok (mo_console m) (mo_eio_retries m) k ns" "input_ok (mo_input m)"
    using assms by (auto simp: monitor_ok_def sound_log_def)
  have "\<exists>ns. console_ok (mo_console m1) (mo_eio_retries m1) k ns" using m(1) log_recovery_ok [OF m(1)] by (auto simp: m1_def)
  then obtain ns1 where m1: "input_ok (mo_input m1)" "console_ok (mo_console m1) (mo_eio_retries m1) k ns1"
    using m(2) by (auto simp: m1_def)
  obtain full inp n c where "consume_input os (op_max_events opts) bytes (mo_input m1) (mo_event_count m1) (mo_console m1) =
      Some (full, inp, n, c)" "input_ok inp" "sound_log c (mo_eio_retries m1)"
    using consume_input_ok [OF m1, of "op_max_events opts" bytes "mo_event_count m1"] sound_logI by blast
  with False show ?thesis
    unfolding turn_ok_def read_done_def Let_def m1_def [symmetric] by (auto simp: monitor_ok_def)
qed

lemma loop_body_ok:
  assumes "monitor_ok m"
  shows "turn_ok (loop_body os opts m)"
proof -
  obtain p m1 where p: "with_world (poll_device os (op_poll_timeout_ms opts)) m = (p, m1)" by fastforce
  have m1: "monitor_ok m1" using with_world_ok [OF assms p] poll by blast
  obtain b m2 where b: "with_world (read_device os 512) m1 = (b, m2)" by fastforce
  have m2: "monitor_ok m2" using with_world_ok [OF m1 b] read by blast
  have err: "0 < e \<and> e < 4096" if "b = Inl e" for e
    using with_world_value [OF b] that read by blast
  obtain m3 where m3: "with_world (\<lambda>w. ((), perror os (lit ''poll'') w)) m1 = ((), m3)" by (metis old.unit.exhaust surj_pair)
  have "monitor_ok m3" using with_world_ok [OF m1 m3] perror by blast
  then have "\<exists>r. sound_log (mo_console m3) r" by (auto simp: monitor_ok_def)
  with m3 p b m1 m2 err read_failed_ok [OF m2] read_done_ok [OF m2, of opts] show ?thesis
    by (cases p; cases b) (auto simp: loop_body_def turn_ok_def)
qed

lemma monitor_loop_ok: "monitor_ok m \<Longrightarrow> turn_ok (monitor_loop n os opts m)"
proof (induction n arbitrary: m)
  case (Suc n)
  obtain b m1 where b: "with_world (stop_requested os) m = (b, m1)" by fastforce
  have m1: "monitor_ok m1" using with_world_ok [OF Suc.prems b] stop by blast
  obtain res m2 where body: "loop_body os opts m1 = (res, m2)" by fastforce
  with loop_body_ok [OF m1, of opts] b m1 Suc.IH [of m2] show ?case
    by (cases res) (auto simp: turn_ok_def monitor_ok_def)
qed (simp add: turn_ok_def)

lemma sound_log_analysable: "sound_log (w, out) r \<Longrightarrow> analysable out"
  unfolding sound_log_def console_ok_def analysable_def retry_state_def
  by (auto dest!: logged_parses simp: calculate_recovery_metrics_def metrics_result_def)

lemma monitor_main_ok:
  assumes "monitor_main n os program args w = (result, w', out)"
  shows "result \<noteq> Undefined \<and> analysable out"
proof -
  have nil: "console_ok (v, []) 0 0 []" for v using retry_state_init by (auto simp: console_ok_def logged_def)
  then have empty: "analysable []" using sound_logI sound_log_analysable by blast
  have "console_ok (log_simple os (lit ''MONITOR_STARTED'') (v, [])) 0 0 []" for v
    by (rule log_simple_ok [OF nil]) (simp_all add: plain_def lit_def)
  then have "sound_log (log_simple os (lit ''MONITOR_STARTED'') (v, [])) 0" for v by (rule sound_logI)
  then have start: "monitor_ok \<lparr>mo_console = log_simple os (lit ''MONITOR_STARTED'') (v, []),
      mo_input = \<lparr>ib_data = replicate MAX_PENDING_BYTES 0, ib_length = 0\<rparr>, mo_event_count = 0, mo_eio_retries = 0\<rparr>" for v
    by (simp add: monitor_ok_def input_ok_def MAX_PENDING_BYTES_def)
  have "result \<noteq> Undefined \<and> analysable (snd (mo_console m))"
    if "monitor_loop n os opts \<lparr>mo_console = log_simple os (lit ''MONITOR_STARTED'') (v, []),
      mo_input = \<lparr>ib_data = replicate MAX_PENDING_BYTES 0, ib_length = 0\<rparr>, mo_event_count = 0, mo_eio_retries = 0\<rparr> = (result, m)" for opts v result m
    using monitor_loop_ok [OF start [of v], of n opts] sound_log_analysable unfolding that
    by (cases result) (auto simp: turn_ok_def monitor_ok_def, metis prod.collapse, metis prod.collapse)
  with assms empty show ?thesis
    by (auto simp: monitor_main_def split: parsed_options.splits prod.splits bool.splits outcome.splits) (metis snd_conv)
qed

end

end
