(* ===== verification/Monitor_Device.thy ===== *)
theory Monitor_Device
  imports Monitor_Props Kernel_Tasks
begin

text \<open>
  The monitor on the device of \<open>Kernel_Device\<close>: what it logs when the device fails its reads with EIO, and
  what the recovery metrics make of the log.
\<close>

section \<open>A machine with the device\<close>

record monitor_machine =
  mm_device :: vdevlab
  mm_time :: nat

definition machine_now :: "monitor_machine \<Rightarrow> nat" where
  "machine_now w = min (mm_time w) (2 ^ 63 - 1)"

definition machine_os :: "monitor_machine monitor_os" where
  "machine_os =
     \<lparr>clock_gettime = (\<lambda>w. (Some (int (machine_now w div 1000), int (machine_now w mod 1000 * 1000000)), w\<lparr>mm_time := mm_time w + 1\<rparr>)),
      stop_requested = (\<lambda>w. (False, w)),
      poll_device = (\<lambda>_ w. (Inr (vdevlab_poll (mm_device w) AND EPOLL_MASK), w)),
      read_device = (\<lambda>count w.
        case vdevlab_read True False count (mm_device w) [] of
          Some (Inl e, d) \<Rightarrow> (Inl (uint (errno_code e)), w\<lparr>mm_device := d\<rparr>)
        | Some (Inr bs, d) \<Rightarrow> (Inr bs, w\<lparr>mm_device := d\<rparr>)
        | None \<Rightarrow> (Inl 11, w)),
      open_device = (\<lambda>path w. (path = lit ''/dev/vdevlab0'', w)),
      close_device = (\<lambda>w. w),
      perror = (\<lambda>_ w. w),
      put_stderr = (\<lambda>_ w. w)\<rparr>"

lemma errno_code_range: "0 < uint (errno_code e) \<and> uint (errno_code e) < 4096"
  by (cases e) (simp_all add: errno_code_def)

interpretation machine: monitor_env machine_os "\<lambda>w. int (machine_now w)"
proof unfold_locales
  fix w w' :: monitor_machine and r
  have "int (machine_now w div 1000) * 1000 + int (machine_now w mod 1000 * 1000000) div 1000000 = int (machine_now w)"
  proof -
    have "int (machine_now w div 1000 * 1000 + machine_now w mod 1000) = int (machine_now w)" by simp
    then show ?thesis unfolding of_nat_add of_nat_mult by simp
  qed
  then show "\<exists>sec nsec. r = Some (sec, nsec) \<and> int (machine_now w) \<le> sec * 1000 + nsec div 1000000
      \<and> sec * 1000 + nsec div 1000000 \<le> int (machine_now w')" if "clock_gettime machine_os w = (r, w')"
    using that by (auto simp: machine_os_def machine_now_def)
next
  fix w w' :: monitor_machine and n bytes
  show "int (machine_now w) \<le> int (machine_now w') \<and> (\<forall>e. bytes = Inl e \<longrightarrow> 0 < e \<and> e < 4096)"
    if "read_device machine_os n w = (bytes, w')"
    using that errno_code_range by (auto simp: machine_os_def machine_now_def split: option.splits sum.splits prod.splits)
qed (auto simp: machine_os_def machine_now_def)

section \<open>Turns of the loop\<close>

text \<open>The monitor with the device \<open>d\<close>, after \<open>r\<close> retries since the last recovery, \<open>k\<close> in all\<close>

definition at_device :: "monitor_machine monitor \<Rightarrow> vdevlab \<Rightarrow> 32 word \<Rightarrow> int \<Rightarrow> int list \<Rightarrow> bool" where
  "at_device m d r k ns \<longleftrightarrow> mm_device (fst (mo_console m)) = d \<and> mo_eio_retries m = r \<and> input_ok (mo_input m)
     \<and> machine.console_ok (mo_console m) r k ns"

lemma print_log_device [simp]: "mm_device (fst (print_log machine_os line c)) = mm_device (fst c)"
  by (cases c) (simp add: print_log_def monotonic_milliseconds_def machine_os_def)

lemma logs_device [simp]:
  "mm_device (fst (log_simple machine_os event c)) = mm_device (fst c)"
  "mm_device (fst (log_errno_event machine_os event e c)) = mm_device (fst c)"
  "mm_device (fst (log_retry machine_os r c)) = mm_device (fst c)"
  "mm_device (fst (log_recovery machine_os r c)) = mm_device (fst c)"
  "mm_device (fst (log_temperature machine_os x c)) = mm_device (fst c)"
  by (simp_all add: log_simple_def log_errno_event_def log_retry_def log_recovery_def log_temperature_def)

lemma process_line_device: "process_line machine_os line n c = (n', c') \<Longrightarrow> mm_device (fst c') = mm_device (fst c)"
  by (auto simp: process_line_def Let_def split: prod.splits if_splits)

lemma consume_input_device:
  "consume_input machine_os max_events bs inp n c = Some (full, inp', n', c') \<Longrightarrow>
     mm_device (fst c') = mm_device (fst c) \<and> (max_events = 0 \<longrightarrow> \<not> full)"
proof (induction bs arbitrary: inp n c)
  case (Cons b bs)
  show ?case
  proof (cases "b = 10")
    case True
    with Cons.prems obtain data n1 c1 where p: "process_line machine_os data n c = (n1, c1)"
      and "max_events \<noteq> 0 \<and> max_events \<le> n1 \<and> c' = c1 \<or>
        consume_input machine_os max_events bs \<lparr>ib_data = data, ib_length = 0\<rparr> n1 c1 = Some (full, inp', n', c')"
      by (auto simp: Let_def split: if_splits option.splits prod.splits)
    with Cons.IH process_line_device [OF p] show ?thesis by metis
  next
    case False
    with Cons.prems obtain inp1 c1 where "consume_input machine_os max_events bs inp1 n c1 = Some (full, inp', n', c')"
      "mm_device (fst c1) = mm_device (fst c)"
      using logs_device(1) by (auto split: if_splits option.splits)
    with Cons.IH [of inp1 n c1] show ?thesis by simp
  qed
qed simp

lemma stop_machine: "with_world (stop_requested machine_os) m = (False, m)"
  by (simp add: with_world_def machine_os_def)

lemma monitor_loop_machine:
  "monitor_loop (Suc n) machine_os opts m =
     (case loop_body machine_os opts m of (Running, m2) \<Rightarrow> monitor_loop n machine_os opts m2 | (result, m2) \<Rightarrow> (result, m2))"
  by (simp add: stop_machine)

lemma poll_machine:
  "with_world (poll_device machine_os timeout) m = (Inr (vdevlab_poll (mm_device (fst (mo_console m))) AND EPOLL_MASK), m)"
  by (simp add: with_world_def machine_os_def)

lemma poll_ready:
  assumes "kf_type (kd_fault d) = VDEVLAB_FAULT_EIO \<or> kd_fault d = no_fault \<and> kd_fifo d \<noteq> []"
  shows "(vdevlab_poll d AND EPOLL_MASK) AND EPOLL_MASK \<noteq> 0"
  using assms by (auto simp: vdevlab_poll_def EPOLL_MASK_def poll_bits fault_types no_fault_def)

lemma read_machine:
  assumes "vdevlab_read True False 512 (mm_device (fst (mo_console m))) [] = Some (r, d)"
  shows "with_world (read_device machine_os 512) m =
    (case r of Inl e \<Rightarrow> Inl (uint (errno_code e)) | Inr bs \<Rightarrow> Inr bs,
     m\<lparr>mo_console := ((fst (mo_console m))\<lparr>mm_device := d\<rparr>, snd (mo_console m))\<rparr>)"
  using assms by (cases r) (simp_all add: with_world_def machine_os_def)

lemma console_ok_device: "machine.console_ok (w\<lparr>mm_device := d\<rparr>, out) r k ns \<longleftrightarrow> machine.console_ok (w, out) r k ns"
proof -
  have "machine_now (w\<lparr>mm_device := d\<rparr>) = machine_now w" by (simp add: machine_now_def)
  then show ?thesis by (simp add: machine.console_ok_def)
qed

text \<open>The device after a read that an EIO fault failed\<close>

definition eio_next :: "vdevlab \<Rightarrow> vdevlab" where
  "eio_next d = (if kf_repeat (kd_fault d) = 1 then d\<lparr>kd_fault := no_fault\<rparr>
     else d\<lparr>kd_fault := (kd_fault d)\<lparr>kf_repeat := kf_repeat (kd_fault d) - 1\<rparr>\<rparr>)"

lemma eio_read:
  assumes "wf_device d" "kf_type (kd_fault d) = VDEVLAB_FAULT_EIO"
  shows "vdevlab_read True False 512 d [] = Some (Inl E_IO, eio_next d)"
  using assms by (simp add: read_cases eio_next_def vdevlab_is_disconnected_def vdevlab_clear_fault_locked_def)

lemma eio_body:
  assumes "at_device m d r k ns" "wf_device d" "kf_type (kd_fault d) = VDEVLAB_FAULT_EIO"
  obtains m2 where "loop_body machine_os opts m = read_failed machine_os 5 m2" "at_device m2 (eio_next d) r k ns"
proof -
  obtain w out where c: "mo_console m = (w, out)" by fastforce
  let ?m2 = "m\<lparr>mo_console := (w\<lparr>mm_device := eio_next d\<rparr>, out)\<rparr>"
  have d: "mm_device w = d" using assms(1) by (simp add: at_device_def c)
  have "with_world (read_device machine_os 512) m = (Inl 5, ?m2)"
    using read_machine [of m "Inl E_IO" "eio_next d"] eio_read [OF assms(2,3)] by (simp add: c d errno_code_def)
  then have "loop_body machine_os opts m = read_failed machine_os 5 ?m2"
    using poll_ready [of d] assms(3) by (simp add: loop_body_def poll_machine c d)
  moreover have "at_device ?m2 (eio_next d) r k ns" using assms(1) by (simp add: at_device_def c console_ok_device)
  ultimately show ?thesis by (rule that)
qed

lemma not_exhausted: "unat (r :: 32 word) < 3 \<Longrightarrow> \<not> MAX_EIO_RETRIES < r + 1"
  by (simp add: MAX_EIO_RETRIES_def word_less_nat_alt unat_suc_small)

lemma eio_turn:
  assumes "at_device m d r k ns" "wf_device d" "kf_type (kd_fault d) = VDEVLAB_FAULT_EIO" "unat r < 3"
  obtains m' where "loop_body machine_os opts m = (Running, m')" "at_device m' (eio_next d) (r + 1) (k + 1) ns"
proof -
  obtain m2 where m2: "loop_body machine_os opts m = read_failed machine_os 5 m2" "at_device m2 (eio_next d) r k ns"
    using eio_body [OF assms(1-3)] by blast
  show ?thesis
    by (rule that [of "m2\<lparr>mo_eio_retries := r + 1, mo_console := log_retry machine_os (r + 1) (mo_console m2)\<rparr>"])
      (use m2 not_exhausted [OF assms(4)] machine.log_retry_ok [OF _ assms(4)] in
        \<open>auto simp: read_failed_def Let_def at_device_def\<close>)
qed

lemma eio_exhausted:
  assumes "at_device m d 3 k ns" "wf_device d" "kf_type (kd_fault d) = VDEVLAB_FAULT_EIO"
  obtains m' where "loop_body machine_os opts m = (Exited 1, m')" "machine.console_ok (mo_console m') 3 k ns"
proof -
  obtain m2 where m2: "loop_body machine_os opts m = read_failed machine_os 5 m2" "at_device m2 (eio_next d) 3 k ns"
    using eio_body [OF assms] by blast
  have "machine.console_ok (log_errno_event machine_os (lit ''READ_FAILED'') 5 (mo_console m2)) 3 k ns"
    using m2(2) by (intro machine.log_errno_ok) (auto simp: at_device_def plain_def lit_def c_int_def)
  then show ?thesis
    by (intro that [of "m2\<lparr>mo_eio_retries := 4, mo_console := log_errno_event machine_os (lit ''READ_FAILED'') 5 (mo_console m2)\<rparr>"])
      (use m2 in \<open>auto simp: read_failed_def Let_def at_device_def MAX_EIO_RETRIES_def\<close>)
qed

lemma data_turn:
  assumes "at_device m d r k ns" "wf_device d" "kd_fault d = no_fault" "kd_fifo d \<noteq> []" "op_max_events opts = 0" "r \<noteq> 0"
  obtains m' where "loop_body machine_os opts m = (Running, m')"
    "at_device m' (d\<lparr>kd_fifo := drop 512 (kd_fifo d)\<rparr>) 0 k (ns @ [uint r])"
proof -
  obtain w out where c: "mo_console m = (w, out)" by fastforce
  let ?d = "d\<lparr>kd_fifo := drop 512 (kd_fifo d)\<rparr>" and ?bs = "take 512 (kd_fifo d)"
  let ?m2 = "m\<lparr>mo_console := (w\<lparr>mm_device := ?d\<rparr>, out)\<rparr>"
  have d: "mm_device w = d" using assms(1) by (simp add: at_device_def c)
  have "vdevlab_read True False 512 d [] = Some (Inr ?bs, ?d)"
    using assms(2-4) by (simp add: read_cases vdevlab_is_disconnected_def read_copy_def Let_def no_fault_def fault_types min_def)
  then have "with_world (read_device machine_os 512) m = (Inr ?bs, ?m2)" using read_machine [of m "Inr ?bs" ?d] by (simp add: c d)
  then have body: "loop_body machine_os opts m = read_done machine_os opts ?bs ?m2"
    using poll_ready [of d] assms(3,4) by (simp add: loop_body_def poll_machine c d)
  have "machine.console_ok (w\<lparr>mm_device := ?d\<rparr>, out) r k ns" using assms(1) by (simp add: at_device_def c console_ok_device)
  then have rec: "machine.console_ok (log_recovery machine_os r (w\<lparr>mm_device := ?d\<rparr>, out)) 0 k (ns @ [uint r])"
    using assms(6) by (rule machine.log_recovery_ok)
  have inp: "input_ok (mo_input m)" and r: "mo_eio_retries m = r" using assms(1) by (auto simp: at_device_def)
  obtain full inp' n' c' where con: "consume_input machine_os 0 ?bs (mo_input m) (mo_event_count m)
      (log_recovery machine_os r (w\<lparr>mm_device := ?d\<rparr>, out)) = Some (full, inp', n', c')" "input_ok inp'"
    "machine.console_ok c' 0 k (ns @ [uint r])"
    using machine.consume_input_ok [OF inp rec] by blast
  from consume_input_device [OF con(1)] have "mm_device (fst c') = ?d" "\<not> full" by simp_all
  with con body assms(4-6) r show ?thesis
    by (intro that [of "?m2\<lparr>mo_eio_retries := 0, mo_input := inp', mo_event_count := n', mo_console := c'\<rparr>"])
      (auto simp: read_done_def Let_def at_device_def)
qed

section \<open>Episodes\<close>

lemma eio_next_wf:
  assumes "wf_device d" "kf_type (kd_fault d) = VDEVLAB_FAULT_EIO"
  shows "wf_device (eio_next d)"
proof -
  have "vdevlab_read_loop True False 512 False 0 d [] = Some (Inl E_IO, eio_next d)"
    using eio_read [OF assms] unfolding vdevlab_read_def by (simp del: vdevlab_read_loop.simps)
  then show ?thesis using assms(1) by (rule wf_read_loop)
qed

lemma eio_next_fields:
  assumes "wf_device d" "kf_type (kd_fault d) = VDEVLAB_FAULT_EIO" "unat (kf_repeat (kd_fault d)) = Suc (Suc j)"
  shows "kf_type (kd_fault (eio_next d)) = VDEVLAB_FAULT_EIO" "unat (kf_repeat (kd_fault (eio_next d))) = Suc j"
    "(eio_next d)\<lparr>kd_fault := f\<rparr> = d\<lparr>kd_fault := f\<rparr>"
proof -
  have "kf_repeat (kd_fault d) \<noteq> 1" "kf_repeat (kd_fault d) \<noteq> 0" using assms(3) by auto
  with assms show "kf_type (kd_fault (eio_next d)) = VDEVLAB_FAULT_EIO" "unat (kf_repeat (kd_fault (eio_next d))) = Suc j"
    "(eio_next d)\<lparr>kd_fault := f\<rparr> = d\<lparr>kd_fault := f\<rparr>"
    by (simp_all add: eio_next_def unat_minus_one)
qed

lemma eio_episode:
  assumes "at_device m d r k ns" "wf_device d" "kf_type (kd_fault d) = VDEVLAB_FAULT_EIO"
    "unat (kf_repeat (kd_fault d)) = Suc j" "unat r + Suc j \<le> 3"
  shows "\<exists>m'. monitor_loop (Suc j + i) machine_os opts m = monitor_loop i machine_os opts m'
    \<and> at_device m' (d\<lparr>kd_fault := no_fault\<rparr>) (r + of_nat (Suc j)) (k + int (Suc j)) ns"
  using assms
proof (induction j arbitrary: m d r k)
  case 0
  have "kf_repeat (kd_fault d) = 1" using 0(4) by (intro word_unat_eq_iff [THEN iffD2]) simp
  moreover obtain m' where "loop_body machine_os opts m = (Running, m')" "at_device m' (eio_next d) (r + 1) (k + 1) ns"
    using eio_turn [OF 0(1-3)] 0(5) by auto
  ultimately show ?case by (intro exI [of _ m']) (simp add: monitor_loop_machine eio_next_def del: monitor_loop.simps)
next
  case (Suc j)
  obtain m1 where m1: "loop_body machine_os opts m = (Running, m1)" "at_device m1 (eio_next d) (r + 1) (k + 1) ns"
    using eio_turn [OF Suc.prems(1-3)] Suc.prems(5) by auto
  note f = eio_next_fields [OF Suc.prems(2-4)]
  have "unat (r + 1) + Suc j \<le> 3" using unat_suc_small [of r] Suc.prems(5) by simp
  from Suc.IH [OF m1(2) eio_next_wf [OF Suc.prems(2,3)] f(1,2) this] obtain m' where
    "monitor_loop (Suc j + i) machine_os opts m1 = monitor_loop i machine_os opts m'"
    "at_device m' (d\<lparr>kd_fault := no_fault\<rparr>) (r + 1 + of_nat (Suc j)) (k + 1 + int (Suc j)) ns"
    unfolding f(3) by blast
  with m1(1) show ?case
    by (intro exI [of _ m']) (simp add: monitor_loop_machine add.assoc add.left_commute del: monitor_loop.simps)
qed

lemma eio_gives_up:
  assumes "at_device m d r k ns" "wf_device d" "kf_type (kd_fault d) = VDEVLAB_FAULT_EIO"
    "unat r + j = 3" "j < unat (kf_repeat (kd_fault d))"
  shows "\<exists>m'. monitor_loop (Suc j) machine_os opts m = (Exited 1, m') \<and> machine.console_ok (mo_console m') 3 (k + int j) ns"
  using assms
proof (induction j arbitrary: m d r k)
  case 0
  have "r = 3" using 0(4) by (intro word_unat_eq_iff [THEN iffD2]) simp
  with 0 obtain m' where "loop_body machine_os opts m = (Exited 1, m')" "machine.console_ok (mo_console m') 3 k ns"
    using eio_exhausted [of m d k ns opts] by auto
  then show ?case by (intro exI [of _ m']) (simp add: monitor_loop_machine del: monitor_loop.simps)
next
  case (Suc j)
  obtain m1 where m1: "loop_body machine_os opts m = (Running, m1)" "at_device m1 (eio_next d) (r + 1) (k + 1) ns"
    using eio_turn [OF Suc.prems(1-3)] Suc.prems(4) by auto
  obtain q where q: "unat (kf_repeat (kd_fault d)) = Suc (Suc q)" "j \<le> q"
    using Suc.prems(5) that [of "unat (kf_repeat (kd_fault d)) - 2"] by linarith
  note f = eio_next_fields [OF Suc.prems(2,3) q(1)]
  have "unat (r + 1) + j = 3" "j < unat (kf_repeat (kd_fault (eio_next d)))"
    using unat_suc_small [of r] Suc.prems(4) f(2) q(2) by simp_all
  from Suc.IH [OF m1(2) eio_next_wf [OF Suc.prems(2,3)] f(1) this] m1(1) show ?case
    by (auto simp: monitor_loop_machine add.assoc simp del: monitor_loop.simps)
qed

section \<open>Properties\<close>

definition monitor_start :: "monitor_machine \<Rightarrow> monitor_machine monitor" where
  "monitor_start w = \<lparr>mo_console = log_simple machine_os (lit ''MONITOR_STARTED'') (w, []),
     mo_input = \<lparr>ib_data = replicate MAX_PENDING_BYTES 0, ib_length = 0\<rparr>, mo_event_count = 0, mo_eio_retries = 0\<rparr>"

lemma monitor_start_at: "at_device (monitor_start w) (mm_device w) 0 0 []"
proof -
  have "machine.console_ok (w, []) 0 0 []" using retry_state_init by (auto simp: machine.console_ok_def logged_def)
  then have "machine.console_ok (log_simple machine_os (lit ''MONITOR_STARTED'') (w, [])) 0 0 []"
    by (rule machine.log_simple_ok) (simp_all add: plain_def lit_def)
  then show ?thesis by (simp add: at_device_def monitor_start_def input_ok_def MAX_PENDING_BYTES_def)
qed

definition default_options :: options where
  "default_options = \<lparr>op_device = lit ''/dev/vdevlab0'', op_max_events = 0, op_poll_timeout_ms = 5000\<rparr>"

lemma monitor_main_machine:
  assumes "monitor_loop n machine_os default_options (monitor_start w) = (result, m)"
  shows "monitor_main n machine_os program [] w = (result, mo_console m)"
proof -
  have "parse_options [] = Parsed default_options" by (simp add: parse_options_def default_options_def)
  moreover have "open_device machine_os (op_device default_options) w = (True, w)" "close_device machine_os v = v" for v
    by (simp_all add: machine_os_def default_options_def)
  ultimately show ?thesis using assms unfolding monitor_start_def by (cases result) (simp_all add: monitor_main_def)
qed

lemma console_ok_metrics:
  assumes "machine.console_ok (w, out) r k ns"
  shows "\<exists>events m. parse_application_log out = Inr events \<and> calculate_recovery_metrics events = Inr m
    \<and> rm_observed_eio_count m = k \<and> rm_application_retry_count m = k \<and> map rw_reported_retries (rm_recoveries m) = ns"
proof -
  obtain es where es: "logged out es" "retry_state es r k ns" using assms by (auto simp: machine.console_ok_def)
  then obtain st where st: "metrics_loop metrics_init (entry_events 1 es) = Inr st" "\<forall>w \<in> set (ms_recoveries st). exact_window w"
    "ms_application_retry_count st = k" "ms_observed_eio_count st = k" "map rw_observed_retries (ms_recoveries st) = ns"
    by (auto simp: retry_state_def)
  have "map rw_reported_retries (ms_recoveries st) = map rw_observed_retries (ms_recoveries st)"
    using st(2) by (simp add: exact_window_def)
  with st logged_parses [OF es(1)] show ?thesis by (simp add: calculate_recovery_metrics_def metrics_result_def)
qed

text \<open>
  C36. The monitor on a device with data and an EIO fault of repeat count \<open>n\<close>. For \<open>n\<close> up to three it goes on:
  after \<open>n + 1\<close> turns the fault is used up, the first 512 bytes have been read, and the recovery metrics of
  its log count \<open>n\<close> EIO errors, \<open>n\<close> retries and one recovery that reports \<open>n\<close>. For more it exits with
  status 1 in the fourth turn, and the metrics of its log count three retries and no recovery.
\<close>

theorem eio_recovery_measured:
  assumes "wf_device d" "kf_type (kd_fault d) = VDEVLAB_FAULT_EIO" "kd_fifo d \<noteq> []"
  shows "if unat (kf_repeat (kd_fault d)) \<le> 3
    then \<exists>w out events m.
           monitor_main (unat (kf_repeat (kd_fault d)) + 1) machine_os program [] \<lparr>mm_device = d, mm_time = t\<rparr> = (Running, w, out)
         \<and> mm_device w = d\<lparr>kd_fault := no_fault, kd_fifo := drop 512 (kd_fifo d)\<rparr>
         \<and> parse_application_log out = Inr events \<and> calculate_recovery_metrics events = Inr m
         \<and> rm_observed_eio_count m = uint (kf_repeat (kd_fault d)) \<and> rm_application_retry_count m = uint (kf_repeat (kd_fault d))
         \<and> map rw_reported_retries (rm_recoveries m) = [uint (kf_repeat (kd_fault d))]
    else \<exists>w out events m.
           monitor_main 4 machine_os program [] \<lparr>mm_device = d, mm_time = t\<rparr> = (Exited 1, w, out)
         \<and> parse_application_log out = Inr events \<and> calculate_recovery_metrics events = Inr m
         \<and> rm_observed_eio_count m = 3 \<and> rm_application_retry_count m = 3 \<and> rm_recoveries m = []"
proof -
  let ?n = "kf_repeat (kd_fault d)" and ?w = "\<lparr>mm_device = d, mm_time = t\<rparr>"
  have start: "at_device (monitor_start ?w) d 0 0 []" using monitor_start_at [of ?w] by simp
  have "?n \<noteq> 0" using assms(1,2) by (auto simp: wf_device_def wf_config_def)
  then obtain j where j: "unat ?n = Suc j" by (metis not0_implies_Suc unat_eq_zero)
  show ?thesis
  proof (cases "unat ?n \<le> 3")
    case True
    obtain m1 where m1: "monitor_loop (Suc j + 1) machine_os default_options (monitor_start ?w) = monitor_loop 1 machine_os default_options m1"
      "at_device m1 (d\<lparr>kd_fault := no_fault\<rparr>) (0 + of_nat (Suc j)) (0 + int (Suc j)) []"
      using eio_episode [OF start assms(1,2) j, of 1 default_options] True j by auto
    have n: "of_nat (Suc j) = ?n" "int (Suc j) = uint ?n" unfolding j [symmetric] by simp_all
    have "wf_device (d\<lparr>kd_fault := no_fault\<rparr>)" using assms(1) by (simp add: wf_device_def)
    then obtain m2 where m2: "loop_body machine_os default_options m1 = (Running, m2)"
      "at_device m2 (d\<lparr>kd_fault := no_fault, kd_fifo := drop 512 (kd_fifo d)\<rparr>) 0 (uint ?n) ([] @ [uint ?n])"
      using data_turn [of m1 "d\<lparr>kd_fault := no_fault\<rparr>" ?n "uint ?n" "[]" default_options] m1(2) assms(3) \<open>?n \<noteq> 0\<close>
      unfolding n by (auto simp: default_options_def)
    have "monitor_loop (unat ?n + 1) machine_os default_options (monitor_start ?w) = (Running, m2)"
      using m1(1) m2(1) j by (simp add: monitor_loop_machine del: monitor_loop.simps(2))
    from monitor_main_machine [OF this] m2(2) console_ok_metrics True show ?thesis
      by (cases "mo_console m2") (fastforce simp: at_device_def)
  next
    case False
    obtain m1 where m1: "monitor_loop (Suc 3) machine_os default_options (monitor_start ?w) = (Exited 1, m1)"
      "machine.console_ok (mo_console m1) 3 (0 + int 3) []"
      using eio_gives_up [OF start assms(1,2), of 3 default_options] False by auto
    have "monitor_main 4 machine_os program [] ?w = (Exited 1, mo_console m1)" using monitor_main_machine [of 4] m1(1) by simp
    with m1(2) console_ok_metrics False show ?thesis by (cases "mo_console m1") fastforce
  qed
qed

definition faulty_device :: vdevlab where
  "faulty_device = \<lparr>kd_fault = no_fault\<lparr>kf_type := VDEVLAB_FAULT_EIO, kf_repeat := 2\<rparr>, kd_fifo = [52, 50, 10]\<rparr>"

lemma faulty_device_wf: "wf_device faulty_device"
  by (simp add: faulty_device_def no_fault_def wf_device_def wf_config_def fault_limits fault_types VDEVLAB_FIFO_SIZE_def)

theorem eio_recovery_measured_witness:
  "\<exists>w out events m.
     monitor_main 3 machine_os (lit ''vtemp_monitor'') [] \<lparr>mm_device = faulty_device, mm_time = 7\<rparr> = (Running, w, out)
     \<and> mm_device w = \<lparr>kd_fault = no_fault, kd_fifo = []\<rparr>
     \<and> parse_application_log out = Inr events \<and> calculate_recovery_metrics events = Inr m
     \<and> rm_observed_eio_count m = 2 \<and> rm_application_retry_count m = 2 \<and> map rw_reported_retries (rm_recoveries m) = [2]"
  using eio_recovery_measured [OF faulty_device_wf, of "lit ''vtemp_monitor''" 7]
  by (simp add: faulty_device_def)

text \<open>
  C12. Whatever the device, the poll and the signals do to it, and for every command line, the monitor never
  stores outside its input buffer, and the log it has written at any moment is accepted by the log parser
  and by the recovery metrics, each recovery with one to three retries, as many as it reports. The clock is
  assumed to work, not to go back, and to stay within 63 bits.
\<close>

theorem monitor_log_analysable:
  assumes "monitor_env os now" "monitor_main n os program args w = (result, w', out)"
  shows "result \<noteq> Undefined
    \<and> (\<exists>events m. parse_application_log out = Inr events \<and> calculate_recovery_metrics events = Inr m
        \<and> (\<forall>v \<in> set (rm_recoveries m).
             rw_observed_retries v = rw_reported_retries v \<and> 1 \<le> rw_observed_retries v \<and> rw_observed_retries v \<le> 3))"
  using monitor_env.monitor_main_ok [OF assms] unfolding analysable_def exact_window_def by blast

theorem monitor_log_analysable_witness:
  "\<exists>events m. parse_application_log
       (snd (snd (monitor_main 5 machine_os (lit ''vtemp_monitor'') [] \<lparr>mm_device = faulty_device, mm_time = 7\<rparr>))) = Inr events
     \<and> calculate_recovery_metrics events = Inr m"
proof -
  obtain result w out where m:
    "monitor_main 5 machine_os (lit ''vtemp_monitor'') [] \<lparr>mm_device = faulty_device, mm_time = 7\<rparr> = (result, w, out)"
    by (metis prod_cases3)
  from monitor_log_analysable [OF machine.monitor_env_axioms m] m show ?thesis by auto
qed

end
