(* ===== verification/Control_Tool.thy ===== *)
theory Control_Tool
  imports Monitor Dispatch_Props
begin

text \<open>
  The control tool \<open>tools/vdevlab-ctl.c\<close>: it reads, sets and clears the fault of the device from the
  command line. Strings are lists of bytes, \<open>long\<close> has 64 bits. The system calls and the error stream are
  operations of a world; a call of \<open>ioctl\<close> with the structure returns the structure after the call.
\<close>

section \<open>The C library\<close>

text \<open>\<open>strtol\<close> in base 10: the value, whether \<open>errno\<close> is \<open>ERANGE\<close>, and the rest of the text\<close>

definition strtol :: "pystr \<Rightarrow> 64 word \<times> bool \<times> pystr" where
  "strtol s =
     (case c_sign (dropWhile isspace s) of (neg, s1) \<Rightarrow>
      let ds = takeWhile is_digit s1; v = digits_value ds in
      if ds = [] then (0, False, s)
      else if neg then
        (if 2 ^ 63 < v then (word_of_int (- (2 ^ 63)), True, dropWhile is_digit s1)
         else (word_of_int (- int v), False, dropWhile is_digit s1))
      else
        (if 2 ^ 63 \<le> v then (word_of_int (2 ^ 63 - 1), True, dropWhile is_digit s1)
         else (word_of_int (int v), False, dropWhile is_digit s1)))"

section \<open>The program\<close>

record 'w ctl_os =
  tool_open :: "pystr \<Rightarrow> int \<Rightarrow> 'w \<Rightarrow> int \<times> 'w"
  ioctl_struct :: "int \<Rightarrow> 32 word \<Rightarrow> vdevlab_fault_config \<Rightarrow> 'w \<Rightarrow> (int \<times> vdevlab_fault_config) \<times> 'w"
  ioctl_plain :: "int \<Rightarrow> 32 word \<Rightarrow> 'w \<Rightarrow> int \<times> 'w"
  tool_perror :: "pystr \<Rightarrow> 'w \<Rightarrow> 'w"
  tool_stderr :: "pystr \<Rightarrow> 'w \<Rightarrow> 'w"
  tool_close :: "int \<Rightarrow> 'w \<Rightarrow> 'w"

definition VDEVLAB_DEVICE :: pystr where "VDEVLAB_DEVICE = lit ''/dev/vdevlab0''"

definition ctl_usage :: "pystr \<Rightarrow> pystr" where
  "ctl_usage prog =
     lit ''Usage:'' @ [10]
     @ concat (map (\<lambda>form. lit ''  '' @ prog @ lit '' '' @ lit form @ [10])
         [''get'', ''clear'', ''reset'', ''reconnect'', ''set none'', ''set eio <count>'', ''set delay <milliseconds>'',
          ''set partial-read <bytes>'', ''set disconnect''])"

definition fault_name :: "32 word \<Rightarrow> pystr" where
  "fault_name ty =
     (if ty = VDEVLAB_FAULT_NONE then lit ''none''
      else if ty = VDEVLAB_FAULT_EIO then lit ''eio''
      else if ty = VDEVLAB_FAULT_DELAY then lit ''delay''
      else if ty = VDEVLAB_FAULT_DISCONNECT then lit ''disconnect''
      else if ty = VDEVLAB_FAULT_PARTIAL_READ then lit ''partial-read''
      else lit ''unknown'')"

text \<open>The line with the fault, printed by \<open>get\<close> and by \<open>set\<close>\<close>

definition fault_line :: "vdevlab_fault_config \<Rightarrow> pystr" where
  "fault_line config =
     lit ''fault='' @ fault_name (kf_type config)
     @ (if kf_type config = VDEVLAB_FAULT_EIO then lit '' remaining='' @ str_int (uint (kf_repeat config)) else [])
     @ (if kf_type config = VDEVLAB_FAULT_DELAY then lit '' delay_ms='' @ str_int (uint (kf_delay_ms config)) else [])
     @ (if kf_type config = VDEVLAB_FAULT_PARTIAL_READ
        then lit '' max_bytes='' @ str_int (uint (kf_partial_read_bytes config)) else [])
     @ [10]"

text \<open>A value of \<open>set\<close> between 1 and the limit; the comparisons are those of \<open>long\<close>.\<close>

definition set_value :: "32 word \<Rightarrow> pystr \<Rightarrow> 32 word option" where
  "set_value limit s =
     (case strtol s of (v, erange, rest) \<Rightarrow>
      if erange \<or> rest \<noteq> [] \<or> sint v \<le> 0 \<or> uint limit < sint v then None else Some (ucast v))"

datatype set_request = SetUsage | SetRange pystr | SetConfig vdevlab_fault_config

text \<open>The arguments after \<open>set\<close>\<close>

definition set_request_of :: "pystr list \<Rightarrow> set_request" where
  "set_request_of args =
     (case args of
        [] \<Rightarrow> SetUsage
      | kind # rest \<Rightarrow>
          let config = \<lparr>kf_type = 0, kf_repeat = 0, kf_delay_ms = 0, kf_partial_read_bytes = 0\<rparr> in
          if kind = lit ''none'' then
            (if rest \<noteq> [] then SetUsage else SetConfig (config\<lparr>kf_type := VDEVLAB_FAULT_NONE\<rparr>))
          else if kind = lit ''eio'' then
            (if length rest \<noteq> 1 then SetUsage
             else case set_value VDEVLAB_MAX_FAULT_REPEAT (hd rest) of
                    None \<Rightarrow> SetRange (lit ''count must be between 1 and '' @ str_int (uint VDEVLAB_MAX_FAULT_REPEAT) @ [10])
                  | Some v \<Rightarrow> SetConfig (config\<lparr>kf_type := VDEVLAB_FAULT_EIO, kf_repeat := v\<rparr>))
          else if kind = lit ''disconnect'' then
            (if rest \<noteq> [] then SetUsage else SetConfig (config\<lparr>kf_type := VDEVLAB_FAULT_DISCONNECT\<rparr>))
          else if kind = lit ''delay'' then
            (if length rest \<noteq> 1 then SetUsage
             else case set_value VDEVLAB_MAX_DELAY_MS (hd rest) of
                    None \<Rightarrow> SetRange (lit ''delay must be between 1 and '' @ str_int (uint VDEVLAB_MAX_DELAY_MS) @ lit '' ms'' @ [10])
                  | Some v \<Rightarrow> SetConfig (config\<lparr>kf_type := VDEVLAB_FAULT_DELAY, kf_delay_ms := v\<rparr>))
          else if kind = lit ''partial-read'' then
            (if length rest \<noteq> 1 then SetUsage
             else case set_value VDEVLAB_MAX_PARTIAL_READ (hd rest) of
                    None \<Rightarrow> SetRange (lit ''partial read must be between 1 and '' @ str_int (uint VDEVLAB_MAX_PARTIAL_READ)
                              @ lit '' bytes'' @ [10])
                  | Some v \<Rightarrow> SetConfig (config\<lparr>kf_type := VDEVLAB_FAULT_PARTIAL_READ, kf_partial_read_bytes := v\<rparr>))
          else SetUsage)"

text \<open>A command on the open device: the return value, the world and what is printed\<close>

definition tool_get :: "'w ctl_os \<Rightarrow> int \<Rightarrow> 'w \<Rightarrow> int \<times> 'w console" where
  "tool_get os fd w =
     (case ioctl_struct os fd KERNEL_IOC_GET_FAULT
             \<lparr>kf_type = 0, kf_repeat = 0, kf_delay_ms = 0, kf_partial_read_bytes = 0\<rparr> w of
        ((r, config), w1) \<Rightarrow>
          if r < 0 then (1, tool_perror os (lit ''ioctl(GET_FAULT)'') w1, []) else (0, w1, fault_line config))"

definition tool_plain ::
  "'w ctl_os \<Rightarrow> pystr \<Rightarrow> int \<Rightarrow> pystr list \<Rightarrow> 32 word \<Rightarrow> pystr \<Rightarrow> pystr \<Rightarrow> 'w \<Rightarrow> int \<times> 'w console" where
  "tool_plain os prog fd rest request err_label message w =
     (if rest \<noteq> [] then (1, tool_stderr os (ctl_usage prog) w, [])
      else case ioctl_plain os fd request w of (r, w1) \<Rightarrow>
           if r < 0 then (1, tool_perror os err_label w1, []) else (0, w1, message @ [10]))"

definition tool_set :: "'w ctl_os \<Rightarrow> pystr \<Rightarrow> int \<Rightarrow> pystr list \<Rightarrow> 'w \<Rightarrow> int \<times> 'w console" where
  "tool_set os prog fd rest w =
     (case set_request_of rest of
        SetUsage \<Rightarrow> (1, tool_stderr os (ctl_usage prog) w, [])
      | SetRange message \<Rightarrow> (1, tool_stderr os message w, [])
      | SetConfig config \<Rightarrow>
          (case ioctl_struct os fd KERNEL_IOC_SET_FAULT config w of
             ((r, config1), w1) \<Rightarrow>
               if r < 0 then (1, tool_perror os (lit ''ioctl(SET_FAULT)'') w1, []) else (0, w1, fault_line config1)))"

definition tool_command :: "'w ctl_os \<Rightarrow> pystr \<Rightarrow> int \<Rightarrow> pystr \<Rightarrow> pystr list \<Rightarrow> 'w \<Rightarrow> int \<times> 'w console" where
  "tool_command os prog fd command rest w =
     (if command = lit ''get'' then tool_get os fd w
      else if command = lit ''clear'' \<or> command = lit ''reconnect'' then
        tool_plain os prog fd rest KERNEL_IOC_CLEAR_FAULT (lit ''ioctl(CLEAR_FAULT)'')
          (if command = lit ''reconnect'' then lit ''device reconnected'' else lit ''fault cleared'') w
      else if command = lit ''reset'' then
        tool_plain os prog fd rest KERNEL_IOC_RESET (lit ''ioctl(RESET)'') (lit ''fault and FIFO reset'') w
      else if command = lit ''set'' then tool_set os prog fd rest w
      else (1, tool_stderr os (ctl_usage prog) w, []))"

text \<open>\<open>main\<close>, with the arguments after the name of the program\<close>

definition ctl_main :: "'w ctl_os \<Rightarrow> pystr \<Rightarrow> pystr list \<Rightarrow> 'w \<Rightarrow> int \<times> 'w console" where
  "ctl_main os prog args w =
     (case args of
        [] \<Rightarrow> (1, tool_stderr os (ctl_usage prog) w, [])
      | command # rest \<Rightarrow>
          (case tool_open os VDEVLAB_DEVICE O_RDWR w of (fd, w1) \<Rightarrow>
           if fd < 0 then (1, tool_perror os (lit ''open'') w1, [])
           else
             case tool_command os prog fd command rest w1 of (ret, w2, out) \<Rightarrow> (ret, tool_close os fd w2, out)))"

section \<open>The numbers the tool accepts\<close>

text \<open>White space, an optional plus sign and digits\<close>

definition count_text :: "pystr \<Rightarrow> nat \<Rightarrow> bool" where
  "count_text s n \<longleftrightarrow>
     (\<exists>ws sg ds. s = ws @ sg @ ds \<and> list_all isspace ws \<and> sg \<in> {[], [43]} \<and> ds \<noteq> [] \<and> list_all is_digit ds \<and> n = digits_value ds)"

lemma is_digit_not_space: "is_digit c \<Longrightarrow> \<not> isspace c \<and> c \<noteq> 43 \<and> c \<noteq> 45"
  by (auto simp: is_digit_def isspace_def)

lemma strtol_digits:
  assumes "list_all isspace ws" "sg \<in> {[], [43]}" "list_all is_digit ds" "ds \<noteq> []"
  shows "strtol (ws @ sg @ ds) =
    (if 2 ^ 63 \<le> digits_value ds then (word_of_int (2 ^ 63 - 1), True, []) else (word_of_int (int (digits_value ds)), False, []))"
proof -
  obtain c cs where ds: "ds = c # cs" "is_digit c" using assms(3,4) by (cases ds) auto
  have "dropWhile isspace (ws @ sg @ ds) = sg @ ds"
    using assms(1,2) ds is_digit_not_space [of c] by (auto simp: dropWhile_append list_all_iff isspace_def)
  moreover have "c_sign (sg @ ds) = (False, ds)"
    using assms(2) ds is_digit_not_space [of c] by (auto simp: c_sign_def)
  moreover have tw: "takeWhile is_digit ds = ds" "dropWhile is_digit ds = []"
    using assms(3) by (simp_all add: list_all_iff)
  ultimately show ?thesis using assms(4) by (simp add: strtol_def Let_def tw)
qed

lemma sint_small: "- (2 ^ 63) \<le> n \<Longrightarrow> n < 2 ^ 63 \<Longrightarrow> sint (word_of_int n :: 64 word) = n"
  by (simp add: sint_sbintrunc' signed_take_bit_int_eq_self)

lemma le_unat_uint: "n \<le> unat w \<longleftrightarrow> int n \<le> uint w"
  unfolding of_nat_le_iff [symmetric, where 'a = int] by simp

lemma strtol_positive:
  assumes "strtol s = (v, False, [])" "0 < sint v"
  shows "\<exists>n. count_text s n \<and> n < 2 ^ 63 \<and> v = word_of_nat n"
proof -
  define ws where "ws = takeWhile isspace s"
  have s: "s = ws @ dropWhile isspace s" "list_all isspace ws" by (auto simp: ws_def list_all_iff dest: set_takeWhileD)
  obtain neg s1 where sg: "c_sign (dropWhile isspace s) = (neg, s1)" by fastforce
  define ds where "ds = takeWhile is_digit s1"
  have ds: "ds \<noteq> []" using assms sg by (auto simp: strtol_def Let_def ds_def)
  have v: "v = word_of_int (if neg then - int (digits_value ds) else int (digits_value ds))"
    "digits_value ds < 2 ^ 63 \<or> neg \<and> digits_value ds = 2 ^ 63" "dropWhile is_digit s1 = []"
    using assms(1) sg ds by (auto simp: strtol_def Let_def ds_def [symmetric] split: if_splits)
  have "\<not> neg"
  proof
    assume neg
    with v(1) have "v = word_of_int (- int (digits_value ds))" by simp
    then have "sint v = - int (digits_value ds)" using v(2) sint_small [of "- int (digits_value ds)"] by auto
    with assms(2) show False by simp
  qed
  moreover from this obtain sgn where sgn: "dropWhile isspace s = sgn @ s1" "sgn \<in> {[], [43]}"
    using sg by (auto simp: c_sign_def split: list.splits if_splits)
  moreover have "ds = s1" using takeWhile_dropWhile_id [of is_digit s1] unfolding v(3) ds_def by (simp del: takeWhile_eq_all_conv)
  moreover have "list_all is_digit ds" by (auto simp: ds_def list_all_iff dest: set_takeWhileD)
  ultimately have "s = ws @ sgn @ ds" "list_all is_digit ds" "digits_value ds < 2 ^ 63" "v = word_of_nat (digits_value ds)"
    using s(1) v(1,2) by simp_all
  with s(2) sgn(2) ds show ?thesis unfolding count_text_def by blast
qed

lemma set_value_iff:
  "set_value limit s = Some v \<longleftrightarrow> (\<exists>n. count_text s n \<and> 0 < n \<and> n \<le> unat limit \<and> v = word_of_nat n)"
proof
  assume a: "set_value limit s = Some v"
  then obtain x where x: "strtol s = (x, False, [])" "0 < sint x" "sint x \<le> uint limit" "v = ucast x"
    by (auto simp: set_value_def split: prod.splits if_splits)
  from strtol_positive [OF x(1,2)] obtain n where n: "count_text s n" "n < 2 ^ 63" "x = word_of_nat n" by blast
  have "sint x = int n" using n sint_small [of "int n"] by simp
  moreover have "v = word_of_nat n" using x(4) n by (simp add: unsigned_of_nat take_bit_nat_eq_self)
  ultimately have "0 < n \<and> n \<le> unat limit \<and> v = word_of_nat n" using x(2,3) by (simp add: le_unat_uint)
  with n(1) show "\<exists>n. count_text s n \<and> 0 < n \<and> n \<le> unat limit \<and> v = word_of_nat n" by blast
next
  assume "\<exists>n. count_text s n \<and> 0 < n \<and> n \<le> unat limit \<and> v = word_of_nat n"
  then obtain n where n: "count_text s n" "0 < n" "n \<le> unat limit" "v = word_of_nat n" by blast
  have "n < 2 ^ 63" using n(3) unsigned_less [of limit, where 'a = nat] by simp
  moreover obtain ws sg ds where "s = ws @ sg @ ds" "list_all isspace ws" "sg \<in> {[], [43]}" "ds \<noteq> []" "list_all is_digit ds"
    "n = digits_value ds"
    using n(1) by (auto simp only: count_text_def)
  ultimately have "strtol s = (word_of_nat n, False, [])" using strtol_digits [of ws sg ds] by simp
  moreover have "sint (word_of_nat n :: 64 word) = int n" using \<open>n < 2 ^ 63\<close> sint_small [of "int n"] by simp
  moreover have "int n \<le> uint limit" using n(3) by (simp add: le_unat_uint)
  moreover have "ucast (word_of_nat n :: 64 word) = (word_of_nat n :: 32 word)"
    using \<open>n < 2 ^ 63\<close> by (simp add: unsigned_of_nat take_bit_nat_eq_self)
  ultimately show "set_value limit s = Some v"
    using n(2,4) by (simp add: set_value_def)
qed

section \<open>What the commands do\<close>

text \<open>The action of a command line other than \<open>get\<close>, in the terms of the events of a scenario\<close>

inductive tool_action :: "pystr list \<Rightarrow> action_spec \<Rightarrow> bool" where
  "tool_action [lit ''clear''] ClearAct"
| "tool_action [lit ''reconnect''] ClearAct"
| "tool_action [lit ''reset''] ResetAct"
| "tool_action [lit ''set'', lit ''none''] ClearAct"
| "tool_action [lit ''set'', lit ''disconnect''] DisconnectAct"
| "count_text s n \<Longrightarrow> 1 \<le> n \<Longrightarrow> n \<le> 1000000 \<Longrightarrow> tool_action [lit ''set'', lit ''eio'', s] (EioAct (int n))"
| "count_text s n \<Longrightarrow> 1 \<le> n \<Longrightarrow> n \<le> 10000 \<Longrightarrow> tool_action [lit ''set'', lit ''delay'', s] (DelayAct (int n))"
| "count_text s n \<Longrightarrow> 1 \<le> n \<Longrightarrow> n \<le> 4096 \<Longrightarrow> tool_action [lit ''set'', lit ''partial-read'', s] (PartialReadAct (int n))"

inductive_simps tool_action_simps [simp]:
  "tool_action [] a" "tool_action [x] a" "tool_action [x, y] a" "tool_action [x, y, z] a" "tool_action (x # y # z # z' # zs) a"

text \<open>The configuration that \<open>set\<close> sends for an action\<close>

fun action_config :: "action_spec \<Rightarrow> vdevlab_fault_config" where
  "action_config (EioAct n) = no_fault\<lparr>kf_type := VDEVLAB_FAULT_EIO, kf_repeat := word_of_int n\<rparr>"
| "action_config (DelayAct n) = no_fault\<lparr>kf_type := VDEVLAB_FAULT_DELAY, kf_delay_ms := word_of_int n\<rparr>"
| "action_config (PartialReadAct n) = no_fault\<lparr>kf_type := VDEVLAB_FAULT_PARTIAL_READ, kf_partial_read_bytes := word_of_int n\<rparr>"
| "action_config DisconnectAct = no_fault\<lparr>kf_type := VDEVLAB_FAULT_DISCONNECT\<rparr>"
| "action_config _ = no_fault"

lemma limits_unat:
  "unat VDEVLAB_MAX_FAULT_REPEAT = 1000000" "unat VDEVLAB_MAX_DELAY_MS = 10000" "unat VDEVLAB_MAX_PARTIAL_READ = 4096"
  by (simp_all add: fault_limits)

lemma kinds_distinct:
  "distinct [lit ''none'', lit ''eio'', lit ''disconnect'', lit ''delay'', lit ''partial-read'']"
  "distinct [lit ''get'', lit ''clear'', lit ''reconnect'', lit ''reset'', lit ''set'']"
  by (simp_all add: lit_def)

lemma range_or_config [simp]:
  "(case r of None \<Rightarrow> SetRange m | Some v \<Rightarrow> SetConfig (f v)) = SetConfig config \<longleftrightarrow> (\<exists>v. r = Some v \<and> config = f v)"
  by (cases r) auto

lemma set_request_config:
  "set_request_of rest = SetConfig config \<longleftrightarrow> (\<exists>a. tool_action (lit ''set'' # rest) a \<and> config = action_config a)"
proof (cases rest)
  case (Cons kind more)
  show ?thesis
  proof (cases more)
    case Nil
    with Cons kinds_distinct show ?thesis by (auto simp: set_request_of_def Let_def no_fault_def fault_types)
  next
    case (Cons s more')
    have "set_request_of [kind, s] = SetConfig config \<longleftrightarrow> (\<exists>a. tool_action [lit ''set'', kind, s] a \<and> config = action_config a)"
      using kinds_distinct(1) by (cases "kind \<in> {lit ''eio'', lit ''delay'', lit ''partial-read''}")
        (auto simp: set_request_of_def Let_def no_fault_def fault_types set_value_iff limits_unat Suc_le_eq intro: exI [of _ "_ (int _)"])
    with Cons \<open>rest = kind # more\<close> kinds_distinct show ?thesis
      by (cases more') (auto simp: set_request_of_def Let_def)
  qed
qed (use kinds_distinct in \<open>auto simp: set_request_of_def\<close>)

text \<open>The kernel accepts every configuration that the tool sends, and stores it as it is.\<close>

lemma action_config_accepted:
  assumes "tool_action args a"
  shows "normalise_config (action_config a) = Inr (action_config a)"
  using assms
proof cases
  case (6 s n)
  then show ?thesis
    using small_word [of "int n"] by (simp add: normalise_config_def no_fault_def fault_types fault_limits del: of_int_of_nat_eq)
next
  case (7 s n)
  then show ?thesis
    using small_word [of "int n"] by (simp add: normalise_config_def no_fault_def fault_types fault_limits del: of_int_of_nat_eq)
next
  case (8 s n)
  then show ?thesis
    using small_word [of "int n"] by (simp add: normalise_config_def no_fault_def fault_types fault_limits del: of_int_of_nat_eq)
qed (simp_all add: normalise_config_def no_fault_def fault_types)

lemma set_action_spec:
  assumes "tool_action (lit ''set'' # rest) a"
  shows "spec_action a d = Some (d\<lparr>kd_fault := action_config a\<rparr>)"
  using assms by (cases rule: tool_action.cases) (auto simp: lit_def)

section \<open>The tool on a device\<close>

text \<open>
  What the tool relies on: the device opens, \<open>ioctl\<close> reaches the kernel with the bytes of the structure and
  stores the bytes it copies out, and messages leave the device alone.
\<close>

locale control_device =
  fixes os :: "'w ctl_os" and order :: byteorder and dev :: "'w \<Rightarrow> vdevlab" and err :: "'w \<Rightarrow> pystr"
  assumes open_device: "tool_open os VDEVLAB_DEVICE O_RDWR w = (fd, w') \<Longrightarrow> 0 \<le> fd \<and> dev w' = dev w \<and> err w' = err w"
    and struct_call: "ioctl_struct os fd cmd config w = ((r, config'), w') \<Longrightarrow>
      vdevlab_ioctl order cmd (Some (config_bytes order config)) (dev w) = (Inr bs, d) \<Longrightarrow>
      0 \<le> r \<and> dev w' = d \<and> err w' = err w \<and> (bs = [] \<longrightarrow> config' = config) \<and>
      (\<forall>c. config_from_user order (Some bs) = Some c \<longrightarrow> config' = c)"
    and plain_call: "ioctl_plain os fd cmd w = (r, w') \<Longrightarrow> vdevlab_ioctl order cmd None (dev w) = (Inr bs, d) \<Longrightarrow>
      0 \<le> r \<and> dev w' = d \<and> err w' = err w"
    and message: "dev (tool_stderr os s w) = dev w \<and> err (tool_stderr os s w) = err w @ s"
    and close_device: "dev (tool_close os fd w) = dev w \<and> err (tool_close os fd w) = err w"
begin

lemma get_ok:
  assumes "tool_get os fd w = (ret, w', out)"
  shows "ret = 0 \<and> dev w' = dev w \<and> err w' = err w \<and> out = fault_line (kd_fault (dev w))"
proof -
  let ?c = "\<lparr>kf_type = 0, kf_repeat = 0, kf_delay_ms = 0, kf_partial_read_bytes = 0\<rparr>"
  obtain r c w1 where call: "ioctl_struct os fd KERNEL_IOC_GET_FAULT ?c w = ((r, c), w1)" by (metis prod.exhaust)
  have "vdevlab_ioctl order KERNEL_IOC_GET_FAULT (Some (config_bytes order ?c)) (dev w) =
      (Inr (config_bytes order (kd_fault (dev w))), dev w)"
    by (simp add: vdevlab_ioctl_def requests_distinct [symmetric])
  from struct_call [OF call this] have "0 \<le> r" "dev w1 = dev w" "err w1 = err w" "c = kd_fault (dev w)"
    by (simp_all add: config_roundtrip)
  with assms call show ?thesis by (simp add: tool_get_def)
qed

lemma set_ok:
  assumes "tool_set os prog fd rest w = (ret, w', out)" "tool_action (lit ''set'' # rest) a"
  shows "ret = 0 \<and> Some (dev w') = spec_action a (dev w) \<and> err w' = err w \<and> out = fault_line (kd_fault (dev w'))"
proof -
  let ?c = "action_config a"
  obtain r c w1 where call: "ioctl_struct os fd KERNEL_IOC_SET_FAULT ?c w = ((r, c), w1)" by (metis prod.exhaust)
  have "vdevlab_ioctl order KERNEL_IOC_SET_FAULT (Some (config_bytes order ?c)) (dev w) = (Inr [], (dev w)\<lparr>kd_fault := ?c\<rparr>)"
    using action_config_accepted [OF assms(2)] by (simp add: vdevlab_ioctl_def config_roundtrip)
  from struct_call [OF call this] have "0 \<le> r" "dev w1 = (dev w)\<lparr>kd_fault := ?c\<rparr>" "err w1 = err w" "c = ?c"
    by simp_all
  moreover have "set_request_of rest = SetConfig ?c" using assms(2) set_request_config by blast
  ultimately show ?thesis using assms(1) call set_action_spec [OF assms(2), of "dev w"] by (simp add: tool_set_def)
qed

lemma set_refused:
  assumes "tool_set os prog fd rest w = (ret, w', out)" "\<nexists>a. tool_action (lit ''set'' # rest) a"
  shows "ret = 1 \<and> dev w' = dev w \<and> err w' \<noteq> err w \<and> out = []"
proof (cases "set_request_of rest")
  case (SetRange m)
  then have "m \<noteq> []" by (auto simp: set_request_of_def Let_def split: list.splits if_splits option.splits)
  with SetRange assms(1) message show ?thesis by (auto simp: tool_set_def)
next
  case (SetConfig config)
  with assms(2) show ?thesis by (auto simp: set_request_config)
qed (use assms(1) message in \<open>auto simp: tool_set_def ctl_usage_def\<close>)

lemma plain_ok:
  assumes "tool_plain os prog fd rest cmd label m w = (ret, w', out)" "vdevlab_ioctl order cmd None (dev w) = (Inr bs, d)"
  shows "if rest = [] then ret = 0 \<and> dev w' = d \<and> err w' = err w \<and> out = m @ [10]
         else ret = 1 \<and> dev w' = dev w \<and> err w' \<noteq> err w \<and> out = []"
  using assms plain_call [OF _ assms(2)] message
  by (fastforce simp: tool_plain_def ctl_usage_def split: prod.splits if_splits)

text \<open>A command other than \<open>get\<close> carries out its action, or is refused and changes nothing.\<close>

definition carried_out :: "pystr list \<Rightarrow> 'w \<Rightarrow> int \<Rightarrow> 'w \<Rightarrow> pystr \<Rightarrow> bool" where
  "carried_out args w ret w' out \<longleftrightarrow>
     ret = 0 \<and> err w' = err w \<and> (\<exists>a. tool_action args a \<and> spec_action a (dev w) = Some (dev w')) \<and>
       (hd args = lit ''set'' \<longrightarrow> out = fault_line (kd_fault (dev w'))) \<or>
     ret = 1 \<and> (\<nexists>a. tool_action args a) \<and> dev w' = dev w \<and> err w' \<noteq> err w \<and> out = []"

lemma command_ok:
  assumes "tool_command os prog fd command rest w = (ret, w', out)" "command \<noteq> lit ''get''"
  shows "carried_out (command # rest) w ret w' out"
proof -
  consider (clear) "command = lit ''clear'' \<or> command = lit ''reconnect''" | (reset) "command = lit ''reset''"
    | (set) "command = lit ''set''" | (other) "command \<notin> {lit ''clear'', lit ''reconnect'', lit ''reset'', lit ''set''}"
    by blast
  then show ?thesis
  proof cases
    case clear
    have "vdevlab_ioctl order KERNEL_IOC_CLEAR_FAULT None (dev w) = (Inr [], (dev w)\<lparr>kd_fault := no_fault\<rparr>)"
      by (simp add: vdevlab_ioctl_def requests_distinct [symmetric] vdevlab_clear_fault_locked_def)
    from plain_ok [OF _ this] clear assms kinds_distinct show ?thesis
      by (cases rest) (auto simp: tool_command_def carried_out_def tool_action.simps)
  next
    case reset
    have "vdevlab_ioctl order KERNEL_IOC_RESET None (dev w) = (Inr [], vdevlab_init)"
      by (simp add: vdevlab_ioctl_def requests_distinct [symmetric] vdevlab_clear_fault_locked_def vdevlab_init_def)
    from plain_ok [OF _ this] reset assms kinds_distinct show ?thesis
      by (cases rest) (auto simp: tool_command_def carried_out_def tool_action.simps)
  next
    case set
    with assms kinds_distinct have t: "tool_set os prog fd rest w = (ret, w', out)" by (auto simp: tool_command_def)
    show ?thesis
    proof (cases "\<exists>a. tool_action (command # rest) a")
      case True
      then obtain a where a: "tool_action (lit ''set'' # rest) a" using set by auto
      from set_ok [OF t a] a set show ?thesis by (auto simp: carried_out_def)
    next
      case False
      with set_refused [OF t] set show ?thesis by (simp add: carried_out_def)
    qed
  next
    case other
    then have "\<nexists>a. tool_action (command # rest) a" by (auto elim: tool_action.cases)
    with other assms message show ?thesis by (auto simp: tool_command_def carried_out_def ctl_usage_def)
  qed
qed

lemma ctl_main_ok:
  assumes "ctl_main os prog args w = (ret, w', out)"
  shows "if args \<noteq> [] \<and> hd args = lit ''get''
    then ret = 0 \<and> dev w' = dev w \<and> err w' = err w \<and> out = fault_line (kd_fault (dev w))
    else carried_out args w ret w' out"
proof (cases args)
  case Nil
  with assms message show ?thesis by (auto simp: ctl_main_def carried_out_def ctl_usage_def)
next
  case (Cons command rest)
  obtain fd w1 where o1: "tool_open os VDEVLAB_DEVICE O_RDWR w = (fd, w1)" by fastforce
  note opened = open_device [OF o1]
  with assms Cons o1 obtain w2 where cmd: "tool_command os prog fd command rest w1 = (ret, w2, out)" and w': "w' = tool_close os fd w2"
    by (auto simp: ctl_main_def split: prod.splits)
  show ?thesis
  proof (cases "command = lit ''get''")
    case True
    with cmd get_ok [of fd w1 ret w2 out] opened Cons w' close_device show ?thesis by (simp add: tool_command_def)
  next
    case False
    from command_ok [OF cmd False] opened Cons False w' close_device show ?thesis by (simp add: carried_out_def)
  qed
qed

end

section \<open>The tool on the machine\<close>

text \<open>The machine of the runner, with the text on the error stream\<close>

definition control_os :: "byteorder \<Rightarrow> (machine \<times> pystr) ctl_os" where
  "control_os order =
     \<lparr>tool_open = (\<lambda>path flags w. (if path = VDEVLAB_DEVICE then 3 else - 1, w)),
      ioctl_struct = (\<lambda>fd cmd config (m, err).
        case vdevlab_ioctl order cmd (Some (config_bytes order config)) (mc_device m) of
          (Inl _, d) \<Rightarrow> ((- 1, config), m\<lparr>mc_device := d\<rparr>, err)
        | (Inr bs, d) \<Rightarrow>
            ((0, case config_from_user order (Some bs) of None \<Rightarrow> config | Some c \<Rightarrow> c), m\<lparr>mc_device := d\<rparr>, err)),
      ioctl_plain = (\<lambda>fd cmd (m, err).
        case vdevlab_ioctl order cmd None (mc_device m) of
          (Inl _, d) \<Rightarrow> (- 1, m\<lparr>mc_device := d\<rparr>, err)
        | (Inr _, d) \<Rightarrow> (0, m\<lparr>mc_device := d\<rparr>, err)),
      tool_perror = (\<lambda>label (m, err). (m, err @ label @ lit '': error'' @ [10])),
      tool_stderr = (\<lambda>s (m, err). (m, err @ s)),
      tool_close = (\<lambda>fd w. w)\<rparr>"

interpretation control: control_device "control_os order" order "\<lambda>w. mc_device (fst w)" snd for order
  by unfold_locales (auto simp: control_os_def config_from_user_def split: sum.splits prod.splits)

section \<open>Properties\<close>

text \<open>
  C17. The control tool on the device, for every command line: \<open>get\<close> prints the fault and changes nothing. Any
  other command returns 0 exactly when it is one of the documented forms with its number, white space
  and a plus sign allowed, within the limit of the kernel; then the device is as after the same event
  of a scenario, and after a \<open>set\<close> the printed line is the one that \<open>get\<close> prints next. Otherwise it returns 1
  with a message, prints nothing else and leaves the device as it was.
\<close>

theorem control_tool_exact:
  assumes "ctl_main (control_os order) prog args (m, err) = (ret, (m', err'), out)"
  shows "if args \<noteq> [] \<and> hd args = lit ''get'' then ret = 0 \<and> mc_device m' = mc_device m \<and> out = fault_line (kd_fault (mc_device m))
    else ret = 0 \<and> (\<exists>a. tool_action args a \<and> spec_action a (mc_device m) = Some (mc_device m')) \<and>
         (hd args = lit ''set'' \<longrightarrow>
            (\<exists>w. ctl_main (control_os order) prog [lit ''get''] (m', err') = (0, w, out))) \<or>
         ret = 1 \<and> (\<nexists>a. tool_action args a) \<and> mc_device m' = mc_device m \<and> err' \<noteq> err \<and> out = []"
proof -
  obtain w r o1 where get: "ctl_main (control_os order) prog [lit ''get''] (m', err') = (r, w, o1)" by (metis prod.exhaust)
  from control.ctl_main_ok [OF get] have "r = 0" "o1 = fault_line (kd_fault (mc_device m'))" by simp_all
  with control.ctl_main_ok [OF assms] get show ?thesis by (auto simp: control.carried_out_def)
qed

lemma padded_count: "tool_action [lit ''set'', lit ''eio'', lit '' +007''] (EioAct 7)"
proof -
  have "count_text (lit '' +007'') 7"
    unfolding count_text_def
    by (rule exI [of _ "lit '' ''"], rule exI [of _ "lit ''+''"], rule exI [of _ "lit ''007''"])
      (simp add: lit_def isspace_def is_digit_def digits_value_def)
  then show ?thesis by (auto simp: lit_def intro: exI [of _ 7])
qed

theorem control_tool_exact_witness:
  "\<exists>m' err' out. ctl_main (control_os LittleEndian) (lit ''ctl'') [lit ''set'', lit ''eio'', lit '' +007''] (demo_machine, []) =
     (0, (m', err'), out) \<and>
     (\<exists>w. ctl_main (control_os LittleEndian) (lit ''ctl'') [lit ''get''] (m', err') = (0, w, out))"
proof -
  obtain ret m' err' out where run:
    "ctl_main (control_os LittleEndian) (lit ''ctl'') [lit ''set'', lit ''eio'', lit '' +007''] (demo_machine, []) = (ret, (m', err'), out)"
    by (metis prod.exhaust)
  have "lit ''set'' \<noteq> lit ''get''" by (simp add: lit_def)
  then have "ret = 0 \<and> (\<exists>w. ctl_main (control_os LittleEndian) (lit ''ctl'') [lit ''get''] (m', err') = (0, w, out))"
    using control_tool_exact [OF run] padded_count unfolding list.sel by (simp only: if_False simp_thms list.distinct) blast
  with run show ?thesis by blast
qed

end
