(* ===== verification/Recovery_Scenario.thy ===== *)
theory Recovery_Scenario
  imports Monitor_Device Dispatch_Props Report_Props
begin

text \<open>
  The scenario \<open>src/examples/scenarios/recovery.yaml\<close> with the example monitor: the events of the scenario reach
  the device between any two system calls of the monitor, and the report on its log is a pass.
\<close>

section \<open>The monitor among the events\<close>

text \<open>
  The device, the events still to come in batches, one of which is carried out before each system call on the
  device, the time, and how far it advances at each reading of the clock
\<close>

record stage =
  sg_device :: vdevlab
  sg_plan :: "action_spec list list"
  sg_time :: int
  sg_delays :: "nat list"

definition carry :: "action_spec \<Rightarrow> vdevlab \<Rightarrow> vdevlab" where
  "carry a d = (case spec_action a d of None \<Rightarrow> d | Some d' \<Rightarrow> d')"

definition advance :: "stage \<Rightarrow> stage" where
  "advance w =
     (case sg_plan w of [] \<Rightarrow> w | b # bs \<Rightarrow> w\<lparr>sg_device := fold carry b (sg_device w), sg_plan := bs\<rparr>)"

definition tick :: "stage \<Rightarrow> stage" where
  "tick w = (case sg_delays w of [] \<Rightarrow> w | n # ns \<Rightarrow> w\<lparr>sg_time := sg_time w + int n, sg_delays := ns\<rparr>)"

definition stage_os :: "stage monitor_os" where
  "stage_os =
     \<lparr>clock_gettime = (\<lambda>w. let t = sg_time (tick w) in (Some (t div 1000, t mod 1000 * 1000000), tick w)),
      stop_requested = (\<lambda>w. (False, w)),
      poll_device = (\<lambda>_ w. (Inr (vdevlab_poll (sg_device (advance w)) AND EPOLL_MASK), advance w)),
      read_device = (\<lambda>count w.
        case vdevlab_read True False count (sg_device (advance w)) [] of
          Some (Inl e, d) \<Rightarrow> (Inl (uint (errno_code e)), (advance w)\<lparr>sg_device := d\<rparr>)
        | Some (Inr bs, d) \<Rightarrow> (Inr bs, (advance w)\<lparr>sg_device := d\<rparr>)
        | None \<Rightarrow> (Inl 11, advance w)),
      open_device = (\<lambda>path w. (path = lit ''/dev/vdevlab0'', w)),
      close_device = (\<lambda>w. w),
      perror = (\<lambda>_ w. w),
      put_stderr = (\<lambda>_ w. w)\<rparr>"

section \<open>The device through the scenario\<close>

definition reading :: "byte list" where
  "reading = [52, 50, 10]"

definition failing :: "nat \<Rightarrow> byte list \<Rightarrow> vdevlab" where
  "failing j bs = \<lparr>kd_fault = no_fault\<lparr>kf_type := VDEVLAB_FAULT_EIO, kf_repeat := of_nat j\<rparr>, kd_fifo = bs\<rparr>"

definition the_write :: action_spec where
  "the_write = WriteAct (lit ''42'' @ [10])"

text \<open>The device, the events still to come and the number of reads that have failed\<close>

inductive staged :: "vdevlab \<Rightarrow> action_spec list \<Rightarrow> nat \<Rightarrow> bool" where
  before_reset: "staged vdevlab_init [ResetAct, EioAct 3, the_write] 0"
| before_fault: "staged vdevlab_init [EioAct 3, the_write] 0"
| fault: "1 \<le> j \<Longrightarrow> j \<le> 3 \<Longrightarrow> staged (failing j []) [the_write] (3 - j)"
| fault_data: "1 \<le> j \<Longrightarrow> j \<le> 3 \<Longrightarrow> staged (failing j reading) [] (3 - j)"
| cleared: "staged vdevlab_init [the_write] 3"
| cleared_data: "staged (vdevlab_init\<lparr>kd_fifo := reading\<rparr>) [] 3"

lemma write_bytes: "utf8_encode (lit ''42'' @ [10]) = Inr reading"
  by (simp add: utf8_encode_def utf8_char_def lit_def reading_def is_surrogate_def)

lemma staged_step:
  assumes "staged d (a # as) r"
  shows "staged (carry a d) as r"
  using assms
proof cases
  case before_reset
  then show ?thesis using staged.before_fault by (simp add: carry_def)
next
  case before_fault
  then show ?thesis using staged.fault [of 3] by (simp add: carry_def failing_def vdevlab_init_def)
next
  case (fault j)
  then show ?thesis using staged.fault_data [of j]
    by (simp add: carry_def the_write_def write_bytes failing_def vdevlab_is_disconnected_def VDEVLAB_FIFO_SIZE_def reading_def)
next
  case cleared
  then show ?thesis using staged.cleared_data
    by (simp add: carry_def the_write_def write_bytes vdevlab_init_def no_fault_def vdevlab_is_disconnected_def VDEVLAB_FIFO_SIZE_def reading_def)
qed

lemma staged_batch: "staged d (b @ as) r \<Longrightarrow> staged (fold carry b d) as r"
  by (induction b arbitrary: d) (simp_all add: staged_step)

lemma staged_advance: "staged (sg_device w) (concat (sg_plan w)) r \<Longrightarrow> staged (sg_device (advance w)) (concat (sg_plan (advance w))) r"
  by (cases "sg_plan w") (simp_all add: advance_def staged_batch)

text \<open>What poll and read make of the device\<close>

definition ready :: "vdevlab \<Rightarrow> bool" where
  "ready d \<longleftrightarrow> kf_type (kd_fault d) = VDEVLAB_FAULT_EIO \<or> kd_fifo d \<noteq> []"

lemma staged_poll:
  assumes "staged d as r"
  shows "(vdevlab_poll d AND EPOLL_MASK) AND EPOLL_MASK = 0 \<longleftrightarrow> \<not> ready d"
  using assms
  by cases (simp_all add: ready_def vdevlab_poll_def vdevlab_init_def failing_def no_fault_def EPOLL_MASK_def poll_bits fault_types
      kfifo_is_full_def VDEVLAB_FIFO_SIZE_def reading_def)

lemma staged_not_ready: "staged d as r \<Longrightarrow> \<not> ready d \<Longrightarrow> as \<noteq> []"
  by (cases rule: staged.cases) (auto simp: ready_def failing_def vdevlab_init_def reading_def)

lemma carry_ready:
  assumes "staged d (a # as) r" "ready d"
  shows "ready (carry a d)"
  using assms
proof cases
  case (fault j)
  then show ?thesis
    by (simp add: ready_def carry_def the_write_def write_bytes failing_def vdevlab_is_disconnected_def VDEVLAB_FIFO_SIZE_def reading_def)
qed (auto simp: ready_def vdevlab_init_def no_fault_def)

lemma batch_ready: "staged d (b @ as) r \<Longrightarrow> ready d \<Longrightarrow> ready (fold carry b d)"
  by (induction b arbitrary: d) (simp_all add: staged_step carry_ready)

lemma advance_ready:
  "staged (sg_device w) (concat (sg_plan w)) r \<Longrightarrow> ready (sg_device w) \<Longrightarrow> ready (sg_device (advance w))"
  by (cases "sg_plan w") (simp_all add: advance_def batch_ready)

lemma failing_read:
  assumes "1 \<le> j" "j \<le> 3" "length bs \<le> 4096"
  shows "vdevlab_read True False 512 (failing j bs) [] = Some (Inl E_IO, if j = 1 then vdevlab_init\<lparr>kd_fifo := bs\<rparr> else failing (j - 1) bs)"
proof -
  have "j \<in> {1, 2, 3}" using assms(1,2) by auto
  moreover from this have "wf_device (failing j bs)"
    using assms(3) by (auto simp: failing_def wf_device_def wf_config_def no_fault_def fault_types fault_limits VDEVLAB_FIFO_SIZE_def)
  ultimately show ?thesis
    by (auto simp: read_cases failing_def vdevlab_is_disconnected_def vdevlab_clear_fault_locked_def vdevlab_init_def no_fault_def fault_types)
qed

lemma staged_read:
  assumes "staged d as r" "ready d"
  shows "r < 3 \<and> (\<exists>d'. vdevlab_read True False 512 d [] = Some (Inl E_IO, d') \<and> staged d' as (Suc r)) \<or>
    r = 3 \<and> as = [] \<and> vdevlab_read True False 512 d [] = Some (Inr reading, vdevlab_init)"
  using assms
proof cases
  case (fault j)
  then have "Suc r = 3 - (j - 1)" by simp
  with fault show ?thesis
    using failing_read [of j "[]"] staged.fault [of "j - 1"] staged.cleared
    by (cases "j = 1") (auto simp: vdevlab_init_def)
next
  case (fault_data j)
  then have "Suc r = 3 - (j - 1)" by simp
  with fault_data show ?thesis
    using failing_read [of j reading] staged.fault_data [of "j - 1"] staged.cleared_data
    by (cases "j = 1") (auto simp: vdevlab_init_def reading_def)
next
  case cleared_data
  have "wf_device (vdevlab_init\<lparr>kd_fifo := reading\<rparr>)" by (simp add: vdevlab_init_def wf_device_def reading_def VDEVLAB_FIFO_SIZE_def)
  with cleared_data show ?thesis
    by (simp add: read_cases vdevlab_is_disconnected_def vdevlab_init_def no_fault_def read_copy_def reading_def)
qed (auto simp: ready_def vdevlab_init_def no_fault_def)

section \<open>The log\<close>

text \<open>
  The events and their members that have been logged since the time \<open>T\<close>, and that the clock will not be
  more than a second ahead of it; the log has no letter F.
\<close>

definition log_state :: "int \<Rightarrow> stage console \<Rightarrow> (pystr \<times> pydict) list \<Rightarrow> bool" where
  "log_state T c tags \<longleftrightarrow>
     (\<exists>es. logged (snd c) es \<and> map snd es = tags \<and> (\<forall>e \<in> set es. T \<le> fst e \<and> fst e \<le> sg_time (fst c))) \<and>
     70 \<notin> set (snd c) \<and> T \<le> sg_time (fst c) \<and> sg_time (fst c) + int (sum_list (sg_delays (fst c))) \<le> T + 1000"

lemma log_state_world:
  "sg_time w' = sg_time w \<Longrightarrow> sg_delays w' = sg_delays w \<Longrightarrow> log_state T (w', out) tags \<longleftrightarrow> log_state T (w, out) tags"
  by (simp add: log_state_def)

lemma print_logged:
  assumes "log_state T c tags" "0 \<le> T" "T + 1000 < 2 ^ 63"
    and "\<And>t. 0 \<le> t \<Longrightarrow> c_int t \<Longrightarrow> says (t, tag) (line t) \<and> wf_entry (t, tag) \<and> 70 \<notin> set (line t)"
  shows "log_state T (print_log stage_os line c) (tags @ [tag])"
    and "sg_device (fst (print_log stage_os line c)) = sg_device (fst c)" and "sg_plan (fst (print_log stage_os line c)) = sg_plan (fst c)"
proof -
  obtain w out where c: "c = (w, out)" by fastforce
  define t where "t = sg_time (tick w)"
  have "t div 1000 * 1000 + t mod 1000 * 1000000 div 1000000 = t" by simp
  then have p: "print_log stage_os line c = (tick w, out @ line t)"
    by (simp add: print_log_def c monotonic_milliseconds_def stage_os_def Let_def t_def)
  have tick: "sg_time w \<le> t" "t + int (sum_list (sg_delays (tick w))) \<le> T + 1000" "sg_device (tick w) = sg_device w" "sg_plan (tick w) = sg_plan w"
    using assms(1) by (auto simp: t_def tick_def log_state_def c split: list.splits)
  obtain es where es: "logged out es" "map snd es = tags" "\<forall>e \<in> set es. T \<le> fst e \<and> fst e \<le> sg_time w" and T: "T \<le> sg_time w" "70 \<notin> set out"
    using assms(1) by (auto simp: log_state_def c)
  have "t \<le> T + 1000" using tick(2) by simp
  then have "0 \<le> t" "c_int t" using assms(2,3) T tick(1) by (simp_all add: c_int_def)
  note line = assms(4) [OF this]
  have "logged (out @ line t) (es @ [(t, tag)])"
    using logged_snoc [of out es "(t, tag)" "line t"] es line tick(1) by fastforce
  moreover have "\<forall>e \<in> set (es @ [(t, tag)]). T \<le> fst e \<and> fst e \<le> sg_time (tick w)"
    using es(3) tick(1) T by (auto simp: t_def)
  ultimately show "log_state T (print_log stage_os line c) (tags @ [tag])"
    unfolding p log_state_def using es(2) T tick(1,2) line by (auto simp: t_def intro!: exI [of _ "es @ [(t, tag)]"])
  show "sg_device (fst (print_log stage_os line c)) = sg_device (fst c)" "sg_plan (fst (print_log stage_os line c)) = sg_plan (fst c)"
    unfolding p using tick by (simp_all add: c)
qed

lemma no_F_int: "70 \<notin> set (str_int n)"
  using str_nat_digits [of "nat n"] str_nat_digits [of "nat (- n)"] by (auto simp: str_int_def is_digit_def)

lemma started_line:
  "0 \<le> t \<Longrightarrow> c_int t \<Longrightarrow> says (t, lit ''MONITOR_STARTED'', []) (simple_line (lit ''MONITOR_STARTED'') t) \<and>
     wf_entry (t, lit ''MONITOR_STARTED'', []) \<and> 70 \<notin> set (simple_line (lit ''MONITOR_STARTED'') t)"
  using simple_says [of t "lit ''MONITOR_STARTED''"] no_F_int [of t]
  by (simp add: entry_defs) (simp add: simple_line_def lit_def)

lemma retry_line_ok:
  "0 \<le> t \<Longrightarrow> c_int t \<Longrightarrow> says (t, lit ''READ_RETRY'', retry_fields r) (retry_line r t) \<and>
     wf_entry (t, lit ''READ_RETRY'', retry_fields r) \<and> 70 \<notin> set (retry_line r t)"
  using retry_says [of t r] no_F_int
  by (simp add: entry_defs retry_fields_def) (simp add: retry_line_def lit_def)

lemma recovery_line_ok:
  "0 \<le> t \<Longrightarrow> c_int t \<Longrightarrow> says (t, lit ''RECOVERY_SUCCESS'', recovery_fields r) (recovery_line r t) \<and>
     wf_entry (t, lit ''RECOVERY_SUCCESS'', recovery_fields r) \<and> 70 \<notin> set (recovery_line r t)"
  using recovery_says [of t r] no_F_int
  by (simp add: entry_defs recovery_fields_def) (simp add: recovery_line_def lit_def)

definition temperature_fields :: pydict where
  "temperature_fields = [(lit ''temperature_c'', fixed3_value (FFin 42))]"

lemma fixed3_reading: "fixed3_nat 42 = lit ''42.000''"
proof -
  have "rne 42000 = 42000" using rne_of_int [of 42000] by simp
  then show ?thesis by (simp add: fixed3_nat_def Let_def str_nat.simps lit_def)
qed

lemma temperature_line_ok:
  "0 \<le> t \<Longrightarrow> c_int t \<Longrightarrow> says (t, lit ''TEMPERATURE'', temperature_fields) (temperature_line (FFin 42) t) \<and>
     wf_entry (t, lit ''TEMPERATURE'', temperature_fields) \<and> 70 \<notin> set (temperature_line (FFin 42) t)"
  using temperature_says [of t "FFin 42"] no_F_int [of t]
  by (simp add: temperature_event_def THERMAL_WARNING_C_def temperature_fields_def entry_defs)
    (simp add: temperature_line_def THERMAL_WARNING_C_def fixed3_reading lit_def Let_def)

lemma strtod_reading: "strtod [52, 50] = (FFin 42, False, [])"
proof -
  have "rnd64 42 = 42" using rnd64_pos_fixed [of 42 0] by (simp add: pow2_def)
  moreover have "\<not> pow2 1024 \<le> 42"
  proof -
    have "(42 :: rat) < 2 ^ 6" by simp
    also have "\<dots> \<le> 2 ^ 1024" by (rule power_increasing) simp_all
    finally show ?thesis by (simp add: pow2_def)
  qed
  ultimately have "double_of False 42 = (FFin 42, False)" by (simp add: double_of_def Let_def)
  then show ?thesis
    by (simp add: strtod_def c_sign_def isspace_def strtod_number_def c_lower_def lit_def c_digits_def is_digit_def c_exponent_def
        digits_value_def pow10_def is_xdigit_def hex_value_def)
qed

text \<open>The line of the reading in an empty input buffer\<close>

lemma reading_buffer:
  assumes "length xs = 4096"
  shows "map unat (takeWhile (\<lambda>b. b \<noteq> 0) (xs[0 := 52, Suc 0 := 50, Suc (Suc 0) := (0 :: byte)])) = [52, 50]"
proof -
  obtain a b c ys where "xs = a # b # c # ys" using assms by (cases xs; cases "tl xs"; cases "tl (tl xs)") auto
  then show ?thesis by simp
qed

lemma consume_reading:
  assumes "length (ib_data inp) = 4096" "ib_length inp = 0"
  shows "\<exists>inp'. consume_input stage_os 1 reading inp 0 c = Some (True, inp', 1, log_temperature stage_os (FFin 42) c)"
  using assms reading_buffer [OF assms(1)]
  by (simp add: reading_def store_def MAX_PENDING_BYTES_def process_line_def c_string_def is_pad_def strtod_reading Let_def)

section \<open>Turns of the loop\<close>

definition tags :: "nat \<Rightarrow> (pystr \<times> pydict) list" where
  "tags r = (lit ''MONITOR_STARTED'', []) # map (\<lambda>i. (lit ''READ_RETRY'', retry_fields (of_nat i))) [1..<Suc r]"

definition final_tags :: "(pystr \<times> pydict) list" where
  "final_tags = tags 3 @ [(lit ''RECOVERY_SUCCESS'', recovery_fields 3), (lit ''TEMPERATURE'', temperature_fields)]"

text \<open>The log of a monitor that has ended\<close>

definition final_log :: "int \<Rightarrow> stage console \<Rightarrow> bool" where
  "final_log T c \<longleftrightarrow> log_state T c final_tags \<and> sublist (lit ''RECOVERY_SUCCESS'') (snd c)"

lemma print_out: "\<exists>t. snd (print_log stage_os line c) = snd c @ line t"
  by (cases c) (auto simp: print_log_def monotonic_milliseconds_def stage_os_def Let_def)

lemma recovery_out: "sublist (lit ''RECOVERY_SUCCESS'') (snd (log_temperature stage_os x (log_recovery stage_os r c)))"
proof -
  obtain t t' where "snd (log_temperature stage_os x (log_recovery stage_os r c)) = (snd c @ recovery_line r t) @ temperature_line x t'"
    using print_out [of "recovery_line r" c] print_out [of "temperature_line x" "log_recovery stage_os r c"]
    by (auto simp: log_recovery_def log_temperature_def)
  moreover have "recovery_line r t = (lit ''{\"timestamp_ms\":'' @ str_int t @ lit '',\"event\":\"'') @ lit ''RECOVERY_SUCCESS'' @
      (lit ''\",\"retries\":'' @ str_int (uint r) @ lit ''}'' @ [10])"
    by (simp add: recovery_line_def lit_def)
  then have "sublist (lit ''RECOVERY_SUCCESS'') (recovery_line r t)" by (metis sublist_appendI)
  ultimately show ?thesis by (auto intro: sublist_order.order_trans sublist_appendI)
qed

definition demo_options :: options where
  "demo_options = \<lparr>op_device = lit ''/dev/vdevlab0'', op_max_events = 1, op_poll_timeout_ms = 250\<rparr>"

definition at_stage :: "int \<Rightarrow> stage monitor \<Rightarrow> nat \<Rightarrow> bool" where
  "at_stage T m r \<longleftrightarrow>
     staged (sg_device (fst (mo_console m))) (concat (sg_plan (fst (mo_console m)))) r \<and> log_state T (mo_console m) (tags r) \<and>
     mo_eio_retries m = of_nat r \<and> mo_event_count m = 0 \<and> length (ib_data (mo_input m)) = 4096 \<and> ib_length (mo_input m) = 0"

definition turns_left :: "stage monitor \<Rightarrow> nat \<Rightarrow> nat" where
  "turns_left m r = length (sg_plan (fst (mo_console m))) + (3 - r)"

lemma advance_simps [simp]: "sg_time (advance w) = sg_time w" "sg_delays (advance w) = sg_delays w"
  by (simp_all add: advance_def split: list.splits)

lemma advance_plan: "length (sg_plan (advance w)) \<le> length (sg_plan w)" "concat (sg_plan w) \<noteq> [] \<Longrightarrow> length (sg_plan (advance w)) < length (sg_plan w)"
  by (auto simp: advance_def split: list.splits)

lemma poll_stage:
  "with_world (poll_device stage_os n) m =
     (Inr (vdevlab_poll (sg_device (advance (fst (mo_console m)))) AND EPOLL_MASK), m\<lparr>mo_console := (advance (fst (mo_console m)), snd (mo_console m))\<rparr>)"
  by (simp add: with_world_def stage_os_def)

lemma read_stage:
  assumes "vdevlab_read True False 512 (sg_device (advance (fst (mo_console m)))) [] = Some (r, d)"
  shows "with_world (read_device stage_os 512) m =
    (case r of Inl e \<Rightarrow> Inl (uint (errno_code e)) | Inr bs \<Rightarrow> Inr bs,
     m\<lparr>mo_console := ((advance (fst (mo_console m)))\<lparr>sg_device := d\<rparr>, snd (mo_console m))\<rparr>)"
  using assms by (cases r) (simp_all add: with_world_def stage_os_def)

lemma stage_eio:
  assumes "log_state T (mo_console m) (tags r)" "mo_eio_retries m = of_nat r" "r < 3" and T: "0 \<le> T" "T + 1000 < 2 ^ 63"
  shows "\<exists>m'. read_failed stage_os 5 m = (Running, m') \<and> log_state T (mo_console m') (tags (Suc r)) \<and> mo_eio_retries m' = of_nat (Suc r) \<and>
    mo_event_count m' = mo_event_count m \<and> mo_input m' = mo_input m \<and>
    sg_device (fst (mo_console m')) = sg_device (fst (mo_console m)) \<and> sg_plan (fst (mo_console m')) = sg_plan (fst (mo_console m))"
proof -
  let ?r = "of_nat (Suc r) :: 32 word"
  have r: "mo_eio_retries m + 1 = ?r" "\<not> MAX_EIO_RETRIES < ?r"
    using assms(2,3) by (auto simp: MAX_EIO_RETRIES_def less_Suc_eq numeral_3_eq_3)
  note p = print_logged [OF assms(1) T retry_line_ok, of ?r]
  have "tags (Suc r) = tags r @ [(lit ''READ_RETRY'', retry_fields ?r)]" by (simp add: tags_def)
  then show ?thesis using p r by (simp add: read_failed_def log_retry_def Let_def add.commute [of 1])
qed

lemma stage_data:
  assumes "log_state T (mo_console m) (tags 3)" "mo_eio_retries m = 3" "mo_event_count m = 0"
    "length (ib_data (mo_input m)) = 4096" "ib_length (mo_input m) = 0" and T: "0 \<le> T" "T + 1000 < 2 ^ 63"
  shows "\<exists>m'. read_done stage_os demo_options reading m = (Exited 0, m') \<and> final_log T (mo_console m') \<and>
    sg_device (fst (mo_console m')) = sg_device (fst (mo_console m))"
proof -
  define c1 where "c1 = log_recovery stage_os 3 (mo_console m)"
  note p = print_logged [OF assms(1) T recovery_line_ok, of 3, folded log_recovery_def, folded c1_def]
  note q = print_logged [OF p(1) T temperature_line_ok, folded log_temperature_def]
  obtain inp' where "consume_input stage_os 1 reading (mo_input m) 0 c1 = Some (True, inp', 1, log_temperature stage_os (FFin 42) c1)"
    using consume_reading assms(4,5) by blast
  then have "\<exists>m'. read_done stage_os demo_options reading m = (Exited 0, m') \<and> mo_console m' = log_temperature stage_os (FFin 42) c1"
    using assms(2,3) by (simp add: read_done_def demo_options_def Let_def c1_def) (simp add: reading_def)
  then show ?thesis using p(2) q recovery_out [of "FFin 42" 3 "mo_console m"] by (auto simp: final_tags_def final_log_def c1_def)
qed

lemma stage_turn:
  assumes at: "at_stage T m r" and T: "0 \<le> T" "T + 1000 < 2 ^ 63"
  obtains (goes) m' r' where "loop_body stage_os demo_options m = (Running, m')" "at_stage T m' r'" "turns_left m' r' < turns_left m r"
    | (ends) m' where "loop_body stage_os demo_options m = (Exited 0, m')" "final_log T (mo_console m')"
      "sg_device (fst (mo_console m')) = vdevlab_init"
proof -
  obtain w out where c: "mo_console m = (w, out)" by fastforce
  define w1 where "w1 = advance w"
  define m1 where "m1 = m\<lparr>mo_console := (w1, out)\<rparr>"
  have st: "staged (sg_device w1) (concat (sg_plan w1)) r" and log: "log_state T (w1, out) (tags r)"
    using at staged_advance log_state_world [of w1 w T out] by (simp_all add: at_stage_def c w1_def)
  have poll: "with_world (poll_device stage_os (op_poll_timeout_ms demo_options)) m = (Inr (vdevlab_poll (sg_device w1) AND EPOLL_MASK), m1)"
    by (simp add: poll_stage c w1_def m1_def)
  show thesis
  proof (cases "ready (sg_device w1)")
    case False
    then have "loop_body stage_os demo_options m = (Running, m1)"
      using staged_poll [OF st] by (simp add: loop_body_def poll)
    moreover have "at_stage T m1 r" using at st log by (simp add: at_stage_def m1_def c)
    moreover have "concat (sg_plan w) \<noteq> []" using staged_not_ready [OF st False] by (auto simp: w1_def advance_def split: list.splits)
    then have "turns_left m1 r < turns_left m r" using advance_plan(2) [of w] by (simp add: turns_left_def m1_def c w1_def)
    ultimately show thesis by (rule goes)
  next
    case True
    define w2 where "w2 = advance w1"
    have st2: "staged (sg_device w2) (concat (sg_plan w2)) r" and r2: "ready (sg_device w2)"
      using staged_advance [OF st] advance_ready [OF st True] by (simp_all add: w2_def)
    have body: "loop_body stage_os demo_options m =
        (case with_world (read_device stage_os 512) m1 of
           (Inl err, m2) \<Rightarrow> read_failed stage_os err m2 | (Inr bytes, m2) \<Rightarrow> read_done stage_os demo_options bytes m2)"
      using staged_poll [OF st] True by (simp add: loop_body_def poll)
    from staged_read [OF st2 r2] show thesis
    proof (elim disjE conjE exE)
      fix d assume "r < 3" and rd: "vdevlab_read True False 512 (sg_device w2) [] = Some (Inl E_IO, d)" and sd: "staged d (concat (sg_plan w2)) (Suc r)"
      define m2 where "m2 = m1\<lparr>mo_console := (w2\<lparr>sg_device := d\<rparr>, out)\<rparr>"
      have "log_state T (mo_console m2) (tags r)" "mo_eio_retries m2 = of_nat r"
        using at log log_state_world [of "w2\<lparr>sg_device := d\<rparr>" w1 T out] by (simp_all add: m2_def m1_def at_stage_def w2_def)
      from stage_eio [OF this \<open>r < 3\<close> T] obtain m' where m': "read_failed stage_os 5 m2 = (Running, m')" "log_state T (mo_console m') (tags (Suc r))"
        "mo_eio_retries m' = of_nat (Suc r)" "mo_event_count m' = mo_event_count m2" "mo_input m' = mo_input m2"
        "sg_device (fst (mo_console m')) = d" "sg_plan (fst (mo_console m')) = sg_plan w2"
        by (auto simp: m2_def)
      have "with_world (read_device stage_os 512) m1 = (Inl 5, m2)"
        using read_stage [of m1 "Inl E_IO" d] rd by (simp add: m1_def m2_def w2_def errno_code_def)
      then have "loop_body stage_os demo_options m = (Running, m')" using body m'(1) by simp
      moreover have "at_stage T m' (Suc r)" using m' sd at by (simp add: at_stage_def m2_def m1_def)
      moreover have "turns_left m' (Suc r) < turns_left m r"
        using \<open>r < 3\<close> m'(7) advance_plan(1) [of w] advance_plan(1) [of w1] by (simp add: turns_left_def c w1_def w2_def)
      ultimately show thesis by (rule goes)
    next
      assume "r = 3" and rd: "vdevlab_read True False 512 (sg_device w2) [] = Some (Inr reading, vdevlab_init)"
      define m2 where "m2 = m1\<lparr>mo_console := (w2\<lparr>sg_device := vdevlab_init\<rparr>, out)\<rparr>"
      have "log_state T (mo_console m2) (tags 3)" "mo_eio_retries m2 = 3" "mo_event_count m2 = 0"
        "length (ib_data (mo_input m2)) = 4096" "ib_length (mo_input m2) = 0"
        using at log log_state_world [of "w2\<lparr>sg_device := vdevlab_init\<rparr>" w1 T out] \<open>r = 3\<close>
        by (simp_all add: m2_def m1_def at_stage_def w2_def)
      from stage_data [OF this T] obtain m' where m': "read_done stage_os demo_options reading m2 = (Exited 0, m')"
        "final_log T (mo_console m')" "sg_device (fst (mo_console m')) = vdevlab_init"
        by (auto simp: m2_def)
      have "with_world (read_device stage_os 512) m1 = (Inr reading, m2)"
        using read_stage [of m1 "Inr reading" vdevlab_init] rd by (simp add: m1_def m2_def w2_def)
      then have "loop_body stage_os demo_options m = (Exited 0, m')" using body m'(1) by simp
      then show thesis using m'(2,3) by (rule ends)
    qed
  qed
qed

text \<open>The loop ends with 0 when it has as many turns as there are batches of events, and four more.\<close>

lemma stage_loop:
  assumes "at_stage T m r" "turns_left m r < n" and T: "0 \<le> T" "T + 1000 < 2 ^ 63"
  shows "\<exists>m'. monitor_loop n stage_os demo_options m = (Exited 0, m') \<and> final_log T (mo_console m') \<and>
    sg_device (fst (mo_console m')) = vdevlab_init"
  using assms(1,2)
proof (induction n arbitrary: m r)
  case (Suc n)
  have stop: "with_world (stop_requested stage_os) m = (False, m)" by (simp add: with_world_def stage_os_def)
  from Suc.prems(1) T show ?case
  proof (cases rule: stage_turn)
    case (goes m' r')
    with Suc.IH [of m' r'] Suc.prems(2) stop show ?thesis by simp
  next
    case (ends m')
    with stop show ?thesis by simp
  qed
qed simp

text \<open>The command line and the start\<close>

lemma demo_command: "parse_options (tl (ss_command recovery_spec)) = Parsed demo_options"
proof -
  have "parse_unsigned (lit ''1'') = Some 1" "parse_unsigned (lit ''250'') = Some 250"
    by (simp_all add: parse_unsigned_def strtoul_def isspace_def c_sign_def is_digit_def digits_value_def lit_def)
  then show ?thesis by (simp add: recovery_spec_def parse_options_def demo_options_def lit_def)
qed

lemma stage_main:
  assumes "concat plan = map snd (ss_events recovery_spec)" "sum_list delays \<le> 1000" "length plan + 4 \<le> n" "0 \<le> t" "t + 1000 < 2 ^ 63"
  shows "\<exists>w out. monitor_main n stage_os program (tl (ss_command recovery_spec))
      \<lparr>sg_device = vdevlab_init, sg_plan = plan, sg_time = t, sg_delays = delays\<rparr> = (Exited 0, w, out) \<and>
    final_log t (w, out) \<and> sg_device w = vdevlab_init"
proof -
  let ?w = "\<lparr>sg_device = vdevlab_init, sg_plan = plan, sg_time = t, sg_delays = delays\<rparr>"
  define m where "m = \<lparr>mo_console = log_simple stage_os (lit ''MONITOR_STARTED'') (?w, []),
    mo_input = \<lparr>ib_data = replicate MAX_PENDING_BYTES 0, ib_length = 0\<rparr>, mo_event_count = 0, mo_eio_retries = 0\<rparr>"
  have "log_state t (?w, []) []" using assms(2) by (simp add: log_state_def logged_def)
  note p = print_logged [OF this assms(4,5) started_line, folded log_simple_def]
  have "staged vdevlab_init (concat plan) 0"
    using staged.before_reset by (simp add: assms(1) recovery_spec_def the_write_def)
  then have "at_stage t m 0" using p by (simp add: at_stage_def m_def tags_def MAX_PENDING_BYTES_def)
  moreover have "turns_left m 0 < n" using p(3) assms(3) by (simp add: turns_left_def m_def)
  ultimately obtain m' where "monitor_loop n stage_os demo_options m = (Exited 0, m')" "final_log t (mo_console m')"
    "sg_device (fst (mo_console m')) = vdevlab_init"
    using stage_loop assms(4,5) by blast
  moreover have "open_device stage_os (op_device demo_options) ?w = (True, ?w)" "close_device stage_os v = v" for v
    by (simp_all add: stage_os_def demo_options_def)
  ultimately show ?thesis unfolding m_def by (cases "mo_console m'") (simp add: monitor_main_def demo_command)
qed

section \<open>The verdict\<close>

lemma final_tags_list:
  "final_tags = [(lit ''MONITOR_STARTED'', []), (lit ''READ_RETRY'', retry_fields 1), (lit ''READ_RETRY'', retry_fields 2),
     (lit ''READ_RETRY'', retry_fields 3), (lit ''RECOVERY_SUCCESS'', recovery_fields 3), (lit ''TEMPERATURE'', temperature_fields)]"
  by (simp add: final_tags_def tags_def upt_rec)

lemma final_log_analysis:
  assumes "final_log T (w, out)"
  shows "\<exists>events m. analyse_log out = Inr (events, m) \<and> latency_holds m (Some 1000) \<and>
    count_holds events (lit ''READ_RETRY'') 3 (Some 2000) \<and> count_holds events (lit ''RECOVERY_SUCCESS'') 1 (Some 3000) \<and>
    count_holds events (lit ''TEMPERATURE'') 1 (Some 3000)"
proof -
  obtain es where es: "logged out es" "map snd es = final_tags" "\<forall>e \<in> set es. T \<le> fst e \<and> fst e \<le> T + 1000"
    using assms by (fastforce simp: final_log_def log_state_def)
  obtain t0 t1 t2 t3 t4 t5 where l: "es = [(t0, lit ''MONITOR_STARTED'', []), (t1, lit ''READ_RETRY'', retry_fields 1),
      (t2, lit ''READ_RETRY'', retry_fields 2), (t3, lit ''READ_RETRY'', retry_fields 3),
      (t4, lit ''RECOVERY_SUCCESS'', recovery_fields 3), (t5, lit ''TEMPERATURE'', temperature_fields)]"
    using es(2) by (auto simp: final_tags_list)
  have t: "T \<le> t0" "T \<le> t1" "t1 \<le> T + 1000" "t2 \<le> T + 1000" "t3 \<le> T + 1000" "t4 \<le> T + 1000" "t5 \<le> T + 1000"
    using es(3) by (simp_all add: l)
  have "\<exists>m. calculate_recovery_metrics (entry_events 1 es) = Inr m \<and> latency_holds m (Some 1000)"
    using t by (simp add: l calculate_recovery_metrics_def entry_event_def metrics_step_def retry_step_def recovery_step_def
        metrics_init_def metrics_result_def or_else_def retry_fields_def recovery_fields_def require_nonnegative_integer_def
        latency_holds_def dget_def lit_def)
  moreover have "count_holds (entry_events 1 es) (lit ''READ_RETRY'') 3 (Some 2000)"
    "count_holds (entry_events 1 es) (lit ''RECOVERY_SUCCESS'') 1 (Some 3000)"
    "count_holds (entry_events 1 es) (lit ''TEMPERATURE'') 1 (Some 3000)"
    using t by (simp_all add: l count_holds_def entry_event_def lit_def)
  ultimately show ?thesis using logged_parses [OF es(1)] by (auto simp: analyse_log_def)
qed

lemma final_log_passes:
  assumes "final_log T (w, out)" "build_scenario_report ip (normal_form src recovery_spec) result = Inr rep"
    and result: "ar_stdout (sr_application result) = out" "ar_exit_code (sr_application result) = 0" "\<not> ar_timed_out (sr_application result)"
      "sr_kernel_log_available result" "sr_kernel_warnings result = []"
  shows "rp_status rep = PASS"
proof -
  obtain events m where a: "analyse_log out = Inr (events, m)" "latency_holds m (Some 1000)"
    "count_holds events (lit ''READ_RETRY'') 3 (Some 2000)" "count_holds events (lit ''RECOVERY_SUCCESS'') 1 (Some 3000)"
    "count_holds events (lit ''TEMPERATURE'') 1 (Some 3000)"
    using final_log_analysis [OF assms(1)] by blast
  have s: "sublist (lit ''RECOVERY_SUCCESS'') out" "70 \<notin> set out" using assms(1) by (simp_all add: final_log_def log_state_def)
  have f: "\<not> sublist (lit ''READ_FAILED'') out"
  proof
    assume "sublist (lit ''READ_FAILED'') out"
    from set_mono_sublist [OF this] s(2) show False by (simp add: lit_def)
  qed
  have "\<forall>x \<in> set (ss_assertions recovery_spec). assertion_holds result events m x"
    using a s(1) f result by (simp add: recovery_spec_def latency_holds_def)
  then show ?thesis using build_report_status [OF wf_recovery_spec assms(2)] a(1) result by simp
qed

text \<open>
  C16. The scenario \<open>recovery.yaml\<close> passes. Its events, in order, reach the freshly loaded device in any batches
  between the system calls of the monitor its command starts, with any delays of the clock up to a second in all:
  within four turns of the loop more than there are batches the monitor exits with 0, leaves the device as it was,
  and every report on a run with its output, no timeout and no kernel warning has the status \<open>PASS\<close>.
\<close>

theorem shipped_recovery_passes:
  assumes "concat plan = map snd (ss_events recovery_spec)" "sum_list delays \<le> 1000" "length plan + 4 \<le> n"
    and "0 \<le> t" "t + 1000 < 2 ^ 63"
  shows "\<exists>w out. monitor_main n stage_os program (tl (ss_command recovery_spec))
      \<lparr>sg_device = vdevlab_init, sg_plan = plan, sg_time = t, sg_delays = delays\<rparr> = (Exited 0, w, out) \<and>
    sg_device w = vdevlab_init \<and>
    (\<forall>ip src result rep. build_scenario_report ip (normal_form src recovery_spec) result = Inr rep \<longrightarrow>
       ar_stdout (sr_application result) = out \<longrightarrow> ar_exit_code (sr_application result) = 0 \<longrightarrow>
       \<not> ar_timed_out (sr_application result) \<longrightarrow> sr_kernel_log_available result \<longrightarrow> sr_kernel_warnings result = [] \<longrightarrow>
       rp_status rep = PASS)"
  using stage_main [OF assms, of program] final_log_passes [of t] by blast

theorem shipped_recovery_passes_witness:
  "\<exists>w out. monitor_main 7 stage_os (lit ''vtemp-monitor'') (tl (ss_command recovery_spec))
      \<lparr>sg_device = vdevlab_init, sg_plan = [[], [ResetAct, EioAct 3], [WriteAct (lit ''42'' @ [10])]], sg_time = 5000, sg_delays = [3, 0, 250]\<rparr>
      = (Exited 0, w, out) \<and> sg_device w = vdevlab_init \<and>
    (\<forall>ip src result rep. build_scenario_report ip (normal_form src recovery_spec) result = Inr rep \<longrightarrow>
       ar_stdout (sr_application result) = out \<longrightarrow> ar_exit_code (sr_application result) = 0 \<longrightarrow>
       \<not> ar_timed_out (sr_application result) \<longrightarrow> sr_kernel_log_available result \<longrightarrow> sr_kernel_warnings result = [] \<longrightarrow>
       rp_status rep = PASS)"
  by (rule shipped_recovery_passes) (simp_all add: recovery_spec_def)

end
