(* ===== verification/Spec2Isabelle.thy ===== *)
theory Spec2Isabelle
  imports Scenario_Props Analysis_Props Scheduler_Props Process_Props Runner_Props Report_Props Report_Json Report_Schema
    Junit Cli_Props Argparse_Exits Kernel_Solo Kernel_Fair Kernel_History Kernel_Module Monitor_Device Control_Tool
    Recovery_Scenario
begin

text \<open>
  VDevLab runs an application against a virtual Linux character device, injects faults into the device
  on a schedule, and judges the application from its log. This development models the Python package
  under \<open>src/src/vdevlab\<close> and the kernel module \<open>src/kernel/vdevlab_core.c\<close> it
  drives, its example application \<open>src/examples/vtemp_monitor.c\<close> and its control tool
  \<open>src/tools/vdevlab-ctl.c\<close>.

  \<^bold>\<open>The program.\<close> \<open>scenario.py\<close> validates a YAML document into a \<open>ScenarioDefinition\<close>. \<open>runner.py\<close> opens the
  device (\<open>LinuxDeviceBackend\<close>), starts the application (\<open>ApplicationProcess\<close>), dispatches the events at
  their times (\<open>ScenarioScheduler\<close>), collects the output under a time limit, resets and closes the
  device, and reads the kernel log (\<open>DmesgKernelLogCollector\<close>); \<open>ScenarioRunner.run\<close> composes these.
  \<open>analysis.py\<close> reads the application's JSON lines and evaluates the assertions; \<open>report.py\<close> builds the
  report and its status, \<open>junit.py\<close> its JUnit form, and \<open>cli.py\<close> turns all of it into two commands with
  report files and exit codes. The control tool sets the same faults by hand.

  \<^bold>\<open>Theories.\<close>
  \<^item> \<open>Py_Prelude\<close>: the values and exceptions of the interpreter, results as a sum type with \<open>rbind\<close>, effects
    as functions of a world (\<open>io\<close>), dictionaries in insertion order with lookups that raise \<open>KeyError\<close>,
    strings as lists of code points, the lemma collections of the development. \<open>Py_Float\<close>: binary64 arithmetic on rationals with
    round-to-even. \<open>Py_Text\<close>: UTF-8, \<open>splitlines\<close>, \<open>strip\<close>. \<open>Py_Json\<close>: \<open>json.loads\<close> down to characters.
    \<open>Py_Json_Limit\<close>: a text on which it meets the digit limit of the interpreter has such a number.
    \<open>Py_Repr\<close>: the shortest decimal of a float. \<open>Py_Json_Dump\<close>: \<open>json.dumps\<close>, and that \<open>json.loads\<close> reads
    back what it writes. \<open>Py_Xml\<close>: \<open>ElementTree\<close> with \<open>indent\<close> and \<open>tostring\<close>, and a reader of XML documents
    that gets back what was written.
  \<^item> \<open>Scenario\<close>: every function of \<open>scenario.py\<close>. \<open>Scenario_Spec\<close>: scenarios as data, their documents and
    normal forms. \<open>Scenario_Errors\<close>: what the format expects at each place of a document, and that every
    rejection blames a place where the document is not so. \<open>Scenario_Props\<close>: acceptance, soundness and
    errors.
  \<^item> \<open>Analysis\<close>, \<open>Analysis_Props\<close>: \<open>analysis.py\<close>; the parser and the metrics against declarative definitions.
  \<^item> \<open>Device_Backend\<close>: request numbers, packed structure and \<open>LinuxDeviceBackend\<close>. \<open>Kernel_Device\<close>,
    \<open>Kernel_Props\<close>: the device of the kernel module as a state machine on 32-bit words.
  \<^item> \<open>Kernel_Tasks\<close>: the same file operations with any number of tasks inside them; each critical section,
    each check of a wait condition and each wake-up is a step, signals arrive and user memory faults.
    \<open>Kernel_Solo\<close>: undisturbed calls give the results of \<open>Kernel_Device\<close>, and the return values of memory
    faults. \<open>Kernel_Fair\<close>: no wake-up is lost, so that calls return under a fair scheduler.
    \<open>Kernel_History\<close>: the return values of every interleaving are a run of one sequential queue. \<open>Kernel_Module\<close>: load with its
    error labels, and unload.
  \<^item> \<open>Monitor\<close>: the example application \<open>src/examples/vtemp_monitor.c\<close>, with the functions of the C library it
    calls. \<open>Monitor_Log\<close>: its lines are JSON the log parser accepts. \<open>Monitor_Props\<close>: the input buffer and the
    log under any device. \<open>Monitor_Device\<close>: the monitor on the modelled device, its retries as the recovery
    metrics measure them.
  \<^item> \<open>Scheduler\<close>, \<open>Process\<close>, \<open>Kernel_Log\<close>, \<open>Runner\<close>: the other classes of \<open>runner.py\<close>. \<open>Machine\<close>: a machine
    with the modelled device, a reader of it that wakes writes asleep on a full buffer, a clock and a child
    process, on which the interfaces are interpreted.
    \<open>Dispatch_Props\<close>, \<open>Scheduler_Props\<close>, \<open>Process_Props\<close>, \<open>Runner_Props\<close>: their properties.
  \<^item> \<open>Report\<close>, \<open>Report_Props\<close>: \<open>report.py\<close>; verdict, totality and the order of the timeline. \<open>Report_Schema\<close>:
    the keys and types of a report document. \<open>Report_Json\<close>: every report can be written as JSON and read
    back.
  \<^item> \<open>Junit\<close>: \<open>junit.py\<close>; counters, details of a failure, well-formed XML.
  \<^item> \<open>Cli\<close>, \<open>Cli_Props\<close>: the two commands of \<open>cli.py\<close>; what the exit codes and the report files mean, from
    the scenario file to the assertions. \<open>Argparse\<close>: the parser of \<open>cli.py\<close> and \<open>parse_args\<close> of the standard
    library for it, as in CPython 3.11. \<open>Argparse_Props\<close>: the meaning of a command line. \<open>Argparse_Exits\<close>: every
    way in which the program ends.
  \<^item> \<open>Control_Tool\<close>: the whole of \<open>src/tools/vdevlab-ctl.c\<close>, and that on the modelled device it does what the
    events of a scenario do.
  \<^item> \<open>Recovery_Scenario\<close>: \<open>src/examples/scenarios/recovery.yaml\<close> from the monitor and the device to the verdict,
    whatever system calls of the monitor its events fall between.

  \<^bold>\<open>Interfaces.\<close> Where a component relies on another, its assumptions are a locale, interpreted on the
  model: \<open>field_check\<close> for the checks of the parser, \<open>rounding\<close> for the float operations, \<open>state_machine\<close> for the device and for its tasks,
  \<open>interleaving\<close> for the fairness of their scheduler, \<open>device_file\<close> and \<open>signalled_file\<close> for the file under the
  backend, \<open>event_target\<close> for what the scheduler drives, \<open>monotonic_time\<close> for its clock, \<open>child_process\<close>
  for the application, \<open>open_session\<close> and \<open>device_session\<close> for the runner with and without failures of the
  application's own operations, \<open>monitor_env\<close> for the monitor, \<open>control_device\<close> for
  the control tool, \<open>report_store\<close> for the files of the commands, and \<open>loop_invariant\<close> for what holds through the
  loop of the command-line parser, interpreted once for the origin of its exits and once for each parser.

  \<^bold>\<open>Bounds and fuel.\<close> The JSON scanner runs on fuel of twice the length of the text plus two, which is shown to
  be enough for every text; the XML reader runs on the length of the text, enough for every serialized
  tree. The write loop of the backend has one unit of fuel per system call; one
  for each byte and each interruption is enough. Bounds on dispatch times are for clocks below
  \<open>2 ^ 30\<close> seconds. The loop of the monitor runs for a given number of turns,
  for every such number, since it may run for ever; four more turns than there are batches of events are enough
  for \<open>recovery.yaml\<close>. All other loops are structural.

  \<^bold>\<open>Parameters.\<close> The YAML loader, the files, the streams and \<open>glob\<close>, system calls, \<open>Popen\<close>, the collector thread and
  \<open>dmesg\<close> are operations of an arbitrary world; the registration functions
  of the kernel are the fields of \<open>kernel_api\<close>; \<open>str\<close> of a value that is not a string, \<open>int\<close> of a string and
  the upper case of non-ASCII characters are fields of \<open>interpreter\<close>; the decimal digits of Unicode are an
  argument of the command-line parser.

  \<^bold>\<open>Not modelled.\<close> \<open>RecursionError\<close> on deeply nested JSON; signals between two statements of Python code;
  texts of interpreter exceptions beyond a representative one; the texts of help, usage and errors that
  \<open>argparse\<close> prints (that something is printed is a parameter of \<open>main_argv\<close>); the re-exports and the version
  string of \<open>__init__.py\<close>, which have no behaviour; the tests and the shell scripts.
\<close>

end
